(* ===== verification/Prelude.thy ===== *)
theory Prelude
  imports Main "HOL-Library.Word" "HOL-Library.Log_Nat"
begin

text \<open>
  Shared vocabulary of the development: the machine-integer types of the C++ sources, the
  collections of rewrite rules the component theories extend, the C++ standard library's
  \<open>std::clamp\<close> with its contract stated once for every ordered type, little-endian byte
  encodings of words, and a few generic facts on lists.
\<close>

unbundle bit_operations_syntax

type_synonym u8 = "8 word"
type_synonym u16 = "16 word"
type_synonym u32 = "32 word"
type_synonym u64 = "64 word"

named_theorems float_eval "equations that evaluate binary32 arithmetic on closed terms"
named_theorems wire_size "sizes of the packed structures"
named_theorems arm_frame "operations that leave the arming state and the motor command alone"

section \<open>The clamp of the C++ standard library\<close>

text \<open>
  \<open>std::clamp(v, lo, hi)\<close> is a template over the element type's \<open>operator<\<close>; the
  comparison is therefore an argument. Its contract only needs the comparison to behave on the
  values that are ordered at all: binary32 NaNs are not.
\<close>

definition std_clamp :: "('a \<Rightarrow> 'a \<Rightarrow> bool) \<Rightarrow> 'a \<Rightarrow> 'a \<Rightarrow> 'a \<Rightarrow> 'a" where
  "std_clamp lt v lo hi = (if lt v lo then lo else if lt hi v then hi else v)"

locale clamp_order =
  fixes lt :: "'a \<Rightarrow> 'a \<Rightarrow> bool"
    and le :: "'a \<Rightarrow> 'a \<Rightarrow> bool"
    and ordered :: "'a \<Rightarrow> bool"
  assumes lt_imp_le: "\<lbrakk>ordered x; ordered y; lt x y\<rbrakk> \<Longrightarrow> le x y"
    and not_lt_imp_le: "\<lbrakk>ordered x; ordered y; \<not> lt x y\<rbrakk> \<Longrightarrow> le y x"
    and le_refl: "ordered x \<Longrightarrow> le x x"
    and le_not_lt: "\<lbrakk>ordered x; ordered y; le x y\<rbrakk> \<Longrightarrow> \<not> lt y x"
    and unordered_not_lt: "\<not> ordered x \<or> \<not> ordered y \<Longrightarrow> \<not> lt x y"
begin

lemma clamp_ordered:
  "\<lbrakk>ordered v; ordered lo; ordered hi\<rbrakk> \<Longrightarrow> ordered (std_clamp lt v lo hi)"
  by (simp add: std_clamp_def)

lemma clamp_lower:
  "\<lbrakk>ordered v; ordered lo; ordered hi; le lo hi\<rbrakk> \<Longrightarrow> le lo (std_clamp lt v lo hi)"
  by (auto simp: std_clamp_def intro: le_refl not_lt_imp_le)

lemma clamp_upper:
  "\<lbrakk>ordered v; ordered lo; ordered hi; le lo hi\<rbrakk> \<Longrightarrow> le (std_clamp lt v lo hi) hi"
  by (auto simp: std_clamp_def intro: le_refl not_lt_imp_le lt_imp_le)

lemma clamp_inside:
  "\<lbrakk>ordered v; ordered lo; ordered hi; le lo v; le v hi\<rbrakk> \<Longrightarrow> std_clamp lt v lo hi = v"
  by (simp add: std_clamp_def le_not_lt)

lemma clamp_unordered: "\<not> ordered v \<Longrightarrow> std_clamp lt v lo hi = v"
  by (simp add: std_clamp_def unordered_not_lt)

end

interpretation word_clamp: clamp_order "(<) :: 'a::len word \<Rightarrow> 'a word \<Rightarrow> bool" "(\<le>)" "\<lambda>_. True"
  by unfold_locales auto

interpretation int_clamp: clamp_order "(<) :: int \<Rightarrow> int \<Rightarrow> bool" "(\<le>)" "\<lambda>_. True"
  by unfold_locales auto

section \<open>Reading words as numbers\<close>

lemma unat_ucast_mod: "unat (ucast (w :: 'a::len word) :: 'b::len word) = unat w mod 2 ^ LENGTH('b)"
  by (simp add: unsigned_ucast_eq take_bit_eq_mod)

lemma unat_ucast_up:
  assumes "LENGTH('a) \<le> LENGTH('b)"
  shows "unat (ucast (w :: 'a::len word) :: 'b::len word) = unat w"
proof -
  have "unat w < 2 ^ LENGTH('a)" by (rule unsigned_less)
  also have "\<dots> \<le> 2 ^ LENGTH('b)" using assms by (intro power_increasing) auto
  finally show ?thesis by (simp add: unat_ucast_mod)
qed

section \<open>Little-endian bytes\<close>

text \<open>Both cores are little-endian RISC-V; packed structures have no padding.\<close>

definition byte_at :: "nat \<Rightarrow> 'a::len word \<Rightarrow> u8" where
  "byte_at i w = ucast (drop_bit (8 * i) w)"

definition le16 :: "u16 \<Rightarrow> u8 list" where
  "le16 w = map (\<lambda>i. byte_at i w) [0, 1]"

definition le32 :: "u32 \<Rightarrow> u8 list" where
  "le32 w = map (\<lambda>i. byte_at i w) [0, 1, 2, 3]"

definition le64 :: "u64 \<Rightarrow> u8 list" where
  "le64 w = map (\<lambda>i. byte_at i w) [0, 1, 2, 3, 4, 5, 6, 7]"

lemma length_le [wire_size, simp]:
  "length (le16 a) = 2" "length (le32 b) = 4" "length (le64 c) = 8"
  by (simp_all add: le16_def le32_def le64_def)

text \<open>The 16-bit value of two bytes, low byte first, and back.\<close>

definition u16_of_bytes :: "u8 \<Rightarrow> u8 \<Rightarrow> u16" where
  "u16_of_bytes lo hi = ucast lo OR push_bit 8 (ucast hi)"

lemma bit_byte_at: "bit (byte_at i w) n \<longleftrightarrow> n < 8 \<and> bit (w :: 'a::len word) (8 * i + n)"
  by (auto simp: byte_at_def bit_ucast_iff bit_drop_bit_eq)

lemma byte_at_inj:
  assumes "\<And>i. 8 * i < LENGTH('a) \<Longrightarrow> byte_at i v = byte_at i w"
  shows "v = (w :: 'a::len word)"
proof (rule bit_word_eqI)
  fix n
  assume n: "n < LENGTH('a)"
  have *: "byte_at (n div 8) v = byte_at (n div 8) w"
    by (rule assms) (use n in linarith)
  have "bit (byte_at (n div 8) v) (n mod 8) = bit (byte_at (n div 8) w) (n mod 8)"
    by (simp add: *)
  then show "bit v n \<longleftrightarrow> bit w n"
    by (simp add: bit_byte_at)
qed

lemma le16_inj: "le16 a = le16 b \<longleftrightarrow> a = b"
proof
  assume eq: "le16 a = le16 b"
  show "a = b"
  proof (rule byte_at_inj)
    fix i assume "8 * i < LENGTH(16)"
    then have "i = 0 \<or> i = 1" by auto
    with eq show "byte_at i a = byte_at i b" by (auto simp: le16_def)
  qed
qed simp

lemma le32_inj: "le32 a = le32 b \<longleftrightarrow> a = b"
proof
  assume eq: "le32 a = le32 b"
  show "a = b"
  proof (rule byte_at_inj)
    fix i assume "8 * i < LENGTH(32)"
    then have "i = 0 \<or> i = 1 \<or> i = 2 \<or> i = 3" by auto
    with eq show "byte_at i a = byte_at i b" by (auto simp: le32_def)
  qed
qed simp

lemma le64_inj: "le64 a = le64 b \<longleftrightarrow> a = b"
proof
  assume eq: "le64 a = le64 b"
  show "a = b"
  proof (rule byte_at_inj)
    fix i assume "8 * i < LENGTH(64)"
    then have "i = 0 \<or> i = 1 \<or> i = 2 \<or> i = 3 \<or> i = 4 \<or> i = 5 \<or> i = 6 \<or> i = 7" by auto
    with eq show "byte_at i a = byte_at i b" by (auto simp: le64_def)
  qed
qed simp

lemma u16_of_le16: "u16_of_bytes (byte_at 0 w) (byte_at (Suc 0) w) = w"
  by (rule bit_word_eqI)
    (auto simp: u16_of_bytes_def bit_or_iff bit_push_bit_iff bit_ucast_iff bit_byte_at)

section \<open>Lists\<close>

lemma length4_conv: "length xs = 4 \<longleftrightarrow> (\<exists>a b c d. xs = [a, b, c, d])"
  by (simp add: eval_nat_numeral length_Suc_conv) blast

lemma all_less_4: "(\<forall>i < (4::nat). P i) \<longleftrightarrow> P 0 \<and> P 1 \<and> P 2 \<and> P 3"
  by (auto simp: eval_nat_numeral less_Suc_eq)

lemma take_append_same_length:
  "length a = length c \<Longrightarrow> a @ b = c @ d \<longleftrightarrow> a = c \<and> b = d"
  by simp

end
