(* ===== verification/Float32.thy ===== *)
theory Float32
  imports Prelude
begin

text \<open>
  IEEE-754 binary32, the \<open>float\<close> of the C++ sources, as bit patterns with exact integer
  semantics. Every finite binary32 value is an integer multiple of \<open>2^-149\<close>; \<open>fval\<close> is that
  integer, so sums, products, quotients and comparisons are computed exactly and rounded once,
  to nearest with ties to even, which is what the hardware does. The decoding formula gives an
  infinity the value \<open>2^128\<close>, the number just above the finite ones, so comparisons need no
  special case for it. An invalid operation returns the canonical quiet NaN, as RISC-V does.
  No operation is contracted: each source operator is one rounding.

  The two lemmas \<open>fround_ge\<close> and \<open>fround_le\<close> carry the bounds proofs of the component theories:
  rounding never crosses a representable number.
\<close>

section \<open>Bit patterns\<close>

datatype f32 = F32 (fbits: u32)

definition inf_mag :: nat where
  "inf_mag = 2139095040"

definition fsign :: "f32 \<Rightarrow> bool" where
  "fsign x \<longleftrightarrow> 2 ^ 31 \<le> unat (fbits x)"

definition fmag :: "f32 \<Rightarrow> nat" where
  "fmag x = unat (fbits x) mod 2 ^ 31"

definition fmk :: "bool \<Rightarrow> nat \<Rightarrow> f32" where
  "fmk s m = F32 (word_of_nat (if s then 2 ^ 31 + m else m))"

definition fis_nan :: "f32 \<Rightarrow> bool" where
  "fis_nan x \<longleftrightarrow> inf_mag < fmag x"

definition fis_inf :: "f32 \<Rightarrow> bool" where
  "fis_inf x \<longleftrightarrow> fmag x = inf_mag"

definition fis_fin :: "f32 \<Rightarrow> bool" where
  "fis_fin x \<longleftrightarrow> fmag x < inf_mag"

definition fnan :: f32 where
  "fnan = F32 2143289344"

definition finf :: "bool \<Rightarrow> f32" where
  "finf s = fmk s inf_mag"

definition kmag :: "nat \<Rightarrow> nat" where
  "kmag b = (if b div 2 ^ 23 = 0 then b else (2 ^ 23 + b mod 2 ^ 23) * 2 ^ (b div 2 ^ 23 - 1))"

definition fval :: "f32 \<Rightarrow> int" where
  "fval x = (if fsign x then - int (kmag (fmag x)) else int (kmag (fmag x)))"

lemma fmk_sign: "m < 2 ^ 31 \<Longrightarrow> fsign (fmk s m) = s"
  by (simp add: fmk_def fsign_def unat_of_nat)

lemma fmk_mag: "m < 2 ^ 31 \<Longrightarrow> fmag (fmk s m) = m"
  by (simp add: fmk_def fmag_def unat_of_nat)

lemma fmag_less: "fmag x < 2 ^ 31"
  by (simp add: fmag_def)

lemma fmk_fsign_fmag: "fmk (fsign x) (fmag x) = x"
proof (cases x)
  case (F32 w)
  have "unat w < 2 ^ 32" using unsigned_less [of w] by simp
  then have "(if fsign x then 2 ^ 31 + fmag x else fmag x) = unat w"
    by (auto simp: F32 fsign_def fmag_def le_mod_geq)
  then show ?thesis by (simp only: fmk_def) (simp add: F32)
qed

section \<open>The magnitude scale\<close>

lemma kmag_split:
  obtains (sub) "b < 2 ^ 24" "kmag b = b" |
    (norm) e m where "0 < e" "2 ^ 23 \<le> m" "m < 2 ^ 24" "b = e * 2 ^ 23 + m" "kmag b = m * 2 ^ e"
proof (cases "b < 2 ^ 24")
  case True
  then have "kmag b = b"
    by (cases "b < 2 ^ 23") (auto simp: kmag_def div_if mod_if)
  then show thesis using sub True by blast
next
  case False
  define e where "e = b div 2 ^ 23 - 1"
  define m where "m = 2 ^ 23 + b mod 2 ^ 23"
  have "2 \<le> b div 2 ^ 23" using False by (simp add: less_eq_div_iff_mult_less_eq)
  then have e: "0 < e" "b div 2 ^ 23 = e + 1" by (auto simp: e_def)
  have "b = b div 2 ^ 23 * 2 ^ 23 + b mod 2 ^ 23" by (rule div_mult_mod_eq [symmetric])
  then have b: "b = e * 2 ^ 23 + m" unfolding e(2) m_def by simp
  have "kmag b = m * 2 ^ e" using e by (simp add: kmag_def m_def)
  moreover have "2 ^ 23 \<le> m" "m < 2 ^ 24" by (simp_all add: m_def)
  ultimately show thesis using norm e(1) b by blast
qed

text \<open>
  Every pattern is \<open>e * 2^23 + m\<close> with value \<open>m * 2^e\<close>, the mantissa full when the exponent is
  positive: subnormals and the first binade share \<open>e = 0\<close>.
\<close>

lemma kmag_pattern:
  obtains e m where "b = e * 2 ^ 23 + m" "kmag b = m * 2 ^ e" "m < 2 ^ 24" "0 < e \<longrightarrow> 2 ^ 23 \<le> m"
  by (cases b rule: kmag_split) (metis mult_0 add_0 power_0 mult.right_neutral less_irrefl, metis)

lemma kmag_zero [simp]: "kmag 0 = 0"
  by (simp add: kmag_def)

lemma kmag_eq_zero: "kmag b = 0 \<longleftrightarrow> b = 0"
  by (cases b rule: kmag_split) auto

section \<open>Rounding to nearest, ties to even\<close>

text \<open>\<open>rne n d\<close> is \<open>n / d\<close> rounded to an integer; \<open>rexp q\<close> is how many bits exceed 24.\<close>

definition rne :: "nat \<Rightarrow> nat \<Rightarrow> nat" where
  "rne n d = (let q = n div d; r = n mod d in
     if 2 * r < d then q else if d < 2 * r then Suc q else if even q then q else Suc q)"

definition rexp :: "nat \<Rightarrow> nat" where
  "rexp q = (if q < 2 ^ 24 then 0 else floorlog 2 q - 24)"

definition round_mag :: "nat \<Rightarrow> nat \<Rightarrow> nat" where
  "round_mag n d = (let e = rexp (n div d) in min (e * 2 ^ 23 + rne n (d * 2 ^ e)) inf_mag)"

text \<open>\<open>fround s n d\<close> is \<open>n / d\<close>, in units of \<open>2^-149\<close>; \<open>s\<close> is the sign of an exact zero.\<close>

definition fround :: "bool \<Rightarrow> int \<Rightarrow> nat \<Rightarrow> f32" where
  "fround s n d = (if n = 0 then fmk s 0 else fmk (n < 0) (round_mag (nat \<bar>n\<bar>) d))"

lemma rne_ge: "\<lbrakk>0 < d; k * d \<le> n\<rbrakk> \<Longrightarrow> k \<le> rne n d"
proof -
  assume "0 < d" "k * d \<le> n"
  then have "k \<le> n div d" by (simp add: less_eq_div_iff_mult_less_eq)
  then show ?thesis by (simp add: rne_def Let_def)
qed

lemma rne_le:
  assumes d: "0 < d" and n: "n \<le> k * d"
  shows "rne n d \<le> k"
proof (cases "n div d < k")
  case True
  then show ?thesis by (simp add: rne_def Let_def)
next
  case False
  have "n div d \<le> k" using div_le_mono [OF n, of d] d by simp
  with False have q: "n div d = k" by simp
  have "n = k * d + n mod d" using q by (metis div_mult_mod_eq)
  with n have "n mod d = 0" by simp
  then show ?thesis using q d by (simp add: rne_def Let_def)
qed

lemma rexp_upper: "q < 2 ^ (24 + rexp q)"
proof (cases "q < 2 ^ 24")
  case False
  then have q: "0 < q" "2 ^ 24 \<le> q" by (auto intro: gr0I)
  have fl: "2 ^ (floorlog 2 q - 1) \<le> q" "q < 2 ^ floorlog 2 q"
    using floorlog_bounds [of q 2] q by auto
  have "(2::nat) ^ 24 < 2 ^ floorlog 2 q" using q(2) fl(2) by simp
  then have "24 < floorlog 2 q" by (simp only: power_strict_increasing_iff [of 2])
  then show ?thesis using False fl(2) by (simp add: rexp_def)
qed (simp add: rexp_def)

lemma rexp_lower: "0 < rexp q \<Longrightarrow> 2 ^ (23 + rexp q) \<le> q"
proof -
  assume "0 < rexp q"
  then have q: "\<not> q < 2 ^ 24" "24 < floorlog 2 q" by (auto simp: rexp_def split: if_splits)
  then have "0 < q" by (auto intro: gr0I)
  then have "2 ^ (floorlog 2 q - 1) \<le> q" using floorlog_bounds [of q 2] by simp
  moreover have "floorlog 2 q - 1 = 23 + rexp q" using q by (simp add: rexp_def)
  ultimately show ?thesis by simp
qed

lemma round_mantissa_upper:
  assumes "0 < d"
  shows "rne n (d * 2 ^ rexp (n div d)) \<le> 2 ^ 24"
proof (rule rne_le)
  have "n div d < 2 ^ (24 + rexp (n div d))" by (rule rexp_upper)
  then have "n < 2 ^ (24 + rexp (n div d)) * d" using assms by (simp add: div_less_iff_less_mult)
  also have "\<dots> = 2 ^ 24 * (d * 2 ^ rexp (n div d))" by (simp only: power_add ac_simps)
  finally show "n \<le> 2 ^ 24 * (d * 2 ^ rexp (n div d))" by simp
qed (use assms in simp)

lemma round_mantissa_lower:
  assumes "0 < d" "0 < rexp (n div d)"
  shows "2 ^ 23 \<le> rne n (d * 2 ^ rexp (n div d))"
proof (rule rne_ge)
  have "2 ^ (23 + rexp (n div d)) \<le> n div d" using assms(2) by (rule rexp_lower)
  then have "2 ^ (23 + rexp (n div d)) * d \<le> n" using assms(1) by (simp add: less_eq_div_iff_mult_less_eq)
  also have "2 ^ (23 + rexp (n div d)) * d = 2 ^ 23 * (d * 2 ^ rexp (n div d))"
    by (simp only: power_add ac_simps)
  finally show "2 ^ 23 * (d * 2 ^ rexp (n div d)) \<le> n" .
qed (use assms in simp)

text \<open>Rounding does not cross a representable magnitude, from below or from above.\<close>

lemma round_mag_ge:
  assumes d: "0 < d" and b: "b \<le> inf_mag" and k: "kmag b * d \<le> n"
  shows "b \<le> round_mag n d"
proof -
  let ?e = "rexp (n div d)" and ?m = "rne n (d * 2 ^ rexp (n div d))"
  obtain e' m' where b': "b = e' * 2 ^ 23 + m'" "kmag b = m' * 2 ^ e'" "m' < 2 ^ 24"
    "0 < e' \<longrightarrow> 2 ^ 23 \<le> m'" by (rule kmag_pattern)
  have q: "kmag b \<le> n div d" using d k by (simp add: less_eq_div_iff_mult_less_eq)
  have "b \<le> ?e * 2 ^ 23 + ?m"
  proof (cases e' ?e rule: linorder_cases)
    case less
    then have "e' * 2 ^ 23 + 2 ^ 24 \<le> ?e * 2 ^ 23 + (2 ^ 23 :: nat)"
      by (simp add: Suc_le_eq [symmetric])
    with b'(1,3) round_mantissa_lower [OF d, of n] less show ?thesis by linarith
  next
    case equal
    have "m' * (d * 2 ^ e') \<le> n" using k b'(2) by (simp add: ac_simps)
    then have "m' \<le> ?m" using d by (simp add: equal rne_ge)
    then show ?thesis using b'(1) equal by simp
  next
    case greater
    have "(2::nat) ^ (24 + ?e) \<le> 2 ^ (23 + e')" using greater by (intro power_increasing) auto
    also have "\<dots> \<le> m' * 2 ^ e'" using b'(4) greater by (simp add: power_add)
    also have "\<dots> \<le> n div d" using q b'(2) by simp
    finally show ?thesis using rexp_upper [of "n div d"] by simp
  qed
  with b show ?thesis by (simp add: round_mag_def Let_def)
qed

lemma round_mag_le:
  assumes d: "0 < d" and k: "n \<le> kmag b * d"
  shows "round_mag n d \<le> b"
proof -
  let ?e = "rexp (n div d)" and ?m = "rne n (d * 2 ^ rexp (n div d))"
  obtain e' m' where b': "b = e' * 2 ^ 23 + m'" "kmag b = m' * 2 ^ e'" "m' < 2 ^ 24"
    "0 < e' \<longrightarrow> 2 ^ 23 \<le> m'" by (rule kmag_pattern)
  have q: "n div d \<le> kmag b" using div_le_mono [OF k, of d] d by simp
  have "?e * 2 ^ 23 + ?m \<le> b"
  proof (cases e' ?e rule: linorder_cases)
    case less
    have "n div d < 2 ^ 24 * 2 ^ e'" using q b'(2,3) by (metis le_less_trans mult_less_mono1
          zero_less_numeral zero_less_power)
    also have "(2::nat) ^ 24 * 2 ^ e' = 2 ^ (24 + e')" by (rule power_add [symmetric])
    also have "\<dots> \<le> 2 ^ (23 + ?e)" using less by (intro power_increasing) auto
    finally have "n div d < 2 ^ (23 + ?e)" .
    then show ?thesis using rexp_lower [of "n div d"] less by simp
  next
    case equal
    have "n \<le> m' * (d * 2 ^ e')" using k b'(2) by (simp add: ac_simps)
    then have "?m \<le> m'" using d by (simp add: equal rne_le)
    then show ?thesis using b'(1) equal by simp
  next
    case greater
    then have "?e * 2 ^ 23 + 2 ^ 24 \<le> e' * 2 ^ 23 + (2 ^ 23 :: nat)"
      by (simp add: Suc_le_eq [symmetric])
    with b' greater round_mantissa_upper [OF d, of n] show ?thesis by linarith
  qed
  then show ?thesis by (simp add: round_mag_def Let_def)
qed

lemma round_mag_inf: "round_mag n d \<le> inf_mag"
  by (simp add: round_mag_def Let_def)

lemma kmag_less: "\<lbrakk>a < b; b \<le> inf_mag\<rbrakk> \<Longrightarrow> kmag a < kmag b"
proof (rule ccontr)
  assume ab: "a < b" "b \<le> inf_mag" and "\<not> kmag a < kmag b"
  then have "b \<le> round_mag (kmag a) 1" by (intro round_mag_ge) auto
  also have "\<dots> \<le> a" by (rule round_mag_le) simp_all
  finally show False using ab(1) by simp
qed

lemma kmag_le: "\<lbrakk>a \<le> b; b \<le> inf_mag\<rbrakk> \<Longrightarrow> kmag a \<le> kmag b"
  using kmag_less [of a b] by (cases "a = b") auto

text \<open>Signed rounding.\<close>

lemma fround_sign_mag:
  "fsign (fround s n d) = (if n = 0 then s else n < 0)"
  "fmag (fround s n d) = (if n = 0 then 0 else round_mag (nat \<bar>n\<bar>) d)"
  using round_mag_inf [of "nat \<bar>n\<bar>" d]
  by (auto simp: fround_def fmk_sign fmk_mag inf_mag_def)

lemma fround_not_nan [simp]: "\<not> fis_nan (fround s n d)"
  using round_mag_inf [of "nat \<bar>n\<bar>" d] by (auto simp: fis_nan_def fround_sign_mag inf_mag_def)

lemma fval_fround:
  "fval (fround s n d) = (if n < 0 then - int (kmag (round_mag (nat \<bar>n\<bar>) d))
     else if n = 0 then 0 else int (kmag (round_mag (nat \<bar>n\<bar>) d)))"
  by (simp add: fval_def fround_sign_mag)

lemma fround_ge:
  assumes c: "\<not> fis_nan c" and d: "0 < d" and le: "fval c * int d \<le> n"
  shows "fval c \<le> fval (fround s n d)"
proof -
  have cm: "fmag c \<le> inf_mag" using c by (simp add: fis_nan_def)
  consider (pos) "0 < n" | (zero) "n = 0" | (neg) "n < 0" by linarith
  then show ?thesis
  proof cases
    case pos
    show ?thesis
    proof (cases "fsign c")
      case False
      have "int (kmag (fmag c) * d) \<le> int (nat \<bar>n\<bar>)"
        using le pos False by (simp add: fval_def)
      then have "kmag (fmag c) * d \<le> nat \<bar>n\<bar>" by (simp only: of_nat_le_iff)
      then have "fmag c \<le> round_mag (nat \<bar>n\<bar>) d" using d cm by (intro round_mag_ge) auto
      then show ?thesis using pos False
        by (simp add: fval_fround) (simp add: fval_def kmag_le round_mag_inf)
    qed (use pos in \<open>simp add: fval_fround, simp add: fval_def\<close>)
  next
    case zero
    then have "fval c \<le> 0" using le d by (simp add: mult_le_0_iff)
    then show ?thesis by (simp add: fval_fround zero)
  next
    case neg
    then have "fval c * int d < 0" using le by simp
    then have cneg: "fsign c" by (auto simp: fval_def mult_less_0_iff split: if_splits)
    have "int (nat \<bar>n\<bar>) \<le> int (kmag (fmag c) * d)"
      using le neg cneg by (simp add: fval_def)
    then have "nat \<bar>n\<bar> \<le> kmag (fmag c) * d" by (simp only: of_nat_le_iff)
    then have "round_mag (nat \<bar>n\<bar>) d \<le> fmag c" using d by (intro round_mag_le) auto
    then show ?thesis using neg cneg cm by (simp add: fval_fround) (simp add: fval_def kmag_le)
  qed
qed

lemma fround_uminus: "n \<noteq> 0 \<Longrightarrow> fval (fround s (- n) d) = - fval (fround t n d)"
  by (auto simp: fval_fround)

lemma fround_le:
  assumes c: "\<not> fis_nan c" and d: "0 < d" and le: "n \<le> fval c * int d"
  shows "fval (fround s n d) \<le> fval c"
proof (cases "n = 0")
  case True
  then have "0 \<le> fval c" using le d by (simp add: zero_le_mult_iff)
  then show ?thesis by (simp add: fval_fround True)
next
  case False
  define c' where "c' = fmk (\<not> fsign c) (fmag c)"
  have c': "\<not> fis_nan c'" "fval c' = - fval c"
    using c fmag_less [of c] by (auto simp: c'_def fis_nan_def fval_def fmk_sign fmk_mag)
  have "fval c' \<le> fval (fround s (- n) d)"
    using c' d le by (intro fround_ge) auto
  then show ?thesis using c'(2) fround_uminus [OF False, of s d s] by simp
qed

section \<open>Exactly representable values\<close>

lemma kmag_of_pattern:
  assumes "m < 2 ^ 24" "0 < e \<longrightarrow> 2 ^ 23 \<le> m"
  shows "kmag (e * 2 ^ 23 + m) = m * 2 ^ e"
proof (cases "m < 2 ^ 23")
  case True
  then show ?thesis using assms by (simp add: kmag_def)
next
  case False
  then obtain m' where m: "m = 2 ^ 23 + m'" "m' < 2 ^ 23"
    using assms(1) le_Suc_ex [of "2 ^ 23" m] by auto
  then have eq: "e * 2 ^ 23 + m = m' + (e + 1) * 2 ^ 23" by simp
  have "(e * 2 ^ 23 + m) div 2 ^ 23 = e + 1" "(e * 2 ^ 23 + m) mod 2 ^ 23 = m'"
    unfolding eq mod_mult_self1 div_mult_self1 [OF power_not_zero [OF zero_neq_numeral [symmetric]]]
    using m(2) by simp_all
  then show ?thesis by (simp add: kmag_def m(1))
qed

lemma round_mag_dvd:
  assumes q: "q < 2 ^ 277" and dvd: "2 ^ rexp q dvd q"
  shows "kmag (round_mag q 1) = q"
proof -
  define e where "e = rexp q"
  obtain m where qm: "q = m * 2 ^ e" using dvd by (auto simp: e_def dvd_def mult.commute)
  have "m * 2 ^ e < 2 ^ 24 * 2 ^ e" using rexp_upper [of q]
    by (simp only: e_def [symmetric] qm [symmetric] power_add)
  then have m24: "m < 2 ^ 24" by (simp only: mult_less_cancel2)
  have m23: "0 < e \<longrightarrow> 2 ^ 23 \<le> m"
  proof
    assume "0 < e"
    then have "2 ^ 23 * 2 ^ e \<le> m * 2 ^ e" using rexp_lower [of q]
      by (simp only: e_def [symmetric] qm [symmetric] power_add)
    then show "2 ^ 23 \<le> m" by (simp only: mult_le_cancel2) simp
  qed
  have "e * 2 ^ 23 + m \<le> inf_mag"
  proof (cases "e \<le> 253")
    case True
    then show ?thesis using m24 by (simp add: inf_mag_def)
  next
    case False
    then have "(2::nat) ^ (23 + 254) \<le> 2 ^ 23 * 2 ^ e"
      unfolding power_add by (intro mult_le_mono power_increasing) auto
    also have "\<dots> \<le> q" using m23 False by (simp add: qm)
    finally show ?thesis using q by simp
  qed
  moreover have "rne q (2 ^ e) = m" by (simp add: qm rne_def)
  ultimately have "round_mag q 1 = e * 2 ^ 23 + m"
    by (simp add: round_mag_def Let_def e_def [symmetric])
  then show ?thesis using kmag_of_pattern [OF m24 m23] qm by simp
qed

lemma rexp_mult_le: "N < 2 ^ 24 \<Longrightarrow> rexp (N * 2 ^ j) \<le> j"
proof (rule ccontr)
  let ?e = "rexp (N * 2 ^ j)"
  assume N: "N < 2 ^ 24" and "\<not> ?e \<le> j"
  then have "2 ^ (23 + ?e) \<le> N * 2 ^ j" "(2::nat) ^ (24 + j) \<le> 2 ^ (23 + ?e)"
    using rexp_lower [of "N * 2 ^ j"] by (auto intro!: power_increasing)
  moreover have "N * 2 ^ j < 2 ^ (24 + j)" using N by (simp add: power_add)
  ultimately show False by linarith
qed

lemma round_mag_exact:
  assumes N: "N < 2 ^ 24" and j: "j \<le> 253"
  shows "kmag (round_mag (N * 2 ^ j) 1) = N * 2 ^ j"
proof (rule round_mag_dvd)
  have "N * 2 ^ j < 2 ^ 24 * 2 ^ j" using N by simp
  also have "\<dots> \<le> 2 ^ 24 * 2 ^ 253" using j by (intro mult_le_mono power_increasing) auto
  finally show "N * 2 ^ j < 2 ^ 277" by (simp only: power_add [symmetric]) simp
  show "2 ^ rexp (N * 2 ^ j) dvd N * 2 ^ j"
    using rexp_mult_le [OF N, of j] by (intro dvd_mult) (rule le_imp_power_dvd)
qed

lemma fround_exact:
  assumes "\<bar>n\<bar> < 2 ^ 24" "j \<le> 253"
  shows "fval (fround s (n * 2 ^ j) 1) = n * 2 ^ j"
proof -
  have "nat \<bar>n * 2 ^ j\<bar> = nat \<bar>n\<bar> * 2 ^ j" by (simp add: abs_mult nat_mult_distrib nat_power_eq)
  moreover have "kmag (round_mag (nat \<bar>n\<bar> * 2 ^ j) 1) = nat \<bar>n\<bar> * 2 ^ j"
    using assms by (intro round_mag_exact) (simp_all add: nat_less_iff)
  ultimately show ?thesis
    by (cases n "0::int" rule: linorder_cases) (simp_all add: fval_fround mult_less_0_iff)
qed

section \<open>Comparisons\<close>

definition flt :: "f32 \<Rightarrow> f32 \<Rightarrow> bool" where
  "flt x y \<longleftrightarrow> \<not> fis_nan x \<and> \<not> fis_nan y \<and> fval x < fval y"

definition fle :: "f32 \<Rightarrow> f32 \<Rightarrow> bool" where
  "fle x y \<longleftrightarrow> \<not> fis_nan x \<and> \<not> fis_nan y \<and> fval x \<le> fval y"

text \<open>A NaN compares false with everything, so \<open>std::clamp\<close> hands it through.\<close>

interpretation float_clamp: clamp_order flt fle "\<lambda>x. \<not> fis_nan x"
  by unfold_locales (auto simp: flt_def fle_def)

abbreviation fclamp :: "f32 \<Rightarrow> f32 \<Rightarrow> f32 \<Rightarrow> f32" where
  "fclamp \<equiv> std_clamp flt"

section \<open>Arithmetic\<close>

definition fzero :: "f32 \<Rightarrow> bool" where
  "fzero x \<longleftrightarrow> fmag x = 0"

definition fneg :: "f32 \<Rightarrow> f32" where
  "fneg x = fmk (\<not> fsign x) (fmag x)"

definition fabs :: "f32 \<Rightarrow> f32" where
  "fabs x = fmk False (fmag x)"

definition fadd :: "f32 \<Rightarrow> f32 \<Rightarrow> f32" where
  "fadd x y =
    (if fis_nan x \<or> fis_nan y then fnan
     else if fis_inf x then (if fis_inf y \<and> fsign x \<noteq> fsign y then fnan else x)
     else if fis_inf y then y
     else fround (fsign x \<and> fsign y) (fval x + fval y) 1)"

definition fsub :: "f32 \<Rightarrow> f32 \<Rightarrow> f32" where
  "fsub x y = fadd x (fneg y)"

definition fmul :: "f32 \<Rightarrow> f32 \<Rightarrow> f32" where
  "fmul x y =
    (if fis_nan x \<or> fis_nan y then fnan
     else if fis_inf x \<or> fis_inf y
       then (if fzero x \<or> fzero y then fnan else finf (fsign x \<noteq> fsign y))
     else fround (fsign x \<noteq> fsign y) (fval x * fval y) (2 ^ 149))"

definition fdiv :: "f32 \<Rightarrow> f32 \<Rightarrow> f32" where
  "fdiv x y =
    (if fis_nan x \<or> fis_nan y then fnan
     else if fis_inf x then (if fis_inf y then fnan else finf (fsign x \<noteq> fsign y))
     else if fis_inf y then fmk (fsign x \<noteq> fsign y) 0
     else if fzero y then (if fzero x then fnan else finf (fsign x \<noteq> fsign y))
     else fround (fsign x \<noteq> fsign y) (fval x * 2 ^ 149 * sgn (fval y)) (nat \<bar>fval y\<bar>))"

section \<open>Conversions\<close>

text \<open>
  Integers to binary32 round; \<open>flit n d\<close> is the literal \<open>n / d\<close>. Conversion to an integer type
  truncates and is undefined, hence \<open>None\<close>, when the truncated value does not fit.
  \<open>std::lround\<close> rounds halves away from zero; outside the range of \<open>long\<close>, or for a NaN, its
  value is unspecified: the parameter \<open>bad\<close> is what the implementation returns then.
\<close>

definition f32_of_int :: "int \<Rightarrow> f32" where
  "f32_of_int n = fround False (n * 2 ^ 149) 1"

definition flit :: "int \<Rightarrow> nat \<Rightarrow> f32" where
  "flit n d = fround False (n * 2 ^ 149) d"

definition ftrunc :: "f32 \<Rightarrow> int" where
  "ftrunc x = sgn (fval x) * (\<bar>fval x\<bar> div 2 ^ 149)"

definition u16_of_f32 :: "f32 \<Rightarrow> u16 option" where
  "u16_of_f32 x = (if fis_fin x \<and> 0 \<le> ftrunc x \<and> ftrunc x < 2 ^ 16 then Some (word_of_int (ftrunc x))
     else None)"

definition lround :: "(f32 \<Rightarrow> int) \<Rightarrow> f32 \<Rightarrow> int" where
  "lround bad x =
    (let r = sgn (fval x) * ((2 * \<bar>fval x\<bar> + 2 ^ 149) div 2 ^ 150)
     in if fis_fin x \<and> - (2 ^ 63) \<le> r \<and> r < 2 ^ 63 then r else bad x)"

section \<open>Intervals\<close>

text \<open>
  \<open>frange lo hi x\<close>: the value lies in an interval given in units of \<open>2^-149\<close> and is no NaN;
  \<open>funits n\<close> is the integer \<open>n\<close> in these units. The rules say how the operations move
  intervals whose end points are representable.
\<close>

definition frange :: "int \<Rightarrow> int \<Rightarrow> f32 \<Rightarrow> bool" where
  "frange lo hi x \<longleftrightarrow> \<not> fis_nan x \<and> lo \<le> fval x \<and> fval x \<le> hi"

definition frepr :: "int \<Rightarrow> bool" where
  "frepr k \<longleftrightarrow> (\<exists>c. \<not> fis_nan c \<and> fval c = k)"

abbreviation funits :: "int \<Rightarrow> int" where
  "funits n \<equiv> n * 2 ^ 149"

lemma frepr_mult: "\<lbrakk>\<bar>n\<bar> < 2 ^ 24; j \<le> 253\<rbrakk> \<Longrightarrow> frepr (n * 2 ^ j)"
  unfolding frepr_def using fround_exact [of n j False] fround_not_nan by blast

lemma frepr_funits: "\<bar>n\<bar> < 2 ^ 24 \<Longrightarrow> frepr (funits n)"
  by (rule frepr_mult) simp_all

lemma frepr_0: "frepr 0"
  using frepr_funits [of 0] by simp

lemma frangeD: "frange lo hi x \<Longrightarrow> \<not> fis_nan x" "frange lo hi x \<Longrightarrow> lo \<le> fval x"
  "frange lo hi x \<Longrightarrow> fval x \<le> hi"
  by (simp_all add: frange_def)

lemma frange_mono: "\<lbrakk>frange lo hi x; lo' \<le> lo; hi \<le> hi'\<rbrakk> \<Longrightarrow> frange lo' hi' x"
  by (auto simp: frange_def)

lemma kmag_inf: "kmag inf_mag = 2 ^ 277"
  by (simp add: kmag_def inf_mag_def)

lemma frange_fin: "\<lbrakk>frange lo hi x; - (2 ^ 277) < lo; hi < 2 ^ 277\<rbrakk> \<Longrightarrow> fis_fin x"
proof (rule ccontr)
  assume x: "frange lo hi x" "- (2 ^ 277) < lo" "hi < 2 ^ 277" and "\<not> fis_fin x"
  then have "fmag x = inf_mag" by (auto simp: frange_def fis_nan_def fis_fin_def)
  then have "\<bar>fval x\<bar> = int (2 ^ 277)" by (simp add: fval_def kmag_inf)
  then show False using x by (auto simp: frange_def)
qed

lemma fin_not: "fis_fin x \<Longrightarrow> \<not> fis_nan x" "fis_fin x \<Longrightarrow> \<not> fis_inf x"
  by (auto simp: fis_fin_def fis_nan_def fis_inf_def)

lemma fin_less: "fis_fin x \<Longrightarrow> \<bar>fval x\<bar> < 2 ^ 277"
  using kmag_less [of "fmag x" inf_mag] by (auto simp: fis_fin_def fval_def kmag_inf)

lemma fround_frange:
  assumes "frepr lo" "frepr hi" "0 < d" "lo * int d \<le> n" "n \<le> hi * int d"
  shows "frange lo hi (fround s n d)"
  using assms fround_ge [of _ d n s] fround_le [of _ d n s] by (auto simp: frange_def frepr_def)

lemma fval_neg: "fval (fneg x) = - fval x"
  using fmag_less [of x] by (simp add: fval_def fneg_def fmk_sign fmk_mag)

lemma fneg_class: "fis_nan (fneg x) = fis_nan x" "fis_inf (fneg x) = fis_inf x"
  "fis_fin (fneg x) = fis_fin x" "fzero (fneg x) = fzero x"
  using fmag_less [of x] by (simp_all add: fis_nan_def fis_inf_def fis_fin_def fzero_def fneg_def fmk_mag)

lemma frange_neg: "frange lo hi x \<Longrightarrow> frange (- hi) (- lo) (fneg x)"
  by (simp add: frange_def fval_neg fneg_class)

lemma fadd_fin: "\<lbrakk>fis_fin x; fis_fin y\<rbrakk> \<Longrightarrow> fadd x y = fround (fsign x \<and> fsign y) (fval x + fval y) 1"
  by (simp add: fadd_def fin_not)

lemma fsub_fin: "\<lbrakk>fis_fin x; fis_fin y\<rbrakk> \<Longrightarrow> fsub x y = fround (fsign x \<and> fsign (fneg y)) (fval x - fval y) 1"
  by (simp add: fsub_def fadd_fin fneg_class fval_neg)

lemma fmul_fin: "\<lbrakk>fis_fin x; fis_fin y\<rbrakk> \<Longrightarrow>
    fmul x y = fround (fsign x \<noteq> fsign y) (fval x * fval y) (2 ^ 149)"
  by (simp add: fmul_def fin_not)

lemma frange_add:
  assumes "fis_fin x" "fis_fin y" "frepr lo" "frepr hi" "lo \<le> fval x + fval y" "fval x + fval y \<le> hi"
  shows "frange lo hi (fadd x y)"
  using assms by (simp add: fadd_fin fround_frange)

lemma frange_sub:
  assumes "fis_fin x" "fis_fin y" "frepr lo" "frepr hi" "lo \<le> fval x - fval y" "fval x - fval y \<le> hi"
  shows "frange lo hi (fsub x y)"
  using assms by (simp add: fsub_fin fround_frange)

lemma frange_mul:
  assumes "fis_fin x" "fis_fin y" "frepr lo" "frepr hi"
    "funits lo \<le> fval x * fval y" "fval x * fval y \<le> funits hi"
  shows "frange lo hi (fmul x y)"
  using assms by (simp add: fmul_fin fround_frange)

lemma fzero_iff: "fzero x \<longleftrightarrow> fval x = 0"
  by (simp add: fzero_def fval_def kmag_eq_zero)

lemma frange_div_pos:
  assumes "fis_fin x" "fis_fin y" "0 < fval y" "frepr lo" "frepr hi"
    "lo * fval y \<le> funits (fval x)" "funits (fval x) \<le> hi * fval y"
  shows "frange lo hi (fdiv x y)"
proof -
  have "\<not> fzero y" using assms(3) by (simp add: fzero_iff)
  then have "fdiv x y = fround (fsign x \<noteq> fsign y) (funits (fval x)) (nat (fval y))"
    using assms(1-3) by (simp add: fdiv_def fin_not)
  then show ?thesis using assms by (simp add: fround_frange)
qed

lemma fval_of_int: "\<bar>n\<bar> < 2 ^ 24 \<Longrightarrow> fval (f32_of_int n) = funits n"
  unfolding f32_of_int_def by (rule fround_exact) simp_all

lemma fconv_not_nan [simp]: "\<not> fis_nan (f32_of_int n)" "\<not> fis_nan (flit n d)"
  by (simp_all add: f32_of_int_def flit_def)

lemma fin_of_small: "\<lbrakk>\<not> fis_nan x; \<bar>fval x\<bar> < 2 ^ 277\<rbrakk> \<Longrightarrow> fis_fin x"
  by (rule frange_fin [where lo = "fval x" and hi = "fval x"]) (auto simp: frange_def)

lemma fin_of_int: "\<bar>n\<bar> < 2 ^ 24 \<Longrightarrow> fis_fin (f32_of_int n)"
  by (rule fin_of_small) (auto simp: fval_of_int)

lemma fclamp_frange:
  assumes "\<not> fis_nan v" "\<not> fis_nan lo" "\<not> fis_nan hi" "fval lo \<le> fval hi"
  shows "frange (fval lo) (fval hi) (fclamp v lo hi)"
  using assms float_clamp.clamp_lower [of v lo hi] float_clamp.clamp_upper [of v lo hi]
  by (auto simp: fle_def frange_def)

text \<open>Truncation stays inside integer bounds.\<close>

lemma ftrunc_range:
  assumes "frange (funits a) (funits b) x" "0 \<le> a"
  shows "a \<le> ftrunc x" "ftrunc x \<le> b"
proof -
  have v: "0 \<le> fval x" "funits a \<le> fval x" "fval x \<le> funits b"
    using assms by (auto simp: frange_def)
  have t: "ftrunc x = fval x div 2 ^ 149"
    using v(1) by (cases "fval x = 0") (simp_all add: ftrunc_def)
  show "a \<le> ftrunc x" unfolding t using zdiv_mono1 [OF v(2), of "2 ^ 149"] by simp
  show "ftrunc x \<le> b" unfolding t using zdiv_mono1 [OF v(3), of "2 ^ 149"] by simp
qed

section \<open>Bounds by powers of two\<close>

text \<open>
  \<open>fbound e x\<close>: no NaN and of absolute value at most \<open>2^e\<close> in units of \<open>2^-149\<close>. Powers of two are
  representable, so the bounds of sums, products and quotients are computed on the exponents.
\<close>

definition fbound :: "nat \<Rightarrow> f32 \<Rightarrow> bool" where
  "fbound e x \<longleftrightarrow> frange (- (2 ^ e)) (2 ^ e) x"

lemma fboundD: "fbound e x \<Longrightarrow> \<not> fis_nan x" "fbound e x \<Longrightarrow> \<bar>fval x\<bar> \<le> 2 ^ e"
  by (auto simp: fbound_def frange_def)

lemma fboundI: "\<lbrakk>\<not> fis_nan x; \<bar>fval x\<bar> \<le> 2 ^ e\<rbrakk> \<Longrightarrow> fbound e x"
  by (auto simp: fbound_def frange_def)

lemma fbound_mono:
  assumes "fbound a x" "a \<le> b"
  shows "fbound b x"
proof (rule fboundI)
  have "(2::int) ^ a \<le> 2 ^ b" using assms(2) by simp
  then show "\<bar>fval x\<bar> \<le> 2 ^ b" using fboundD(2) [OF assms(1)] by linarith
qed (rule fboundD(1) [OF assms(1)])

lemma fbound_fin:
  assumes "fbound a x" "a < 277"
  shows "fis_fin x"
proof (rule fin_of_small)
  have "(2::int) ^ a < 2 ^ 277" using assms(2) by (rule power_strict_increasing) simp
  then show "\<bar>fval x\<bar> < 2 ^ 277" using fboundD(2) [OF assms(1)] by linarith
qed (rule fboundD(1) [OF assms(1)])

lemma fbound_repr: "e \<le> 253 \<Longrightarrow> frepr (2 ^ e)" "e \<le> 253 \<Longrightarrow> frepr (- (2 ^ e))"
  using frepr_mult [of 1 e] frepr_mult [of "- 1" e] by simp_all

lemma fbound_of_frange: "\<lbrakk>frange lo hi x; - (2 ^ e) \<le> lo; hi \<le> 2 ^ e\<rbrakk> \<Longrightarrow> fbound e x"
  unfolding fbound_def by (rule frange_mono)

lemma fbound_add:
  assumes "fbound a x" "fbound b y" "max a b < 253"
  shows "fbound (Suc (max a b)) (fadd x y)"
proof -
  let ?e = "max a b"
  have m: "fbound ?e x" "fbound ?e y" using assms(1,2) by (auto intro: fbound_mono)
  have "fis_fin x" "fis_fin y" using m assms(3) fbound_fin [of ?e] by auto
  moreover have "\<bar>fval x + fval y\<bar> \<le> 2 ^ Suc ?e" using m [THEN fboundD(2)] by simp
  ultimately show ?thesis unfolding fbound_def
    using assms(3) by (intro frange_add fbound_repr) (auto simp: abs_le_iff)
qed

lemma fbound_neg: "fbound e x \<Longrightarrow> fbound e (fneg x)"
  unfolding fbound_def using frange_neg [of "- (2 ^ e)" "2 ^ e" x] by simp

lemma fbound_sub: "\<lbrakk>fbound a x; fbound b y; max a b < 253\<rbrakk> \<Longrightarrow> fbound (Suc (max a b)) (fsub x y)"
  unfolding fsub_def by (rule fbound_add) (auto intro: fbound_neg)

lemma fbound_mul:
  assumes "fbound a x" "fbound b y" "149 \<le> a + b" "a + b - 149 \<le> 253" "a < 277" "b < 277"
  shows "fbound (a + b - 149) (fmul x y)"
proof -
  have "fis_fin x" "fis_fin y" using assms fbound_fin by auto
  moreover have "\<bar>fval x\<bar> * \<bar>fval y\<bar> \<le> 2 ^ a * 2 ^ b"
    using assms(1,2) [THEN fboundD(2)] by (intro mult_mono) auto
  then have "\<bar>fval x * fval y\<bar> \<le> funits (2 ^ (a + b - 149))"
    using assms(3) by (simp only: abs_mult power_add [symmetric]) simp
  ultimately show ?thesis unfolding fbound_def
    using assms(4) by (intro frange_mul fbound_repr) (auto simp: abs_le_iff)
qed

lemma fbound_div:
  assumes "fbound a x" "fis_fin y" "2 ^ b \<le> fval y" "b \<le> a + 149" "a + 149 - b \<le> 253" "a < 277"
  shows "fbound (a + 149 - b) (fdiv x y)"
proof -
  have pos: "0 < fval y" using assms(3) by (smt (verit) zero_less_power)
  have "\<bar>funits (fval x)\<bar> \<le> 2 ^ a * 2 ^ 149"
    using assms(1) [THEN fboundD(2)] by (simp add: abs_mult)
  also have "\<dots> = 2 ^ (a + 149 - b) * 2 ^ b"
    using assms(4) by (simp only: power_add [symmetric]) simp
  also have "\<dots> \<le> 2 ^ (a + 149 - b) * fval y" using assms(3) by (intro mult_left_mono) auto
  finally show ?thesis unfolding fbound_def
    using assms pos fbound_fin [OF assms(1,6)]
    by (intro frange_div_pos fbound_repr) (auto simp: abs_le_iff)
qed

lemma fbound_int: "\<lbrakk>\<bar>n\<bar> \<le> 2 ^ k; k < 24\<rbrakk> \<Longrightarrow> fbound (149 + k) (f32_of_int n)"
proof (rule fboundI)
  assume n: "\<bar>n\<bar> \<le> 2 ^ k" "k < 24"
  have "(2::int) ^ k < 2 ^ 24" using n(2) by (intro power_strict_increasing) auto
  then have "fval (f32_of_int n) = n * 2 ^ 149" using n(1) by (intro fval_of_int) auto
  then show "\<bar>fval (f32_of_int n)\<bar> \<le> 2 ^ (149 + k)" using n(1) by (simp add: abs_mult power_add)
qed simp

text \<open>A NaN operand makes the result a NaN.\<close>

lemma fnan_nan: "fis_nan fnan"
  by (simp add: fis_nan_def fnan_def fmag_def inf_mag_def)

lemma nan_add: "fis_nan x \<or> fis_nan y \<Longrightarrow> fis_nan (fadd x y)"
  and nan_mul: "fis_nan x \<or> fis_nan y \<Longrightarrow> fis_nan (fmul x y)"
  and nan_sub: "fis_nan x \<or> fis_nan y \<Longrightarrow> fis_nan (fsub x y)"
  and nan_div: "fis_nan x \<or> fis_nan y \<Longrightarrow> fis_nan (fdiv x y)"
  by (auto simp: fadd_def fmul_def fsub_def fdiv_def fneg_class fnan_nan)

lemma nan_clamp: "fis_nan x \<Longrightarrow> fis_nan (fclamp x lo hi)"
  by (simp add: float_clamp.clamp_unordered)

section \<open>Evaluation of closed terms\<close>

lemma floorlog_numeral [float_eval]:
  "floorlog 2 (Suc 0) = 1"
  "floorlog 2 1 = 1"
  "floorlog 2 (numeral (Num.Bit0 k)) = Suc (floorlog 2 (numeral k))"
  "floorlog 2 (numeral (Num.Bit1 k)) = Suc (floorlog 2 (numeral k))"
proof -
  have half: "floorlog 2 n = Suc (floorlog 2 (n div 2))" if "0 < n" for n
    using compute_floorlog [of 2 n] that by simp
  show one: "floorlog 2 1 = 1" using half [of 1] by (simp add: compute_floorlog)
  show "floorlog 2 (Suc 0) = 1" using one by simp
  show "floorlog 2 (numeral (Num.Bit0 k)) = Suc (floorlog 2 (numeral k))"
    using half [of "numeral (Num.Bit0 k)"] by simp
  show "floorlog 2 (numeral (Num.Bit1 k)) = Suc (floorlog 2 (numeral k))"
    using half [of "numeral (Num.Bit1 k)"] by simp
qed

lemmas float_defs [float_eval] =
  inf_mag_def fsign_def fmag_def fmk_def fis_nan_def fis_inf_def fis_fin_def fnan_def finf_def
  kmag_def fval_def rne_def rexp_def round_mag_def fround_def flt_def fle_def fzero_def fneg_def
  fabs_def fadd_def fsub_def fmul_def fdiv_def f32_of_int_def flit_def ftrunc_def u16_of_f32_def
  lround_def Let_def std_clamp_def

end
