(* ===== verification/Protocol.thy ===== *)
theory Protocol
  imports Float32
begin

text \<open>
  \<open>common/protocol.hpp\<close>: the command identifiers, the packed structures that both cores map,
  their byte images, the CRC-32 over a payload and the slot check built on it, and the default
  configuration. The CRC results are stated for \<open>crc32\<close> itself: a corruption confined to four
  consecutive bytes never goes unnoticed, and the four-byte payloads (arm, emergency stop) are
  determined by their checksum.
\<close>

section \<open>Constants and enumerations\<close>

definition kSharedRegionMagic :: u32 where "kSharedRegionMagic = 0x4643414D"
definition kSharedRegionVersion :: u32 where "kSharedRegionVersion = 1"
definition kMagic :: u32 where "kMagic = 0x414D5031"
definition kVersion :: u8 where "kVersion = 1"
definition kMotorCount :: nat where "kMotorCount = 4"
definition kPwmMinUs :: u16 where "kPwmMinUs = 1000"
definition kPwmMaxUs :: u16 where "kPwmMaxUs = 2000"

datatype flight_cmd_id = InitSharedMemory | Setpoint | Arm | Heartbeat | EmergencyStop | Config

fun cmd_code :: "flight_cmd_id \<Rightarrow> u8" where
  "cmd_code InitSharedMemory = 0x20"
| "cmd_code Setpoint = 0x30"
| "cmd_code Arm = 0x31"
| "cmd_code Heartbeat = 0x32"
| "cmd_code EmergencyStop = 0x33"
| "cmd_code Config = 0x34"

datatype message_kind = KSetpoint | KArm | KRtReport | KHeartbeat | KEmergencyStop

fun kind_code :: "message_kind \<Rightarrow> u8" where
  "kind_code KSetpoint = 1"
| "kind_code KArm = 2"
| "kind_code KRtReport = 3"
| "kind_code KHeartbeat = 4"
| "kind_code KEmergencyStop = 5"

text \<open>
  \<open>ArmState\<close> has a fixed underlying type, so a cast from any byte is a value of it, also when no
  enumerator names it.
\<close>

datatype arm_state = ArmCode (arm_code: u8)

definition Disarmed :: arm_state where "Disarmed = ArmCode 0"
definition Armed :: arm_state where "Armed = ArmCode 1"
definition Failsafe :: arm_state where "Failsafe = ArmCode 2"

lemmas arm_state_defs = Disarmed_def Armed_def Failsafe_def

lemma arm_state_distinct [simp]:
  "Disarmed \<noteq> Armed" "Armed \<noteq> Disarmed" "Failsafe \<noteq> Armed" "Armed \<noteq> Failsafe"
  "Failsafe \<noteq> Disarmed" "Disarmed \<noteq> Failsafe"
  by (simp_all add: arm_state_defs)

definition StatusArmed :: u32 where "StatusArmed = push_bit 0 1"
definition StatusFailsafe :: u32 where "StatusFailsafe = push_bit 1 1"
definition StatusImuHealthy :: u32 where "StatusImuHealthy = push_bit 2 1"
definition StatusRcHealthy :: u32 where "StatusRcHealthy = push_bit 3 1"

section \<open>Packed structures\<close>

text \<open>A \<open>std::array\<close> with one entry per motor.\<close>

datatype 'a motors = Motors (m0: 'a) (m1: 'a) (m2: 'a) (m3: 'a)

fun motor_list :: "'a motors \<Rightarrow> 'a list" where
  "motor_list (Motors a b c d) = [a, b, c, d]"

definition all_motors :: "'a \<Rightarrow> 'a motors" where
  "all_motors x = Motors x x x x"

record frame_header =
  fh_magic :: u32
  fh_payload_size :: u16
  fh_message_kind :: u8
  fh_version :: u8
  fh_crc32 :: u32

record command_setpoint =
  sp_throttle :: f32
  sp_roll_deg :: f32
  sp_pitch_deg :: f32
  sp_yaw_rate_dps :: f32
  sp_seq :: u32

record command_arm =
  ca_state :: u8
  ca_reserved0 :: u8
  ca_reserved1 :: u8
  ca_reserved2 :: u8

record command_emergency =
  ce_reason :: u32

record heartbeat =
  hb_monotonic_us :: u64
  hb_seq :: u32

record flight_config =
  fc_angle_p :: f32
  fc_rate_p :: f32
  fc_rate_i :: f32
  fc_rate_d :: f32
  fc_throttle_expo :: f32
  fc_deadzone_us :: u16
  fc_reserved0 :: u16
  fc_update_seq :: u32

record rt_report =
  rr_monotonic_us :: u64
  rr_roll_deg :: f32
  rr_pitch_deg :: f32
  rr_yaw_deg :: f32
  rr_roll_rate_dps :: f32
  rr_pitch_rate_dps :: f32
  rr_yaw_rate_dps :: f32
  rr_motor_pwm_us :: "u16 motors"
  rr_status_flags :: u32
  rr_seq :: u32

record 'a shared_slot =
  slot_seq :: u32
  slot_payload :: 'a
  slot_crc :: u32

record shared_region =
  sr_magic :: u32
  sr_version :: u32
  sr_setpoint :: "command_setpoint shared_slot"
  sr_arm :: "command_arm shared_slot"
  sr_heartbeat :: "heartbeat shared_slot"
  sr_emergency :: "command_emergency shared_slot"
  sr_config :: "flight_config shared_slot"
  sr_rt_report :: "rt_report shared_slot"

section \<open>Byte images\<close>

definition le_f32 :: "f32 \<Rightarrow> u8 list" where
  "le_f32 x = le32 (fbits x)"

definition setpoint_bytes :: "command_setpoint \<Rightarrow> u8 list" where
  "setpoint_bytes p = le_f32 (sp_throttle p) @ le_f32 (sp_roll_deg p) @ le_f32 (sp_pitch_deg p) @
     le_f32 (sp_yaw_rate_dps p) @ le32 (sp_seq p)"

definition arm_bytes :: "command_arm \<Rightarrow> u8 list" where
  "arm_bytes p = [ca_state p, ca_reserved0 p, ca_reserved1 p, ca_reserved2 p]"

definition emergency_bytes :: "command_emergency \<Rightarrow> u8 list" where
  "emergency_bytes p = le32 (ce_reason p)"

definition heartbeat_bytes :: "heartbeat \<Rightarrow> u8 list" where
  "heartbeat_bytes p = le64 (hb_monotonic_us p) @ le32 (hb_seq p)"

definition config_bytes :: "flight_config \<Rightarrow> u8 list" where
  "config_bytes p = le_f32 (fc_angle_p p) @ le_f32 (fc_rate_p p) @ le_f32 (fc_rate_i p) @
     le_f32 (fc_rate_d p) @ le_f32 (fc_throttle_expo p) @ le16 (fc_deadzone_us p) @
     le16 (fc_reserved0 p) @ le32 (fc_update_seq p)"

definition report_bytes :: "rt_report \<Rightarrow> u8 list" where
  "report_bytes p = le64 (rr_monotonic_us p) @ le_f32 (rr_roll_deg p) @ le_f32 (rr_pitch_deg p) @
     le_f32 (rr_yaw_deg p) @ le_f32 (rr_roll_rate_dps p) @ le_f32 (rr_pitch_rate_dps p) @
     le_f32 (rr_yaw_rate_dps p) @ concat (map le16 (motor_list (rr_motor_pwm_us p))) @
     le32 (rr_status_flags p) @ le32 (rr_seq p)"

lemma length_le_f32 [wire_size, simp]: "length (le_f32 x) = 4"
  by (simp add: le_f32_def)

lemma le_f32_inj: "le_f32 x = le_f32 y \<longleftrightarrow> x = y"
  by (cases x; cases y) (simp add: le_f32_def le32_inj)

section \<open>CRC-32\<close>

text \<open>The inner loop's body, the outer loop's body, the whole function.\<close>

definition crc_bit :: "u32 \<Rightarrow> u32" where
  "crc_bit crc = (let mask = - (crc AND 1) in drop_bit 1 crc XOR (0xEDB88320 AND mask))"

definition crc_byte :: "u32 \<Rightarrow> u8 \<Rightarrow> u32" where
  "crc_byte crc b = (crc_bit ^^ 8) (crc XOR ucast b)"

definition crc32 :: "u8 list \<Rightarrow> u32" where
  "crc32 data = NOT (foldl crc_byte 0xFFFFFFFF data)"

definition payload_crc :: "('a \<Rightarrow> u8 list) \<Rightarrow> 'a \<Rightarrow> u32" where
  "payload_crc bytes p = crc32 (bytes p)"

definition verify_slot :: "('a \<Rightarrow> u8 list) \<Rightarrow> 'a shared_slot \<Rightarrow> bool" where
  "verify_slot bytes slot =
    (if slot_seq slot = 0 then False else slot_crc slot = payload_crc bytes (slot_payload slot))"

text \<open>
  The shift register is linear and injective: the top bit of the result tells which branch was
  taken, because the polynomial has its top bit set.
\<close>

lemma crc_bit_if: "crc_bit c = drop_bit 1 c XOR (if bit c 0 then 0xEDB88320 else 0)"
proof (cases "even c")
  case True
  then have "c AND 1 = 0" by (simp add: and_one_eq even_iff_mod_2_eq_zero)
  with True show ?thesis by (simp add: crc_bit_def Let_def bit_0)
next
  case False
  then have "c AND 1 = 1" by (simp add: and_one_eq odd_iff_mod_2_eq_one)
  with False show ?thesis by (simp add: crc_bit_def Let_def bit_0)
qed

lemma crc_bit_xor: "crc_bit (a XOR b) = crc_bit a XOR crc_bit b"
  unfolding crc_bit_if by (simp add: bit_xor_iff drop_bit_xor ac_simps)

lemma crc_bit_zero: "crc_bit 0 = 0"
  by (simp add: crc_bit_if)

lemma crc_bit_eq_zero: "crc_bit c = 0 \<Longrightarrow> c = 0"
proof -
  assume eq: "crc_bit c = 0"
  have "bit (crc_bit c) 31 \<longleftrightarrow> bit c 0"
    unfolding crc_bit_if by (auto simp: bit_xor_iff bit_drop_bit_eq dest: bit_imp_le_length)
  then have b0: "\<not> bit c 0" using eq by simp
  then have dz: "drop_bit 1 c = 0" using eq by (simp add: crc_bit_if)
  show "c = 0"
  proof (rule bit_word_eqI)
    fix n
    have "bit c (Suc k) = bit (drop_bit 1 c) k" for k by (simp add: bit_drop_bit_eq)
    with b0 dz show "bit c n = bit 0 n" by (cases n) simp_all
  qed
qed

lemma crc_bits_xor: "(crc_bit ^^ n) (a XOR b) = (crc_bit ^^ n) a XOR (crc_bit ^^ n) b"
  by (induction n) (simp_all add: crc_bit_xor)

lemma crc_bits_eq_zero: "(crc_bit ^^ n) c = 0 \<Longrightarrow> c = 0"
  by (induction n) (auto dest: crc_bit_eq_zero)

lemma xor_zero_eq: "a XOR b = 0 \<longleftrightarrow> a = (b :: 'a::len word)"
  by (auto simp: bit_eq_iff bit_xor_iff)

lemma crc_bits_inj: "(crc_bit ^^ n) a = (crc_bit ^^ n) b \<Longrightarrow> a = b"
proof -
  assume "(crc_bit ^^ n) a = (crc_bit ^^ n) b"
  then have "(crc_bit ^^ n) (a XOR b) = 0" by (simp add: crc_bits_xor)
  then have "a XOR b = 0" by (rule crc_bits_eq_zero)
  then show "a = b" by (simp only: xor_zero_eq)
qed

lemma crc_bits_low_clear: "(\<forall>j < n. \<not> bit w j) \<Longrightarrow> (crc_bit ^^ n) w = drop_bit n w"
proof (induction n arbitrary: w)
  case (Suc n)
  then have "crc_bit w = drop_bit 1 w" by (simp add: crc_bit_if)
  moreover have "\<forall>j < n. \<not> bit (drop_bit 1 w) j" using Suc.prems by (simp add: bit_drop_bit_eq)
  ultimately have "(crc_bit ^^ n) (crc_bit w) = drop_bit n (drop_bit 1 w)"
    using Suc.IH [of "drop_bit 1 w"] by simp
  then show ?case by (simp add: funpow_Suc_right drop_bit_drop_bit del: funpow.simps)
qed simp

lemma low_byte_split: "w = ucast (ucast w :: u8) XOR (push_bit 8 (drop_bit 8 w) :: u32)"
  by (rule bit_word_eqI) (auto simp: bit_xor_iff bit_push_bit_iff bit_drop_bit_eq bit_ucast_iff)

text \<open>
  Four data bytes enter the register as the little-endian word they spell: a later byte reaches
  the low end exactly when it is due.
\<close>

lemma crc_bits_word_step: "(crc_bit ^^ 8) (c XOR w) = crc_byte c (ucast w) XOR drop_bit 8 w"
proof -
  have "(crc_bit ^^ 8) (push_bit 8 (drop_bit 8 w) :: u32) = drop_bit 8 (push_bit 8 (drop_bit 8 w))"
    by (rule crc_bits_low_clear) (simp add: bit_push_bit_iff)
  also have "\<dots> = drop_bit 8 w"
    by (rule bit_word_eqI)
      (auto simp: bit_push_bit_iff bit_drop_bit_eq dest: bit_imp_le_length)
  finally have high: "(crc_bit ^^ 8) (push_bit 8 (drop_bit 8 w) :: u32) = drop_bit 8 w" .
  have "(crc_bit ^^ 8) (c XOR w) =
      (crc_bit ^^ 8) ((c XOR ucast (ucast w :: u8)) XOR push_bit 8 (drop_bit 8 w))"
    by (subst low_byte_split [of w]) (simp only: xor.assoc)
  then show ?thesis by (simp only: crc_bits_xor high crc_byte_def)
qed

lemma crc_le32: "foldl crc_byte c (le32 w) = (crc_bit ^^ 32) (c XOR w)"
proof -
  let ?b = "\<lambda>i. ucast (drop_bit (8 * i) w) :: u8"
  have w32: "drop_bit 32 w = 0" by (rule bit_word_eqI) (auto simp: bit_drop_bit_eq dest: bit_imp_le_length)
  have "(crc_bit ^^ 32) (c XOR w) =
      (crc_bit ^^ 8) ((crc_bit ^^ 8) ((crc_bit ^^ 8) ((crc_bit ^^ 8) (c XOR w))))"
    by (simp only: funpow_add [symmetric, THEN fun_cong, unfolded comp_def]) simp
  also have "\<dots> = crc_byte (crc_byte (crc_byte (crc_byte c (?b 0)) (?b 1)) (?b 2)) (?b 3)"
    by (simp only: crc_bits_word_step drop_bit_drop_bit) (simp add: w32)
  finally show ?thesis by (simp add: le32_def byte_at_def)
qed

lemma xor_cancel:
  "a XOR c = b XOR c \<longleftrightarrow> a = b" "c XOR a = c XOR b \<longleftrightarrow> a = (b :: 'a::len word)"
  by (auto simp: bit_eq_iff bit_xor_iff)

lemma crc_byte_state_inj: "crc_byte c x = crc_byte d x \<Longrightarrow> c = d"
  unfolding crc_byte_def by (drule crc_bits_inj) (simp only: xor_cancel)

lemma crc_byte_data_inj: "crc_byte c x = crc_byte c y \<Longrightarrow> x = y"
proof -
  assume "crc_byte c x = crc_byte c y"
  then have "(ucast x :: u32) = ucast y"
    unfolding crc_byte_def by (drule_tac crc_bits_inj) (simp only: xor_cancel)
  then have *: "bit (ucast x :: u32) n = bit (ucast y :: u32) n" for n by simp
  show "x = y"
  proof (rule bit_word_eqI)
    fix n assume "n < LENGTH(8)"
    with * [of n] show "bit x n = bit y n" by (simp add: bit_ucast_iff)
  qed
qed

lemma crc_fold_inj: "foldl crc_byte c xs = foldl crc_byte d xs \<Longrightarrow> c = d"
  by (induction xs rule: rev_induct) (auto dest: crc_byte_state_inj)

lemma not_cancel: "NOT a = NOT b \<longleftrightarrow> a = (b :: 'a::len word)"
  by (auto simp: bit_eq_iff bit_not_iff)

text \<open>What a checksum comparison can and cannot miss.\<close>

lemma crc_word_change:
  "crc32 (xs @ le32 v @ ys) = crc32 (xs @ le32 w @ ys) \<longleftrightarrow> v = w"
proof
  assume "crc32 (xs @ le32 v @ ys) = crc32 (xs @ le32 w @ ys)"
  then have "foldl crc_byte (foldl crc_byte (foldl crc_byte 0xFFFFFFFF xs) (le32 v)) ys =
    foldl crc_byte (foldl crc_byte (foldl crc_byte 0xFFFFFFFF xs) (le32 w)) ys"
    by (simp only: crc32_def not_cancel foldl_append)
  then show "v = w" 
    by (drule_tac crc_fold_inj, simp only: crc_le32, drule_tac crc_bits_inj, simp only: xor_cancel)
qed simp

lemma crc_byte_change: "crc32 (xs @ x # ys) = crc32 (xs @ y # ys) \<longleftrightarrow> x = y"
  by (auto simp: crc32_def not_cancel dest!: crc_fold_inj crc_byte_data_inj)

lemma le32_surj: "\<exists>w. le32 w = [a, b, c, d]"
proof -
  define w :: u32 where
    "w = ucast a OR push_bit 8 (ucast b) OR push_bit 16 (ucast c) OR push_bit 24 (ucast d)"
  have "byte_at 0 w = a" "byte_at 1 w = b" "byte_at 2 w = c" "byte_at 3 w = d"
    by (rule bit_word_eqI;
      auto simp: bit_byte_at w_def bit_or_iff bit_push_bit_iff bit_ucast_iff dest: bit_imp_le_length)+
  then show ?thesis by (intro exI [of _ w]) (simp add: le32_def)
qed

lemma crc_four_inj:
  assumes "length xs = 4" "length ys = 4"
  shows "crc32 (as @ xs @ bs) = crc32 (as @ ys @ bs) \<longleftrightarrow> xs = ys"
proof -
  obtain v w where "xs = le32 v" "ys = le32 w"
    using assms le32_surj by (metis length4_conv)
  then show ?thesis by (simp add: crc_word_change le32_inj)
qed

section \<open>Slots\<close>

text \<open>
  A payload format: a byte image of fixed width that determines the payload. \<open>publishSlot\<close>
  (\<open>linux_core/MailboxTransport.cpp\<close>) writes payload, checksum and, last, the sequence number.
\<close>

definition publishSlot :: "('a \<Rightarrow> u8 list) \<Rightarrow> 'a shared_slot \<Rightarrow> u32 \<Rightarrow> 'a \<Rightarrow> 'a shared_slot" where
  "publishSlot bytes slot seq p =
    (let slot = slot\<lparr>slot_payload := p\<rparr>;
         slot = slot\<lparr>slot_crc := payload_crc bytes p\<rparr>
     in slot\<lparr>slot_seq := seq\<rparr>)"

locale wire_format =
  fixes bytes :: "'a \<Rightarrow> u8 list"
    and width :: nat
  assumes bytes_length: "length (bytes p) = width"
    and bytes_inj: "bytes p = bytes q \<longleftrightarrow> p = q"
begin

lemma verify_publish: "verify_slot bytes (publishSlot bytes slot seq p) \<longleftrightarrow> seq \<noteq> 0"
  by (simp add: verify_slot_def publishSlot_def)

lemma publish_fields:
  "slot_payload (publishSlot bytes slot seq p) = p" "slot_seq (publishSlot bytes slot seq p) = seq"
  by (simp_all add: publishSlot_def)

text \<open>A published slot whose payload was then changed within four adjacent bytes is refused.\<close>

lemma verify_corrupt:
  assumes "bytes p = as @ xs @ bs" "bytes q = as @ ys @ bs" "length xs = 4" "length ys = 4" "p \<noteq> q"
  shows "\<not> verify_slot bytes ((publishSlot bytes slot seq p)\<lparr>slot_payload := q\<rparr>)"
proof -
  have "xs \<noteq> ys" using assms bytes_inj [of p q] by auto
  then show ?thesis using assms crc_four_inj [of xs ys as bs]
    by (auto simp: verify_slot_def publishSlot_def payload_crc_def)
qed

lemma verify_four:
  assumes "width = 4" "verify_slot bytes s" "verify_slot bytes t" "slot_crc s = slot_crc t"
  shows "slot_payload s = slot_payload t"
proof -
  have "crc32 ([] @ bytes (slot_payload s) @ []) = crc32 ([] @ bytes (slot_payload t) @ [])"
    using assms by (simp add: verify_slot_def payload_crc_def split: if_splits)
  then show ?thesis using assms(1)
    by (subst (asm) crc_four_inj) (simp_all add: bytes_length bytes_inj)
qed

end

interpretation setpoint_wire: wire_format setpoint_bytes 20
  by unfold_locales (auto simp: setpoint_bytes_def le_f32_inj le32_inj)

interpretation arm_wire: wire_format arm_bytes 4
  by unfold_locales (auto simp: arm_bytes_def)

interpretation emergency_wire: wire_format emergency_bytes 4
  by unfold_locales (auto simp: emergency_bytes_def le32_inj)

interpretation heartbeat_wire: wire_format heartbeat_bytes 12
  by unfold_locales (auto simp: heartbeat_bytes_def le32_inj le64_inj)

interpretation config_wire: wire_format config_bytes 28
  by unfold_locales (auto simp: config_bytes_def le_f32_inj le32_inj le16_inj)

interpretation report_wire: wire_format report_bytes 48
proof unfold_locales
  fix p q :: rt_report
  show "length (report_bytes p) = 48"
    by (cases "rr_motor_pwm_us p") (simp add: report_bytes_def)
  show "report_bytes p = report_bytes q \<longleftrightarrow> p = q"
    by (cases "rr_motor_pwm_us p"; cases "rr_motor_pwm_us q")
      (auto simp: report_bytes_def le_f32_inj le32_inj le64_inj le16_inj)
qed

section \<open>The shared region\<close>

text \<open>All bytes zero, as \<open>memset\<close> leaves them; the float zero is the all-zero pattern.\<close>

definition zero_setpoint :: command_setpoint where
  "zero_setpoint = \<lparr>sp_throttle = F32 0, sp_roll_deg = F32 0, sp_pitch_deg = F32 0,
     sp_yaw_rate_dps = F32 0, sp_seq = 0\<rparr>"

definition zero_arm :: command_arm where
  "zero_arm = \<lparr>ca_state = 0, ca_reserved0 = 0, ca_reserved1 = 0, ca_reserved2 = 0\<rparr>"

definition zero_heartbeat :: heartbeat where
  "zero_heartbeat = \<lparr>hb_monotonic_us = 0, hb_seq = 0\<rparr>"

definition zero_emergency :: command_emergency where
  "zero_emergency = \<lparr>ce_reason = 0\<rparr>"

definition zero_config :: flight_config where
  "zero_config = \<lparr>fc_angle_p = F32 0, fc_rate_p = F32 0, fc_rate_i = F32 0, fc_rate_d = F32 0,
     fc_throttle_expo = F32 0, fc_deadzone_us = 0, fc_reserved0 = 0, fc_update_seq = 0\<rparr>"

definition zero_report :: rt_report where
  "zero_report = \<lparr>rr_monotonic_us = 0, rr_roll_deg = F32 0, rr_pitch_deg = F32 0,
     rr_yaw_deg = F32 0, rr_roll_rate_dps = F32 0, rr_pitch_rate_dps = F32 0,
     rr_yaw_rate_dps = F32 0, rr_motor_pwm_us = all_motors 0, rr_status_flags = 0, rr_seq = 0\<rparr>"

definition zero_slot :: "'a \<Rightarrow> 'a shared_slot" where
  "zero_slot p = \<lparr>slot_seq = 0, slot_payload = p, slot_crc = 0\<rparr>"

definition zero_region :: shared_region where
  "zero_region = \<lparr>sr_magic = 0, sr_version = 0, sr_setpoint = zero_slot zero_setpoint,
     sr_arm = zero_slot zero_arm, sr_heartbeat = zero_slot zero_heartbeat,
     sr_emergency = zero_slot zero_emergency, sr_config = zero_slot zero_config,
     sr_rt_report = zero_slot zero_report\<rparr>"

text \<open>The reset both sides perform when magic or version do not match.\<close>

definition region_valid :: "shared_region \<Rightarrow> bool" where
  "region_valid r \<longleftrightarrow> sr_magic r = kSharedRegionMagic \<and> sr_version r = kSharedRegionVersion"

definition fresh_region :: shared_region where
  "fresh_region = zero_region\<lparr>sr_magic := kSharedRegionMagic, sr_version := kSharedRegionVersion\<rparr>"

definition ensure_region :: "shared_region \<Rightarrow> shared_region" where
  "ensure_region r = (if region_valid r then r else fresh_region)"

lemma ensure_region_valid: "region_valid (ensure_region r)"
  by (simp add: ensure_region_def fresh_region_def region_valid_def)

lemma ensure_region_id: "region_valid r \<Longrightarrow> ensure_region r = r"
  by (simp add: ensure_region_def)

lemma zero_slot_unverified: "\<not> verify_slot bytes (zero_slot p)"
  by (simp add: verify_slot_def zero_slot_def)

definition slot_bytes :: "('a \<Rightarrow> u8 list) \<Rightarrow> 'a shared_slot \<Rightarrow> u8 list" where
  "slot_bytes bytes s = le32 (slot_seq s) @ bytes (slot_payload s) @ le32 (slot_crc s)"

definition region_bytes :: "shared_region \<Rightarrow> u8 list" where
  "region_bytes r = le32 (sr_magic r) @ le32 (sr_version r) @
     slot_bytes setpoint_bytes (sr_setpoint r) @ slot_bytes arm_bytes (sr_arm r) @
     slot_bytes heartbeat_bytes (sr_heartbeat r) @ slot_bytes emergency_bytes (sr_emergency r) @
     slot_bytes config_bytes (sr_config r) @ slot_bytes report_bytes (sr_rt_report r)"

section \<open>Pulse widths and the default configuration\<close>

text \<open>The cast is undefined for a NaN, which the clamp lets through: \<open>None\<close>.\<close>

definition clamp_pwm :: "f32 \<Rightarrow> u16 option" where
  "clamp_pwm pwm_us =
    u16_of_f32 (fclamp pwm_us (f32_of_int (uint kPwmMinUs)) (f32_of_int (uint kPwmMaxUs)))"

definition default_flight_config :: flight_config where
  "default_flight_config = \<lparr>fc_angle_p = flit 5 1, fc_rate_p = flit 12 100, fc_rate_i = flit 2 100,
     fc_rate_d = flit 3 1000, fc_throttle_expo = flit 45 100, fc_deadzone_us = 15,
     fc_reserved0 = 0, fc_update_seq = 1\<rparr>"

definition pwm_ok :: "u16 \<Rightarrow> bool" where
  "pwm_ok w \<longleftrightarrow> kPwmMinUs \<le> w \<and> w \<le> kPwmMaxUs"

lemma clamp_pwm_defined:
  assumes "\<not> fis_nan x"
  shows "\<exists>w. clamp_pwm x = Some w \<and> pwm_ok w"
proof -
  let ?c = "fclamp x (f32_of_int 1000) (f32_of_int 2000)"
  have r: "frange (funits 1000) (funits 2000) ?c"
    using fclamp_frange [OF assms, of "f32_of_int 1000" "f32_of_int 2000"] by (simp add: fval_of_int)
  have "fis_fin ?c" by (rule frange_fin [OF r]) simp_all
  moreover have t: "1000 \<le> ftrunc ?c" "ftrunc ?c \<le> 2000"
    using ftrunc_range [OF r] by simp_all
  ultimately have "clamp_pwm x = Some (word_of_int (ftrunc ?c))"
    by (simp add: clamp_pwm_def u16_of_f32_def kPwmMinUs_def kPwmMaxUs_def)
  moreover have "pwm_ok (word_of_int (ftrunc ?c))"
    using t by (simp add: pwm_ok_def kPwmMinUs_def kPwmMaxUs_def word_le_def uint_word_of_int)
  ultimately show ?thesis by blast
qed

lemma clamp_pwm_nan: "fis_nan x \<Longrightarrow> clamp_pwm x = None"
  by (simp add: clamp_pwm_def float_clamp.clamp_unordered u16_of_f32_def fis_nan_def fis_fin_def)

end
