(* ===== verification/Hal.thy ===== *)
theory Hal
  imports Protocol
begin

text \<open>
  \<open>rt_core/hal_impl.cpp\<close>: the HAL entry points and the board functions below them. A board is a
  record of functions over the world \<open>'w\<close> (the hardware and every object in memory); the weak
  fail-safe stubs of \<open>hal_impl.cpp\<close> are one such record, the SG2002 port of theory \<open>BoardPort\<close>
  another. A buffer argument is \<open>None\<close> for a null pointer.
\<close>

record 'w board =
  bd_i2c_init :: "u8 \<Rightarrow> u32 \<Rightarrow> 'w \<Rightarrow> int \<times> 'w"
  bd_i2c_write :: "u8 \<Rightarrow> u8 \<Rightarrow> u8 list \<Rightarrow> 'w \<Rightarrow> int \<times> 'w"
  bd_i2c_read :: "u8 \<Rightarrow> u8 \<Rightarrow> nat \<Rightarrow> 'w \<Rightarrow> (int \<times> u8 list) \<times> 'w"
  bd_pwm_init :: "u32 \<Rightarrow> u32 \<Rightarrow> 'w \<Rightarrow> int \<times> 'w"
  bd_pwm_set_duty :: "u32 \<Rightarrow> u32 \<Rightarrow> 'w \<Rightarrow> int \<times> 'w"
  bd_pwm_enable :: "u32 \<Rightarrow> bool \<Rightarrow> 'w \<Rightarrow> int \<times> 'w"
  bd_uart_init :: "u8 \<Rightarrow> u32 \<Rightarrow> 'w \<Rightarrow> int \<times> 'w"
  bd_uart_read :: "u8 \<Rightarrow> nat \<Rightarrow> 'w \<Rightarrow> u8 list \<times> 'w"
  bd_uart_write :: "u8 \<Rightarrow> u8 list \<Rightarrow> 'w \<Rightarrow> nat \<times> 'w"
  bd_micros :: "'w \<Rightarrow> u64 \<times> 'w"
  bd_tick_rate :: u32
  bd_tick_count :: "'w \<Rightarrow> u32 \<times> 'w"
  bd_delay_until :: "u32 \<Rightarrow> u32 \<Rightarrow> 'w \<Rightarrow> u32 \<times> 'w"

section \<open>The weak stubs\<close>

definition stub_board :: "'w board" where
  "stub_board = \<lparr>
     bd_i2c_init = (\<lambda>_ _ w. (- 1, w)),
     bd_i2c_write = (\<lambda>_ _ _ w. (- 1, w)),
     bd_i2c_read = (\<lambda>_ _ _ w. ((- 1, []), w)),
     bd_pwm_init = (\<lambda>_ _ w. (- 1, w)),
     bd_pwm_set_duty = (\<lambda>_ _ w. (- 1, w)),
     bd_pwm_enable = (\<lambda>_ _ w. (- 1, w)),
     bd_uart_init = (\<lambda>_ _ w. (- 1, w)),
     bd_uart_read = (\<lambda>_ _ w. ([], w)),
     bd_uart_write = (\<lambda>_ _ w. (0, w)),
     bd_micros = (\<lambda>w. (0, w)),
     bd_tick_rate = 1000,
     bd_tick_count = (\<lambda>w. (0, w)),
     bd_delay_until = (\<lambda>wake period w. (wake + period, w))\<rparr>"

section \<open>Ticks\<close>

definition usToTicksCeil :: "'w board \<Rightarrow> u32 \<Rightarrow> u32" where
  "usToTicksCeil B duration_us =
    (let ticks = (ucast duration_us * ucast (bd_tick_rate B) + 999999 :: u64) div 1000000
     in ucast (max ticks 1))"

definition hal_micros :: "'w board \<Rightarrow> 'w \<Rightarrow> u64 \<times> 'w" where
  "hal_micros B w = bd_micros B w"

definition hal_time_us :: "'w board \<Rightarrow> 'w \<Rightarrow> u64 \<times> 'w" where
  "hal_time_us B w = hal_micros B w"

definition hal_rtos_tick_count :: "'w board \<Rightarrow> 'w \<Rightarrow> u32 \<times> 'w" where
  "hal_rtos_tick_count B w = bd_tick_count B w"

definition hal_rtos_us_to_ticks :: "'w board \<Rightarrow> u32 \<Rightarrow> u32" where
  "hal_rtos_us_to_ticks B duration_us = usToTicksCeil B duration_us"

definition hal_rtos_delay_until :: "'w board \<Rightarrow> u32 option \<Rightarrow> u32 \<Rightarrow> 'w \<Rightarrow> u32 option \<times> 'w" where
  "hal_rtos_delay_until B previous_wake_tick period_ticks w =
    (case previous_wake_tick of
       None \<Rightarrow> (None, w)
     | Some wake \<Rightarrow>
         if period_ticks = 0 then (Some wake, w)
         else (let (wake', w) = bd_delay_until B wake period_ticks w in (Some wake', w)))"

definition hal_delay_ms :: "'w board \<Rightarrow> u32 \<Rightarrow> 'w \<Rightarrow> 'w" where
  "hal_delay_ms B delay_ms w =
    (let (wake, w) = bd_tick_count B w
     in snd (bd_delay_until B wake (usToTicksCeil B (delay_ms * 1000)) w))"

section \<open>I2C, PWM and UART\<close>

definition hal_i2c_init :: "'w board \<Rightarrow> u8 \<Rightarrow> u32 \<Rightarrow> 'w \<Rightarrow> int \<times> 'w" where
  "hal_i2c_init B bus_id speed_hz w = bd_i2c_init B bus_id speed_hz w"

definition hal_i2c_write :: "'w board \<Rightarrow> u8 \<Rightarrow> u8 \<Rightarrow> u8 list option \<Rightarrow> 'w \<Rightarrow> int \<times> 'w" where
  "hal_i2c_write B bus_id device_addr data w =
    (case data of
       None \<Rightarrow> (- 1, w)
     | Some bytes \<Rightarrow> if length bytes = 0 then (- 1, w) else bd_i2c_write B bus_id device_addr bytes w)"

definition hal_i2c_read :: "'w board \<Rightarrow> u8 \<Rightarrow> u8 \<Rightarrow> bool \<Rightarrow> nat \<Rightarrow> 'w \<Rightarrow> (int \<times> u8 list) \<times> 'w" where
  "hal_i2c_read B bus_id device_addr have_buffer len w =
    (if \<not> have_buffer \<or> len = 0 then ((- 1, []), w) else bd_i2c_read B bus_id device_addr len w)"

definition hal_pwm_init :: "'w board \<Rightarrow> u32 \<Rightarrow> u32 \<Rightarrow> 'w \<Rightarrow> int \<times> 'w" where
  "hal_pwm_init B channel period_ns w = bd_pwm_init B channel period_ns w"

definition hal_pwm_set_duty :: "'w board \<Rightarrow> u32 \<Rightarrow> u32 \<Rightarrow> 'w \<Rightarrow> int \<times> 'w" where
  "hal_pwm_set_duty B channel high_time_ns w = bd_pwm_set_duty B channel high_time_ns w"

definition hal_pwm_enable :: "'w board \<Rightarrow> u32 \<Rightarrow> bool \<Rightarrow> 'w \<Rightarrow> int \<times> 'w" where
  "hal_pwm_enable B channel enable w = bd_pwm_enable B channel enable w"

definition amp_hal_uart_init :: "'w board \<Rightarrow> u8 \<Rightarrow> u32 \<Rightarrow> 'w \<Rightarrow> int \<times> 'w" where
  "amp_hal_uart_init B uart_id baud_rate w = bd_uart_init B uart_id baud_rate w"

definition amp_hal_uart_read_buffer :: "'w board \<Rightarrow> u8 \<Rightarrow> bool \<Rightarrow> nat \<Rightarrow> 'w \<Rightarrow> u8 list \<times> 'w" where
  "amp_hal_uart_read_buffer B uart_id have_buffer max_bytes w =
    (if \<not> have_buffer \<or> max_bytes = 0 then ([], w) else bd_uart_read B uart_id max_bytes w)"

definition amp_hal_uart_write_buffer :: "'w board \<Rightarrow> u8 \<Rightarrow> u8 list option \<Rightarrow> 'w \<Rightarrow> nat \<times> 'w" where
  "amp_hal_uart_write_buffer B uart_id buffer w =
    (case buffer of
       None \<Rightarrow> (0, w)
     | Some bytes \<Rightarrow> if length bytes = 0 then (0, w) else bd_uart_write B uart_id bytes w)"

lemmas hal_defs = hal_micros_def hal_time_us_def hal_rtos_tick_count_def hal_rtos_us_to_ticks_def
  hal_i2c_init_def hal_i2c_write_def hal_i2c_read_def hal_pwm_init_def hal_pwm_set_duty_def
  hal_pwm_enable_def amp_hal_uart_init_def amp_hal_uart_read_buffer_def amp_hal_uart_write_buffer_def

text \<open>
  The tick conversion never rounds a delay down, and never to zero, as long as the tick count
  fits its 32 bits.
\<close>

lemma usToTicksCeil_unat:
  assumes "unat d * unat (bd_tick_rate B) < 2 ^ 32 * 1000000 - 1000000"
  shows "unat (usToTicksCeil B d) = max 1 ((unat d * unat (bd_tick_rate B) + 999999) div 1000000)"
proof -
  let ?p = "unat d * unat (bd_tick_rate B)"
  let ?t = "(ucast d * ucast (bd_tick_rate B) + 999999 :: u64) div 1000000"
  have p: "?p + 999999 < 2 ^ 64" using assms by simp
  have "unat (ucast d * ucast (bd_tick_rate B) + 999999 :: u64) = ?p + 999999"
    using p by (simp add: unat_word_ariths unat_ucast_up)
  then have t: "unat ?t = (?p + 999999) div 1000000" by (simp add: unat_div)
  have m: "unat (max ?t 1) = max (unat ?t) 1" by (simp add: max_def word_le_nat_alt)
  have "(?p + 999999) div 1000000 < 2 ^ 32" using assms by (simp add: div_less_iff_less_mult)
  then have "max ((?p + 999999) div 1000000) 1 < 2 ^ 32" by simp
  then show ?thesis unfolding usToTicksCeil_def Let_def unat_ucast_mod m t unsigned_1
    by (simp add: max.commute)
qed

end
