(* ===== verification/Sensors.thy ===== *)
theory Sensors
  imports Hal
begin

text \<open>
  \<open>rt_core/Sense.cpp\<close>, \<open>rt_core/Mpu6050I2cBackend.cpp\<close>, \<open>rt_core/Hmc5883lI2cBackend.cpp\<close>: the
  sensor interfaces as records of functions over the world, the two I2C drivers, the simulated
  sensors and the \<open>Sense\<close> facade. A read that returns false leaves the caller's sample alone, so it
  is \<open>None\<close>. A driver's gyro bias lives in the world; \<open>getb\<close> and \<open>putb\<close> access it.
\<close>

type_synonym vec3 = "f32 \<times> f32 \<times> f32"

record raw_imu_sample =
  im_acc_x :: f32
  im_acc_y :: f32
  im_acc_z :: f32
  im_gyro_x_dps :: f32
  im_gyro_y_dps :: f32
  im_gyro_z_dps :: f32
  im_timestamp_us :: u64

record raw_mag_sample =
  mg_x :: f32
  mg_y :: f32
  mg_z :: f32
  mg_timestamp_us :: u64

record 'w imu_backend =
  imu_init :: "'w \<Rightarrow> bool \<times> 'w"
  imu_calibrate :: "nat \<Rightarrow> 'w \<Rightarrow> bool \<times> 'w"
  imu_read :: "'w \<Rightarrow> raw_imu_sample option \<times> 'w"
  imu_gyro_bias_dps :: "'w \<Rightarrow> vec3"

record 'w mag_backend =
  mag_init :: "'w \<Rightarrow> bool \<times> 'w"
  mag_read :: "'w \<Rightarrow> raw_mag_sample option \<times> 'w"

section \<open>Register access of the I2C drivers\<close>

text \<open>
  Both drivers have the same three private functions. A buffer of \<open>n\<close> zero bytes receives what the
  read wrote.
\<close>

definition overlay :: "nat \<Rightarrow> u8 list \<Rightarrow> u8 list" where
  "overlay n bytes = take n (bytes @ replicate n 0)"

definition be16 :: "u8 \<Rightarrow> u8 \<Rightarrow> u16" where
  "be16 high low = push_bit 8 (ucast high) OR ucast low"

definition writeRegister :: "'w board \<Rightarrow> u8 \<Rightarrow> u8 \<Rightarrow> u8 \<Rightarrow> u8 \<Rightarrow> 'w \<Rightarrow> bool \<times> 'w" where
  "writeRegister B bus addr reg v w =
    (let (ret, w) = hal_i2c_write B bus addr (Some [reg, v]) w in (ret = 0, w))"

definition readRegisters :: "'w board \<Rightarrow> u8 \<Rightarrow> u8 \<Rightarrow> u8 \<Rightarrow> nat \<Rightarrow> 'w \<Rightarrow> u8 list option \<times> 'w" where
  "readRegisters B bus addr start_reg len w =
    (if len = 0 then (None, w)
     else
       (let (ret, w) = hal_i2c_write B bus addr (Some [start_reg]) w
        in if ret \<noteq> 0 then (None, w)
           else (let ((ret, bytes), w) = hal_i2c_read B bus addr True len w
                 in if ret = 0 then (Some (overlay len bytes), w) else (None, w))))"

text \<open>A chain of \<open>writeRegister\<close> calls joined by \<open>&&\<close>.\<close>

fun write_all :: "'w board \<Rightarrow> u8 \<Rightarrow> u8 \<Rightarrow> (u8 \<times> u8) list \<Rightarrow> 'w \<Rightarrow> bool \<times> 'w" where
  "write_all B bus addr [] w = (True, w)"
| "write_all B bus addr ((reg, v) # rest) w =
    (let (ok, w) = writeRegister B bus addr reg v w
     in if ok then write_all B bus addr rest w else (False, w))"

lemma length_overlay [simp]: "length (overlay n bytes) = n"
  by (simp add: overlay_def)

lemma overlay_exact: "length bytes = n \<Longrightarrow> overlay n bytes = bytes"
  by (simp add: overlay_def)

section \<open>MPU6050\<close>

record i2c_bus_config =
  ic_bus_id :: u8
  ic_bus_speed_hz :: u32
  ic_mpu_addr :: u8
  ic_mag_addr :: u8
  ic_use_magnetometer :: bool

definition default_i2c_bus_config :: i2c_bus_config where
  "default_i2c_bus_config = \<lparr>ic_bus_id = 0, ic_bus_speed_hz = 400000, ic_mpu_addr = 0x68,
     ic_mag_addr = 0x1E, ic_use_magnetometer = True\<rparr>"

definition kGravity :: f32 where "kGravity = flit 980665 100000"
definition kAccelScaleLsbPerG :: f32 where "kAccelScaleLsbPerG = f32_of_int 8192"
definition kGyroScaleLsbPerDps :: f32 where "kGyroScaleLsbPerDps = flit 655 10"

definition mpu_accel :: "u16 \<Rightarrow> f32" where
  "mpu_accel raw = fmul (fdiv (f32_of_int (sint raw)) kAccelScaleLsbPerG) kGravity"

definition mpu_gyro :: "u16 \<Rightarrow> f32" where
  "mpu_gyro raw = fdiv (f32_of_int (sint raw)) kGyroScaleLsbPerDps"

definition mpu_decode :: "u8 list \<Rightarrow> u64 \<Rightarrow> raw_imu_sample" where
  "mpu_decode raw now =
    \<lparr>im_acc_x = mpu_accel (be16 (raw ! 0) (raw ! 1)), im_acc_y = mpu_accel (be16 (raw ! 2) (raw ! 3)),
     im_acc_z = mpu_accel (be16 (raw ! 4) (raw ! 5)), im_gyro_x_dps = mpu_gyro (be16 (raw ! 8) (raw ! 9)),
     im_gyro_y_dps = mpu_gyro (be16 (raw ! 10) (raw ! 11)),
     im_gyro_z_dps = mpu_gyro (be16 (raw ! 12) (raw ! 13)), im_timestamp_us = now\<rparr>"

definition mpu_init :: "'w board \<Rightarrow> i2c_bus_config \<Rightarrow> 'w \<Rightarrow> bool \<times> 'w" where
  "mpu_init B c w =
    (if ic_use_magnetometer c \<and> ic_mpu_addr c = ic_mag_addr c then (False, w)
     else
       (let (ret, w) = hal_i2c_init B (ic_bus_id c) (ic_bus_speed_hz c) w
        in if ret \<noteq> 0 then (False, w)
           else
             (let (who, w) = readRegisters B (ic_bus_id c) (ic_mpu_addr c) 0x75 1 w
              in case who of
                   None \<Rightarrow> (False, w)
                 | Some who_am_i \<Rightarrow>
                     if who_am_i ! 0 AND 0x7E \<noteq> 0x68 then (False, w)
                     else
                       (let (ok, w) = writeRegister B (ic_bus_id c) (ic_mpu_addr c) 0x6B 0x00 w
                        in if \<not> ok then (False, w)
                           else write_all B (ic_bus_id c) (ic_mpu_addr c)
                                  [(0x19, 0x01), (0x1A, 0x03), (0x1B, 0x08), (0x1C, 0x08)]
                                  (hal_delay_ms B 100 w)))))"

definition mpu_read :: "'w board \<Rightarrow> i2c_bus_config \<Rightarrow> 'w \<Rightarrow> raw_imu_sample option \<times> 'w" where
  "mpu_read B c w =
    (let (bytes, w) = readRegisters B (ic_bus_id c) (ic_mpu_addr c) 0x3B 14 w
     in case bytes of
          None \<Rightarrow> (None, w)
        | Some raw \<Rightarrow> (let (now, w) = hal_micros B w in (Some (mpu_decode raw now), w)))"

text \<open>The calibration loop: samples left, the three sums, the number accepted.\<close>

fun calibrate_loop ::
  "('w \<Rightarrow> raw_imu_sample option \<times> 'w) \<Rightarrow> ('w \<Rightarrow> 'w) \<Rightarrow> nat \<Rightarrow> vec3 \<Rightarrow> nat \<Rightarrow> 'w \<Rightarrow> (vec3 \<times> nat) \<times> 'w" where
  "calibrate_loop rd delay 0 acc accepted w = ((acc, accepted), w)"
| "calibrate_loop rd delay (Suc n) (sx, sy, sz) accepted w =
    (let (r, w) = rd w
     in case r of
          None \<Rightarrow> calibrate_loop rd delay n (sx, sy, sz) accepted (delay w)
        | Some s \<Rightarrow> calibrate_loop rd delay n
            (fadd sx (im_gyro_x_dps s), fadd sy (im_gyro_y_dps s), fadd sz (im_gyro_z_dps s))
            (Suc accepted) (delay w))"

definition mpu_calibrate ::
  "'w board \<Rightarrow> i2c_bus_config \<Rightarrow> (vec3 \<Rightarrow> 'w \<Rightarrow> 'w) \<Rightarrow> nat \<Rightarrow> 'w \<Rightarrow> bool \<times> 'w" where
  "mpu_calibrate B c putb sample_count w =
    (if sample_count = 0 then (False, w)
     else
       (let (((sx, sy, sz), accepted), w) =
              calibrate_loop (mpu_read B c) (hal_delay_ms B 2) sample_count (F32 0, F32 0, F32 0) 0 w
        in if accepted = 0 then (False, w)
           else (let inv_count = fdiv (f32_of_int 1) (f32_of_int (int accepted))
                 in (True, putb (fmul sx inv_count, fmul sy inv_count, fmul sz inv_count) w))))"

definition mpu_backend ::
  "'w board \<Rightarrow> i2c_bus_config \<Rightarrow> ('w \<Rightarrow> vec3) \<Rightarrow> (vec3 \<Rightarrow> 'w \<Rightarrow> 'w) \<Rightarrow> 'w imu_backend" where
  "mpu_backend B c getb putb = \<lparr>imu_init = mpu_init B c, imu_calibrate = mpu_calibrate B c putb,
     imu_read = mpu_read B c, imu_gyro_bias_dps = getb\<rparr>"

section \<open>HMC5883L\<close>

record hmc_config =
  hc_bus_id :: u8
  hc_bus_speed_hz :: u32
  hc_address :: u8

definition default_hmc_config :: hmc_config where
  "default_hmc_config = \<lparr>hc_bus_id = 0, hc_bus_speed_hz = 400000, hc_address = 0x1E\<rparr>"

definition hmc_field :: "u16 \<Rightarrow> f32" where
  "hmc_field raw = fmul (fdiv (f32_of_int (sint raw)) (f32_of_int 1090)) (f32_of_int 100)"

definition hmc_decode :: "u8 list \<Rightarrow> u64 \<Rightarrow> raw_mag_sample" where
  "hmc_decode raw now =
    \<lparr>mg_x = hmc_field (be16 (raw ! 0) (raw ! 1)), mg_y = hmc_field (be16 (raw ! 4) (raw ! 5)),
     mg_z = hmc_field (be16 (raw ! 2) (raw ! 3)), mg_timestamp_us = now\<rparr>"

definition hmc_init :: "'w board \<Rightarrow> hmc_config \<Rightarrow> 'w \<Rightarrow> bool \<times> 'w" where
  "hmc_init B c w =
    (let (ret, w) = hal_i2c_init B (hc_bus_id c) (hc_bus_speed_hz c) w
     in if ret \<noteq> 0 then (False, w)
        else
          (let (id, w) = readRegisters B (hc_bus_id c) (hc_address c) 0x0A 3 w
           in case id of
                None \<Rightarrow> (False, w)
              | Some ident \<Rightarrow>
                  if ident ! 0 \<noteq> 0x48 \<or> ident ! 1 \<noteq> 0x34 \<or> ident ! 2 \<noteq> 0x33 then (False, w)
                  else write_all B (hc_bus_id c) (hc_address c) [(0x00, 0x78), (0x01, 0x20), (0x02, 0x00)] w))"

definition hmc_read :: "'w board \<Rightarrow> hmc_config \<Rightarrow> 'w \<Rightarrow> raw_mag_sample option \<times> 'w" where
  "hmc_read B c w =
    (let (bytes, w) = readRegisters B (hc_bus_id c) (hc_address c) 0x03 6 w
     in case bytes of
          None \<Rightarrow> (None, w)
        | Some raw \<Rightarrow> (let (now, w) = hal_micros B w in (Some (hmc_decode raw now), w)))"

definition hmc_backend :: "'w board \<Rightarrow> hmc_config \<Rightarrow> 'w mag_backend" where
  "hmc_backend B c = \<lparr>mag_init = hmc_init B c, mag_read = hmc_read B c\<rparr>"

section \<open>Simulated sensors\<close>

text \<open>The single-precision sine and cosine of the library are the arguments \<open>fsin\<close>, \<open>fcos\<close>.\<close>

record sim_imu =
  su_bias_dps :: vec3
  su_timestamp_us :: u64
  su_phase :: f32

definition new_sim_imu :: sim_imu where
  "new_sim_imu = \<lparr>su_bias_dps = (flit 25 100, flit (- 21) 100, flit 16 100), su_timestamp_us = 0,
     su_phase = F32 0\<rparr>"

definition sim_imu_init :: "sim_imu \<Rightarrow> bool \<times> sim_imu" where
  "sim_imu_init s = (True, s\<lparr>su_timestamp_us := 0, su_phase := F32 0\<rparr>)"

definition sim_imu_calibrate :: "nat \<Rightarrow> sim_imu \<Rightarrow> bool \<times> sim_imu" where
  "sim_imu_calibrate sample_count s = (if sample_count = 0 then (False, s) else (True, s))"

definition sim_imu_read :: "(f32 \<Rightarrow> f32) \<Rightarrow> (f32 \<Rightarrow> f32) \<Rightarrow> sim_imu \<Rightarrow> raw_imu_sample option \<times> sim_imu" where
  "sim_imu_read fsin fcos s =
    (let kPi = flit 31415926 10000000;
         kRadToDeg = flit 572957795 10000000;
         phase = fadd (su_phase s) (fmul (fmul (fmul (f32_of_int 2) kPi) (flit 65 100)) (flit 25 10000));
         s = s\<lparr>su_phase := phase, su_timestamp_us := su_timestamp_us s + 2500\<rparr>;
         (bx, by, bz) = su_bias_dps s;
         roll = fmul (flit 12 100) (fsin phase);
         pitch = fmul (flit 9 100) (fsin (fmul phase (flit 7 10)));
         yaw_rate = fmul (flit 6 10) (fcos (fmul phase (flit 4 10)));
         gx = fmul (fmul (fmul (fmul (flit 12 100) (flit 65 100)) (f32_of_int 2)) kPi) (fcos phase);
         gy = fmul (fmul (fmul (fmul (flit 9 100) (flit 7 10)) (f32_of_int 2)) kPi)
                (fcos (fmul phase (flit 7 10)))
     in (Some \<lparr>im_acc_x = fmul (fneg kGravity) (fsin pitch),
               im_acc_y = fmul (fmul kGravity (fsin roll)) (fcos pitch),
               im_acc_z = fmul (fmul kGravity (fcos roll)) (fcos pitch),
               im_gyro_x_dps = fadd (fmul gx kRadToDeg) bx,
               im_gyro_y_dps = fadd (fmul gy kRadToDeg) by,
               im_gyro_z_dps = fadd (fmul yaw_rate kRadToDeg) bz,
               im_timestamp_us = su_timestamp_us s\<rparr>, s))"

definition sim_mag_init :: "u64 \<Rightarrow> bool \<times> u64" where
  "sim_mag_init timestamp_us = (True, 0)"

definition sim_mag_read :: "u64 \<Rightarrow> raw_mag_sample option \<times> u64" where
  "sim_mag_read timestamp_us =
    (let timestamp_us = timestamp_us + 20000
     in (Some \<lparr>mg_x = f32_of_int 1, mg_y = F32 0, mg_z = F32 0, mg_timestamp_us = timestamp_us\<rparr>,
         timestamp_us))"

section \<open>Sense\<close>

record 'w sense =
  se_backend :: "'w imu_backend option"
  se_mag_backend :: "'w mag_backend option"
  se_require_mag :: bool
  se_mag_ready :: bool

definition sense_init :: "'w sense \<Rightarrow> 'w \<Rightarrow> (bool \<times> 'w sense) \<times> 'w" where
  "sense_init s w =
    (case se_backend s of
       None \<Rightarrow> ((False, s), w)
     | Some imu \<Rightarrow>
         (let (ok, w) = imu_init imu w;
              (ok, w) = (if ok then imu_calibrate imu 400 w else (False, w))
          in if \<not> ok then ((False, s), w)
             else
               (case se_mag_backend s of
                  None \<Rightarrow> ((True, s), w)
                | Some mag \<Rightarrow>
                    (let (ready, w) = mag_init mag w;
                         s = s\<lparr>se_mag_ready := ready\<rparr>
                     in if \<not> se_mag_ready s \<and> se_require_mag s then ((False, s), w)
                        else ((True, s), w)))))"

definition sense_sample :: "'w sense \<Rightarrow> 'w \<Rightarrow> raw_imu_sample option \<times> 'w" where
  "sense_sample s w = (case se_backend s of None \<Rightarrow> (None, w) | Some imu \<Rightarrow> imu_read imu w)"

definition sense_sampleMag :: "'w sense \<Rightarrow> 'w \<Rightarrow> raw_mag_sample option \<times> 'w" where
  "sense_sampleMag s w =
    (case se_mag_backend s of
       None \<Rightarrow> (None, w)
     | Some mag \<Rightarrow> if \<not> se_mag_ready s then (None, w) else mag_read mag w)"

definition hasMagnetometer :: "'w sense \<Rightarrow> bool" where
  "hasMagnetometer s = se_mag_ready s"

definition sense_gyro_bias_dps :: "'w sense \<Rightarrow> 'w \<Rightarrow> vec3" where
  "sense_gyro_bias_dps s w =
    (case se_backend s of None \<Rightarrow> (F32 0, F32 0, F32 0) | Some imu \<Rightarrow> imu_gyro_bias_dps imu w)"

section \<open>Bounds of the readings\<close>

lemma frange_flit:
  assumes "0 < d" "frepr lo" "frepr hi" "lo * int d \<le> funits n" "funits n \<le> hi * int d"
  shows "frange lo hi (flit n d)"
  using assms by (simp add: flit_def fround_frange)

lemma sint16_bounds: "- 32768 \<le> sint (raw :: u16)" "sint raw \<le> 32767"
  using sint_greater_eq [of raw] sint_less [of raw] by simp_all

lemma raw_value: "fval (f32_of_int (sint (raw :: u16))) = funits (sint raw)"
  "fis_fin (f32_of_int (sint raw))"
proof -
  have "\<bar>sint raw\<bar> < 2 ^ 24" using sint16_bounds [of raw] by auto
  then show "fval (f32_of_int (sint raw)) = funits (sint raw)" "fis_fin (f32_of_int (sint raw))"
    by (rule fval_of_int, rule fin_of_int)
qed

lemma gravity_range: "frange (funits 9) (funits 10) kGravity"
  unfolding kGravity_def by (rule frange_flit [OF _ frepr_funits frepr_funits]) simp_all

lemma gyro_scale_range: "frange (funits 65) (funits 66) kGyroScaleLsbPerDps"
  unfolding kGyroScaleLsbPerDps_def by (rule frange_flit [OF _ frepr_funits frepr_funits]) simp_all

lemma mpu_accel_range: "frange (funits (- 40)) (funits 40) (mpu_accel raw)"
proof -
  let ?q = "fdiv (f32_of_int (sint raw)) kAccelScaleLsbPerG"
  have s: "fval kAccelScaleLsbPerG = funits 8192" "fis_fin kAccelScaleLsbPerG"
    by (simp_all add: kAccelScaleLsbPerG_def fval_of_int fin_of_int)
  have q: "frange (funits (- 4)) (funits 4) ?q"
    using sint16_bounds [of raw]
    by (intro frange_div_pos raw_value s frepr_funits) (simp_all add: s raw_value)
  have qf: "fis_fin ?q" and gf: "fis_fin kGravity"
    by (rule frange_fin [OF q], simp_all) (rule frange_fin [OF gravity_range], simp_all)
  have "\<bar>fval ?q\<bar> \<le> funits 4" "\<bar>fval kGravity\<bar> \<le> funits 10"
    using q gravity_range by (auto simp: frange_def)
  then have "\<bar>fval ?q * fval kGravity\<bar> \<le> funits 4 * funits 10"
    unfolding abs_mult by (intro mult_mono) auto
  then show ?thesis unfolding mpu_accel_def
    by (intro frange_mul qf gf frepr_funits) (auto simp: abs_le_iff)
qed

lemma mpu_gyro_range: "frange (funits (- 505)) (funits 505) (mpu_gyro raw)"
proof -
  have y: "funits 65 \<le> fval kGyroScaleLsbPerDps" "fis_fin kGyroScaleLsbPerDps"
    using gyro_scale_range by (auto simp: frange_def intro: frange_fin [OF gyro_scale_range])
  have a: "\<bar>funits (sint raw)\<bar> \<le> funits 32768" using sint16_bounds [of raw] by auto
  have b: "funits (funits 32768) \<le> funits 505 * fval kGyroScaleLsbPerDps"
    using y(1) by (simp add: mult_le_cancel_left_pos)
  have "\<bar>funits (funits (sint raw))\<bar> \<le> funits 505 * fval kGyroScaleLsbPerDps"
    using a b by (auto simp: abs_mult)
  then show ?thesis unfolding mpu_gyro_def
    using y by (intro frange_div_pos raw_value frepr_funits) (auto simp: raw_value abs_le_iff)
qed

lemma hmc_field_range: "frange (funits (- 3100)) (funits 3100) (hmc_field raw)"
proof -
  let ?q = "fdiv (f32_of_int (sint raw)) (f32_of_int 1090)"
  have s: "fval (f32_of_int 1090) = funits 1090" "fis_fin (f32_of_int 1090)"
    by (simp_all add: fval_of_int fin_of_int)
  have q: "frange (funits (- 31)) (funits 31) ?q"
    using sint16_bounds [of raw]
    by (intro frange_div_pos raw_value s frepr_funits) (simp_all add: s raw_value)
  have qf: "fis_fin ?q" by (rule frange_fin [OF q]) simp_all
  show ?thesis unfolding hmc_field_def
    using q by (intro frange_mul qf frepr_funits fin_of_int) (auto simp: fval_of_int frange_def)
qed

section \<open>Calibration\<close>

text \<open>
  The sums stay below 505 times the number of accepted samples: these bounds are integers, so
  rounding does not cross them. The mean then loses at most a factor of two, because a reciprocal
  is at most the next power of two.
\<close>

definition gyro_bounded :: "int \<Rightarrow> vec3 \<Rightarrow> bool" where
  "gyro_bounded b v \<longleftrightarrow> (case v of (x, y, z) \<Rightarrow>
     frange (funits (- b)) (funits b) x \<and> frange (funits (- b)) (funits b) y \<and>
     frange (funits (- b)) (funits b) z)"

definition imu_gyro :: "raw_imu_sample \<Rightarrow> vec3" where
  "imu_gyro s = (im_gyro_x_dps s, im_gyro_y_dps s, im_gyro_z_dps s)"

lemma frange_fin_small: "frange (funits (- b)) (funits b) x \<Longrightarrow> b < 2 ^ 24 \<Longrightarrow> fis_fin x"
  by (rule frange_fin [of "funits (- b)" "funits b"]) auto

lemma frange_add_int:
  assumes "frange (funits (- a)) (funits a) x" "frange (funits (- b)) (funits b) y" "0 \<le> a" "0 \<le> b"
    "a + b < 2 ^ 24"
  shows "frange (funits (- (a + b))) (funits (a + b)) (fadd x y)"
proof (rule frange_add)
  show "fis_fin x" "fis_fin y" using assms frange_fin_small by auto
  show "frepr (funits (- (a + b)))" "frepr (funits (a + b))"
    by (rule frepr_funits; use assms(3-5) in simp)+
  show "funits (- (a + b)) \<le> fval x + fval y" "fval x + fval y \<le> funits (a + b)"
    using assms(1,2) by (auto simp: frange_def algebra_simps)
qed

lemma calibrate_loop_bounded:
  assumes "\<And>w s w'. rd w = (Some s, w') \<Longrightarrow> gyro_bounded 505 (imu_gyro s)"
    "gyro_bounded (505 * int a) sums0" "a + n \<le> 33000"
    "calibrate_loop rd delay n sums0 a w = ((sums', a'), w')"
  shows "gyro_bounded (505 * int a') sums' \<and> a' \<le> a + n"
  using assms(2-4)
proof (induction n arbitrary: sums0 a w)
  case (Suc n)
  obtain sx sy sz where sums0: "sums0 = (sx, sy, sz)" by (metis prod.collapse)
  obtain r w1 where rd: "rd w = (r, w1)" by (metis prod.collapse)
  show ?case
  proof (cases r)
    case None
    then have "calibrate_loop rd delay n sums0 a (delay w1) = ((sums', a'), w')"
      using Suc.prems(3) rd sums0 by simp
    then show ?thesis using Suc.IH [of a sums0 "delay w1"] Suc.prems(1,2) by simp
  next
    case (Some s)
    let ?sums = "(fadd sx (im_gyro_x_dps s), fadd sy (im_gyro_y_dps s), fadd sz (im_gyro_z_dps s))"
    have small: "505 * int a + 505 < 2 ^ 24" using Suc.prems(2) by simp
    have "gyro_bounded 505 (imu_gyro s)" using assms(1) rd Some by blast
    then have "gyro_bounded (505 * int (Suc a)) ?sums"
      using Suc.prems(1) frange_add_int [where a = "505 * int a" and b = 505] small
      by (simp add: gyro_bounded_def imu_gyro_def sums0 algebra_simps)
    moreover have "calibrate_loop rd delay n ?sums (Suc a) (delay w1) = ((sums', a'), w')"
      using Suc.prems(3) rd Some sums0 by simp
    ultimately show ?thesis using Suc.IH [of "Suc a" ?sums "delay w1"] Suc.prems(2) by simp
  qed
qed simp

lemma mean_range:
  assumes k: "1 \<le> k" "k \<le> 33000" and s: "frange (funits (- (505 * int k))) (funits (505 * int k)) s"
  shows "frange (funits (- 1010)) (funits 1010) (fmul s (fdiv (f32_of_int 1) (f32_of_int (int k))))"
proof -
  define j where "j = floorlog 2 k - 1"
  have j: "2 ^ j \<le> k" "k < 2 * 2 ^ j"
    using floorlog_bounds [of k 2] k(1) floorlog_ge_SucI [of 0 k 2]
    by (cases "floorlog 2 k"; simp add: j_def floorlog_eq_zero_iff)+
  have "2 ^ j \<le> (2::nat) ^ 16" using j(1) k(2) by simp
  then have j16: "j \<le> 16" by (simp only: power_increasing_iff [of 2])
  let ?q = "fdiv (f32_of_int 1) (f32_of_int (int k))"
  have kk: "fval (f32_of_int (int k)) = funits (int k)" "fis_fin (f32_of_int (int k))"
    by (rule fval_of_int fin_of_int; use k in simp)+
  have one: "fval (f32_of_int 1) = funits 1" "fis_fin (f32_of_int 1)"
    by (simp_all add: fval_of_int fin_of_int)
  have split149: "(2::int) ^ 149 = 2 ^ (149 - j) * 2 ^ j"
    using j16 by (simp only: power_add [symmetric]) simp
  have "(2::int) ^ (149 - j) * 2 ^ j * 2 ^ 149 \<le> 2 ^ (149 - j) * int k * 2 ^ 149"
    using j(1) by (intro mult_right_mono mult_left_mono) (simp_all add: numeral_power_le_of_nat_cancel_iff)
  then have "(2::int) ^ 149 * 2 ^ 149 \<le> 2 ^ (149 - j) * (int k * 2 ^ 149)"
    by (simp only: split149 mult.assoc)
  then have q: "frange 0 (1 * 2 ^ (149 - j)) ?q"
    using k by (intro frange_div_pos one kk frepr_0 frepr_mult) (simp_all add: one kk)
  have "(2::int) ^ (149 - j) \<le> 2 ^ 149" by (intro power_increasing) auto
  then have qf: "fis_fin ?q" by (intro frange_fin [OF q]) simp_all
  have sf: "fis_fin s" by (rule frange_fin_small [OF s]) (use k in simp)
  have v: "\<bar>fval s\<bar> \<le> funits (505 * int k)" "\<bar>fval ?q\<bar> \<le> 2 ^ (149 - j)"
    using s q by (auto simp: frange_def)
  have "int k \<le> 2 * 2 ^ j" using j(2) by (metis less_imp_le of_nat_le_iff of_nat_mult of_nat_numeral of_nat_power)
  then have "funits (505 * int k) * 2 ^ (149 - j) \<le> funits (505 * (2 * 2 ^ j)) * 2 ^ (149 - j)"
    by (intro mult_right_mono) auto
  also have "\<dots> = funits (funits 1010)"
    using split149 by (simp add: algebra_simps)
  finally have "\<bar>fval s * fval ?q\<bar> \<le> funits (funits 1010)"
    using v mult_mono [OF v] by (simp add: abs_mult)
  then show ?thesis by (intro frange_mul sf qf frepr_funits) (auto simp: abs_le_iff)
qed

lemma mpu_read_gyro: "mpu_read B c w = (Some s, w') \<Longrightarrow> gyro_bounded 505 (imu_gyro s)"
  by (auto simp: mpu_read_def Let_def mpu_decode_def imu_gyro_def gyro_bounded_def
      intro: mpu_gyro_range [simplified] split: prod.splits option.splits)

section \<open>Properties\<close>

text \<open>every sample the inertial sensor driver delivers is finite and bounded, whatever bytes
  the bus returned: accelerations within 40 m/s^2, rates within 505 degrees per second.\<close>

theorem imu_sample_bounded:
  assumes "mpu_read B c w = (Some s, w')"
  shows "frange (funits (- 40)) (funits 40) (im_acc_x s) \<and> frange (funits (- 40)) (funits 40) (im_acc_y s) \<and>
    frange (funits (- 40)) (funits 40) (im_acc_z s) \<and> gyro_bounded 505 (imu_gyro s)"
proof -
  obtain raw now where "s = mpu_decode raw now"
    using assms by (auto simp: mpu_read_def Let_def split: prod.splits option.splits)
  then show ?thesis using mpu_read_gyro [OF assms] mpu_accel_range by (simp add: mpu_decode_def)
qed

text \<open>calibration stores finite biases of at most 1010 degrees per second, for any number of
  samples up to 33000 (the program asks for 400); without one accepted sample it reports failure and
  stores nothing.\<close>

theorem calibrated_bias_bounded:
  assumes "n \<le> 33000"
  shows "\<exists>w1. mpu_calibrate B c putb n w = (False, w1) \<or>
    (\<exists>b. gyro_bounded 1010 b \<and> mpu_calibrate B c putb n w = (True, putb b w1))"
proof -
  obtain total k w1 where loop: "calibrate_loop (mpu_read B c) (hal_delay_ms B 2) n (F32 0, F32 0, F32 0) 0 w =
      ((total, k), w1)" by (metis prod.collapse)
  have z: "frange 0 0 (F32 0)"
    by (simp add: frange_def fis_nan_def fval_def fmag_def fsign_def inf_mag_def)
  have "gyro_bounded (505 * int k) total \<and> k \<le> 0 + n"
    using z assms
    by (intro calibrate_loop_bounded [OF mpu_read_gyro _ _ loop]) (auto simp: gyro_bounded_def)
  moreover obtain x y zz where "total = (x, y, zz)" by (metis prod.collapse)
  ultimately show ?thesis using loop assms mean_range [of k]
    by (cases "n = 0"; cases "k = 0")
      (auto simp: mpu_calibrate_def Let_def gyro_bounded_def intro!: exI [of _ w1])
qed

text \<open>the sensor facade: after a successful \<open>init\<close> that requires a magnetometer it is ready,
  and a magnetometer that did not initialise is never read.\<close>

theorem sense_mag_ready:
  assumes "sense_init s w = ((True, s'), w')"
  shows "(se_require_mag s \<and> se_mag_backend s \<noteq> None \<longrightarrow> hasMagnetometer s') \<and>
    (\<not> hasMagnetometer s' \<longrightarrow> sense_sampleMag s' v = (None, v))"
  using assms
  by (auto simp: sense_init_def sense_sampleMag_def hasMagnetometer_def Let_def
      split: option.splits prod.splits if_splits)

section \<open>Witnesses\<close>

text \<open>A board whose I2C answers every read with the same byte.\<close>

definition echo_board :: "u8 \<Rightarrow> u64 board" where
  "echo_board b = stub_board\<lparr>bd_i2c_init := \<lambda>_ _ w. (0, w), bd_i2c_write := \<lambda>_ _ _ w. (0, w),
     bd_i2c_read := \<lambda>_ _ n w. ((0, replicate n b), w)\<rparr>"

lemma echo_read: "mpu_read (echo_board b) default_i2c_bus_config w =
    (Some (mpu_decode (overlay 14 (replicate 14 b)) 0), w)"
  by (simp add: mpu_read_def readRegisters_def echo_board_def stub_board_def hal_defs Let_def)

theorem imu_sample_bounded_witness:
  "gyro_bounded 505 (imu_gyro (mpu_decode (overlay 14 (replicate 14 0x7F)) 0))"
  using imu_sample_bounded [OF echo_read] by blast

theorem calibrated_bias_bounded_witness:
  "\<exists>w1. mpu_calibrate (echo_board 1) default_i2c_bus_config (\<lambda>_ w. w) 400 0 = (False, w1) \<or>
    (\<exists>b. gyro_bounded 1010 b \<and>
       mpu_calibrate (echo_board 1) default_i2c_bus_config (\<lambda>_ w. w) 400 0 = (True, w1))"
  by (rule calibrated_bias_bounded) simp

definition sample_sense :: "u64 sense" where
  "sample_sense = \<lparr>se_backend = Some \<lparr>imu_init = (\<lambda>w. (True, w)), imu_calibrate = (\<lambda>_ w. (True, w)),
       imu_read = (\<lambda>w. (None, w)), imu_gyro_bias_dps = (\<lambda>_. (F32 0, F32 0, F32 0))\<rparr>,
     se_mag_backend = Some \<lparr>mag_init = (\<lambda>w. (True, w)), mag_read = (\<lambda>w. (None, w))\<rparr>,
     se_require_mag = True, se_mag_ready = False\<rparr>"

theorem sense_mag_ready_witness: "hasMagnetometer (snd (fst (sense_init sample_sense 0)))"
proof -
  have "sense_init sample_sense 0 = ((True, snd (fst (sense_init sample_sense 0))), 0)"
    by (simp add: sense_init_def sample_sense_def Let_def)
  from sense_mag_ready [OF this] show ?thesis by (simp add: sample_sense_def)
qed

end
