(* ===== verification/BoardPort.thy ===== *)
theory BoardPort
  imports Hal
begin

text \<open>
  \<open>rt_core/Sg2002CsiBoardPort.cpp\<close>: the board functions of the SG2002. The vendor SDK and the
  memory-mapped UART registers are a record of functions over the hardware state \<open>'h\<close>; the file's
  global arrays are the record \<open>port\<close>. The two clock rates are the defaults of the source. The
  functions the port does not define stay those of the board it is linked over.
\<close>

section \<open>Constants and the SDK\<close>

definition kMaxI2cBus :: nat where "kMaxI2cBus = 4"
definition kMaxI2cAddr :: nat where "kMaxI2cAddr = 128"
definition kMaxPwmChannel :: nat where "kMaxPwmChannel = 16"
definition kPwmChannelsPerBank :: u32 where "kPwmChannelsPerBank = 4"
definition kDefaultUartClockHz :: u32 where "kDefaultUartClockHz = 25000000"
definition kUartRbrThrOffset :: u64 where "kUartRbrThrOffset = 0x00"
definition kUartLsrOffset :: u64 where "kUartLsrOffset = 0x14"
definition kUartLsrDataReady :: u32 where "kUartLsrDataReady = push_bit 0 1"
definition kUartLsrTxEmpty :: u32 where "kUartLsrTxEmpty = push_bit 5 1"
definition kCoreTimerHz :: u64 where "kCoreTimerHz = 25000000"
definition kPwmClockHz :: u64 where "kPwmClockHz = 100000000"

lemmas port_consts = kMaxI2cBus_def kMaxI2cAddr_def kMaxPwmChannel_def kPwmChannelsPerBank_def
  kCoreTimerHz_def kPwmClockHz_def

record pwm_configuration =
  pc_pwm_id :: u8
  pc_channel :: u32
  pc_period :: u32
  pc_pulse :: u32

record 'h sdk =
  sdk_i2c_init :: "u8 \<Rightarrow> 'h \<Rightarrow> 'h"
  sdk_i2c_write :: "u8 \<Rightarrow> u8 \<Rightarrow> u16 \<Rightarrow> u16 \<Rightarrow> u8 list \<Rightarrow> u16 \<Rightarrow> 'h \<Rightarrow> int \<times> 'h"
  sdk_i2c_read :: "u8 \<Rightarrow> u8 \<Rightarrow> u16 \<Rightarrow> u16 \<Rightarrow> u16 \<Rightarrow> 'h \<Rightarrow> (int \<times> u8 list) \<times> 'h"
  sdk_coret :: "'h \<Rightarrow> u64 \<times> 'h"
  sdk_pwm_init :: "pwm_configuration \<Rightarrow> 'h \<Rightarrow> 'h"
  sdk_pwm_set_output_cfg :: "pwm_configuration \<Rightarrow> 'h \<Rightarrow> 'h"
  sdk_hal_uart_init :: "int \<Rightarrow> int \<Rightarrow> int \<Rightarrow> 'h \<Rightarrow> 'h"
  mmioRead32 :: "u64 \<Rightarrow> 'h \<Rightarrow> u32 \<times> 'h"
  mmioWrite32 :: "u64 \<Rightarrow> u32 \<Rightarrow> 'h \<Rightarrow> 'h"

record i2c_cursor =
  cu_reg :: u16
  cu_valid :: bool

record 'h port =
  pt_i2c_ready :: "u8 \<Rightarrow> bool"
  pt_i2c_cursor :: "u8 \<Rightarrow> u8 \<Rightarrow> i2c_cursor"
  pt_pwm_period_ns :: "u32 \<Rightarrow> u32"
  pt_pwm_ready :: "u32 \<Rightarrow> bool"
  pt_hw :: 'h

definition new_port :: "'h \<Rightarrow> 'h port" where
  "new_port h = \<lparr>pt_i2c_ready = (\<lambda>_. False), pt_i2c_cursor = (\<lambda>_ _. \<lparr>cu_reg = 0, cu_valid = False\<rparr>),
     pt_pwm_period_ns = (\<lambda>_. 0), pt_pwm_ready = (\<lambda>_. False), pt_hw = h\<rparr>"

section \<open>I2C\<close>

definition rememberI2cRegister :: "u8 \<Rightarrow> u8 \<Rightarrow> u16 \<Rightarrow> 'h port \<Rightarrow> bool \<times> 'h port" where
  "rememberI2cRegister bus_id device_addr reg p =
    (if kMaxI2cBus \<le> unat bus_id \<or> kMaxI2cAddr \<le> unat device_addr then (False, p)
     else (True, p\<lparr>pt_i2c_cursor := (pt_i2c_cursor p)(bus_id :=
             ((pt_i2c_cursor p bus_id)(device_addr := \<lparr>cu_reg = reg, cu_valid = True\<rparr>)))\<rparr>))"

definition getI2cRegister :: "u8 \<Rightarrow> u8 \<Rightarrow> 'h port \<Rightarrow> u16 option" where
  "getI2cRegister bus_id device_addr p =
    (if kMaxI2cBus \<le> unat bus_id \<or> kMaxI2cAddr \<le> unat device_addr then None
     else (let cursor = pt_i2c_cursor p bus_id device_addr
           in if \<not> cu_valid cursor then None else Some (cu_reg cursor)))"

definition port_i2c_init :: "'h sdk \<Rightarrow> u8 \<Rightarrow> u32 \<Rightarrow> 'h port \<Rightarrow> int \<times> 'h port" where
  "port_i2c_init S bus_id speed_hz p =
    (if kMaxI2cBus \<le> unat bus_id then (- 1, p)
     else if \<not> pt_i2c_ready p bus_id then
       (0, p\<lparr>pt_hw := sdk_i2c_init S bus_id (pt_hw p),
             pt_i2c_ready := (pt_i2c_ready p)(bus_id := True)\<rparr>)
     else (0, p))"

definition port_i2c_write :: "'h sdk \<Rightarrow> u8 \<Rightarrow> u8 \<Rightarrow> u8 list \<Rightarrow> 'h port \<Rightarrow> int \<times> 'h port" where
  "port_i2c_write S bus_id device_addr data p =
    (if kMaxI2cBus \<le> unat bus_id \<or> \<not> pt_i2c_ready p bus_id \<or> length data = 0 then (- 1, p)
     else if length data = 1 then
       (let (ok, p) = rememberI2cRegister bus_id device_addr (ucast (data ! 0)) p
        in (if ok then 0 else - 1, p))
     else
       (let reg = ucast (data ! 0);
            payload = drop 1 data;
            payload_len = word_of_nat (length data - 1);
            (ret, h) = sdk_i2c_write S bus_id device_addr reg 1 payload payload_len (pt_hw p);
            p = p\<lparr>pt_hw := h\<rparr>;
            p = (if ret = 0 then snd (rememberI2cRegister bus_id device_addr (reg + payload_len) p) else p)
        in (if ret = 0 then 0 else - 1, p)))"

definition port_i2c_read :: "'h sdk \<Rightarrow> u8 \<Rightarrow> u8 \<Rightarrow> nat \<Rightarrow> 'h port \<Rightarrow> (int \<times> u8 list) \<times> 'h port" where
  "port_i2c_read S bus_id device_addr len p =
    (if kMaxI2cBus \<le> unat bus_id \<or> \<not> pt_i2c_ready p bus_id \<or> len = 0 then ((- 1, []), p)
     else
       (case getI2cRegister bus_id device_addr p of
          None \<Rightarrow> ((- 1, []), p)
        | Some reg \<Rightarrow>
            (let ((ret, bytes), h) = sdk_i2c_read S bus_id device_addr reg 1 (word_of_nat len) (pt_hw p);
                 p = p\<lparr>pt_hw := h\<rparr>;
                 p = (if ret = 0
                      then snd (rememberI2cRegister bus_id device_addr (reg + word_of_nat len) p) else p)
             in ((if ret = 0 then 0 else - 1, bytes), p))))"

section \<open>Clock and PWM\<close>

definition port_micros :: "'h sdk \<Rightarrow> 'h port \<Rightarrow> u64 \<times> 'h port" where
  "port_micros S p =
    (let (ticks, h) = sdk_coret S (pt_hw p) in ((ticks * 1000000) div kCoreTimerHz, p\<lparr>pt_hw := h\<rparr>))"

definition nsToPwmTicks :: "u32 \<Rightarrow> u32" where
  "nsToPwmTicks duration_ns =
    (let ticks = (ucast duration_ns * kPwmClockHz + 999999999) div 1000000000
     in ucast (if ticks = 0 then 1 else ticks))"

definition pwm_cfg :: "u32 \<Rightarrow> u32 \<Rightarrow> u32 \<Rightarrow> pwm_configuration" where
  "pwm_cfg channel period pulse =
    \<lparr>pc_pwm_id = ucast (channel div kPwmChannelsPerBank), pc_channel = channel mod kPwmChannelsPerBank,
     pc_period = period, pc_pulse = pulse\<rparr>"

definition port_pwm_init :: "'h sdk \<Rightarrow> u32 \<Rightarrow> u32 \<Rightarrow> 'h port \<Rightarrow> int \<times> 'h port" where
  "port_pwm_init S channel period_ns p =
    (if kMaxPwmChannel \<le> unat channel then (- 1, p)
     else (let p = p\<lparr>pt_pwm_period_ns := (pt_pwm_period_ns p)(channel := period_ns),
                     pt_pwm_ready := (pt_pwm_ready p)(channel := True)\<rparr>;
               cfg = pwm_cfg channel (nsToPwmTicks period_ns) (nsToPwmTicks 1000000)
           in (0, p\<lparr>pt_hw := sdk_pwm_init S cfg (pt_hw p)\<rparr>)))"

definition port_pwm_set_duty :: "'h sdk \<Rightarrow> u32 \<Rightarrow> u32 \<Rightarrow> 'h port \<Rightarrow> int \<times> 'h port" where
  "port_pwm_set_duty S channel high_time_ns p =
    (if kMaxPwmChannel \<le> unat channel \<or> \<not> pt_pwm_ready p channel then (- 1, p)
     else (let cfg = pwm_cfg channel (nsToPwmTicks (pt_pwm_period_ns p channel)) (nsToPwmTicks high_time_ns)
           in (0, p\<lparr>pt_hw := sdk_pwm_set_output_cfg S cfg (pt_hw p)\<rparr>)))"

definition port_pwm_enable :: "'h sdk \<Rightarrow> u32 \<Rightarrow> bool \<Rightarrow> 'h port \<Rightarrow> int \<times> 'h port" where
  "port_pwm_enable S channel enable p =
    (if kMaxPwmChannel \<le> unat channel \<or> \<not> pt_pwm_ready p channel then (- 1, p)
     else if \<not> enable then
       (let cfg = pwm_cfg channel (nsToPwmTicks (pt_pwm_period_ns p channel)) 0
        in (0, p\<lparr>pt_hw := sdk_pwm_set_output_cfg S cfg (pt_hw p)\<rparr>))
     else (0, p))"

section \<open>UART\<close>

definition uartBase :: "u8 \<Rightarrow> u64" where
  "uartBase uart_id =
    (if uart_id = 0 then 0x04140000 else if uart_id = 1 then 0x04150000
     else if uart_id = 2 then 0x04160000 else if uart_id = 3 then 0x04170000 else 0)"

definition uartReadLsr :: "'h sdk \<Rightarrow> u64 \<Rightarrow> 'h \<Rightarrow> u32 \<times> 'h" where
  "uartReadLsr S base h = mmioRead32 S (base + kUartLsrOffset) h"

definition uartReadRbr :: "'h sdk \<Rightarrow> u64 \<Rightarrow> 'h \<Rightarrow> u8 \<times> 'h" where
  "uartReadRbr S base h =
    (let (v, h) = mmioRead32 S (base + kUartRbrThrOffset) h in (ucast (v AND 0xFF), h))"

definition uartWriteThr :: "'h sdk \<Rightarrow> u64 \<Rightarrow> u8 \<Rightarrow> 'h \<Rightarrow> 'h" where
  "uartWriteThr S base ch h = mmioWrite32 S (base + kUartRbrThrOffset) (ucast ch) h"

text \<open>The spin loop with the number of polls left; the source starts at 200000.\<close>

fun spinTxReady :: "'h sdk \<Rightarrow> u64 \<Rightarrow> nat \<Rightarrow> 'h \<Rightarrow> bool \<times> 'h" where
  "spinTxReady S base 0 h = (False, h)"
| "spinTxReady S base (Suc n) h =
    (let (lsr, h) = uartReadLsr S base h
     in if lsr AND kUartLsrTxEmpty \<noteq> 0 then (True, h) else spinTxReady S base n h)"

definition waitUartTxReady :: "'h sdk \<Rightarrow> u64 \<Rightarrow> 'h \<Rightarrow> bool \<times> 'h" where
  "waitUartTxReady S base h = spinTxReady S base 200000 h"

fun uart_read_loop :: "'h sdk \<Rightarrow> u64 \<Rightarrow> nat \<Rightarrow> 'h \<Rightarrow> u8 list \<times> 'h" where
  "uart_read_loop S base 0 h = ([], h)"
| "uart_read_loop S base (Suc room) h =
    (let (lsr, h) = uartReadLsr S base h
     in if lsr AND kUartLsrDataReady \<noteq> 0 then
          (let (byte, h) = uartReadRbr S base h;
               (rest, h) = uart_read_loop S base room h
           in (byte # rest, h))
        else ([], h))"

fun uart_write_loop :: "'h sdk \<Rightarrow> u64 \<Rightarrow> u8 list \<Rightarrow> nat \<Rightarrow> 'h \<Rightarrow> nat \<times> 'h" where
  "uart_write_loop S base [] index h = (index, h)"
| "uart_write_loop S base (b # bs) index h =
    (let (ready, h) = waitUartTxReady S base h
     in if \<not> ready then (index, h)
        else uart_write_loop S base bs (Suc index) (uartWriteThr S base b h))"

definition port_uart_init :: "'h sdk \<Rightarrow> u8 \<Rightarrow> u32 \<Rightarrow> 'h port \<Rightarrow> int \<times> 'h port" where
  "port_uart_init S uart_id baud_rate p =
    (if uartBase uart_id = 0 then (- 1, p)
     else (0, p\<lparr>pt_hw := sdk_hal_uart_init S (uint uart_id) (sint baud_rate) (uint kDefaultUartClockHz)
                 (pt_hw p)\<rparr>))"

definition port_uart_read :: "'h sdk \<Rightarrow> u8 \<Rightarrow> nat \<Rightarrow> 'h port \<Rightarrow> u8 list \<times> 'h port" where
  "port_uart_read S uart_id max_bytes p =
    (if max_bytes = 0 then ([], p)
     else (let base = uartBase uart_id
           in if base = 0 then ([], p)
              else (let (bytes, h) = uart_read_loop S base max_bytes (pt_hw p)
                    in (bytes, p\<lparr>pt_hw := h\<rparr>))))"

definition port_uart_write :: "'h sdk \<Rightarrow> u8 \<Rightarrow> u8 list \<Rightarrow> 'h port \<Rightarrow> nat \<times> 'h port" where
  "port_uart_write S uart_id buffer p =
    (if length buffer = 0 then (0, p)
     else (let base = uartBase uart_id
           in if base = 0 then (0, p)
              else (let (n, h) = uart_write_loop S base buffer 0 (pt_hw p) in (n, p\<lparr>pt_hw := h\<rparr>))))"

definition port_board :: "'h sdk \<Rightarrow> 'h port board \<Rightarrow> 'h port board" where
  "port_board S B = B\<lparr>
     bd_i2c_init := port_i2c_init S, bd_i2c_write := port_i2c_write S, bd_i2c_read := port_i2c_read S,
     bd_pwm_init := port_pwm_init S, bd_pwm_set_duty := port_pwm_set_duty S,
     bd_pwm_enable := port_pwm_enable S, bd_uart_init := port_uart_init S,
     bd_uart_read := port_uart_read S, bd_uart_write := port_uart_write S,
     bd_micros := port_micros S\<rparr>"

lemma port_board_sel [simp]:
  "bd_i2c_init (port_board S B) = port_i2c_init S" "bd_i2c_write (port_board S B) = port_i2c_write S"
  "bd_i2c_read (port_board S B) = port_i2c_read S" "bd_pwm_init (port_board S B) = port_pwm_init S"
  "bd_pwm_set_duty (port_board S B) = port_pwm_set_duty S"
  "bd_pwm_enable (port_board S B) = port_pwm_enable S" "bd_uart_init (port_board S B) = port_uart_init S"
  "bd_uart_read (port_board S B) = port_uart_read S" "bd_uart_write (port_board S B) = port_uart_write S"
  "bd_micros (port_board S B) = port_micros S"
  by (simp_all add: port_board_def)

section \<open>Register access\<close>

text \<open>
  The HAL has no addressed read: a driver writes the register number and reads. The cursor turns
  the pair into one addressed SDK read. \<open>i2c_addressable\<close> is what the guards of the port ask.
\<close>

definition i2c_addressable :: "u8 \<Rightarrow> u8 \<Rightarrow> 'h port \<Rightarrow> bool" where
  "i2c_addressable bus dev p \<longleftrightarrow> unat bus < 4 \<and> unat dev < 128 \<and> pt_i2c_ready p bus"

definition with_cursor :: "u8 \<Rightarrow> u8 \<Rightarrow> u16 \<Rightarrow> 'h port \<Rightarrow> 'h port" where
  "with_cursor bus dev reg p = p\<lparr>pt_i2c_cursor := (pt_i2c_cursor p)(bus :=
     ((pt_i2c_cursor p bus)(dev := \<lparr>cu_reg = reg, cu_valid = True\<rparr>)))\<rparr>"

lemma with_cursor_twice: "with_cursor bus dev b (with_cursor bus dev a p) = with_cursor bus dev b p"
  by (simp add: with_cursor_def)

lemma with_cursor_hw [simp]:
  "pt_hw (with_cursor b d r p) = pt_hw p"
  "with_cursor b d r' ((with_cursor b d r p)\<lparr>pt_hw := h\<rparr>) = (with_cursor b d r' p)\<lparr>pt_hw := h\<rparr>"
  by (simp_all add: with_cursor_def)

lemma remember_addressable:
  "i2c_addressable bus dev p \<Longrightarrow> rememberI2cRegister bus dev reg p = (True, with_cursor bus dev reg p)"
  by (simp add: rememberI2cRegister_def i2c_addressable_def with_cursor_def port_consts)

lemma addressable_cursor [simp]:
  "i2c_addressable bus dev (with_cursor b d r p) = i2c_addressable bus dev p"
  "i2c_addressable bus dev (p\<lparr>pt_hw := h\<rparr>) = i2c_addressable bus dev p"
  by (simp_all add: i2c_addressable_def with_cursor_def)

lemma write_selects:
  "i2c_addressable bus dev p \<Longrightarrow>
    port_i2c_write S bus dev [reg] p = (0, with_cursor bus dev (ucast reg) p)"
  by (simp add: port_i2c_write_def remember_addressable)
    (simp add: i2c_addressable_def port_consts)

text \<open>selecting a register by a one-byte write and then reading is one addressed read of the
  SDK: its result is the result, only the read touches the hardware, and on success the cursor
  stands behind the bytes read, on failure at the register.\<close>

theorem register_read_is_addressed_read:
  assumes "i2c_addressable bus dev p" "0 < n"
    "sdk_i2c_read S bus dev (ucast reg) 1 (word_of_nat n) (pt_hw p) = ((ret, bytes), h)"
  shows "let (wr, p1) = port_i2c_write S bus dev [reg] p
         in wr = 0 \<and> port_i2c_read S bus dev n p1 =
           ((if ret = 0 then 0 else - 1, bytes),
            (with_cursor bus dev (if ret = 0 then ucast reg + word_of_nat n else ucast reg) p)\<lparr>pt_hw := h\<rparr>)"
proof -
  let ?p1 = "with_cursor bus dev (ucast reg) p"
  have g: "getI2cRegister bus dev ?p1 = Some (ucast reg)"
    using assms(1) by (simp add: getI2cRegister_def i2c_addressable_def with_cursor_def port_consts)
  have r: "rememberI2cRegister bus dev x (?p1\<lparr>pt_hw := h\<rparr>) =
      (True, (with_cursor bus dev x p)\<lparr>pt_hw := h\<rparr>)" for x
    using assms(1) by (simp add: remember_addressable)
  have "kMaxI2cBus > unat bus" "pt_i2c_ready ?p1 bus"
    using assms(1) by (simp_all add: i2c_addressable_def port_consts with_cursor_def)
  then show ?thesis using assms g r
    by (simp add: write_selects port_i2c_read_def Let_def)
qed

section \<open>Pulse widths\<close>

lemma nsToPwmTicks_unat: "unat (nsToPwmTicks d) = max 1 ((unat d + 9) div 10)"
proof -
  have d: "unat d < 2 ^ 32" using unsigned_less [of d] by simp
  let ?t = "(ucast d * kPwmClockHz + 999999999) div 1000000000"
  have "unat (ucast d * kPwmClockHz + 999999999 :: u64) = unat d * 100000000 + 999999999"
    using d by (simp add: unat_word_ariths unat_ucast_up kPwmClockHz_def)
  then have "unat ?t = (unat d * 100000000 + 999999999) div (100000000 * 10)"
    by (simp add: unat_div)
  also have "\<dots> = (unat d + 9) div 10"
    by (simp only: div_mult2_eq)
  finally have t: "unat ?t = (unat d + 9) div 10" .
  have "unat (if ?t = 0 then 1 else ?t) = max 1 ((unat d + 9) div 10)"
    using t by (auto simp: unat_eq_0 [symmetric] simp del: unat_eq_0)
  moreover have "max 1 ((unat d + 9) div 10) < 2 ^ 32" using d by simp
  ultimately show ?thesis by (simp add: nsToPwmTicks_def Let_def unat_ucast_mod)
qed

lemma nsToPwmTicks_mono: "unat a \<le> unat b \<Longrightarrow> unat (nsToPwmTicks a) \<le> unat (nsToPwmTicks b)"
  by (simp add: nsToPwmTicks_unat div_le_mono max.coboundedI1 max.coboundedI2)

text \<open>after a channel has been initialised with a period, setting a duty not above the period
  programs that channel's bank and line with a pulse of at least one tick and at most the period;
  neither tick count wraps.\<close>

theorem duty_within_period:
  assumes "unat channel < 16" "high_ns \<le> period_ns"
  shows "let (i, p1) = port_pwm_init S channel period_ns p; (s, p2) = port_pwm_set_duty S channel high_ns p1
         in i = 0 \<and> s = 0 \<and>
           (\<exists>cfg. pt_hw p2 = sdk_pwm_set_output_cfg S cfg (pt_hw p1) \<and>
              unat (pc_pwm_id cfg) = unat channel div 4 \<and> unat (pc_channel cfg) = unat channel mod 4 \<and>
              1 \<le> unat (pc_pulse cfg) \<and> unat (pc_pulse cfg) \<le> unat (pc_period cfg) \<and>
              unat (pc_pulse cfg) = max 1 ((unat high_ns + 9) div 10) \<and>
              unat (pc_period cfg) = max 1 ((unat period_ns + 9) div 10))"
proof -
  let ?cfg = "pwm_cfg channel (nsToPwmTicks period_ns) (nsToPwmTicks high_ns)"
  have "unat (channel div 4) = unat channel div 4" "unat (channel mod 4) = unat channel mod 4"
    by (simp_all add: unat_div unat_mod)
  then have ids: "unat (pc_pwm_id ?cfg) = unat channel div 4" "unat (pc_channel ?cfg) = unat channel mod 4"
    using assms(1) by (simp_all add: pwm_cfg_def unat_ucast_mod kPwmChannelsPerBank_def)
  have "unat (nsToPwmTicks high_ns) \<le> unat (nsToPwmTicks period_ns)"
    using assms(2) by (intro nsToPwmTicks_mono) (simp add: word_le_nat_alt)
  then have pulse: "1 \<le> unat (pc_pulse ?cfg)" "unat (pc_pulse ?cfg) \<le> unat (pc_period ?cfg)"
    "unat (pc_pulse ?cfg) = max 1 ((unat high_ns + 9) div 10)"
    "unat (pc_period ?cfg) = max 1 ((unat period_ns + 9) div 10)"
    by (simp_all add: pwm_cfg_def nsToPwmTicks_unat)
  show ?thesis using assms(1) ids pulse
    by (auto simp: port_pwm_init_def port_pwm_set_duty_def Let_def kMaxPwmChannel_def
        intro!: exI [of _ ?cfg])
qed

text \<open>a channel that was never initialised is refused, with no access to the hardware.\<close>

theorem duty_before_init_refused:
  assumes "\<not> pt_pwm_ready p channel \<or> 16 \<le> unat channel"
  shows "port_pwm_set_duty S channel high_ns p = (- 1, p) \<and> port_pwm_enable S channel en p = (- 1, p)"
  using assms by (auto simp: port_pwm_set_duty_def port_pwm_enable_def kMaxPwmChannel_def)

section \<open>Time\<close>

text \<open>the microsecond clock is exact, so never runs backwards, as long as the core timer
  stays below 2^64 / 10^6 ticks.\<close>

theorem micros_exact:
  assumes "sdk_coret S (pt_hw p) = (ticks, h)" "unat ticks < 18446744073709"
  shows "unat (fst (port_micros S p)) = unat ticks div 25"
proof -
  have "unat (ticks * 1000000) = unat ticks * 1000000"
    using assms(2) by (simp add: unat_word_ariths)
  then show ?thesis using assms(1)
    by (simp add: port_micros_def kCoreTimerHz_def unat_div div_mult2_eq [of _ 1000000 25, simplified])
qed

text \<open>beyond that bound the product wraps: the reading at tick 18446744073710 is zero, less
  than the reading one tick earlier. At 25 MHz this is eight and a half days of uptime.\<close>

theorem micros_wraps:
  assumes "sdk_coret S (pt_hw p) = (18446744073709, h)" "sdk_coret S (pt_hw q) = (18446744073710, k)"
  shows "fst (port_micros S q) = 0 \<and> fst (port_micros S p) = 737869762948"
  using assms by (simp add: port_micros_def kCoreTimerHz_def)

section \<open>Serial line\<close>

lemma uart_read_loop_length: "length (fst (uart_read_loop S base n h)) \<le> n"
  by (induction S base n h rule: uart_read_loop.induct) (auto simp: Let_def split: prod.splits)

lemma spin_idle:
  assumes "\<And>h. uartReadLsr S base h = (lsr, h)"
  shows "spinTxReady S base n h = (n \<noteq> 0 \<and> lsr AND kUartLsrTxEmpty \<noteq> 0, h)"
  by (induction n) (auto simp: assms)

lemma uart_write_loop_idle:
  assumes "\<And>h. uartReadLsr S base h = (lsr, h)" "lsr AND kUartLsrTxEmpty \<noteq> 0"
  shows "uart_write_loop S base bytes i h = (i + length bytes, fold (uartWriteThr S base) bytes h)"
  using assms(2) by (induction bytes arbitrary: i h) (auto simp: waitUartTxReady_def spin_idle [OF assms(1)])

text \<open>a write sends its bytes in order and reports all of them when the status register
  shows an empty transmitter; when it never does, the spin limit ends the call: nothing is written
  and zero is reported.\<close>

theorem uart_write_reports:
  assumes "\<forall>h. uartReadLsr S (uartBase u) h = (lsr, h)" "uartBase u \<noteq> 0" "bytes \<noteq> []"
  shows "port_uart_write S u bytes p =
    (if lsr AND kUartLsrTxEmpty \<noteq> 0
     then (length bytes, p\<lparr>pt_hw := fold (uartWriteThr S (uartBase u)) bytes (pt_hw p)\<rparr>)
     else (0, p))"
proof -
  have lsr: "\<And>h. uartReadLsr S (uartBase u) h = (lsr, h)" using assms(1) by blast
  show ?thesis
  proof (cases "lsr AND kUartLsrTxEmpty = 0")
    case True
    then show ?thesis using assms(2,3)
      by (cases bytes) (simp_all add: port_uart_write_def Let_def waitUartTxReady_def spin_idle [OF lsr])
  next
    case False
    then show ?thesis using assms(2,3)
      by (simp add: port_uart_write_def Let_def uart_write_loop_idle [OF lsr])
  qed
qed

text \<open>The largest value the clock can show.\<close>

lemma port_micros_bound: "unat (fst (port_micros S p)) \<le> 737869762948"
proof -
  have "unat (x div 25000000 :: u64) \<le> 737869762948" for x
  proof -
    have "unat x < 2 ^ LENGTH(64)" by (rule unsigned_less)
    then show ?thesis by (simp add: unat_div)
  qed
  then show ?thesis by (auto simp: port_micros_def kCoreTimerHz_def split: prod.splits)
qed

section \<open>Witnesses\<close>

text \<open>Hardware whose state is a number: the timer shows it, a transmitted byte is added to it.\<close>

definition bench_sdk :: "u64 sdk" where
  "bench_sdk = \<lparr>sdk_i2c_init = (\<lambda>_ h. h), sdk_i2c_write = (\<lambda>_ _ _ _ _ _ h. (0, h)),
     sdk_i2c_read = (\<lambda>_ _ reg _ n h. ((0, replicate (unat n) (ucast reg)), h)),
     sdk_coret = (\<lambda>h. (h, h)), sdk_pwm_init = (\<lambda>_ h. h),
     sdk_pwm_set_output_cfg = (\<lambda>cfg h. ucast (pc_pulse cfg)), sdk_hal_uart_init = (\<lambda>_ _ _ h. h),
     mmioRead32 = (\<lambda>_ h. (0x20, h)), mmioWrite32 = (\<lambda>_ v h. h + ucast v)\<rparr>"

definition bench_port :: "u64 port" where
  "bench_port = snd (port_i2c_init bench_sdk 0 400000 (new_port 0))"

lemma bench_addressable: "i2c_addressable 0 0x68 bench_port"
  by (simp add: bench_port_def port_i2c_init_def new_port_def i2c_addressable_def kMaxI2cBus_def)

theorem register_read_is_addressed_read_witness:
  "fst (port_i2c_read bench_sdk 0 0x68 1 (snd (port_i2c_write bench_sdk 0 0x68 [0x75] bench_port))) =
    (0, [0x75])"
proof -
  have "sdk_i2c_read bench_sdk 0 0x68 (ucast (0x75 :: u8)) 1 (word_of_nat 1) h = ((0, [0x75]), h)" for h
    by (simp add: bench_sdk_def)
  from register_read_is_addressed_read [OF bench_addressable zero_less_one this] show ?thesis
    unfolding Let_def case_prod_beta by simp
qed

theorem duty_within_period_witness:
  "let (i, p1) = port_pwm_init bench_sdk 7 2500000 (new_port 0);
       (s, p2) = port_pwm_set_duty bench_sdk 7 1000000 p1
   in i = 0 \<and> s = 0 \<and> (\<exists>cfg. pt_hw p2 = sdk_pwm_set_output_cfg bench_sdk cfg (pt_hw p1) \<and>
        unat (pc_pulse cfg) = 100000 \<and> unat (pc_period cfg) = 250000)"
proof -
  have "unat (7 :: u32) < 16" "(1000000 :: u32) \<le> 2500000" by simp_all
  from duty_within_period [OF this, of bench_sdk "new_port 0"] show ?thesis
    unfolding Let_def case_prod_beta by (elim conjE exE) (intro conjI exI; simp?)
qed

theorem duty_before_init_refused_witness:
  "port_pwm_set_duty bench_sdk 7 1000000 (new_port 0) = (- 1, new_port 0)"
  using duty_before_init_refused [of "new_port 0" 7 bench_sdk 1000000 True] by (simp add: new_port_def)

theorem micros_exact_witness: "unat (fst (port_micros bench_sdk (new_port 250))) = 10"
  using micros_exact [of bench_sdk "new_port 250" 250 250] by (simp add: bench_sdk_def new_port_def)

theorem micros_wraps_witness:
  "fst (port_micros bench_sdk (new_port 18446744073710)) < fst (port_micros bench_sdk (new_port 18446744073709))"
  using micros_wraps [of bench_sdk "new_port 18446744073709" 18446744073709 "new_port 18446744073710"
      18446744073710]
  by (simp add: bench_sdk_def new_port_def)

theorem uart_write_reports_witness:
  "fst (port_uart_write bench_sdk 3 [1, 2] (new_port 0)) = 2"
  using uart_write_reports [of bench_sdk 3 "0x20" "[1, 2]" "new_port 0"]
  by (simp add: bench_sdk_def uartReadLsr_def uartBase_def kUartLsrTxEmpty_def)

end
