(* ===== verification/Diagnostics.thy ===== *)
theory Diagnostics
  imports Sensors BoardPort
begin

text \<open>
  \<open>rt_core/SensorDiagnostics.cpp\<close>: the bench tasks that print readings of the sensors and talk to the
  ESP8266. A task is its start, which ends in the endless loop of readings or in \<open>idleForever\<close>, and the
  turns of that loop; the lines it prints are values. The argument \<open>n\<close> of a task is the number of turns
  observed.
\<close>

section \<open>Configuration and output\<close>

definition kDiagI2cBus :: u8 where "kDiagI2cBus = 0"
definition kEspUart :: u8 where "kEspUart = 2"
definition kDiagI2cSpeedHz :: u32 where "kDiagI2cSpeedHz = 400000"
definition kEspBaudRate :: u32 where "kEspBaudRate = 115200"
definition kMpuAddr :: u8 where "kMpuAddr = 0x68"
definition kHmcAddr :: u8 where "kHmcAddr = 0x1E"

lemmas diag_consts = kDiagI2cBus_def kEspUart_def kDiagI2cSpeedHz_def kEspBaudRate_def kMpuAddr_def kHmcAddr_def

definition makeMpuConfig :: i2c_bus_config where
  "makeMpuConfig = \<lparr>ic_bus_id = kDiagI2cBus, ic_bus_speed_hz = kDiagI2cSpeedHz, ic_mpu_addr = kMpuAddr,
     ic_mag_addr = kHmcAddr, ic_use_magnetometer = True\<rparr>"

definition makeHmcConfig :: hmc_config where
  "makeHmcConfig = \<lparr>hc_bus_id = kDiagI2cBus, hc_bus_speed_hz = kDiagI2cSpeedHz, hc_address = kHmcAddr\<rparr>"

datatype diag_line =
    MpuInitFailed | MpuCalibrationFailed | MpuReadFailed | MpuReading raw_imu_sample
  | HmcInitFailed | HmcReadFailed | HmcReading raw_mag_sample
  | SensorsAre bool bool
  | EspInitFailed | EspTx string nat | EspRx "u8 list"

text \<open>\<open>idleForever\<close> by its turns, and the lines of \<open>n\<close> turns of a loop.\<close>

definition idle_turn :: "'w board \<Rightarrow> 'w \<Rightarrow> diag_line list \<times> 'w" where
  "idle_turn B w = ([], hal_delay_ms B 1000 w)"

fun turns :: "nat \<Rightarrow> ('w \<Rightarrow> diag_line list \<times> 'w) \<Rightarrow> 'w \<Rightarrow> diag_line list \<times> 'w" where
  "turns 0 turn w = ([], w)"
| "turns (Suc n) turn w = (let (out, w) = turn w; (rest, w) = turns n turn w in (out @ rest, w))"

section \<open>The sensor tasks\<close>

definition mpu_probe_start :: "'w board \<Rightarrow> (vec3 \<Rightarrow> 'w \<Rightarrow> 'w) \<Rightarrow> 'w \<Rightarrow> (bool \<times> diag_line list) \<times> 'w" where
  "mpu_probe_start B putb w =
    (let (ok, w) = mpu_init B makeMpuConfig w
     in if \<not> ok then ((False, [MpuInitFailed]), w)
        else (let (ok, w) = mpu_calibrate B makeMpuConfig putb 200 w
              in if \<not> ok then ((False, [MpuCalibrationFailed]), w) else ((True, []), w)))"

definition mpu_probe_turn :: "'w board \<Rightarrow> 'w \<Rightarrow> diag_line list \<times> 'w" where
  "mpu_probe_turn B w =
    (let (sample, w) = mpu_read B makeMpuConfig w;
         out = (case sample of Some s \<Rightarrow> [MpuReading s] | None \<Rightarrow> [MpuReadFailed])
     in (out, hal_delay_ms B 100 w))"

definition mpu6050_probe_task :: "nat \<Rightarrow> 'w board \<Rightarrow> (vec3 \<Rightarrow> 'w \<Rightarrow> 'w) \<Rightarrow> 'w \<Rightarrow> diag_line list \<times> 'w" where
  "mpu6050_probe_task n B putb w =
    (let ((ok, out), w) = mpu_probe_start B putb w;
         (rest, w) = turns n (if ok then mpu_probe_turn B else idle_turn B) w
     in (out @ rest, w))"

definition hmc_probe_start :: "'w board \<Rightarrow> 'w \<Rightarrow> (bool \<times> diag_line list) \<times> 'w" where
  "hmc_probe_start B w =
    (let (ok, w) = hmc_init B makeHmcConfig w in if \<not> ok then ((False, [HmcInitFailed]), w) else ((True, []), w))"

definition hmc_probe_turn :: "'w board \<Rightarrow> 'w \<Rightarrow> diag_line list \<times> 'w" where
  "hmc_probe_turn B w =
    (let (sample, w) = hmc_read B makeHmcConfig w;
         out = (case sample of Some s \<Rightarrow> [HmcReading s] | None \<Rightarrow> [HmcReadFailed])
     in (out, hal_delay_ms B 100 w))"

definition hmc5883l_probe_task :: "nat \<Rightarrow> 'w board \<Rightarrow> 'w \<Rightarrow> diag_line list \<times> 'w" where
  "hmc5883l_probe_task n B w =
    (let ((ok, out), w) = hmc_probe_start B w;
         (rest, w) = turns n (if ok then hmc_probe_turn B else idle_turn B) w
     in (out @ rest, w))"

text \<open>The task of both sensors starts its loop whatever answered.\<close>

definition sensor_probe_start :: "'w board \<Rightarrow> (vec3 \<Rightarrow> 'w \<Rightarrow> 'w) \<Rightarrow> 'w \<Rightarrow> (bool \<times> bool) \<times> 'w" where
  "sensor_probe_start B putb w =
    (let (mpu_ok, w) = mpu_init B makeMpuConfig w;
         (mpu_ok, w) = (if mpu_ok then mpu_calibrate B makeMpuConfig putb 200 w else (False, w));
         (hmc_ok, w) = hmc_init B makeHmcConfig w
     in ((mpu_ok, hmc_ok), w))"

definition sensor_probe_turn :: "'w board \<Rightarrow> bool \<Rightarrow> bool \<Rightarrow> 'w \<Rightarrow> diag_line list \<times> 'w" where
  "sensor_probe_turn B mpu_ok hmc_ok w =
    (let (imu, w) = (if mpu_ok then mpu_read B makeMpuConfig w else (None, w));
         (mag, w) = (if hmc_ok then hmc_read B makeHmcConfig w else (None, w));
         out = (case imu of Some s \<Rightarrow> [MpuReading s] | None \<Rightarrow> []) @
               (case mag of Some s \<Rightarrow> [HmcReading s] | None \<Rightarrow> [])
     in (out, hal_delay_ms B 200 w))"

definition sensor_probe_task :: "nat \<Rightarrow> 'w board \<Rightarrow> (vec3 \<Rightarrow> 'w \<Rightarrow> 'w) \<Rightarrow> 'w \<Rightarrow> diag_line list \<times> 'w" where
  "sensor_probe_task n B putb w =
    (let ((mpu_ok, hmc_ok), w) = sensor_probe_start B putb w;
         (rest, w) = turns n (sensor_probe_turn B mpu_ok hmc_ok) w
     in (SensorsAre mpu_ok hmc_ok # rest, w))"

section \<open>The ESP8266 task\<close>

definition kCommands :: "string list" where
  "kCommands = [''AT'' @ [CHR 0x0D, CHR 0x0A], ''ATE0'' @ [CHR 0x0D, CHR 0x0A],
     ''AT+GMR'' @ [CHR 0x0D, CHR 0x0A], ''AT+CWMODE?'' @ [CHR 0x0D, CHR 0x0A]]"

text \<open>
  The window of a second in which the answer is read. A read of more than the 95 bytes asked for would
  write behind the buffer, and a window that never closes does not return: \<open>None\<close>. The line printed is
  the C string in the buffer.
\<close>

partial_function (option) esp_window ::
  "'w board \<Rightarrow> u64 \<Rightarrow> 'w \<Rightarrow> (diag_line list \<times> 'w) option" where
  "esp_window B deadline w =
    (let (now, w) = hal_micros B w
     in if now < deadline then
          (let (bytes, w) = amp_hal_uart_read_buffer B kEspUart True 95 w;
               out = (if length bytes > 0 then [EspRx (takeWhile (\<lambda>b. b \<noteq> 0) bytes)] else [])
           in if length bytes > 95 then None
              else Option.bind (esp_window B deadline (hal_delay_ms B 20 w)) (\<lambda>(rest, w). Some (out @ rest, w)))
        else Some ([], w))"

definition esp_turn :: "'w board \<Rightarrow> u32 \<Rightarrow> 'w \<Rightarrow> (diag_line list \<times> 'w) option" where
  "esp_turn B command_index w =
    (let command = kCommands ! (unat command_index mod length kCommands);
         (written, w) = amp_hal_uart_write_buffer B kEspUart (Some (map of_char command)) w;
         (now, w) = hal_micros B w
     in case esp_window B (now + 1000000) w of
          None \<Rightarrow> None
        | Some (out, w) \<Rightarrow> Some (EspTx command written # out, hal_delay_ms B 1000 w))"

fun esp_turns :: "nat \<Rightarrow> 'w board \<Rightarrow> u32 \<Rightarrow> 'w \<Rightarrow> (diag_line list \<times> 'w) option" where
  "esp_turns 0 B command_index w = Some ([], w)"
| "esp_turns (Suc n) B command_index w =
    (case esp_turn B command_index w of
       None \<Rightarrow> None
     | Some (out, w) \<Rightarrow>
         (case esp_turns n B (command_index + 1) w of
            None \<Rightarrow> None
          | Some (rest, w) \<Rightarrow> Some (out @ rest, w)))"

definition esp8266_probe_task :: "nat \<Rightarrow> 'w board \<Rightarrow> 'w \<Rightarrow> (diag_line list \<times> 'w) option" where
  "esp8266_probe_task n B w =
    (let (ret, w) = amp_hal_uart_init B kEspUart kEspBaudRate w
     in if ret \<noteq> 0 then (let (rest, w) = turns n (idle_turn B) w in Some (EspInitFailed # rest, w))
        else esp_turns n B 0 w)"

section \<open>What the ESP8266 task does\<close>

definition sent :: "diag_line list \<Rightarrow> string list" where
  "sent out = concat (map (\<lambda>l. case l of EspTx c _ \<Rightarrow> [c] | _ \<Rightarrow> []) out)"

lemma sent_simps [simp]:
  "sent [] = []" "sent (EspTx c k # out) = c # sent out" "sent (EspRx b # out) = sent out"
  "sent (out @ out') = sent out @ sent out'"
  by (simp_all add: sent_def)

lemma esp_window_sends_nothing:
  assumes "esp_window B deadline w = Some y"
  shows "sent (fst y) = []"
proof (rule esp_window.raw_induct [where P = "\<lambda>_ _ _ y. sent (fst y) = []", OF _ assms])
  fix f and B :: "'a board" and d w y
  assume IH: "\<And>B d w y. f B d w = Some y \<Longrightarrow> sent (fst y) = []"
    and eq: "(let (now, w) = hal_micros B w
      in if now < d then
           (let (bytes, w) = amp_hal_uart_read_buffer B kEspUart True 95 w;
                out = (if length bytes > 0 then [EspRx (takeWhile (\<lambda>b. b \<noteq> 0) bytes)] else [])
            in if length bytes > 95 then None
               else Option.bind (f B d (hal_delay_ms B 20 w)) (\<lambda>(rest, w). Some (out @ rest, w)))
         else Some ([], w)) = Some y"
  show "sent (fst y) = []"
    using eq by (auto simp: Let_def dest!: IH split: prod.splits if_splits bind_splits)
qed

lemma command_index_step:
  "(unat (k + 1 :: u32) + i) mod length kCommands = (unat k + Suc i) mod length kCommands"
proof -
  have "unat (k + 1) mod 4 = (unat k + 1) mod 2 ^ 32 mod 4" by (simp add: unat_word_ariths)
  also have "\<dots> = (unat k + 1) mod 4" by (simp add: mod_mod_cancel)
  finally have "(unat (k + 1) + i) mod 4 = (unat k + 1 + i) mod 4" by (metis mod_add_left_eq)
  then show ?thesis by (simp add: kCommands_def)
qed

text \<open>The commands sent in any number of turns are the four of the table in turn, also across the
  wrap of the 32-bit index.\<close>

theorem esp_commands_cycle:
  assumes "esp_turns n B k w = Some (out, w')"
  shows "sent out = map (\<lambda>i. kCommands ! ((unat k + i) mod length kCommands)) [0..<n]"
  using assms
proof (induction n arbitrary: k w out w')
  case (Suc n)
  obtain o1 w1 o2 where t: "esp_turn B k w = Some (o1, w1)" "esp_turns n B (k + 1) w1 = Some (o2, w')"
    and out: "out = o1 @ o2"
    using Suc.prems by (auto split: option.splits)
  have "sent o1 = [kCommands ! (unat k mod length kCommands)]"
    using t(1) by (auto simp: esp_turn_def Let_def dest!: esp_window_sends_nothing split: prod.splits option.splits)
  moreover have "sent o2 = map (\<lambda>i. kCommands ! ((unat k + Suc i) mod length kCommands)) [0..<n]"
    using Suc.IH [OF t(2)] by (simp add: command_index_step)
  ultimately show ?case
    by (simp add: out map_upt_Suc del: upt_Suc)
qed simp

subsection \<open>The window and the clock\<close>

lemma esp_window_open:
  assumes "esp_window B' deadline p = Some y"
  shows "B' = port_board S B \<longrightarrow> unat deadline \<le> 737869762948"
proof (rule esp_window.raw_induct
    [where P = "\<lambda>B' d _ _. B' = port_board S B \<longrightarrow> unat d \<le> 737869762948", OF _ assms])
  fix f and B' :: "'a port board" and d p y
  assume IH: "\<And>B' d p y. f B' d p = Some y \<Longrightarrow> B' = port_board S B \<longrightarrow> unat d \<le> 737869762948"
    and eq: "(let (now, w) = hal_micros B' p
      in if now < d then
           (let (bytes, w) = amp_hal_uart_read_buffer B' kEspUart True 95 w;
                out = (if length bytes > 0 then [EspRx (takeWhile (\<lambda>b. b \<noteq> 0) bytes)] else [])
            in if length bytes > 95 then None
               else Option.bind (f B' d (hal_delay_ms B' 20 w)) (\<lambda>(rest, w). Some (out @ rest, w)))
         else Some ([], w)) = Some y"
  show "B' = port_board S B \<longrightarrow> unat d \<le> 737869762948"
  proof
    assume B': "B' = port_board S B"
    show "unat d \<le> 737869762948"
    proof (cases "fst (port_micros S p) < d")
      case True
      then show ?thesis using eq B'
        by (auto simp: hal_micros_def Let_def dest!: IH split: prod.splits if_splits bind_splits)
    next
      case False
      then have "unat d \<le> unat (fst (port_micros S p))" by (simp add: word_le_nat_alt not_less)
      then show ?thesis using port_micros_bound [of S p] by simp
    qed
  qed
qed

text \<open>The port never delivers more bytes than asked for, so the buffer is large enough.\<close>

lemma port_read_fits: "length (fst (amp_hal_uart_read_buffer (port_board S B) u b n p)) \<le> n"
  using uart_read_loop_length [of S "uartBase u" n "pt_hw p"]
  by (auto simp: amp_hal_uart_read_buffer_def port_uart_read_def Let_def split: prod.splits)

text \<open>On the board port, once the microsecond clock stands within a second of the value at which it
  wraps, the window for the answer never closes and the task hangs.\<close>

theorem esp_window_never_closes:
  assumes "snd (amp_hal_uart_write_buffer (port_board S B) kEspUart
      (Some (map of_char (kCommands ! (unat k mod length kCommands)))) p) = p1"
    and "fst (hal_micros (port_board S B) p1) = now" "737868762948 < unat now"
  shows "esp_turn (port_board S B) k p = None"
proof -
  have "unat now \<le> 737869762948" using assms(2) port_micros_bound [of S p1] by (auto simp: hal_micros_def)
  then have "unat (now + 1000000) = unat now + 1000000" by (simp add: unat_word_ariths)
  then have "\<not> unat (now + 1000000) \<le> 737869762948" using assms(3) by simp
  then have "esp_window (port_board S B) (now + 1000000) q = None" for q
    using esp_window_open [of "port_board S B" "now + 1000000" q _ S B]
    by (cases "esp_window (port_board S B) (now + 1000000) q") auto
  then show ?thesis using assms(1,2)
    by (auto simp: esp_turn_def Let_def split: prod.splits)
qed

section \<open>Witnesses\<close>

text \<open>A board whose clock advances by two seconds at every look.\<close>

definition clock_board :: "u64 board" where
  "clock_board = stub_board\<lparr>bd_micros := (\<lambda>w. (w, w + 2000000))\<rparr>"

lemma clock_turn:
  assumes "w = 0 \<or> w = 4000000"
  shows "esp_turn clock_board k w = Some ([EspTx (kCommands ! (unat k mod length kCommands)) 0], w + 4000000)"
proof -
  have "esp_window clock_board (w + 1000000) (w + 2000000) = Some ([], w + 4000000)"
    by (subst esp_window.simps) (use assms in \<open>auto simp: clock_board_def hal_micros_def\<close>)
  then show ?thesis
    by (simp add: esp_turn_def amp_hal_uart_write_buffer_def hal_micros_def hal_delay_ms_def clock_board_def
        stub_board_def Let_def)
qed

theorem esp_commands_cycle_witness:
  "\<exists>out w'. esp_turns 2 clock_board 0xFFFFFFFF 0 = Some (out, w') \<and>
     sent out = [kCommands ! 3, kCommands ! 0]"
proof -
  obtain out w' where t: "esp_turns 2 clock_board 0xFFFFFFFF 0 = Some (out, w')"
    by (simp add: numeral_2_eq_2 clock_turn)
  have "sent out = [kCommands ! 3, kCommands ! 0]"
    using esp_commands_cycle [OF t] by (simp add: upt_rec kCommands_def)
  with t show ?thesis by blast
qed

text \<open>Hardware whose timer stands still at the given tick.\<close>

definition still_sdk :: "u64 sdk" where
  "still_sdk = bench_sdk\<lparr>mmioWrite32 := (\<lambda>_ _ h. h)\<rparr>"

lemma still_spin: "snd (spinTxReady still_sdk base n h) = h"
  by (induction n) (simp_all add: uartReadLsr_def still_sdk_def bench_sdk_def)

lemma still_write_loop: "snd (uart_write_loop still_sdk base bs i h) = h"
proof (induction bs arbitrary: i)
  case (Cons b bs)
  obtain ready where "waitUartTxReady still_sdk base h = (ready, h)"
    using still_spin [of base 200000 h] by (metis waitUartTxReady_def prod.collapse)
  with Cons show ?case by (simp add: uartWriteThr_def still_sdk_def)
qed simp

lemma still_write: "pt_hw (snd (amp_hal_uart_write_buffer (port_board still_sdk B) u buf p)) = pt_hw p"
proof -
  have "snd (port_uart_write still_sdk u bs p) = p" for bs
    using still_write_loop [of "uartBase u" bs 0 "pt_hw p"]
    by (auto simp: port_uart_write_def Let_def split: prod.splits)
  then show ?thesis by (simp add: amp_hal_uart_write_buffer_def split: option.split)
qed

theorem esp_window_never_closes_witness:
  "esp_turn (port_board still_sdk stub_board) 0 (new_port 18446744073709) = None"
proof (rule esp_window_never_closes [OF refl refl])
  let ?p = "snd (amp_hal_uart_write_buffer (port_board still_sdk stub_board) kEspUart
      (Some (map of_char (kCommands ! (unat (0 :: u32) mod length kCommands)))) (new_port 18446744073709))"
  have "pt_hw ?p = 18446744073709" unfolding still_write by (simp add: new_port_def)
  then show "737868762948 < unat (fst (hal_micros (port_board still_sdk stub_board) ?p))"
    by (simp add: hal_micros_def port_micros_def still_sdk_def bench_sdk_def kCoreTimerHz_def)
qed

end
