(* ===== verification/FwState.thy ===== *)
theory FwState
  imports Protocol BoardPort "HOL-Library.Signed_Division"
begin

text \<open>
  The global state of the small-core firmware \<open>comm_main.c\<close>: one record whose fields carry the names of
  the C globals and of the function statics, grouped as in the source by extending one record by the
  next. A \<open>uint32_t\<close> that only ever holds 0 or 1 is a \<open>bool\<close>, any other \<open>uint32_t\<close> a 32-bit word. An
  \<open>int32_t\<close> is an \<open>int\<close>: signed overflow is undefined in C, and the theories about the firmware prove
  that the values stay far inside 32 bits. Three variables named \<open>x\<close>, \<open>y\<close>, \<open>z\<close> are one field of type
  \<open>axes\<close>. The hardware and the SDK are a record of functions on the world.
\<close>

section \<open>Three axes\<close>

datatype 'a axes = Axes (ax_x: 'a) (ax_y: 'a) (ax_z: 'a)

definition axes_map :: "('a \<Rightarrow> 'b) \<Rightarrow> 'a axes \<Rightarrow> 'b axes" where
  "axes_map f a = Axes (f (ax_x a)) (f (ax_y a)) (f (ax_z a))"

definition axes_map2 :: "('a \<Rightarrow> 'b \<Rightarrow> 'c) \<Rightarrow> 'a axes \<Rightarrow> 'b axes \<Rightarrow> 'c axes" where
  "axes_map2 f a b = Axes (f (ax_x a) (ax_x b)) (f (ax_y a) (ax_y b)) (f (ax_z a) (ax_z b))"

definition axes_all :: "('a \<Rightarrow> bool) \<Rightarrow> 'a axes \<Rightarrow> bool" where
  "axes_all P a \<longleftrightarrow> P (ax_x a) \<and> P (ax_y a) \<and> P (ax_z a)"

lemma axes_sel [simp]:
  "ax_x (axes_map f a) = f (ax_x a)" "ax_y (axes_map f a) = f (ax_y a)" "ax_z (axes_map f a) = f (ax_z a)"
  "ax_x (axes_map2 g a b) = g (ax_x a) (ax_x b)" "ax_y (axes_map2 g a b) = g (ax_y a) (ax_y b)"
  "ax_z (axes_map2 g a b) = g (ax_z a) (ax_z b)"
  by (simp_all add: axes_map_def axes_map2_def)

abbreviation zero_axes :: "int axes" where "zero_axes \<equiv> Axes 0 0 0"

section \<open>C arithmetic\<close>

definition clamp_i32 :: "int \<Rightarrow> int \<Rightarrow> int \<Rightarrow> int" where
  "clamp_i32 v lo hi = (if v < lo then lo else if v > hi then hi else v)"

definition clamp_u32 :: "u32 \<Rightarrow> u32 \<Rightarrow> u32 \<Rightarrow> u32" where
  "clamp_u32 v lo hi = (if v < lo then lo else if v > hi then hi else v)"

lemma clamp_i32_range: "lo \<le> hi \<Longrightarrow> lo \<le> clamp_i32 v lo hi \<and> clamp_i32 v lo hi \<le> hi"
  by (simp add: clamp_i32_def)

lemma clamp_u32_range: "lo \<le> hi \<Longrightarrow> lo \<le> clamp_u32 v lo hi \<and> clamp_u32 v lo hi \<le> hi"
  by (auto simp: clamp_u32_def)

lemma clamp_i32_id: "\<lbrakk>lo \<le> v; v \<le> hi\<rbrakk> \<Longrightarrow> clamp_i32 v lo hi = v"
  by (simp add: clamp_i32_def)

text \<open>C's division rounds towards zero.\<close>

lemma abs_sdiv: "0 < d \<Longrightarrow> \<bar>n sdiv d\<bar> = \<bar>n\<bar> div (d :: int)"
proof -
  assume "0 < d"
  then have "n sdiv d = sgn n * (\<bar>n\<bar> div d)" by (simp add: signed_divide_int_def)
  moreover have "0 \<le> \<bar>n\<bar> div d" using \<open>0 < d\<close> by (simp add: pos_imp_zdiv_nonneg_iff)
  ultimately show ?thesis by (cases "n = 0") (simp_all add: abs_mult)
qed

lemma abs_sdiv_le:
  assumes "0 < d" "\<bar>n\<bar> \<le> b"
  shows "\<bar>n sdiv d\<bar> \<le> (b :: int)"
proof -
  have "\<bar>n\<bar> div d \<le> \<bar>n\<bar> div 1" using assms(1) by (intro zdiv_mono2) auto
  then show ?thesis using assms abs_sdiv [OF assms(1), of n] by simp
qed

section \<open>The globals\<close>

record fw_sensors =
  g_i2c_probe_count :: u32
  g_i2c_last_err :: u32
  g_hmc_bus :: u32
  g_hmc_scan_mask :: u32
  g_hmc_id_a :: u32
  g_hmc_id_b :: u32
  g_hmc_id_c :: u32
  g_hmc_ok :: bool
  g_hmc_data_ok :: bool
  g_hmc :: "int axes"
  g_hmc_cfg_done :: bool
  g_mpu_whoami :: u32
  g_mpu_ok :: bool
  g_mpu_addr_found :: u32
  g_mpu_data_ok :: bool
  g_mpu_a :: "int axes"
  g_mpu_g :: "int axes"
  g_mpu_cfg_done :: bool
  g_mpu_cal_count :: u32
  g_mpu_cal_done :: bool
  g_mpu_acc_sum :: "int axes"
  g_mpu_gyro_sum :: "int axes"
  g_mpu_acc_bias :: "int axes"
  g_mpu_gyro_bias :: "int axes"
  g_sensor_ready :: bool
  g_mpu_a_corr :: "int axes"
  g_mpu_g_corr :: "int axes"
  g_sensor_state_error :: u32

record fw_attitude = fw_sensors +
  g_att_ok :: bool
  g_att_roll_cd :: int
  g_att_pitch_cd :: int
  g_att_yaw_cd :: int
  g_rate_roll_raw :: int
  g_rate_pitch_raw :: int
  g_rate_yaw_raw :: int
  g_level_trim_done :: bool
  g_level_roll_cd :: int
  g_level_pitch_cd :: int
  g_body_roll_cd :: int
  g_body_pitch_cd :: int
  g_body_yaw_cd :: int
  g_body_rate_roll_raw :: int
  g_body_rate_pitch_raw :: int
  g_body_rate_yaw_raw :: int

record fw_control = fw_attitude +
  g_angle_corr_roll :: int
  g_angle_corr_pitch :: int
  g_rate_corr_roll :: int
  g_rate_corr_pitch :: int
  g_rate_corr_yaw :: int
  g_sp_roll_rate_raw :: int
  g_sp_pitch_rate_raw :: int
  g_sp_roll_cd :: int
  g_sp_pitch_cd :: int
  g_sp_yaw_rate_raw :: int
  g_sp_throttle_us :: u32
  g_pid_roll :: int
  g_pid_pitch :: int
  g_pid_yaw :: int
  g_mix :: "int motors"

record fw_motor = fw_control +
  g_motor_pwm_us :: "u32 motors"
  g_motor_armed :: bool
  g_motor_output_enabled :: bool
  g_motor_safety_reason :: u32

record fw_rc = fw_motor +
  g_rc_ch0_us :: u32
  g_rc_ch1_us :: u32
  g_rc_ch3_us :: u32
  g_rc_valid :: bool
  g_rc_throttle_us :: u32
  g_rc_arm_switch :: bool
  g_rc_arm_allowed :: bool
  g_rc_last_frame_tick :: u32
  g_rc_frame_age_ms :: u32
  g_rc_seen_arm_low :: bool
  g_rc_arm_latched :: bool
  g_rc_prev_arm_switch :: bool

record fw_amp = fw_rc +
  g_config_deadzone_us :: u32
  g_config_rate_roll_div :: u32
  g_config_rate_pitch_div :: u32
  g_config_rate_yaw_div :: u32
  g_config_angle_div :: u32
  g_amp_shm_phys :: u32
  g_amp_shm_ready :: bool
  g_amp_shm_poll_count :: u32
  g_amp_emergency_stop_latched :: bool
  g_amp_last_emergency_seq :: u32
  g_amp_last_config_slot_seq :: u32
  g_amp_last_config_update_seq :: u32
  g_amp_last_arm_seq :: u32
  g_amp_last_setpoint_seq :: u32
  g_amp_config_seq :: u32
  g_amp_config_update_count :: u32
  g_amp_rt_report_seq :: u32
  g_amp_status_flags :: u32
  g_stage3_step_count :: u32
  g_stage3_actuator_map_ok :: bool
  g_stage3_external_enabled :: bool
  last_rt_report_tick :: u32

record fw_pwm = fw_amp +
  g_pwm_cfg :: "pwm_configuration motors"
  g_pwm_backend_ready :: bool
  g_pwm_backend_err :: u32
  g_pwm_real_enabled :: bool
  g_pwm_period_us_dbg :: u32
  g_pwm_duty_us_dbg :: "u32 motors"
  g_pwm_period_clk_dbg :: "u32 motors"
  g_pwm_duty_clk_dbg :: "u32 motors"
  g_pwm_start_reg_dbg :: "u32 motors"
  g_pwm_oe_reg_dbg :: "u32 motors"
  g_pwm_active_high_dbg :: u32
  g_esc_arm_delay_done :: bool
  g_esc_arm_delay_ms :: u32
  g_esc_arm_start_tick :: u32

text \<open>The UART, the statics of \<open>ibus_parse_byte\<close> and \<open>ibus_probe_poll_once\<close>, the mailbox
  counters, and the words of the debug structure at its fixed address.\<close>

record fw = fw_pwm +
  g_uart3_last_lsr :: u32
  g_uart3_last_byte :: u32
  ib_frame :: "u8 list"
  ib_index :: nat
  ib_ch :: "u16 list"
  ib_last_frame_tick :: u32
  ib_last_print_tick :: u32
  ib_last_dbg_tick :: u32
  ib_last_i2c_tick :: u32
  ib_last_stage3_tick :: u32
  ib_good_frames :: u32
  ib_bad_frames :: u32
  ib_rx_bytes :: u32
  ib_header20 :: u32
  ib_header2040 :: u32
  ib_started :: bool
  ib_last_b :: u8
  ib_prev_b :: u8
  g_mailbox_isr_count :: u32
  g_mailbox_task_count :: u32
  g_last_cmd_id :: u32
  g_last_param_ptr :: u32
  g_amp_dbg :: "u32 list"

section \<open>The state at power-on\<close>

definition fw_boot :: fw where
  "fw_boot = \<lparr>
     g_i2c_probe_count = 0, g_i2c_last_err = 0, g_hmc_bus = 0xff, g_hmc_scan_mask = 0,
     g_hmc_id_a = 0, g_hmc_id_b = 0, g_hmc_id_c = 0, g_hmc_ok = False, g_hmc_data_ok = False,
     g_hmc = zero_axes, g_hmc_cfg_done = False, g_mpu_whoami = 0, g_mpu_ok = False,
     g_mpu_addr_found = 0, g_mpu_data_ok = False, g_mpu_a = zero_axes, g_mpu_g = zero_axes,
     g_mpu_cfg_done = False, g_mpu_cal_count = 0, g_mpu_cal_done = False,
     g_mpu_acc_sum = zero_axes, g_mpu_gyro_sum = zero_axes, g_mpu_acc_bias = zero_axes,
     g_mpu_gyro_bias = zero_axes, g_sensor_ready = False, g_mpu_a_corr = zero_axes,
     g_mpu_g_corr = zero_axes, g_sensor_state_error = 0,
     g_att_ok = False, g_att_roll_cd = 0, g_att_pitch_cd = 0, g_att_yaw_cd = 0,
     g_rate_roll_raw = 0, g_rate_pitch_raw = 0, g_rate_yaw_raw = 0, g_level_trim_done = False,
     g_level_roll_cd = 0, g_level_pitch_cd = 0, g_body_roll_cd = 0, g_body_pitch_cd = 0,
     g_body_yaw_cd = 0, g_body_rate_roll_raw = 0, g_body_rate_pitch_raw = 0, g_body_rate_yaw_raw = 0,
     g_angle_corr_roll = 0, g_angle_corr_pitch = 0, g_rate_corr_roll = 0, g_rate_corr_pitch = 0,
     g_rate_corr_yaw = 0, g_sp_roll_rate_raw = 0, g_sp_pitch_rate_raw = 0, g_sp_roll_cd = 0,
     g_sp_pitch_cd = 0, g_sp_yaw_rate_raw = 0, g_sp_throttle_us = 1000, g_pid_roll = 0,
     g_pid_pitch = 0, g_pid_yaw = 0, g_mix = all_motors 1000,
     g_motor_pwm_us = all_motors 1000, g_motor_armed = False, g_motor_output_enabled = False,
     g_motor_safety_reason = 0,
     g_rc_ch0_us = 1500, g_rc_ch1_us = 1500, g_rc_ch3_us = 1500, g_rc_valid = False,
     g_rc_throttle_us = 1000, g_rc_arm_switch = False, g_rc_arm_allowed = False,
     g_rc_last_frame_tick = 0, g_rc_frame_age_ms = 0, g_rc_seen_arm_low = False,
     g_rc_arm_latched = False, g_rc_prev_arm_switch = False,
     g_config_deadzone_us = 20, g_config_rate_roll_div = 12, g_config_rate_pitch_div = 12,
     g_config_rate_yaw_div = 16, g_config_angle_div = 180, g_amp_shm_phys = 0, g_amp_shm_ready = False,
     g_amp_shm_poll_count = 0, g_amp_emergency_stop_latched = False, g_amp_last_emergency_seq = 0,
     g_amp_last_config_slot_seq = 0, g_amp_last_config_update_seq = 0, g_amp_last_arm_seq = 0,
     g_amp_last_setpoint_seq = 0, g_amp_config_seq = 0, g_amp_config_update_count = 0,
     g_amp_rt_report_seq = 0, g_amp_status_flags = 0, g_stage3_step_count = 0,
     g_stage3_actuator_map_ok = False, g_stage3_external_enabled = False, last_rt_report_tick = 0,
     g_pwm_cfg = all_motors \<lparr>pc_pwm_id = 0, pc_channel = 0, pc_period = 0, pc_pulse = 0\<rparr>,
     g_pwm_backend_ready = False, g_pwm_backend_err = 0, g_pwm_real_enabled = False,
     g_pwm_period_us_dbg = 20000, g_pwm_duty_us_dbg = all_motors 1000,
     g_pwm_period_clk_dbg = all_motors 0, g_pwm_duty_clk_dbg = all_motors 0,
     g_pwm_start_reg_dbg = all_motors 0, g_pwm_oe_reg_dbg = all_motors 0, g_pwm_active_high_dbg = 1,
     g_esc_arm_delay_done = False, g_esc_arm_delay_ms = 0, g_esc_arm_start_tick = 0,
     g_uart3_last_lsr = 0, g_uart3_last_byte = 0, ib_frame = replicate 32 0, ib_index = 0,
     ib_ch = replicate 14 0, ib_last_frame_tick = 0, ib_last_print_tick = 0, ib_last_dbg_tick = 0,
     ib_last_i2c_tick = 0, ib_last_stage3_tick = 0, ib_good_frames = 0, ib_bad_frames = 0,
     ib_rx_bytes = 0, ib_header20 = 0, ib_header2040 = 0, ib_started = False, ib_last_b = 0,
     ib_prev_b = 0, g_mailbox_isr_count = 0, g_mailbox_task_count = 0, g_last_cmd_id = 0,
     g_last_param_ptr = 0, g_amp_dbg = replicate 159 0\<rparr>"

section \<open>Arrays with one entry per motor\<close>

fun motor_nth :: "'a motors \<Rightarrow> nat \<Rightarrow> 'a" where
  "motor_nth (Motors a b c d) i = (if i = 0 then a else if i = 1 then b else if i = 2 then c else d)"

fun motor_upd :: "'a motors \<Rightarrow> nat \<Rightarrow> 'a \<Rightarrow> 'a motors" where
  "motor_upd (Motors a b c d) i x =
    (if i = 0 then Motors x b c d else if i = 1 then Motors a x c d
     else if i = 2 then Motors a b x d else if i = 3 then Motors a b c x else Motors a b c d)"

definition motor_map :: "('a \<Rightarrow> 'b) \<Rightarrow> 'a motors \<Rightarrow> 'b motors" where
  "motor_map f m = Motors (f (m0 m)) (f (m1 m)) (f (m2 m)) (f (m3 m))"

definition motor_all :: "('a \<Rightarrow> bool) \<Rightarrow> 'a motors \<Rightarrow> bool" where
  "motor_all P m \<longleftrightarrow> P (m0 m) \<and> P (m1 m) \<and> P (m2 m) \<and> P (m3 m)"

lemma motor_nth_upd: "i < 4 \<Longrightarrow> j < 4 \<Longrightarrow> motor_nth (motor_upd m i x) j = (if i = j then x else motor_nth m j)"
  by (cases m) auto

lemma motor_nth_list: "i < 4 \<Longrightarrow> motor_nth m i = motor_list m ! i"
  by (cases m) (auto simp: eval_nat_numeral less_Suc_eq)

lemma motor_all_nth: "motor_all P m \<longleftrightarrow> P (motor_nth m 0) \<and> P (motor_nth m 1) \<and> P (motor_nth m 2) \<and> P (motor_nth m 3)"
  by (cases m) (simp add: motor_all_def)

lemma motor_all_all [simp]: "motor_all P (all_motors x) \<longleftrightarrow> P x"
  by (simp add: motor_all_def all_motors_def)

lemma motor_all_Motors [simp]: "motor_all P (Motors a b c d) \<longleftrightarrow> P a \<and> P b \<and> P c \<and> P d"
  by (simp add: motor_all_def)

lemma motor_all_upd: "\<lbrakk>motor_all P m; P x\<rbrakk> \<Longrightarrow> motor_all P (motor_upd m i x)"
  by (cases m) auto

lemma motor_all_mono: "\<lbrakk>motor_all P m; \<And>x. P x \<Longrightarrow> Q x\<rbrakk> \<Longrightarrow> motor_all Q m"
  by (simp add: motor_all_def)

section \<open>The hardware and the SDK\<close>

text \<open>
  What \<open>comm_main.c\<close> calls outside itself, as functions on a world \<open>'w\<close>: FreeRTOS's tick counter and
  its rate (a tick is taken as 32 bits, the width of the variables that keep it), 32-bit loads and
  stores of memory-mapped registers, one \<open>nop\<close>, the PWM driver, and the shared region at a physical
  address. Every access of a field of the \<open>volatile\<close> region is a load or a store of its own, so the
  other core may write between two of them. \<open>undefined_u32\<close> is what the compiler makes of a
  conversion to \<open>uint32_t\<close> that C leaves undefined.
\<close>

record 'w fw_hw =
  configTICK_RATE_HZ :: u32
  xTaskGetTickCount :: "'w \<Rightarrow> u32 \<times> 'w"
  hw_load32 :: "u64 \<Rightarrow> 'w \<Rightarrow> u32 \<times> 'w"
  hw_store32 :: "u64 \<Rightarrow> u32 \<Rightarrow> 'w \<Rightarrow> 'w"
  hw_nop :: "'w \<Rightarrow> 'w"
  fw_hal_uart_init :: "u32 \<Rightarrow> int \<Rightarrow> int \<Rightarrow> 'w \<Rightarrow> 'w"
  PWM_MAX_CH :: u32
  cvi_pwm_reg_base :: "u8 \<Rightarrow> u64"
  hw_pwm_init :: "pwm_configuration \<Rightarrow> 'w \<Rightarrow> 'w"
  hw_pwm_set_output_cfg :: "pwm_configuration \<Rightarrow> 'w \<Rightarrow> 'w"
  hw_pwm_continuous_start :: "pwm_configuration \<Rightarrow> 'w \<Rightarrow> 'w"
  cvi_pwm_get_period_ch :: "u64 \<Rightarrow> u32 \<Rightarrow> 'w \<Rightarrow> u64 \<times> 'w"
  cvi_pwm_get_high_period_ch :: "u64 \<Rightarrow> u32 \<Rightarrow> 'w \<Rightarrow> u64 \<times> 'w"
  PWM_PWMSTART :: "u64 \<Rightarrow> 'w \<Rightarrow> u32 \<times> 'w"
  PWM_PWM_OE :: "u64 \<Rightarrow> 'w \<Rightarrow> u32 \<times> 'w"
  cvi_pwm_get_polarity :: "u64 \<Rightarrow> u32 \<Rightarrow> 'w \<Rightarrow> u64 \<times> 'w"
  hw_shm_load :: "u32 \<Rightarrow> 'w \<Rightarrow> shared_region \<times> 'w"
  hw_shm_store :: "u32 \<Rightarrow> (shared_region \<Rightarrow> shared_region) \<Rightarrow> 'w \<Rightarrow> 'w"
  flush_dcache_range :: "u64 \<Rightarrow> u64 \<Rightarrow> 'w \<Rightarrow> 'w"
  undefined_u32 :: "f32 \<Rightarrow> u32"

definition pdMS_TO_TICKS :: "'w fw_hw \<Rightarrow> u32 \<Rightarrow> u32" where
  "pdMS_TO_TICKS H ms = (ms * configTICK_RATE_HZ H) div 1000"

definition portTICK_PERIOD_MS :: "'w fw_hw \<Rightarrow> u32" where
  "portTICK_PERIOD_MS H = 1000 div configTICK_RATE_HZ H"

text \<open>
  The worlds that satisfy \<open>P\<close> are closed under every operation, except that a PWM call keeps \<open>P\<close> only
  when its configuration satisfies \<open>Q\<close>: with a world that records the calls, and \<open>P\<close> that every
  recorded one satisfies \<open>Q\<close>, what keeps \<open>P\<close> only ever hands the driver configurations in \<open>Q\<close>.
\<close>

definition hw_keeps :: "'w fw_hw \<Rightarrow> (pwm_configuration \<Rightarrow> bool) \<Rightarrow> ('w \<Rightarrow> bool) \<Rightarrow> bool" where
  "hw_keeps H Q P \<longleftrightarrow>
     (\<forall>w. P w \<longrightarrow>
        P (snd (xTaskGetTickCount H w)) \<and> (\<forall>a. P (snd (hw_load32 H a w))) \<and>
        (\<forall>a v. P (hw_store32 H a v w)) \<and> P (hw_nop H w) \<and>
        (\<forall>u b c. P (fw_hal_uart_init H u b c w)) \<and>
        (\<forall>a c. P (snd (cvi_pwm_get_period_ch H a c w))) \<and>
        (\<forall>a c. P (snd (cvi_pwm_get_high_period_ch H a c w))) \<and>
        (\<forall>a. P (snd (PWM_PWMSTART H a w))) \<and> (\<forall>a. P (snd (PWM_PWM_OE H a w))) \<and>
        (\<forall>a c. P (snd (cvi_pwm_get_polarity H a c w))) \<and>
        (\<forall>p. P (snd (hw_shm_load H p w))) \<and> (\<forall>p f. P (hw_shm_store H p f w)) \<and>
        (\<forall>a n. P (flush_dcache_range H a n w)) \<and>
        (\<forall>c. Q c \<longrightarrow> P (hw_pwm_init H c w) \<and> P (hw_pwm_set_output_cfg H c w) \<and>
                     P (hw_pwm_continuous_start H c w)))"

lemma hw_keepsD:
  assumes "hw_keeps H Q P" "P w"
  shows "P (snd (xTaskGetTickCount H w))" "P (snd (hw_load32 H a w))" "P (hw_store32 H a v w)"
    "P (hw_nop H w)" "P (fw_hal_uart_init H u b c w)" "P (snd (cvi_pwm_get_period_ch H a ch w))"
    "P (snd (cvi_pwm_get_high_period_ch H a ch w))" "P (snd (PWM_PWMSTART H a w))"
    "P (snd (PWM_PWM_OE H a w))" "P (snd (cvi_pwm_get_polarity H a ch w))"
    "P (snd (hw_shm_load H p w))" "P (hw_shm_store H p f w)" "P (flush_dcache_range H a n w)"
    "Q cfg \<Longrightarrow> P (hw_pwm_init H cfg w)" "Q cfg \<Longrightarrow> P (hw_pwm_set_output_cfg H cfg w)"
    "Q cfg \<Longrightarrow> P (hw_pwm_continuous_start H cfg w)"
  using assms by (simp_all add: hw_keeps_def)

end
