(* ===== verification/FwBus.thy ===== *)
theory FwBus
  imports FwState
begin

text \<open>
  The bit-banged I2C master of \<open>comm_main.c\<close>: two pins of the GPIO block, driven low as outputs and
  released as inputs. The functions are followed down to the register accesses. Proved: what a slave
  sees on the two lines during a register write or read is exactly the I2C transaction, and on any
  hardware every access leaves the other pins of the port alone and never drives a line high.
\<close>

section \<open>The pins\<close>

definition GPIOA_BASE :: u64 where "GPIOA_BASE = 0x03020000"
definition GPIO_SWPORTA_DR :: u64 where "GPIO_SWPORTA_DR = 0x00"
definition GPIO_SWPORTA_DDR :: u64 where "GPIO_SWPORTA_DDR = 0x04"
definition GPIO_EXT_PORTA :: u64 where "GPIO_EXT_PORTA = 0x50"
definition BB_SCL_MASK :: u32 where "BB_SCL_MASK = push_bit 28 1"
definition BB_SDA_MASK :: u32 where "BB_SDA_MASK = push_bit 29 1"

definition gpioa_read :: "'w fw_hw \<Rightarrow> u64 \<Rightarrow> 'w \<Rightarrow> u32 \<times> 'w" where
  "gpioa_read H off w = hw_load32 H (GPIOA_BASE + off) w"

definition gpioa_write :: "'w fw_hw \<Rightarrow> u64 \<Rightarrow> u32 \<Rightarrow> 'w \<Rightarrow> 'w" where
  "gpioa_write H off v w = hw_store32 H (GPIOA_BASE + off) v w"

definition bb_delay :: "'w fw_hw \<Rightarrow> 'w \<Rightarrow> 'w" where
  "bb_delay H w = (hw_nop H ^^ 300) w"

definition bb_gpio_output_low :: "'w fw_hw \<Rightarrow> u32 \<Rightarrow> 'w \<Rightarrow> 'w" where
  "bb_gpio_output_low H m w =
    (let (v, w) = gpioa_read H GPIO_SWPORTA_DR w;
         w = gpioa_write H GPIO_SWPORTA_DR (v AND NOT m) w;
         (v, w) = gpioa_read H GPIO_SWPORTA_DDR w
     in gpioa_write H GPIO_SWPORTA_DDR (v OR m) w)"

definition bb_gpio_release :: "'w fw_hw \<Rightarrow> u32 \<Rightarrow> 'w \<Rightarrow> 'w" where
  "bb_gpio_release H m w =
    (let (v, w) = gpioa_read H GPIO_SWPORTA_DDR w in gpioa_write H GPIO_SWPORTA_DDR (v AND NOT m) w)"

definition bb_gpio_read :: "'w fw_hw \<Rightarrow> u32 \<Rightarrow> 'w \<Rightarrow> bool \<times> 'w" where
  "bb_gpio_read H m w = (let (v, w) = gpioa_read H GPIO_EXT_PORTA w in (v AND m \<noteq> 0, w))"

definition bb_scl_low :: "'w fw_hw \<Rightarrow> 'w \<Rightarrow> 'w" where
  "bb_scl_low H w = bb_delay H (bb_gpio_output_low H BB_SCL_MASK w)"

definition bb_scl_release :: "'w fw_hw \<Rightarrow> 'w \<Rightarrow> 'w" where
  "bb_scl_release H w = bb_delay H (bb_gpio_release H BB_SCL_MASK w)"

definition bb_sda_low :: "'w fw_hw \<Rightarrow> 'w \<Rightarrow> 'w" where
  "bb_sda_low H w = bb_delay H (bb_gpio_output_low H BB_SDA_MASK w)"

definition bb_sda_release :: "'w fw_hw \<Rightarrow> 'w \<Rightarrow> 'w" where
  "bb_sda_release H w = bb_delay H (bb_gpio_release H BB_SDA_MASK w)"

definition bb_sda_read :: "'w fw_hw \<Rightarrow> 'w \<Rightarrow> bool \<times> 'w" where
  "bb_sda_read H w = bb_gpio_read H BB_SDA_MASK w"

section \<open>Conditions, bits and bytes\<close>

definition bb_i2c_idle :: "'w fw_hw \<Rightarrow> 'w \<Rightarrow> 'w" where
  "bb_i2c_idle H w = bb_delay H (bb_scl_release H (bb_sda_release H w))"

definition bb_i2c_start :: "'w fw_hw \<Rightarrow> 'w \<Rightarrow> 'w" where
  "bb_i2c_start H w =
    (let w = bb_delay H (bb_scl_release H (bb_sda_release H w));
         w = bb_delay H (bb_sda_low H w)
     in bb_delay H (bb_scl_low H w))"

definition bb_i2c_stop :: "'w fw_hw \<Rightarrow> 'w \<Rightarrow> 'w" where
  "bb_i2c_stop H w =
    (let w = bb_delay H (bb_sda_low H w);
         w = bb_delay H (bb_scl_release H w)
     in bb_delay H (bb_sda_release H w))"

definition bb_i2c_write_bit :: "'w fw_hw \<Rightarrow> bool \<Rightarrow> 'w \<Rightarrow> 'w" where
  "bb_i2c_write_bit H b w =
    (let w = (if b then bb_sda_release H w else bb_sda_low H w);
         w = bb_delay H (bb_scl_release H (bb_delay H w))
     in bb_delay H (bb_scl_low H w))"

definition bb_i2c_read_bit :: "'w fw_hw \<Rightarrow> 'w \<Rightarrow> bool \<times> 'w" where
  "bb_i2c_read_bit H w =
    (let w = bb_delay H (bb_sda_release H w);
         w = bb_delay H (bb_scl_release H w);
         (b, w) = bb_sda_read H w
     in (b, bb_delay H (bb_scl_low H w)))"

text \<open>The loops over the bits, with the number of bits left.\<close>

fun bb_write_bits :: "'w fw_hw \<Rightarrow> u8 \<Rightarrow> nat \<Rightarrow> 'w \<Rightarrow> 'w" where
  "bb_write_bits H v 0 w = w"
| "bb_write_bits H v (Suc i) w = bb_write_bits H v i (bb_i2c_write_bit H (drop_bit i v AND 1 \<noteq> 0) w)"

definition bb_i2c_write_byte :: "'w fw_hw \<Rightarrow> u8 \<Rightarrow> 'w \<Rightarrow> int \<times> 'w" where
  "bb_i2c_write_byte H v w =
    (let w = bb_write_bits H v 8 w;
         (ack, w) = bb_i2c_read_bit H w
     in (if \<not> ack then 0 else - 1, w))"

fun bb_read_bits :: "'w fw_hw \<Rightarrow> nat \<Rightarrow> u8 \<Rightarrow> 'w \<Rightarrow> u8 \<times> 'w" where
  "bb_read_bits H 0 v w = (v, w)"
| "bb_read_bits H (Suc i) v w =
    (let v = push_bit 1 v;
         (b, w) = bb_i2c_read_bit H w
     in bb_read_bits H i (if b then v OR 1 else v) w)"

definition bb_i2c_read_byte :: "'w fw_hw \<Rightarrow> bool \<Rightarrow> 'w \<Rightarrow> u8 \<times> 'w" where
  "bb_i2c_read_byte H ack w =
    (let (v, w) = bb_read_bits H 8 0 w in (v, bb_i2c_write_bit H (if ack then False else True) w))"

section \<open>Transactions\<close>

text \<open>
  The result is the return code and what is left behind the pointer: 0 on an error for the single
  register. No caller passes \<open>NULL\<close>.
\<close>

definition bb_i2c_read_reg :: "'w fw_hw \<Rightarrow> u8 \<Rightarrow> u8 \<Rightarrow> 'w \<Rightarrow> (int \<times> u8) \<times> 'w" where
  "bb_i2c_read_reg H dev reg w =
    (let w = bb_i2c_start H (bb_i2c_idle H w);
         (ret, w) = bb_i2c_write_byte H (push_bit 1 dev) w
     in if ret \<noteq> 0 then ((- 1, 0), bb_i2c_stop H w)
        else
     (let (ret, w) = bb_i2c_write_byte H reg w
      in if ret \<noteq> 0 then ((- 2, 0), bb_i2c_stop H w)
         else
      (let w = bb_i2c_start H w;
           (ret, w) = bb_i2c_write_byte H (push_bit 1 dev OR 1) w
       in if ret \<noteq> 0 then ((- 3, 0), bb_i2c_stop H w)
          else (let (v, w) = bb_i2c_read_byte H False w in ((0, v), bb_i2c_stop H w)))))"

definition bb_i2c_write_reg :: "'w fw_hw \<Rightarrow> u8 \<Rightarrow> u8 \<Rightarrow> u8 \<Rightarrow> 'w \<Rightarrow> int \<times> 'w" where
  "bb_i2c_write_reg H dev reg val w =
    (let w = bb_i2c_start H (bb_i2c_idle H w);
         (ret, w) = bb_i2c_write_byte H (push_bit 1 dev) w
     in if ret \<noteq> 0 then (- 1, bb_i2c_stop H w)
        else
     (let (ret, w) = bb_i2c_write_byte H reg w
      in if ret \<noteq> 0 then (- 2, bb_i2c_stop H w)
         else
      (let (ret, w) = bb_i2c_write_byte H val w
       in if ret \<noteq> 0 then (- 3, bb_i2c_stop H w) else (0, bb_i2c_stop H w))))"

text \<open>The loop over the buffer: every byte but the last is acknowledged.\<close>

fun bb_read_buf :: "'w fw_hw \<Rightarrow> nat \<Rightarrow> 'w \<Rightarrow> u8 list \<times> 'w" where
  "bb_read_buf H 0 w = ([], w)"
| "bb_read_buf H (Suc n) w =
    (let (b, w) = bb_i2c_read_byte H (n \<noteq> 0) w;
         (bs, w) = bb_read_buf H n w
     in (b # bs, w))"

definition bb_i2c_read_regs :: "'w fw_hw \<Rightarrow> u8 \<Rightarrow> u8 \<Rightarrow> nat \<Rightarrow> 'w \<Rightarrow> (int \<times> u8 list) \<times> 'w" where
  "bb_i2c_read_regs H dev reg len w =
    (if len = 0 then ((- 10, []), w)
     else
     (let w = bb_i2c_start H (bb_i2c_idle H w);
          (ret, w) = bb_i2c_write_byte H (push_bit 1 dev) w
      in if ret \<noteq> 0 then ((- 1, []), bb_i2c_stop H w)
         else
      (let (ret, w) = bb_i2c_write_byte H reg w
       in if ret \<noteq> 0 then ((- 2, []), bb_i2c_stop H w)
          else
       (let w = bb_i2c_start H w;
            (ret, w) = bb_i2c_write_byte H (push_bit 1 dev OR 1) w
        in if ret \<noteq> 0 then ((- 3, []), bb_i2c_stop H w)
           else (let (buf, w) = bb_read_buf H len w in ((0, buf), bb_i2c_stop H w))))))"

lemma length_bb_read_buf [simp]: "length (fst (bb_read_buf H n w)) = n"
  by (induction n arbitrary: w) (simp_all add: case_prod_beta Let_def)

section \<open>What every transaction keeps\<close>

text \<open>A predicate kept by the six line operations is kept by every transaction built from them.\<close>

definition line_keeps :: "'w fw_hw \<Rightarrow> ('w \<Rightarrow> bool) \<Rightarrow> bool" where
  "line_keeps H P \<longleftrightarrow>
     (\<forall>w. P w \<longrightarrow> P (bb_scl_low H w) \<and> P (bb_scl_release H w) \<and> P (bb_sda_low H w) \<and>
                P (bb_sda_release H w) \<and> P (bb_delay H w) \<and> P (snd (bb_sda_read H w)))"

lemma line_keeps_prims:
  assumes "line_keeps H P" "P w"
  shows "P (bb_scl_low H w)" "P (bb_scl_release H w)" "P (bb_sda_low H w)" "P (bb_sda_release H w)"
    "P (bb_delay H w)" "P (snd (bb_sda_read H w))"
  using assms by (simp_all add: line_keeps_def)

lemma line_keeps_bits:
  assumes "line_keeps H P" "P w"
  shows "P (bb_i2c_idle H w)" "P (bb_i2c_start H w)" "P (bb_i2c_stop H w)"
    "P (bb_i2c_write_bit H b w)" "P (snd (bb_i2c_read_bit H w))"
  using assms
  by (simp_all add: bb_i2c_idle_def bb_i2c_start_def bb_i2c_stop_def bb_i2c_write_bit_def
      bb_i2c_read_bit_def Let_def case_prod_beta line_keeps_prims)

lemma line_keeps_write_byte:
  assumes "line_keeps H P" "P w"
  shows "P (snd (bb_i2c_write_byte H v w))"
proof -
  have "P (bb_write_bits H v n w)" for n
    using assms(2) by (induction n arbitrary: w) (simp_all add: line_keeps_bits [OF assms(1)])
  then show ?thesis
    by (simp add: bb_i2c_write_byte_def Let_def case_prod_beta line_keeps_bits [OF assms(1)])
qed

lemma line_keeps_read_byte:
  assumes "line_keeps H P" "P w"
  shows "P (snd (bb_i2c_read_byte H a w))"
proof -
  have "P (snd (bb_read_bits H n v w))" for n v
    using assms(2)
    by (induction n arbitrary: v w) (simp_all add: Let_def case_prod_beta line_keeps_bits [OF assms(1)])
  then show ?thesis
    by (simp add: bb_i2c_read_byte_def Let_def case_prod_beta line_keeps_bits [OF assms(1)])
qed

lemma line_keeps_read_buf:
  assumes "line_keeps H P" "P w"
  shows "P (snd (bb_read_buf H n w))"
  using assms(2)
  by (induction n arbitrary: w)
     (simp_all add: Let_def case_prod_beta line_keeps_read_byte [OF assms(1)])

lemma line_keeps_transactions:
  assumes "line_keeps H P" "P w"
  shows "P (snd (bb_i2c_read_reg H dev reg w))" "P (snd (bb_i2c_write_reg H dev reg val w))"
    "P (snd (bb_i2c_read_regs H dev reg len w))"
  using assms(2)
  by (simp_all add: bb_i2c_read_reg_def bb_i2c_write_reg_def bb_i2c_read_regs_def Let_def
      case_prod_beta line_keeps_bits [OF assms(1)] line_keeps_write_byte [OF assms(1)]
      line_keeps_read_byte [OF assms(1)] line_keeps_read_buf [OF assms(1)])

lemma funpow_keeps: "\<lbrakk>\<And>w. P w \<Longrightarrow> P (f w); P w\<rbrakk> \<Longrightarrow> P ((f ^^ n) w)"
  by (induction n) simp_all

lemma hw_keeps_gpio:
  assumes "hw_keeps H Q P" "P w"
  shows "P (snd (gpioa_read H off w))" "P (gpioa_write H off v w)" "P (bb_delay H w)"
  using assms(2)
  by (simp_all add: gpioa_read_def gpioa_write_def bb_delay_def hw_keepsD [OF assms(1)] funpow_keeps)

lemma hw_keeps_pin:
  assumes "hw_keeps H Q P" "P w"
  shows "P (bb_gpio_output_low H m w)" "P (bb_gpio_release H m w)" "P (snd (bb_gpio_read H m w))"
  using assms(2)
  by (simp_all add: bb_gpio_output_low_def bb_gpio_release_def bb_gpio_read_def Let_def
      case_prod_beta hw_keeps_gpio [OF assms(1)])

lemma hw_keeps_line: "hw_keeps H Q P \<Longrightarrow> line_keeps H P"
  unfolding line_keeps_def bb_scl_low_def bb_scl_release_def bb_sda_low_def bb_sda_release_def
    bb_sda_read_def
  by (simp add: hw_keeps_gpio hw_keeps_pin)

section \<open>The port as a register block\<close>

text \<open>
  The documented behaviour of the data and direction registers: they read back what was last
  written and nothing else changes them. The input register shows any value, which depends on the slave.
  \<open>hist\<close> is the sequence of values the pair took and of the looks at the input register.
\<close>

datatype bus_access = Regs "u32 \<times> u32" | Look u32

definition gpio_registers ::
    "'w fw_hw \<Rightarrow> ('w \<Rightarrow> u32) \<Rightarrow> ('w \<Rightarrow> u32) \<Rightarrow> ('w \<Rightarrow> bus_access list) \<Rightarrow> bool" where
  "gpio_registers H dr ddr hist \<longleftrightarrow>
     (\<forall>w. fst (hw_load32 H (GPIOA_BASE + GPIO_SWPORTA_DR) w) = dr w \<and>
          fst (hw_load32 H (GPIOA_BASE + GPIO_SWPORTA_DDR) w) = ddr w \<and>
          (\<forall>a \<in> {GPIO_SWPORTA_DR, GPIO_SWPORTA_DDR, GPIO_EXT_PORTA}.
             let w' = snd (hw_load32 H (GPIOA_BASE + a) w)
             in dr w' = dr w \<and> ddr w' = ddr w \<and>
                hist w' = hist w @ (if a = GPIO_EXT_PORTA then [Look (fst (hw_load32 H (GPIOA_BASE + a) w))] else [])) \<and>
          dr (hw_nop H w) = dr w \<and> ddr (hw_nop H w) = ddr w \<and> hist (hw_nop H w) = hist w \<and>
          (\<forall>v. (let w' = hw_store32 H (GPIOA_BASE + GPIO_SWPORTA_DR) v w
                in dr w' = v \<and> ddr w' = ddr w \<and> hist w' = hist w @ [Regs (v, ddr w)])) \<and>
          (\<forall>v. (let w' = hw_store32 H (GPIOA_BASE + GPIO_SWPORTA_DDR) v w
                in dr w' = dr w \<and> ddr w' = v \<and> hist w' = hist w @ [Regs (dr w, v)])))"

lemmas gpio_offsets = GPIO_SWPORTA_DR_def GPIO_SWPORTA_DDR_def GPIO_EXT_PORTA_def

lemma sda_bit: "(v AND BB_SDA_MASK \<noteq> 0) = bit v 29"
  using and_exp_eq_0_iff_not_bit [of v 29] by (simp add: BB_SDA_MASK_def)

lemma gpio_line_ops:
  assumes "gpio_registers H dr ddr hist"
  shows "dr (bb_delay H w) = dr w" "ddr (bb_delay H w) = ddr w" "hist (bb_delay H w) = hist w"
    "dr (snd (bb_sda_read H w)) = dr w" "ddr (snd (bb_sda_read H w)) = ddr w"
    "\<exists>v. fst (bb_sda_read H w) = bit v 29 \<and> hist (snd (bb_sda_read H w)) = hist w @ [Look v]"
    "dr (bb_gpio_release H m w) = dr w" "ddr (bb_gpio_release H m w) = ddr w AND NOT m"
    "hist (bb_gpio_release H m w) = hist w @ [Regs (dr w, ddr w AND NOT m)]"
    "dr (bb_gpio_output_low H m w) = dr w AND NOT m" "ddr (bb_gpio_output_low H m w) = ddr w OR m"
    "hist (bb_gpio_output_low H m w) =
       hist w @ [Regs (dr w AND NOT m, ddr w), Regs (dr w AND NOT m, ddr w OR m)]"
proof -
  have nops: "dr ((hw_nop H ^^ n) w) = dr w \<and> ddr ((hw_nop H ^^ n) w) = ddr w \<and>
      hist ((hw_nop H ^^ n) w) = hist w" for n
    using assms by (induction n) (simp_all add: gpio_registers_def)
  show "dr (bb_delay H w) = dr w" "ddr (bb_delay H w) = ddr w" "hist (bb_delay H w) = hist w"
    using nops by (simp_all add: bb_delay_def)
  show "dr (snd (bb_sda_read H w)) = dr w" "ddr (snd (bb_sda_read H w)) = ddr w"
    "\<exists>v. fst (bb_sda_read H w) = bit v 29 \<and> hist (snd (bb_sda_read H w)) = hist w @ [Look v]"
    "dr (bb_gpio_release H m w) = dr w" "ddr (bb_gpio_release H m w) = ddr w AND NOT m"
    "hist (bb_gpio_release H m w) = hist w @ [Regs (dr w, ddr w AND NOT m)]"
    "dr (bb_gpio_output_low H m w) = dr w AND NOT m" "ddr (bb_gpio_output_low H m w) = ddr w OR m"
    "hist (bb_gpio_output_low H m w) =
       hist w @ [Regs (dr w AND NOT m, ddr w), Regs (dr w AND NOT m, ddr w OR m)]"
    using assms
    by (simp_all add: gpio_registers_def gpio_offsets sda_bit bb_sda_read_def bb_gpio_read_def bb_gpio_release_def
        bb_gpio_output_low_def gpioa_read_def gpioa_write_def Let_def case_prod_beta)
qed

section \<open>What a slave sees\<close>

text \<open>
  The specification of the wire, as the master drives it. A line that is an output has the level of its data bit;
  one that is an input is high unless a slave pulls it. A slave sees a start when SDA falls and a stop when SDA rises
  while SCL stays high, and a bit when SCL falls after a high phase without either. A look at the input register
  while SCL is high samples SDA. The state is the level of SCL, of SDA, and whether a bit is pending.
\<close>

datatype wire_event = WStart | WStop | WBit bool | WSample bool

definition levels :: "u32 \<times> u32 \<Rightarrow> bool \<times> bool" where
  "levels r = (bit (snd r) 28 \<longrightarrow> bit (fst r) 28, bit (snd r) 29 \<longrightarrow> bit (fst r) 29)"

fun wire_step :: "bool \<times> bool \<times> bool \<Rightarrow> bool \<times> bool \<Rightarrow> wire_event list \<times> bool \<times> bool \<times> bool" where
  "wire_step (scl, sda, p) (scl', sda') =
    (if scl \<and> scl' then
       (if sda \<and> \<not> sda' then ([WStart], True, False, False)
        else if \<not> sda \<and> sda' then ([WStop], True, True, False) else ([], True, sda', p))
     else if scl' then ([], True, sda', True)
     else if scl then (if p then [WBit sda] else [], False, sda', False)
     else ([], False, sda', False))"

fun access_step :: "bool \<times> bool \<times> bool \<Rightarrow> bus_access \<Rightarrow> wire_event list \<times> bool \<times> bool \<times> bool" where
  "access_step s (Regs r) = wire_step s (levels r)"
| "access_step s (Look v) = (if fst s then [WSample (bit v 29)] else [], s)"

fun wire :: "bool \<times> bool \<times> bool \<Rightarrow> bus_access list \<Rightarrow> wire_event list \<times> bool \<times> bool \<times> bool" where
  "wire s [] = ([], s)"
| "wire s (l # ls) = (let (e, s) = access_step s l; (es, s) = wire s ls in (e @ es, s))"

text \<open>
  The I2C protocol. A byte goes most significant bit first and is followed by a slot in which the master
  releases SDA and samples it: low is an acknowledge. A byte read is eight such slots, and a bit from the master.
\<close>

definition byte_wire :: "u8 \<Rightarrow> bool \<Rightarrow> wire_event list" where
  "byte_wire v ack = map (\<lambda>k. WBit (bit v k)) (rev [0..<8]) @ [WSample (\<not> ack), WBit True]"

definition sampled_wire :: "u8 \<Rightarrow> nat \<Rightarrow> wire_event list" where
  "sampled_wire v n = concat (map (\<lambda>k. [WSample (bit v k), WBit True]) (rev [0..<n]))"

text \<open>The transactions with the acknowledges of the slave, and the return code that reports them.\<close>

definition write_reg_wire :: "u8 \<Rightarrow> u8 \<Rightarrow> u8 \<Rightarrow> bool \<Rightarrow> bool \<Rightarrow> bool \<Rightarrow> wire_event list \<times> int" where
  "write_reg_wire dev reg val a1 a2 a3 =
    (let addressed = [WStart] @ byte_wire (push_bit 1 dev) a1; pointed = addressed @ byte_wire reg a2
     in if \<not> a1 then (addressed @ [WStop], - 1)
        else if \<not> a2 then (pointed @ [WStop], - 2)
        else (pointed @ byte_wire val a3 @ [WStop], if a3 then 0 else - 3))"

definition read_reg_wire :: "u8 \<Rightarrow> u8 \<Rightarrow> bool \<Rightarrow> bool \<Rightarrow> bool \<Rightarrow> u8 \<Rightarrow> wire_event list \<times> int \<times> u8" where
  "read_reg_wire dev reg a1 a2 a3 v =
    (let addressed = [WStart] @ byte_wire (push_bit 1 dev) a1; pointed = addressed @ byte_wire reg a2;
         turned = pointed @ [WStart] @ byte_wire (push_bit 1 dev OR 1) a3
     in if \<not> a1 then (addressed @ [WStop], - 1, 0)
        else if \<not> a2 then (pointed @ [WStop], - 2, 0)
        else if \<not> a3 then (turned @ [WStop], - 3, 0)
        else (turned @ sampled_wire v 8 @ [WBit True] @ [WStop], 0, v))"

lemma wire_snoc: "wire s (ls @ ls') = (let (e, s) = wire s ls; (e', s) = wire s ls' in (e @ e', s))"
  by (induction ls arbitrary: s) (simp_all add: Let_def case_prod_beta split: prod.splits)

text \<open>The monitor's reading of the recorded values, kept in step with the registers.\<close>

definition seen ::
    "('w \<Rightarrow> u32) \<Rightarrow> ('w \<Rightarrow> u32) \<Rightarrow> ('w \<Rightarrow> bus_access list) \<Rightarrow> wire_event list \<Rightarrow> bool \<times> bool \<times> bool \<Rightarrow>
     'w \<Rightarrow> bool" where
  "seen dr ddr hist es s w \<longleftrightarrow>
     wire (True, True, False) (hist w) = (es, s) \<and>
     levels (dr w, ddr w) = (fst s, fst (snd s)) \<and> (snd (snd s) \<longrightarrow> fst s)"

lemma seen_delay:
  assumes "gpio_registers H dr ddr hist" "seen dr ddr hist es s w"
  shows "seen dr ddr hist es s (bb_delay H w)"
  using assms(2) by (simp add: seen_def gpio_line_ops [OF assms(1)])

lemma seen_sample:
  assumes "gpio_registers H dr ddr hist" "seen dr ddr hist es (True, sda, p) w"
  shows "seen dr ddr hist (es @ [WSample (fst (bb_sda_read H w))]) (True, sda, p) (snd (bb_sda_read H w))"
proof -
  obtain v where "fst (bb_sda_read H w) = bit v 29" "hist (snd (bb_sda_read H w)) = hist w @ [Look v]"
    using gpio_line_ops(6) [OF assms(1)] by blast
  then show ?thesis
    using assms(2) by (simp add: seen_def gpio_line_ops [OF assms(1)] wire_snoc)
qed

lemma seen_ops:
  assumes R: "gpio_registers H dr ddr hist" and S: "seen dr ddr hist es (scl, sda, p) w"
  shows "seen dr ddr hist (es @ (if scl \<and> p then [WBit sda] else [])) (False, sda, False) (bb_scl_low H w)"
    "seen dr ddr hist es (True, sda, \<not> scl \<or> p) (bb_scl_release H w)"
    "seen dr ddr hist (es @ (if scl \<and> sda then [WStart] else [])) (scl, False, p \<and> \<not> sda) (bb_sda_low H w)"
    "seen dr ddr hist (es @ (if scl \<and> \<not> sda then [WStop] else [])) (scl, True, p \<and> sda) (bb_sda_release H w)"
  using S
  by (auto simp: seen_def gpio_line_ops [OF R] bb_scl_low_def bb_scl_release_def bb_sda_low_def
      bb_sda_release_def wire_snoc levels_def BB_SCL_MASK_def BB_SDA_MASK_def bit_or_iff bit_and_iff
      bit_not_iff bit_push_bit_iff)

lemma seen_idle:
  assumes R: "gpio_registers H dr ddr hist" and S: "seen dr ddr hist es (True, True, p) w"
  shows "seen dr ddr hist es (True, True, p) (bb_i2c_idle H w)"
proof -
  have "seen dr ddr hist es (True, True, p) (bb_sda_release H w)" using seen_ops(4) [OF R S] by simp
  then have "seen dr ddr hist es (True, True, p) (bb_scl_release H (bb_sda_release H w))"
    using seen_ops(2) [OF R] by fastforce
  then show ?thesis unfolding bb_i2c_idle_def by (rule seen_delay [OF R])
qed

lemma seen_start:
  assumes R: "gpio_registers H dr ddr hist" and S: "seen dr ddr hist es (scl, sda, p) w"
    and ok: "scl \<longrightarrow> sda"
  shows "seen dr ddr hist (es @ [WStart]) (False, False, False) (bb_i2c_start H w)"
proof -
  let ?w1 = "bb_delay H (bb_scl_release H (bb_sda_release H w))"
  let ?w2 = "bb_delay H (bb_sda_low H ?w1)"
  have "seen dr ddr hist es (scl, True, p \<and> sda) (bb_sda_release H w)"
    using seen_ops(4) [OF R S] ok by (cases scl) simp_all
  from seen_delay [OF R seen_ops(2) [OF R this]]
  obtain q where "seen dr ddr hist es (True, True, q) ?w1" by blast
  from seen_delay [OF R seen_ops(3) [OF R this]]
  have "seen dr ddr hist (es @ [WStart]) (True, False, False) ?w2" by simp
  from seen_delay [OF R seen_ops(1) [OF R this]] show ?thesis
    by (simp add: bb_i2c_start_def)
qed

lemma seen_stop:
  assumes R: "gpio_registers H dr ddr hist" and S: "seen dr ddr hist es (False, sda, False) w"
  shows "seen dr ddr hist (es @ [WStop]) (True, True, False) (bb_i2c_stop H w)"
proof -
  let ?w1 = "bb_delay H (bb_sda_low H w)"
  let ?w2 = "bb_delay H (bb_scl_release H ?w1)"
  have "seen dr ddr hist es (False, False, False) ?w1"
    using seen_delay [OF R seen_ops(3) [OF R S]] by simp
  from seen_delay [OF R seen_ops(2) [OF R this]]
  have "seen dr ddr hist es (True, False, True) ?w2" by simp
  from seen_delay [OF R seen_ops(4) [OF R this]] show ?thesis
    by (simp add: bb_i2c_stop_def)
qed

lemma seen_clock:
  assumes R: "gpio_registers H dr ddr hist" and S: "seen dr ddr hist es (False, b, False) w"
  shows "seen dr ddr hist es (True, b, True) (bb_delay H (bb_scl_release H (bb_delay H w)))"
  using seen_delay [OF R seen_ops(2) [OF R seen_delay [OF R S]]] by simp

lemma seen_write_bit:
  assumes R: "gpio_registers H dr ddr hist" and S: "seen dr ddr hist es (False, sda, False) w"
  shows "seen dr ddr hist (es @ [WBit b]) (False, b, False) (bb_i2c_write_bit H b w)"
proof -
  let ?w1 = "if b then bb_sda_release H w else bb_sda_low H w"
  have "seen dr ddr hist es (False, b, False) ?w1"
    using seen_ops(3,4) [OF R S] by (cases b) simp_all
  from seen_delay [OF R seen_ops(1) [OF R seen_clock [OF R this]]] show ?thesis
    by (simp add: bb_i2c_write_bit_def)
qed

lemma seen_read_bit:
  assumes R: "gpio_registers H dr ddr hist" and S: "seen dr ddr hist es (False, sda, False) w"
  shows "seen dr ddr hist (es @ [WSample (fst (bb_i2c_read_bit H w)), WBit True]) (False, True, False)
    (snd (bb_i2c_read_bit H w))"
proof -
  have 1: "seen dr ddr hist es (False, True, False) (bb_sda_release H w)"
    using seen_ops(4) [OF R S] by simp
  from seen_delay [OF R seen_ops(1) [OF R seen_sample [OF R seen_clock [OF R 1]]]] show ?thesis
    by (simp add: bb_i2c_read_bit_def case_prod_beta Let_def)
qed

lemma seen_write_byte:
  assumes R: "gpio_registers H dr ddr hist" and S: "seen dr ddr hist es (False, sda, False) w"
  obtains ack where "seen dr ddr hist (es @ byte_wire v ack) (False, True, False) (snd (bb_i2c_write_byte H v w))"
    "fst (bb_i2c_write_byte H v w) = (if ack then 0 else - 1)"
proof -
  have bits: "\<exists>sda'. seen dr ddr hist (es @ map (\<lambda>k. WBit (bit v k)) (rev [0..<n])) (False, sda', False)
      (bb_write_bits H v n w)" if "seen dr ddr hist es (False, sda, False) w" for n es sda w
    using that
  proof (induction n arbitrary: es sda w)
    case (Suc n)
    have "(drop_bit n v AND 1 \<noteq> 0) = bit v n" by (simp add: bit_iff_and_drop_bit_eq_1 and_one_eq)
    with Suc.IH [OF seen_write_bit [OF R Suc.prems, of "bit v n"]] show ?case by simp
  qed auto
  from bits [OF S, of 8] obtain b where
    "seen dr ddr hist (es @ map (\<lambda>k. WBit (bit v k)) (rev [0..<8])) (False, b, False)
       (bb_write_bits H v 8 w)" ..
  from seen_read_bit [OF R this] that [of "\<not> fst (bb_i2c_read_bit H (bb_write_bits H v 8 w))"] show ?thesis
    by (simp add: bb_i2c_write_byte_def byte_wire_def case_prod_beta Let_def)
qed

lemma bit_shifted_in:
  "bit (if b then push_bit 1 v OR 1 else push_bit 1 v :: u8) j = (if j = 0 then b else j < 8 \<and> bit v (j - 1))"
proof -
  have "bit (push_bit 1 v) j = (1 \<le> j \<and> j < 8 \<and> bit v (j - 1))" for v :: u8
    by (subst bit_push_bit_iff) (simp add: possible_bit_def)
  moreover have "bit (1 :: u8) j = (j = 0)" by (simp add: bit_1_iff)
  ultimately show ?thesis by (simp only: bit_or_iff if_distrib [where f = "\<lambda>x. bit x j"]) auto
qed

lemma seen_read_bits:
  assumes R: "gpio_registers H dr ddr hist" and S: "seen dr ddr hist es (False, sda, False) w" and n: "n \<le> 8"
  shows "(\<exists>sda'. seen dr ddr hist (es @ sampled_wire (fst (bb_read_bits H n v w)) n) (False, sda', False)
      (snd (bb_read_bits H n v w))) \<and>
    (\<forall>k. n \<le> k \<and> k < 8 \<longrightarrow> bit (fst (bb_read_bits H n v w)) k = bit v (k - n))"
  using S n
proof (induction n arbitrary: es sda v w)
  case 0
  then show ?case by (auto simp: sampled_wire_def)
next
  case (Suc n)
  let ?b = "fst (bb_i2c_read_bit H w)" and ?w = "snd (bb_i2c_read_bit H w)"
  let ?v = "if ?b then push_bit 1 v OR 1 else push_bit 1 v"
  have e: "bb_read_bits H (Suc n) v w = bb_read_bits H n ?v ?w" by (simp add: Let_def case_prod_beta)
  let ?r = "fst (bb_read_bits H n ?v ?w)"
  have ih: "\<exists>sda'. seen dr ddr hist ((es @ [WSample ?b, WBit True]) @ sampled_wire ?r n) (False, sda', False)
      (snd (bb_read_bits H n ?v ?w))" "\<And>k. n \<le> k \<Longrightarrow> k < 8 \<Longrightarrow> bit ?r k = bit ?v (k - n)"
    using Suc.IH [OF seen_read_bit [OF R Suc.prems(1)], of ?v] Suc.prems(2) by auto
  have "bit ?r n = ?b" using ih(2) [of n] Suc.prems(2) unfolding bit_shifted_in by simp
  moreover have "bit ?r k = bit v (k - Suc n)" if "Suc n \<le> k" "k < 8" for k
    using ih(2) [of k] that unfolding bit_shifted_in by auto
  ultimately show ?case using ih(1) unfolding e by (simp add: sampled_wire_def)
qed

lemma seen_read_byte:
  assumes R: "gpio_registers H dr ddr hist" and S: "seen dr ddr hist es (False, sda, False) w"
  shows "seen dr ddr hist (es @ sampled_wire (fst (bb_i2c_read_byte H ack w)) 8 @ [WBit (\<not> ack)]) (False, \<not> ack, False)
    (snd (bb_i2c_read_byte H ack w))"
proof -
  obtain b where "seen dr ddr hist (es @ sampled_wire (fst (bb_read_bits H 8 0 w)) 8) (False, b, False)
      (snd (bb_read_bits H 8 0 w))" using seen_read_bits [OF R S, of 8 0] by auto
  from seen_write_bit [OF R this, of "\<not> ack"] show ?thesis
    by (cases ack) (simp_all add: bb_i2c_read_byte_def case_prod_beta Let_def)
qed

lemmas seen_steps = seen_idle seen_start seen_stop seen_write_byte seen_read_byte

lemma seen_opening:
  assumes R: "gpio_registers H dr ddr hist" and S: "seen dr ddr hist es (True, True, p) w"
  shows "seen dr ddr hist (es @ [WStart]) (False, False, False) (bb_i2c_start H (bb_i2c_idle H w))"
  using seen_start [OF R seen_idle [OF R S]] by simp

lemma seen_write_reg:
  assumes R: "gpio_registers H dr ddr hist" and S: "seen dr ddr hist es (True, True, p) w"
  shows "\<exists>a1 a2 a3. seen dr ddr hist (es @ fst (write_reg_wire dev reg val a1 a2 a3)) (True, True, False)
      (snd (bb_i2c_write_reg H dev reg val w)) \<and>
    fst (bb_i2c_write_reg H dev reg val w) = snd (write_reg_wire dev reg val a1 a2 a3)"
proof -
  let ?w0 = "bb_i2c_start H (bb_i2c_idle H w)"
  let ?b1 = "bb_i2c_write_byte H (push_bit 1 dev) ?w0"
  let ?b2 = "bb_i2c_write_byte H reg (snd ?b1)"
  let ?b3 = "bb_i2c_write_byte H val (snd ?b2)"
  obtain a1 where 1: "seen dr ddr hist ((es @ [WStart]) @ byte_wire (push_bit 1 dev) a1) (False, True, False) (snd ?b1)"
    "fst ?b1 = (if a1 then 0 else - 1)" by (rule seen_write_byte [OF R seen_opening [OF R S]])
  obtain a2 where 2: "seen dr ddr hist (((es @ [WStart]) @ byte_wire (push_bit 1 dev) a1) @ byte_wire reg a2)
      (False, True, False) (snd ?b2)" "fst ?b2 = (if a2 then 0 else - 1)" by (rule seen_write_byte [OF R 1(1)])
  obtain a3 where 3: "seen dr ddr hist ((((es @ [WStart]) @ byte_wire (push_bit 1 dev) a1) @ byte_wire reg a2) @ byte_wire val a3)
      (False, True, False) (snd ?b3)" "fst ?b3 = (if a3 then 0 else - 1)" by (rule seen_write_byte [OF R 2(1)])
  show ?thesis
    using seen_stop [OF R 1(1)] seen_stop [OF R 2(1)] seen_stop [OF R 3(1)] 1(2) 2(2) 3(2)
    by (intro exI [of _ a1] exI [of _ a2] exI [of _ a3], cases a1; cases a2; cases a3)
      (simp_all add: bb_i2c_write_reg_def write_reg_wire_def Let_def case_prod_beta)
qed

lemma seen_read_reg:
  assumes R: "gpio_registers H dr ddr hist" and S: "seen dr ddr hist es (True, True, p) w"
  shows "\<exists>a1 a2 a3 v. seen dr ddr hist (es @ fst (read_reg_wire dev reg a1 a2 a3 v)) (True, True, False)
      (snd (bb_i2c_read_reg H dev reg w)) \<and>
    fst (bb_i2c_read_reg H dev reg w) = snd (read_reg_wire dev reg a1 a2 a3 v)"
proof -
  let ?w0 = "bb_i2c_start H (bb_i2c_idle H w)"
  let ?b1 = "bb_i2c_write_byte H (push_bit 1 dev) ?w0"
  let ?b2 = "bb_i2c_write_byte H reg (snd ?b1)"
  let ?b3 = "bb_i2c_write_byte H (push_bit 1 dev OR 1) (bb_i2c_start H (snd ?b2))"
  let ?b4 = "bb_i2c_read_byte H False (snd ?b3)"
  obtain a1 where 1: "seen dr ddr hist ((es @ [WStart]) @ byte_wire (push_bit 1 dev) a1) (False, True, False) (snd ?b1)"
    "fst ?b1 = (if a1 then 0 else - 1)" by (rule seen_write_byte [OF R seen_opening [OF R S]])
  let ?e1 = "(es @ [WStart]) @ byte_wire (push_bit 1 dev) a1"
  obtain a2 where 2: "seen dr ddr hist (?e1 @ byte_wire reg a2) (False, True, False) (snd ?b2)"
    "fst ?b2 = (if a2 then 0 else - 1)" by (rule seen_write_byte [OF R 1(1)])
  have "seen dr ddr hist ((?e1 @ byte_wire reg a2) @ [WStart]) (False, False, False) (bb_i2c_start H (snd ?b2))"
    using seen_start [OF R 2(1)] by simp
  from seen_write_byte [OF R this] obtain a3 where
    3: "seen dr ddr hist (((?e1 @ byte_wire reg a2) @ [WStart]) @ byte_wire (push_bit 1 dev OR 1) a3) (False, True, False) (snd ?b3)"
    "fst ?b3 = (if a3 then 0 else - 1)" by metis
  note 4 = seen_stop [OF R seen_read_byte [OF R 3(1), of False, simplified], simplified]
  show ?thesis
    using seen_stop [OF R 1(1)] seen_stop [OF R 2(1)] seen_stop [OF R 3(1)] 4 1(2) 2(2) 3(2)
    by (intro exI [of _ a1] exI [of _ a2] exI [of _ a3] exI [of _ "fst ?b4"], cases a1; cases a2; cases a3)
      (simp_all add: bb_i2c_read_reg_def read_reg_wire_def Let_def case_prod_beta)
qed

text \<open>
  The line discipline: what one transaction leaves of the port. A pin that is an output is low, and
  the thirty other pins are as they were, at every recorded instant.
\<close>

definition port_clean :: "u32 \<Rightarrow> u32 \<Rightarrow> u32 \<times> u32 \<Rightarrow> bool" where
  "port_clean dr0 ddr0 r \<longleftrightarrow>
     fst r AND NOT (BB_SCL_MASK OR BB_SDA_MASK) = dr0 AND NOT (BB_SCL_MASK OR BB_SDA_MASK) \<and>
     snd r AND NOT (BB_SCL_MASK OR BB_SDA_MASK) = ddr0 AND NOT (BB_SCL_MASK OR BB_SDA_MASK) \<and>
     fst r AND snd r AND (BB_SCL_MASK OR BB_SDA_MASK) = 0"

lemma port_clean_step:
  assumes "port_clean a b (d, e)" "m = BB_SCL_MASK \<or> m = BB_SDA_MASK"
  shows "port_clean a b (d AND NOT m, e)" "port_clean a b (d AND NOT m, e OR m)"
    "port_clean a b (d, e AND NOT m)"
  using assms
  by (auto simp: port_clean_def bit_eq_iff bit_simps)

lemma line_keeps_clean:
  assumes R: "gpio_registers H dr ddr hist"
  shows "line_keeps H (\<lambda>w. (\<forall>r. Regs r \<in> set (hist w) \<longrightarrow> port_clean a b r) \<and> port_clean a b (dr w, ddr w))"
proof -
  have "\<exists>v. hist (snd (bb_sda_read H w)) = hist w @ [Look v]" for w using gpio_line_ops(6) [OF R] by blast
  then have "Regs r \<in> set (hist (snd (bb_sda_read H w))) \<longleftrightarrow> Regs r \<in> set (hist w)" for r w
    by (metis Un_iff bus_access.distinct(1) empty_iff empty_set list.simps(15) insert_iff set_append)
  then show ?thesis
  by (auto simp add: line_keeps_def gpio_line_ops [OF R] bb_scl_low_def bb_scl_release_def bb_sda_low_def
      bb_sda_release_def port_clean_step)
qed

section \<open>A bench\<close>

text \<open>
  Concrete hardware to run the firmware on: plain registers, a UART that delivers a list of bytes, a
  tick that stands still, one shared region, and a record of the configurations given to the driver.
\<close>

record bench =
  bn_reg :: "u64 \<Rightarrow> u32"
  bn_hist :: "bus_access list"
  bn_uart :: "u8 list"
  bn_tick :: u32
  bn_region :: shared_region
  bn_pwm :: "pwm_configuration list"

definition bench_load :: "u64 \<Rightarrow> bench \<Rightarrow> u32 \<times> bench" where
  "bench_load a w =
    (if a = 0x04170014 then (if bn_uart w = [] then 0 else 1, w)
     else if a = 0x04170000 then (ucast (hd (bn_uart w)), w\<lparr>bn_uart := tl (bn_uart w)\<rparr>)
     else if a = GPIOA_BASE + GPIO_EXT_PORTA then (bn_reg w a, w\<lparr>bn_hist := bn_hist w @ [Look (bn_reg w a)]\<rparr>)
     else (bn_reg w a, w))"

definition bench_store :: "u64 \<Rightarrow> u32 \<Rightarrow> bench \<Rightarrow> bench" where
  "bench_store a v w =
    (let reg = (bn_reg w)(a := v)
     in w\<lparr>bn_reg := reg,
         bn_hist := bn_hist w @ [Regs (reg (GPIOA_BASE + GPIO_SWPORTA_DR), reg (GPIOA_BASE + GPIO_SWPORTA_DDR))]\<rparr>)"

definition bench_pwm :: "pwm_configuration \<Rightarrow> bench \<Rightarrow> bench" where
  "bench_pwm c w = w\<lparr>bn_pwm := bn_pwm w @ [c]\<rparr>"

definition bench_hw :: "bench fw_hw" where
  "bench_hw = \<lparr>configTICK_RATE_HZ = 200, xTaskGetTickCount = (\<lambda>w. (bn_tick w, w)), hw_load32 = bench_load,
     hw_store32 = bench_store, hw_nop = (\<lambda>w. w), fw_hal_uart_init = (\<lambda>_ _ _ w. w), PWM_MAX_CH = 3,
     cvi_pwm_reg_base = (\<lambda>_. 0), hw_pwm_init = (\<lambda>_ w. w), hw_pwm_set_output_cfg = bench_pwm,
     hw_pwm_continuous_start = (\<lambda>_ w. w), cvi_pwm_get_period_ch = (\<lambda>_ _ w. (0, w)),
     cvi_pwm_get_high_period_ch = (\<lambda>_ _ w. (0, w)), PWM_PWMSTART = (\<lambda>_ w. (0, w)),
     PWM_PWM_OE = (\<lambda>_ w. (0, w)), cvi_pwm_get_polarity = (\<lambda>_ _ w. (1, w)),
     hw_shm_load = (\<lambda>_ w. (bn_region w, w)), hw_shm_store = (\<lambda>_ f w. w\<lparr>bn_region := f (bn_region w)\<rparr>),
     flush_dcache_range = (\<lambda>_ _ w. w),
     undefined_u32 = (\<lambda>_. 0xFFFFFFFF)\<rparr>"

definition bench_dr :: "bench \<Rightarrow> u32" where "bench_dr w = bn_reg w (GPIOA_BASE + GPIO_SWPORTA_DR)"
definition bench_ddr :: "bench \<Rightarrow> u32" where "bench_ddr w = bn_reg w (GPIOA_BASE + GPIO_SWPORTA_DDR)"

lemma bench_registers: "gpio_registers bench_hw bench_dr bench_ddr bn_hist"
  by (simp add: gpio_registers_def bench_hw_def bench_load_def bench_store_def bench_dr_def
      bench_ddr_def GPIOA_BASE_def gpio_offsets Let_def)

section \<open>The properties\<close>

text \<open>C38: On any port whose data and direction registers read back what was written, a register write that starts on
  a free bus shows a slave exactly the I2C transaction: start, the device address with the write bit, the register,
  the value, most significant bit first, each followed by a slot in which SDA is released and sampled, and a stop. The
  transaction goes on exactly when the sample is low; one that is high cuts it short at that byte, still with a stop,
  and gives the return code of that byte. The bus is free again.\<close>

theorem i2c_write_reg_wire:
  assumes "gpio_registers H dr ddr hist" "hist w = []" "levels (dr w, ddr w) = (True, True)"
  shows "\<exists>a1 a2 a3. wire (True, True, False) (hist (snd (bb_i2c_write_reg H dev reg val w))) =
      (fst (write_reg_wire dev reg val a1 a2 a3), True, True, False) \<and>
    fst (bb_i2c_write_reg H dev reg val w) = snd (write_reg_wire dev reg val a1 a2 a3)"
proof -
  have "seen dr ddr hist [] (True, True, False) w" using assms by (simp add: seen_def)
  from seen_write_reg [OF assms(1) this, of dev reg val] show ?thesis unfolding seen_def append_Nil by blast
qed

definition bench0 :: "u8 list \<Rightarrow> u32 \<Rightarrow> shared_region \<Rightarrow> bench" where
  "bench0 u t r = \<lparr>bn_reg = (\<lambda>_. 0), bn_hist = [], bn_uart = u, bn_tick = t, bn_region = r, bn_pwm = []\<rparr>"

text \<open>A bus without a slave: every sample is high.\<close>

definition silent_bench :: bench where
  "silent_bench = (bench0 [] 5 fresh_region)\<lparr>bn_reg := (\<lambda>a. if a = GPIOA_BASE + GPIO_EXT_PORTA then BB_SDA_MASK else 0)\<rparr>"

theorem i2c_write_reg_wire_witness:
  "\<exists>a1 a2 a3. wire (True, True, False) (bn_hist (snd (bb_i2c_write_reg bench_hw 0x1E 0x02 0x00 silent_bench))) =
      (fst (write_reg_wire 0x1E 0x02 0x00 a1 a2 a3), True, True, False)"
proof -
  have "levels (bench_dr silent_bench, bench_ddr silent_bench) = (True, True)" "bn_hist silent_bench = []"
    by (simp_all add: silent_bench_def bench0_def levels_def bench_dr_def bench_ddr_def GPIOA_BASE_def gpio_offsets)
  from i2c_write_reg_wire [OF bench_registers this(2,1)] show ?thesis by blast
qed

text \<open>C14: A register read shows start, the device address with the write bit, the register, a repeated start, the
  address with the read bit, each with its sampled acknowledge slot, then eight slots in which SDA is released and
  sampled, a NACK and a stop; the byte it returns is the eight samples, most significant first. A sample that is high in
  an acknowledge slot ends it with a stop, the return code of that byte and the value 0.\<close>

theorem i2c_read_reg_wire:
  assumes "gpio_registers H dr ddr hist" "hist w = []" "levels (dr w, ddr w) = (True, True)"
  shows "\<exists>a1 a2 a3 v. wire (True, True, False) (hist (snd (bb_i2c_read_reg H dev reg w))) =
      (fst (read_reg_wire dev reg a1 a2 a3 v), True, True, False) \<and>
    fst (bb_i2c_read_reg H dev reg w) = snd (read_reg_wire dev reg a1 a2 a3 v)"
proof -
  have "seen dr ddr hist [] (True, True, False) w" using assms by (simp add: seen_def)
  from seen_read_reg [OF assms(1) this, of dev reg] show ?thesis unfolding seen_def append_Nil by blast
qed

theorem i2c_read_reg_wire_witness:
  "\<exists>a1 a2 a3 v. fst (bb_i2c_read_reg bench_hw 0x68 0x75 silent_bench) = snd (read_reg_wire 0x68 0x75 a1 a2 a3 v)"
proof -
  have "levels (bench_dr silent_bench, bench_ddr silent_bench) = (True, True)" "bn_hist silent_bench = []"
    by (simp_all add: silent_bench_def bench0_def levels_def bench_dr_def bench_ddr_def GPIOA_BASE_def gpio_offsets)
  from i2c_read_reg_wire [OF bench_registers this(2,1)] show ?thesis by blast
qed

text \<open>On such a port no transaction, whatever its outcome, ever drives SCL or SDA high or touches
  another pin: at every register value it writes, the data bit of a line that is an output is 0 and
  the thirty other bits of both registers are those it started with.
\<close>

theorem i2c_open_drain:
  assumes "gpio_registers H dr ddr hist" "hist w = []"
    "dr w AND ddr w AND (BB_SCL_MASK OR BB_SDA_MASK) = 0"
    "Regs r \<in> set (hist (snd (bb_i2c_write_reg H dev reg val w)) @ hist (snd (bb_i2c_read_reg H dev reg w)) @
      hist (snd (bb_i2c_read_regs H dev reg len w)))"
  shows "port_clean (dr w) (ddr w) r"
proof -
  have "(\<forall>r. Regs r \<in> set (hist w) \<longrightarrow> port_clean (dr w) (ddr w) r) \<and> port_clean (dr w) (ddr w) (dr w, ddr w)"
    using assms by (simp add: port_clean_def)
  note k = line_keeps_transactions [OF line_keeps_clean [OF assms(1)] this]
  have "Regs r \<in> set (hist (snd (bb_i2c_write_reg H dev reg val w))) \<or> Regs r \<in> set (hist (snd (bb_i2c_read_reg H dev reg w))) \<or>
      Regs r \<in> set (hist (snd (bb_i2c_read_regs H dev reg len w)))" using assms(4) by simp
  then show ?thesis using k(1) [of dev reg] k(2) [of dev reg val] k(3) [of dev reg len] by blast
qed

theorem i2c_open_drain_witness:
  "\<forall>r. Regs r \<in> set (bn_hist (snd (bb_i2c_write_reg bench_hw 0x1E 0x02 0x00 (bench0 [] 5 fresh_region)))) \<longrightarrow>
    port_clean 0 0 r"
proof (intro allI impI)
  fix r
  have z: "bench_dr (bench0 [] 5 fresh_region) = 0" "bench_ddr (bench0 [] 5 fresh_region) = 0" "bn_hist (bench0 [] 5 fresh_region) = []"
    by (simp_all add: bench0_def bench_dr_def bench_ddr_def)
  assume "Regs r \<in> set (bn_hist (snd (bb_i2c_write_reg bench_hw 0x1E 0x02 0x00 (bench0 [] 5 fresh_region))))"
  then show "port_clean 0 0 r"
    using i2c_open_drain [OF bench_registers z(3), where r = r and dev = "0x1E" and reg = "0x02" and val = "0x00"] by (simp add: z)
qed

end
