(* ===== verification/FwSensors.thy ===== *)
theory FwSensors
  imports FwBus
begin

text \<open>
  The sensors of \<open>comm_main.c\<close>: configuration and reading of the HMC5883L and the MPU6050 over the
  bit-banged bus, the gyro calibration, the decision that the sensors are ready, the integer attitude
  (square root, arc tangent) and the body axes, and the probe that runs them all. Return codes are the
  integers of the source. Every operation is proved to keep the ranges in which the \<open>int32_t\<close>
  arithmetic of the source does not overflow.
\<close>

section \<open>Registers\<close>

definition HMC5883L_ADDR :: u8 where "HMC5883L_ADDR = 0x1E"
definition MPU6050_ADDR0 :: u8 where "MPU6050_ADDR0 = 0x68"
definition MPU6050_ADDR1 :: u8 where "MPU6050_ADDR1 = 0x69"
definition MPU_CAL_TARGET_COUNT :: u32 where "MPU_CAL_TARGET_COUNT = 50"
definition SENSOR_STATE_OK :: u32 where "SENSOR_STATE_OK = 0"
definition SENSOR_STATE_HMC_BAD :: u32 where "SENSOR_STATE_HMC_BAD = 1"
definition SENSOR_STATE_MPU_BAD :: u32 where "SENSOR_STATE_MPU_BAD = 2"
definition SENSOR_STATE_MPU_CAL :: u32 where "SENSOR_STATE_MPU_CAL = 4"

lemmas sensor_consts = HMC5883L_ADDR_def MPU6050_ADDR0_def MPU6050_ADDR1_def MPU_CAL_TARGET_COUNT_def
  SENSOR_STATE_OK_def SENSOR_STATE_HMC_BAD_def SENSOR_STATE_MPU_BAD_def SENSOR_STATE_MPU_CAL_def

text \<open>The error code of a failed transaction, \<open>base | (-ret & mask)\<close>, and a big-endian \<open>int16_t\<close>.\<close>

definition err_code :: "int \<Rightarrow> int \<Rightarrow> int \<Rightarrow> int" where
  "err_code base ret m = base OR (- ret AND m)"

definition be_i16 :: "u8 \<Rightarrow> u8 \<Rightarrow> int" where
  "be_i16 hi lo = sint (push_bit 8 (ucast hi) OR ucast lo :: u16)"

lemma be_i16_range: "- 32768 \<le> be_i16 a b \<and> be_i16 a b \<le> 32767"
  using sint_ge [of "push_bit 8 (ucast a) OR ucast b :: u16"]
    sint_lt [of "push_bit 8 (ucast a) OR ucast b :: u16"]
  by (simp add: be_i16_def)

section \<open>HMC5883L\<close>

definition hmc5883l_config_once :: "'w fw_hw \<Rightarrow> fw \<times> 'w \<Rightarrow> int \<times> fw \<times> 'w" where
  "hmc5883l_config_once H = (\<lambda>(s, w).
    (if g_hmc_cfg_done s then (0, s, w)
     else
      (let (ret, w) = bb_i2c_write_reg H HMC5883L_ADDR 0x00 0x70 w
       in if ret \<noteq> 0 then (err_code 0x10 ret 0xf, s, w)
          else
       (let (ret, w) = bb_i2c_write_reg H HMC5883L_ADDR 0x01 0x60 w
        in if ret \<noteq> 0 then (err_code 0x20 ret 0xf, s, w)
           else
        (let (ret, w) = bb_i2c_write_reg H HMC5883L_ADDR 0x02 0x00 w
         in if ret \<noteq> 0 then (err_code 0x30 ret 0xf, s, w)
            else (0, s\<lparr>g_hmc_cfg_done := True\<rparr>, w))))))"

definition hmc5883l_read_raw_once :: "'w fw_hw \<Rightarrow> fw \<times> 'w \<Rightarrow> int \<times> fw \<times> 'w" where
  "hmc5883l_read_raw_once H sw =
    (let (ret, s, w) = hmc5883l_config_once H sw
     in if ret \<noteq> 0 then (0x400 OR (ret AND 0xff), s\<lparr>g_hmc_data_ok := False\<rparr>, w)
        else
     (let ((ret, buf), w) = bb_i2c_read_regs H HMC5883L_ADDR 0x03 6 w
      in if ret \<noteq> 0 then (err_code 0x500 ret 0xff, s\<lparr>g_hmc_data_ok := False\<rparr>, w)
         else
      (let x = be_i16 (buf ! 0) (buf ! 1);
           z = be_i16 (buf ! 2) (buf ! 3);
           y = be_i16 (buf ! 4) (buf ! 5);
           s = s\<lparr>g_hmc := Axes x y z\<rparr>
       in if x = - 4096 \<or> y = - 4096 \<or> z = - 4096 then (0x600, s\<lparr>g_hmc_data_ok := False\<rparr>, w)
          else (0, s\<lparr>g_hmc_data_ok := True\<rparr>, w))))"

section \<open>MPU6050\<close>

text \<open>The five register writes, in order: power management, sample rate, filter, gyro and accel range.\<close>

definition mpu6050_config_once :: "'w fw_hw \<Rightarrow> u8 \<Rightarrow> fw \<times> 'w \<Rightarrow> int \<times> fw \<times> 'w" where
  "mpu6050_config_once H addr = (\<lambda>(s, w).
    (if g_mpu_cfg_done s \<and> g_mpu_addr_found s = ucast addr then (0, s, w)
     else
      (let (ret, w) = bb_i2c_write_reg H addr 0x6B 0x00 w
       in if ret \<noteq> 0 then (err_code 0x100 ret 0xff, s, w)
          else
       (let (ret, w) = bb_i2c_write_reg H addr 0x19 0x09 w
        in if ret \<noteq> 0 then (err_code 0x110 ret 0xff, s, w)
           else
        (let (ret, w) = bb_i2c_write_reg H addr 0x1A 0x03 w
         in if ret \<noteq> 0 then (err_code 0x120 ret 0xff, s, w)
            else
         (let (ret, w) = bb_i2c_write_reg H addr 0x1B 0x00 w
          in if ret \<noteq> 0 then (err_code 0x130 ret 0xff, s, w)
             else
          (let (ret, w) = bb_i2c_write_reg H addr 0x1C 0x00 w
           in if ret \<noteq> 0 then (err_code 0x140 ret 0xff, s, w)
              else (0, s\<lparr>g_mpu_cfg_done := True, g_mpu_addr_found := ucast addr\<rparr>, w))))))))"

definition mpu6050_read_raw_once :: "'w fw_hw \<Rightarrow> u8 \<Rightarrow> fw \<times> 'w \<Rightarrow> int \<times> fw \<times> 'w" where
  "mpu6050_read_raw_once H addr sw =
    (let (ret, s, w) = mpu6050_config_once H addr sw
     in if ret \<noteq> 0 then (0x200 OR (ret AND 0xff), s\<lparr>g_mpu_data_ok := False\<rparr>, w)
        else
     (let ((ret, buf), w) = bb_i2c_read_regs H addr 0x3B 14 w
      in if ret \<noteq> 0 then (err_code 0x300 ret 0xff, s\<lparr>g_mpu_data_ok := False\<rparr>, w)
         else
      (0, s\<lparr>g_mpu_a := Axes (be_i16 (buf ! 0) (buf ! 1)) (be_i16 (buf ! 2) (buf ! 3)) (be_i16 (buf ! 4) (buf ! 5)),
           g_mpu_g := Axes (be_i16 (buf ! 8) (buf ! 9)) (be_i16 (buf ! 10) (buf ! 11)) (be_i16 (buf ! 12) (buf ! 13)),
           g_mpu_data_ok := True\<rparr>, w)))"

section \<open>Calibration and readiness\<close>

definition mpu6050_cal_update_once :: "fw \<Rightarrow> fw" where
  "mpu6050_cal_update_once s =
    (if \<not> g_mpu_data_ok s then s
     else if g_mpu_cal_done s then s
     else
      (let s = s\<lparr>g_mpu_acc_sum := axes_map2 (+) (g_mpu_acc_sum s) (g_mpu_a s),
                 g_mpu_gyro_sum := axes_map2 (+) (g_mpu_gyro_sum s) (g_mpu_g s),
                 g_mpu_cal_count := g_mpu_cal_count s + 1\<rparr>
       in if g_mpu_cal_count s \<ge> MPU_CAL_TARGET_COUNT then
            s\<lparr>g_mpu_acc_bias := axes_map (\<lambda>v. v sdiv uint (g_mpu_cal_count s)) (g_mpu_acc_sum s),
              g_mpu_gyro_bias := axes_map (\<lambda>v. v sdiv uint (g_mpu_cal_count s)) (g_mpu_gyro_sum s),
              g_mpu_cal_done := True\<rparr>
          else s))"

definition sensor_update_corrected_once :: "fw \<Rightarrow> fw" where
  "sensor_update_corrected_once s =
    (let s = s\<lparr>g_sensor_ready := False, g_att_ok := False, g_sensor_state_error := SENSOR_STATE_OK\<rparr>
     in if \<not> g_hmc_ok s \<or> \<not> g_hmc_data_ok s then
          s\<lparr>g_sensor_state_error := g_sensor_state_error s OR SENSOR_STATE_HMC_BAD\<rparr>
        else if \<not> g_mpu_ok s \<or> \<not> g_mpu_data_ok s then
          s\<lparr>g_sensor_state_error := g_sensor_state_error s OR SENSOR_STATE_MPU_BAD\<rparr>
        else if \<not> g_mpu_cal_done s then
          s\<lparr>g_sensor_state_error := g_sensor_state_error s OR SENSOR_STATE_MPU_CAL\<rparr>
        else
          s\<lparr>g_mpu_a_corr := g_mpu_a s,
            g_mpu_g_corr := axes_map2 (-) (g_mpu_g s) (g_mpu_gyro_bias s),
            g_sensor_ready := True\<rparr>)"

section \<open>Integer attitude\<close>

definition amp_abs32_to_u32 :: "int \<Rightarrow> u32" where
  "amp_abs32_to_u32 v = (if v < 0 then word_of_int (- v) else word_of_int v)"

text \<open>
  The two loops of the square root. The first shifts the probe bit down to the argument, the second
  runs until the probe bit is gone; both end because the bit is shifted right by two each time.
\<close>

function isqrt_align :: "u64 \<Rightarrow> u64 \<Rightarrow> u64" where
  "isqrt_align v b = (if b > v then isqrt_align v (drop_bit 2 b) else b)"
  by auto

function isqrt_loop :: "u64 \<Rightarrow> u64 \<Rightarrow> u64 \<Rightarrow> u64" where
  "isqrt_loop v b res =
    (if b \<noteq> 0 then
       (if v \<ge> res + b then isqrt_loop (v - (res + b)) (drop_bit 2 b) (drop_bit 1 res + b)
        else isqrt_loop v (drop_bit 2 b) (drop_bit 1 res))
     else res)"
  by auto

lemma drop_bit_2_less: "b \<noteq> 0 \<Longrightarrow> unat (drop_bit 2 b) < unat (b :: u64)"
  by (simp add: unat_drop_bit_eq drop_bit_eq_div unat_div unat_gt_0)

termination isqrt_align
proof (relation "measure (\<lambda>(v, b). unat b)")
  fix v b :: u64
  assume "b > v"
  then have "b \<noteq> 0" by auto
  then show "((v, drop_bit 2 b), (v, b)) \<in> measure (\<lambda>(v, b). unat b)" by (simp add: drop_bit_2_less)
qed simp

termination isqrt_loop
  by (relation "measure (\<lambda>(v, b, res). unat b)") (simp_all add: drop_bit_2_less)

declare isqrt_align.simps [simp del] isqrt_loop.simps [simp del]

definition amp_isqrt64 :: "u64 \<Rightarrow> u32" where
  "amp_isqrt64 v = ucast (isqrt_loop v (isqrt_align v (push_bit 62 1)) 0)"

text \<open>The quotients are of unsigned 64-bit numbers; their values fit an \<open>int32_t\<close>.\<close>

definition amp_atan2_cd_approx :: "int \<Rightarrow> int \<Rightarrow> int" where
  "amp_atan2_cd_approx y x =
    (let ax = amp_abs32_to_u32 x;
         ay = amp_abs32_to_u32 y
     in if ax = 0 \<and> ay = 0 then 0
        else
        (let base = (if ax \<ge> ay then (if ax = 0 then 9000
                                       else sint (ucast ((ucast ay * 4500) div (ucast ax :: u64)) :: u32))
                     else 9000 - sint (ucast ((ucast ax * 4500) div (ucast ay :: u64)) :: u32))
         in if x \<ge> 0 then (if y \<ge> 0 then base else - base)
            else if y \<ge> 0 then 18000 - base else base - 18000))"

definition attitude_update_debug_once :: "fw \<Rightarrow> fw" where
  "attitude_update_debug_once s =
    (let s = s\<lparr>g_att_ok := False\<rparr>
     in if \<not> g_sensor_ready s then s
        else if \<not> g_hmc_data_ok s \<or> \<not> g_mpu_data_ok s then s
        else
         (let s = s\<lparr>g_rate_roll_raw := ax_x (g_mpu_g_corr s), g_rate_pitch_raw := ax_y (g_mpu_g_corr s),
                    g_rate_yaw_raw := ax_z (g_mpu_g_corr s)\<rparr>;
              ay2 = ucast (amp_abs32_to_u32 (ax_y (g_mpu_a_corr s))) * ucast (amp_abs32_to_u32 (ax_y (g_mpu_a_corr s)));
              az2 = ucast (amp_abs32_to_u32 (ax_z (g_mpu_a_corr s))) * ucast (amp_abs32_to_u32 (ax_z (g_mpu_a_corr s)));
              horiz = sint (amp_isqrt64 (ay2 + az2));
              s = s\<lparr>g_att_roll_cd := amp_atan2_cd_approx (ax_y (g_mpu_a_corr s)) (ax_z (g_mpu_a_corr s)),
                    g_att_pitch_cd := amp_atan2_cd_approx (- ax_x (g_mpu_a_corr s)) horiz,
                    g_att_yaw_cd := amp_atan2_cd_approx (ax_y (g_hmc s)) (ax_x (g_hmc s))\<rparr>;
              s = (if g_att_yaw_cd s < 0 then s\<lparr>g_att_yaw_cd := g_att_yaw_cd s + 36000\<rparr> else s)
          in s\<lparr>g_att_ok := True\<rparr>))"

definition body_axis_update_once :: "fw \<Rightarrow> fw" where
  "body_axis_update_once s =
    (if \<not> g_att_ok s \<or> \<not> g_sensor_ready s then s
     else
      (let s = (if \<not> g_level_trim_done s then
                  s\<lparr>g_level_roll_cd := g_att_roll_cd s, g_level_pitch_cd := g_att_pitch_cd s,
                    g_level_trim_done := True\<rparr>
                else s)
       in s\<lparr>g_body_roll_cd := 1 * (g_att_roll_cd s - g_level_roll_cd s),
            g_body_pitch_cd := - 1 * (g_att_pitch_cd s - g_level_pitch_cd s),
            g_body_yaw_cd := 1 * g_att_yaw_cd s,
            g_body_rate_roll_raw := 1 * g_rate_roll_raw s,
            g_body_rate_pitch_raw := - 1 * g_rate_pitch_raw s,
            g_body_rate_yaw_raw := 1 * g_rate_yaw_raw s\<rparr>))"

section \<open>The probe\<close>

definition amp_i2c_reset :: "fw \<Rightarrow> fw" where
  "amp_i2c_reset s = s\<lparr>g_i2c_probe_count := g_i2c_probe_count s + 1, g_i2c_last_err := 0,
     g_hmc_data_ok := False, g_hmc_ok := False, g_hmc_bus := 0xff, g_hmc_scan_mask := 0,
     g_hmc_id_a := 0, g_hmc_id_b := 0, g_hmc_id_c := 0,
     g_mpu_whoami := 0, g_mpu_ok := False, g_mpu_data_ok := False, g_sensor_ready := False,
     g_att_ok := False, g_sensor_state_error := SENSOR_STATE_HMC_BAD OR SENSOR_STATE_MPU_BAD\<rparr>"

definition amp_i2c_hmc :: "'w fw_hw \<Rightarrow> u8 \<Rightarrow> u8 \<Rightarrow> u8 \<Rightarrow> fw \<times> 'w \<Rightarrow> fw \<times> 'w" where
  "amp_i2c_hmc H a b c = (\<lambda>(s, w).
    (let s = s\<lparr>g_hmc_id_a := ucast a, g_hmc_id_b := ucast b, g_hmc_id_c := ucast c,
               g_hmc_bus := 100, g_hmc_scan_mask := 0x80000000\<rparr>
     in if a = 0x48 \<and> b = 0x34 \<and> c = 0x33 then
          (let (ret, s, w) = hmc5883l_read_raw_once H (s\<lparr>g_hmc_ok := True, g_i2c_last_err := 0\<rparr>, w)
           in (if ret \<noteq> 0 then s\<lparr>g_i2c_last_err := 0xBB050000 OR word_of_int (ret AND 0xffff)\<rparr> else s, w))
        else (s\<lparr>g_hmc_ok := False, g_hmc_data_ok := False, g_i2c_last_err := 0xBB044400\<rparr>, w)))"

text \<open>An MPU that has answered at an address: the branch that the source has once for each address.\<close>

definition amp_i2c_mpu :: "'w fw_hw \<Rightarrow> u8 \<Rightarrow> u8 \<Rightarrow> fw \<times> 'w \<Rightarrow> bool \<times> fw \<times> 'w" where
  "amp_i2c_mpu H addr who = (\<lambda>(s, w).
    (let s = s\<lparr>g_mpu_whoami := ucast who, g_mpu_ok := True, g_mpu_addr_found := ucast addr\<rparr>;
         (ret, s, w) = mpu6050_read_raw_once H addr (s, w)
     in if ret \<noteq> 0 then (False, s\<lparr>g_i2c_last_err := 0xBB060000 OR word_of_int (ret AND 0xffff)\<rparr>, w)
        else (True, body_axis_update_once (attitude_update_debug_once
                      (sensor_update_corrected_once (mpu6050_cal_update_once s))), w)))"

definition amp_i2c_find_mpu :: "'w fw_hw \<Rightarrow> fw \<times> 'w \<Rightarrow> fw \<times> 'w" where
  "amp_i2c_find_mpu H = (\<lambda>(s, w).
    (let ((ret, who), w) = bb_i2c_read_reg H MPU6050_ADDR0 0x75 w;
         (ok, s, w) =
           (if ret = 0 \<and> who = 0x68 then amp_i2c_mpu H MPU6050_ADDR0 who (s, w)
            else (let ((ret, who), w) = bb_i2c_read_reg H MPU6050_ADDR1 0x75 w
                  in if ret = 0 \<and> who = 0x68 then amp_i2c_mpu H MPU6050_ADDR1 who (s, w)
                     else (False, s, w)))
     in (if \<not> ok then sensor_update_corrected_once (s\<lparr>g_mpu_data_ok := False\<rparr>) else s, w)))"

definition probe_err :: "u32 \<Rightarrow> int \<Rightarrow> fw \<Rightarrow> fw" where
  "probe_err base ret s =
     sensor_update_corrected_once (s\<lparr>g_i2c_last_err := base OR word_of_int (- ret AND 0xff)\<rparr>)"

definition amp_i2c_probe_once :: "'w fw_hw \<Rightarrow> fw \<times> 'w \<Rightarrow> fw \<times> 'w" where
  "amp_i2c_probe_once H = (\<lambda>(s, w).
    (let s = amp_i2c_reset s;
         ((ret, a), w) = bb_i2c_read_reg H HMC5883L_ADDR 0x0A w
     in if ret \<noteq> 0 then (probe_err 0xBB010000 ret s, w)
        else
     (let ((ret, b), w) = bb_i2c_read_reg H HMC5883L_ADDR 0x0B w
      in if ret \<noteq> 0 then (probe_err 0xBB020000 ret s, w)
         else
      (let ((ret, c), w) = bb_i2c_read_reg H HMC5883L_ADDR 0x0C w
       in if ret \<noteq> 0 then (probe_err 0xBB030000 ret s, w)
          else amp_i2c_find_mpu H (amp_i2c_hmc H a b c (s, w))))))"

section \<open>The square root\<close>

lemma unat_drop_bit_div: "unat (drop_bit n (b :: 'a::len word)) = unat b div 2 ^ n"
  unfolding unat_drop_bit_eq by (simp only: drop_bit_eq_div)

text \<open>
  The loop invariant: \<open>X\<close> is the root found so far, \<open>p\<close> the power of two that is tried next, \<open>v\<close> what
  is left of the argument \<open>n\<close>, and \<open>res\<close> is the product \<open>2 p X\<close>.
\<close>

definition isqrt_inv :: "nat \<Rightarrow> nat \<Rightarrow> nat \<Rightarrow> u64 \<Rightarrow> u64 \<Rightarrow> u64 \<Rightarrow> bool" where
  "isqrt_inv n p X v b res \<longleftrightarrow>
     unat b = p * p \<and> unat res = X * (2 * p) \<and> n = unat v + X * X \<and>
     n < (X + 2 * p) * (X + 2 * p) \<and> X + 2 * p \<le> 2 ^ 32"

lemma unat_plus_small: "unat a + unat b < 2 ^ 64 \<Longrightarrow> unat (a + b :: u64) = unat a + unat b"
  using unat_add_lem [of a b] by simp

lemma isqrt_no_wrap:
  assumes "isqrt_inv n p X v b res" "0 < p"
  shows "unat (res + b) = X * (2 * p) + p * p" "unat (drop_bit 1 res + b) = X * p + p * p"
    "unat (drop_bit 1 res) = X * p"
proof -
  from assms(1) have b: "unat b = p * p" and r: "unat res = X * (2 * p)" and X: "X + 2 * p \<le> 2 ^ 32"
    by (simp_all add: isqrt_inv_def)
  have "(X + 2 * p) * (2 * p) \<le> 2 ^ 32 * 2 ^ 32" using X by (intro mult_mono) auto
  then have le: "2 * (X * p) + 4 * (p * p) \<le> 2 ^ 64" by (simp add: distrib_right)
  have pos: "0 < p * p" using assms(2) by simp
  have x: "X * (2 * p) = 2 * (X * p)" by simp
  have d: "unat (drop_bit 1 res) = X * p" unfolding unat_drop_bit_div r by simp
  have "unat res + unat b < 2 ^ 64" "unat (drop_bit 1 res) + unat b < 2 ^ 64"
    unfolding b r d x using le pos by linarith+
  then show "unat (res + b) = X * (2 * p) + p * p" "unat (drop_bit 1 res + b) = X * p + p * p"
    unfolding unat_plus_small [OF \<open>unat res + unat b < 2 ^ 64\<close>]
      unat_plus_small [OF \<open>unat (drop_bit 1 res) + unat b < 2 ^ 64\<close>] by (simp_all only: b r d)
  show "unat (drop_bit 1 res) = X * p" by (rule d)
qed

lemma isqrt_step:
  assumes I: "isqrt_inv n p X v b res"
  shows "isqrt_loop v b res = res \<and> p = 0 \<or>
    (\<exists>X' v' res'. isqrt_loop v b res = isqrt_loop v' (drop_bit 2 b) res' \<and>
       unat res' = X' * p \<and> n = unat v' + X' * X' \<and> n < (X' + p) * (X' + p) \<and> X' + p \<le> 2 ^ 32)"
proof (cases "p = 0")
  case True
  then have "b = 0" using I by (simp add: isqrt_inv_def unat_eq_0)
  then show ?thesis using True by (subst isqrt_loop.simps) simp
next
  case False
  then have b: "b \<noteq> 0" using I by (auto simp: isqrt_inv_def)
  have p: "0 < p" using False by simp
  note w = isqrt_no_wrap [OF I p]
  have w2: "unat (drop_bit 1 res + b) = (X + p) * p" using w(2) by (simp only: distrib_right)
  show ?thesis
  proof (cases "v \<ge> res + b")
    case True
    then have le: "X * (2 * p) + p * p \<le> unat v" using w(1) by (simp add: word_le_nat_alt)
    have d: "unat (v - (res + b)) = unat v - (X * (2 * p) + p * p)"
      using True w(1) by (simp add: unat_sub)
    have "isqrt_loop v b res = isqrt_loop (v - (res + b)) (drop_bit 2 b) (drop_bit 1 res + b)"
      using True b by (subst isqrt_loop.simps) simp
    moreover have "n = unat (v - (res + b)) + (X + p) * (X + p)"
      using I le d by (simp add: isqrt_inv_def algebra_simps)
    moreover have "n < (X + p + p) * (X + p + p)" "X + p + p \<le> 2 ^ 32"
      using I by (simp_all add: isqrt_inv_def mult_2 add.assoc)
    ultimately show ?thesis using w2 by blast
  next
    case notge: False
    then have lt: "unat v < X * (2 * p) + p * p" using w(1) by (simp add: word_le_nat_alt)
    have "isqrt_loop v b res = isqrt_loop v (drop_bit 2 b) (drop_bit 1 res)"
      using notge b by (subst isqrt_loop.simps) simp
    moreover have "n = unat v + X * X" "X + p \<le> 2 ^ 32" using I by (simp_all add: isqrt_inv_def)
    moreover have "n < (X + p) * (X + p)" using lt I by (simp add: isqrt_inv_def algebra_simps)
    ultimately show ?thesis using w(3) by blast
  qed
qed

lemma isqrt_loop_root:
  "isqrt_inv n (2 ^ k) X v b res \<Longrightarrow>
     (\<exists>r. unat (isqrt_loop v b res) = r \<and> r * r \<le> n \<and> n < (r + 1) * (r + 1) \<and> r < 2 ^ 32)"
proof (induction k arbitrary: X v b res)
  case 0
  from isqrt_step [OF 0] obtain X' v' res' where s:
    "isqrt_loop v b res = isqrt_loop v' (drop_bit 2 b) res'" "unat res' = X' * 2 ^ 0"
    "n = unat v' + X' * X'" "n < (X' + 2 ^ 0) * (X' + 2 ^ 0)" "X' + 2 ^ 0 \<le> 2 ^ 32"
    by (auto simp: power_0)
  have "unat b = 1" using 0 by (simp add: isqrt_inv_def)
  then have "drop_bit 2 b = 0" by (simp add: unat_eq_0 [symmetric] unat_drop_bit_div)
  then have "isqrt_loop v b res = res'" using s(1) by (subst (asm) isqrt_loop.simps) simp
  with s show ?case by simp
next
  case (Suc k)
  from isqrt_step [OF Suc.prems] obtain X' v' res' where s:
    "isqrt_loop v b res = isqrt_loop v' (drop_bit 2 b) res'" "unat res' = X' * 2 ^ Suc k"
    "n = unat v' + X' * X'" "n < (X' + 2 ^ Suc k) * (X' + 2 ^ Suc k)" "X' + 2 ^ Suc k \<le> 2 ^ 32"
    by auto
  have "unat (drop_bit 2 b) = 2 ^ k * 2 ^ k"
    using Suc.prems by (simp add: isqrt_inv_def unat_drop_bit_div)
  with s have "isqrt_inv n (2 ^ k) X' v' (drop_bit 2 b) res'" by (simp add: isqrt_inv_def)
  from Suc.IH [OF this] s(1) show ?case by simp
qed

lemma isqrt_align_power:
  "\<lbrakk>unat b = 2 ^ k * 2 ^ k; unat v < 4 * (2 ^ k * 2 ^ k); v \<noteq> 0\<rbrakk> \<Longrightarrow>
     \<exists>j \<le> k. unat (isqrt_align v b) = 2 ^ j * 2 ^ j \<and> unat v < 4 * (2 ^ j * 2 ^ j)"
proof (induction k arbitrary: b)
  case 0
  then have "unat b = 1" by simp
  with 0 have "\<not> b > v" by (simp add: word_less_nat_alt unat_gt_0 Suc_leI)
  with 0 show ?case by (subst isqrt_align.simps) auto
next
  case (Suc k)
  show ?case
  proof (cases "b > v")
    case True
    then have "unat v < unat b" by (simp add: word_less_nat_alt)
    moreover have "unat (drop_bit 2 b) = 2 ^ k * 2 ^ k" using Suc.prems by (simp add: unat_drop_bit_div)
    moreover have "isqrt_align v b = isqrt_align v (drop_bit 2 b)"
      using True by (subst isqrt_align.simps) simp
    ultimately show ?thesis using Suc.IH [of "drop_bit 2 b"] Suc.prems
      by (auto intro: le_SucI)
  next
    case False
    then have "isqrt_align v b = b" by (subst isqrt_align.simps) simp
    with Suc.prems show ?thesis by (intro exI [of _ "Suc k"]) simp
  qed
qed

lemma isqrt64_root:
  "unat (amp_isqrt64 v) * unat (amp_isqrt64 v) \<le> unat v \<and>
   unat v < (unat (amp_isqrt64 v) + 1) * (unat (amp_isqrt64 v) + 1)"
proof (cases "v = 0")
  case True
  have "isqrt_align 0 b = 0" for b
    by (induction "0 :: u64" b rule: isqrt_align.induct) (subst isqrt_align.simps, auto simp: word_gt_0)
  then have "amp_isqrt64 0 = 0" by (simp add: amp_isqrt64_def isqrt_loop.simps)
  with True show ?thesis by simp
next
  case False
  have "unat (push_bit 62 1 :: u64) = 2 ^ 31 * 2 ^ 31" by simp
  moreover have "unat v < 4 * (2 ^ 31 * 2 ^ 31)" using unsigned_less [of v] by simp
  ultimately obtain j where j: "j \<le> 31" "unat (isqrt_align v (push_bit 62 1)) = 2 ^ j * 2 ^ j"
    "unat v < 4 * (2 ^ j * 2 ^ j)"
    using isqrt_align_power False by blast
  have "(2::nat) * 2 ^ j \<le> 2 ^ 32" using j(1) power_increasing [of "Suc j" 32 "2::nat"] by simp
  with j have "isqrt_inv (unat v) (2 ^ j) 0 v (isqrt_align v (push_bit 62 1)) 0"
    by (simp add: isqrt_inv_def)
  from isqrt_loop_root [OF this] obtain r where
    r: "unat (isqrt_loop v (isqrt_align v (push_bit 62 1)) 0) = r" "r * r \<le> unat v"
    "unat v < (r + 1) * (r + 1)" "r < 2 ^ 32" by blast
  have "unat (amp_isqrt64 v) = r"
    using r(1,4) by (simp add: amp_isqrt64_def unat_ucast_mod)
  with r show ?thesis by simp
qed

end
