(* ===== verification/FwControl.thy ===== *)
theory FwControl
  imports FwState
begin

text \<open>
  The control core of \<open>comm_main.c\<close>, function by function: the motors' safe state, the shared command
  region and the report, the arming gate, the setpoints, the rate and angle corrections, the mixer with
  its trims, and the PWM backend with the start-up delay of the speed controllers.
\<close>

section \<open>Constants\<close>

definition MOTOR_PWM_MIN_US :: u32 where "MOTOR_PWM_MIN_US = 1000"
definition MOTOR_PWM_IDLE_US :: u32 where "MOTOR_PWM_IDLE_US = 1000"
definition MOTOR_PWM_MAX_US :: u32 where "MOTOR_PWM_MAX_US = 2000"
definition MOTOR_PWM_PERIOD_US :: u32 where "MOTOR_PWM_PERIOD_US = 20000"
definition MOTOR_PWM_SAFE_US :: u32 where "MOTOR_PWM_SAFE_US = 1000"
definition MOTOR_TEST_MAX_US :: u32 where "MOTOR_TEST_MAX_US = 1500"
definition ESC_ARM_DELAY_MS :: u32 where "ESC_ARM_DELAY_MS = 3000"
definition PWM_NS_PER_US :: u32 where "PWM_NS_PER_US = 1000"
definition MOTOR_STAGE_ALLOW_THROTTLE_OUTPUT :: bool where "MOTOR_STAGE_ALLOW_THROTTLE_OUTPUT = True"
definition PWM_ESC_ACTIVE_HIGH :: bool where "PWM_ESC_ACTIVE_HIGH = True"
definition PWM_BACKEND_ERR_BAD_CHANNEL :: u32 where "PWM_BACKEND_ERR_BAD_CHANNEL = 2"
definition MOTOR_MIN_SPIN_APPLY_US :: u32 where "MOTOR_MIN_SPIN_APPLY_US = 1010"
definition CONTROL_MIN_ACTIVE_THROTTLE_US :: u32 where "CONTROL_MIN_ACTIVE_THROTTLE_US = 1250"
definition RC_THROTTLE_LOW_US :: u32 where "RC_THROTTLE_LOW_US = 1100"
definition RC_THROTTLE_TEST_KILL_US :: u32 where "RC_THROTTLE_TEST_KILL_US = 1350"
definition RC_ARM_SWITCH_THRESHOLD_US :: u32 where "RC_ARM_SWITCH_THRESHOLD_US = 1500"
definition RC_LOST_TIMEOUT_MS :: u32 where "RC_LOST_TIMEOUT_MS = 300"
definition MOTOR_SAFE_OK :: u32 where "MOTOR_SAFE_OK = 0"
definition MOTOR_SAFE_FAILSAFE :: u32 where "MOTOR_SAFE_FAILSAFE = 1"
definition MOTOR_SAFE_SENSOR_NOT_RDY :: u32 where "MOTOR_SAFE_SENSOR_NOT_RDY = 2"
definition MOTOR_SAFE_NOT_ARMED :: u32 where "MOTOR_SAFE_NOT_ARMED = 3"
definition g_motor_trim_us :: "int motors" where "g_motor_trim_us = Motors 10 0 0 10"
definition g_motor_min_spin_us :: "u32 motors" where "g_motor_min_spin_us = Motors 1220 1235 1220 1220"
definition g_duo_pwm_id_map :: "u8 motors" where "g_duo_pwm_id_map = Motors 1 1 1 1"
definition g_duo_pwm_channel_map :: "u32 motors" where "g_duo_pwm_channel_map = Motors 3 1 0 2"

lemmas motor_consts = MOTOR_PWM_MIN_US_def MOTOR_PWM_IDLE_US_def MOTOR_PWM_MAX_US_def
  MOTOR_PWM_PERIOD_US_def MOTOR_PWM_SAFE_US_def MOTOR_TEST_MAX_US_def PWM_NS_PER_US_def
  MOTOR_STAGE_ALLOW_THROTTLE_OUTPUT_def PWM_ESC_ACTIVE_HIGH_def

lemmas safe_codes = MOTOR_SAFE_OK_def MOTOR_SAFE_FAILSAFE_def MOTOR_SAFE_SENSOR_NOT_RDY_def
  MOTOR_SAFE_NOT_ARMED_def

lemmas rc_consts = RC_THROTTLE_LOW_US_def RC_THROTTLE_TEST_KILL_US_def RC_ARM_SWITCH_THRESHOLD_US_def
  RC_LOST_TIMEOUT_MS_def

section \<open>The safe state\<close>

definition motor_set_all :: "u32 \<Rightarrow> fw \<Rightarrow> fw" where
  "motor_set_all us s =
    (let us = (if us < MOTOR_PWM_MIN_US then MOTOR_PWM_MIN_US else us);
         us = (if us > MOTOR_PWM_MAX_US then MOTOR_PWM_MAX_US else us)
     in s\<lparr>g_motor_pwm_us := Motors us us us us\<rparr>)"

definition motor_force_safe :: "u32 \<Rightarrow> fw \<Rightarrow> fw" where
  "motor_force_safe reason s =
    motor_set_all MOTOR_PWM_IDLE_US
      (s\<lparr>g_motor_armed := False, g_motor_output_enabled := False, g_motor_safety_reason := reason,
         g_pid_roll := 0, g_pid_pitch := 0, g_pid_yaw := 0, g_angle_corr_roll := 0, g_angle_corr_pitch := 0,
         g_rate_corr_roll := 0, g_rate_corr_pitch := 0, g_rate_corr_yaw := 0,
         g_mix := all_motors (uint MOTOR_PWM_IDLE_US)\<rparr>)"

section \<open>The shared command region\<close>

definition cvt_u32 :: "'w fw_hw \<Rightarrow> f32 \<Rightarrow> u32" where
  "cvt_u32 H v = (if fis_fin v \<and> 0 \<le> ftrunc v \<and> ftrunc v < 2 ^ 32 then word_of_int (ftrunc v)
                  else undefined_u32 H v)"

definition amp_config_float_to_div :: "'w fw_hw \<Rightarrow> f32 \<Rightarrow> u32 \<Rightarrow> u32 \<Rightarrow> u32 \<Rightarrow> u32" where
  "amp_config_float_to_div H v fallback lo hi =
    (if flt v (f32_of_int (uint lo)) \<or> flt (f32_of_int (uint hi)) v then fallback
     else clamp_u32 (cvt_u32 H v) lo hi)"

definition amp_shared_region_get :: "fw \<Rightarrow> u32 option" where
  "amp_shared_region_get s = (if \<not> g_amp_shm_ready s \<or> g_amp_shm_phys s = 0 then None else Some (g_amp_shm_phys s))"

definition flag_bit :: "bool \<Rightarrow> nat \<Rightarrow> u32" where "flag_bit b n = (if b then push_bit n 1 else 0)"

definition amp_build_status_flags :: "fw \<Rightarrow> u32" where
  "amp_build_status_flags s =
    flag_bit (g_rc_valid s) 0 OR flag_bit (g_sensor_ready s) 1 OR flag_bit (g_motor_armed s) 2 OR
    flag_bit (g_motor_output_enabled s) 3 OR flag_bit (g_motor_safety_reason s = MOTOR_SAFE_FAILSAFE) 4 OR
    flag_bit (g_amp_emergency_stop_latched s) 5 OR flag_bit (g_att_ok s) 6 OR flag_bit (g_rc_arm_latched s) 7 OR
    push_bit 24 (g_motor_safety_reason s AND 0xff)"

text \<open>One volatile access to a field of the region.\<close>

definition shm_get :: "'w fw_hw \<Rightarrow> u32 \<Rightarrow> (shared_region \<Rightarrow> 'a) \<Rightarrow> 'w \<Rightarrow> 'a \<times> 'w" where
  "shm_get H p sel w = (let (r, w) = hw_shm_load H p w in (sel r, w))"

definition amp_poll_emergency :: "'w fw_hw \<Rightarrow> u32 \<Rightarrow> fw \<times> 'w \<Rightarrow> fw \<times> 'w" where
  "amp_poll_emergency H p = (\<lambda>(s, w).
    (let (seq, w) = shm_get H p (\<lambda>r. slot_seq (sr_emergency r)) w
     in if seq \<noteq> g_amp_last_emergency_seq s then
          (let s = s\<lparr>g_amp_last_emergency_seq := seq\<rparr>;
               (reason, w) = shm_get H p (\<lambda>r. ce_reason (slot_payload (sr_emergency r))) w
           in if reason = 0 then (s\<lparr>g_amp_emergency_stop_latched := False\<rparr>, w)
              else (s\<lparr>g_amp_emergency_stop_latched := True\<rparr>, w))
        else (s, w)))"

definition amp_poll_config :: "'w fw_hw \<Rightarrow> u32 \<Rightarrow> fw \<times> 'w \<Rightarrow> fw \<times> 'w" where
  "amp_poll_config H p = (\<lambda>(s, w).
    (let (seq, w) = shm_get H p (\<lambda>r. slot_seq (sr_config r)) w;
         (update_seq, w) = shm_get H p (\<lambda>r. fc_update_seq (slot_payload (sr_config r))) w
     in if (seq \<noteq> g_amp_last_config_slot_seq s \<or> update_seq \<noteq> g_amp_last_config_update_seq s) \<and>
           (seq \<noteq> 0 \<or> update_seq \<noteq> 0) then
          (let s = s\<lparr>g_amp_last_config_slot_seq := seq, g_amp_last_config_update_seq := update_seq,
                     g_amp_config_seq := seq, g_amp_config_update_count := g_amp_config_update_count s + 1\<rparr>;
               (deadzone, w) = shm_get H p (\<lambda>r. ucast (fc_deadzone_us (slot_payload (sr_config r)))) w;
               s = (if deadzone \<noteq> 0 then s\<lparr>g_config_deadzone_us := clamp_u32 deadzone 5 80\<rparr> else s);
               (rate_p, w) = shm_get H p (\<lambda>r. fc_rate_p (slot_payload (sr_config r))) w;
               rate_div = amp_config_float_to_div H rate_p (g_config_rate_roll_div s) 8 80;
               (angle_p, w) = shm_get H p (\<lambda>r. fc_angle_p (slot_payload (sr_config r))) w;
               angle_div = amp_config_float_to_div H angle_p (g_config_angle_div s) 100 1200
           in (s\<lparr>g_config_rate_roll_div := rate_div, g_config_rate_pitch_div := rate_div,
                g_config_rate_yaw_div := rate_div, g_config_angle_div := angle_div\<rparr>, w))
        else (s, w)))"

definition amp_poll_seqs :: "'w fw_hw \<Rightarrow> u32 \<Rightarrow> fw \<times> 'w \<Rightarrow> fw \<times> 'w" where
  "amp_poll_seqs H p = (\<lambda>(s, w).
    (let (a, w) = shm_get H p (\<lambda>r. slot_seq (sr_arm r)) w;
         (s, w) = (if a \<noteq> g_amp_last_arm_seq s then
                     (let (a, w) = shm_get H p (\<lambda>r. slot_seq (sr_arm r)) w in (s\<lparr>g_amp_last_arm_seq := a\<rparr>, w))
                   else (s, w));
         (b, w) = shm_get H p (\<lambda>r. slot_seq (sr_setpoint r)) w
     in if b \<noteq> g_amp_last_setpoint_seq s then
          (let (b, w) = shm_get H p (\<lambda>r. slot_seq (sr_setpoint r)) w in (s\<lparr>g_amp_last_setpoint_seq := b\<rparr>, w))
        else (s, w)))"

text \<open>The magic word and the version, the second read only when the first is right.\<close>

definition shm_valid :: "'w fw_hw \<Rightarrow> u32 \<Rightarrow> 'w \<Rightarrow> bool \<times> 'w" where
  "shm_valid H p w =
    (let (magic, w) = shm_get H p sr_magic w
     in if magic \<noteq> kSharedRegionMagic then (False, w)
        else (let (version, w) = shm_get H p sr_version w in (version = kSharedRegionVersion, w)))"

definition amp_shared_region_poll_once :: "'w fw_hw \<Rightarrow> fw \<times> 'w \<Rightarrow> fw \<times> 'w" where
  "amp_shared_region_poll_once H = (\<lambda>(s, w).
    (case amp_shared_region_get s of
       None \<Rightarrow> (s, w)
     | Some p \<Rightarrow>
        (let s = s\<lparr>g_amp_shm_poll_count := g_amp_shm_poll_count s + 1\<rparr>;
             (ok, w) = shm_valid H p w
         in if \<not> ok then (s, w)
            else
             (let (s, w) = amp_poll_emergency H p (s, w);
                  s = (if g_amp_emergency_stop_latched s then motor_force_safe MOTOR_SAFE_FAILSAFE s else s)
              in amp_poll_seqs H p (amp_poll_config H p (s, w))))))"

definition make_report_fw :: "'w fw_hw \<Rightarrow> u32 \<Rightarrow> fw \<Rightarrow> rt_report" where
  "make_report_fw H now s =
    \<lparr>rr_monotonic_us = ucast now * ucast (portTICK_PERIOD_MS H) * 1000,
     rr_roll_deg = fdiv (f32_of_int (g_body_roll_cd s)) (f32_of_int 100),
     rr_pitch_deg = fdiv (f32_of_int (g_body_pitch_cd s)) (f32_of_int 100),
     rr_yaw_deg = fdiv (f32_of_int (g_body_yaw_cd s)) (f32_of_int 100),
     rr_roll_rate_dps = f32_of_int (g_body_rate_roll_raw s),
     rr_pitch_rate_dps = f32_of_int (g_body_rate_pitch_raw s),
     rr_yaw_rate_dps = f32_of_int (g_body_rate_yaw_raw s),
     rr_motor_pwm_us = motor_map ucast (g_motor_pwm_us s),
     rr_status_flags = g_amp_status_flags s,
     rr_seq = g_amp_rt_report_seq s\<rparr>"

text \<open>The report slot is at byte 116 of the region and has 56 bytes.\<close>

definition amp_shared_region_write_rt_report_once :: "'w fw_hw \<Rightarrow> fw \<times> 'w \<Rightarrow> fw \<times> 'w" where
  "amp_shared_region_write_rt_report_once H = (\<lambda>(s, w).
    (case amp_shared_region_get s of
       None \<Rightarrow> (s, w)
     | Some p \<Rightarrow>
        (let (ok, w) = shm_valid H p w
         in if \<not> ok then (s, w)
            else
             (let (now, w) = xTaskGetTickCount H w
              in if now - last_rt_report_tick s < pdMS_TO_TICKS H 20 then (s, w)
                 else
                  (let s = s\<lparr>last_rt_report_tick := now, g_amp_rt_report_seq := g_amp_rt_report_seq s + 1\<rparr>;
                       s = s\<lparr>g_amp_status_flags := amp_build_status_flags s\<rparr>;
                       report = make_report_fw H now s;
                       w = hw_shm_store H p (\<lambda>r. r\<lparr>sr_rt_report := (sr_rt_report r)\<lparr>slot_payload := report\<rparr>\<rparr>) w;
                       w = hw_shm_store H p (\<lambda>r. r\<lparr>sr_rt_report := (sr_rt_report r)\<lparr>slot_crc := 0\<rparr>\<rparr>) w;
                       w = hw_shm_store H p (\<lambda>r. r\<lparr>sr_rt_report := (sr_rt_report r)\<lparr>slot_seq := g_amp_rt_report_seq s\<rparr>\<rparr>) w
                   in (s, flush_dcache_range H (ucast p + 116) 56 w))))))"

definition stage3_actuator_map_check :: bool where
  "stage3_actuator_map_check \<longleftrightarrow> g_duo_pwm_id_map = Motors 1 1 1 1 \<and> g_duo_pwm_channel_map = Motors 3 1 0 2"

definition stage3_flight_node_step_legacy_fallback :: "fw \<Rightarrow> fw" where
  "stage3_flight_node_step_legacy_fallback s =
    s\<lparr>g_stage3_step_count := g_stage3_step_count s + 1, g_stage3_actuator_map_ok := stage3_actuator_map_check,
      g_stage3_external_enabled := False\<rparr>"

section \<open>Arming\<close>

definition rc_update_freshness_once :: "'w fw_hw \<Rightarrow> fw \<times> 'w \<Rightarrow> fw \<times> 'w" where
  "rc_update_freshness_once H = (\<lambda>(s, w).
    (let (now, w) = xTaskGetTickCount H w
     in if g_rc_last_frame_tick s = 0 then
          (s\<lparr>g_rc_frame_age_ms := 0xffffffff, g_rc_valid := False, g_rc_arm_allowed := False,
             g_rc_seen_arm_low := False, g_rc_arm_latched := False, g_motor_armed := False\<rparr>, w)
        else
         (let age_ms = (now - g_rc_last_frame_tick s) * portTICK_PERIOD_MS H;
              s = s\<lparr>g_rc_frame_age_ms := age_ms\<rparr>
          in if age_ms > RC_LOST_TIMEOUT_MS then
               (s\<lparr>g_rc_valid := False, g_rc_arm_allowed := False, g_rc_seen_arm_low := False,
                  g_rc_arm_latched := False, g_motor_armed := False, g_rc_throttle_us := 1000,
                  g_rc_arm_switch := False\<rparr>, w)
             else (s, w))))"

text \<open>What the gate does once the freshness is known, in the source's order of returns.\<close>

definition arm_gate :: "fw \<Rightarrow> fw" where
  "arm_gate s =
    (let unlatch = s\<lparr>g_motor_armed := False, g_rc_arm_latched := False, g_rc_prev_arm_switch := g_rc_arm_switch s\<rparr>
     in if \<not> g_rc_valid s then unlatch
        else if \<not> g_sensor_ready s then unlatch
        else if g_rc_throttle_us s > RC_THROTTLE_TEST_KILL_US then unlatch
        else if \<not> g_rc_arm_switch s then
          s\<lparr>g_rc_seen_arm_low := True, g_rc_arm_latched := False, g_motor_armed := False,
            g_rc_prev_arm_switch := g_rc_arm_switch s\<rparr>
        else if g_rc_arm_latched s then
          s\<lparr>g_rc_prev_arm_switch := g_rc_arm_switch s, g_rc_arm_allowed := True, g_motor_armed := True\<rparr>
        else if g_rc_throttle_us s > RC_THROTTLE_LOW_US then
          s\<lparr>g_motor_armed := False, g_rc_prev_arm_switch := g_rc_arm_switch s\<rparr>
        else
         (let s = (if g_rc_seen_arm_low s \<and> \<not> g_rc_prev_arm_switch s \<and> g_rc_arm_switch s
                   then s\<lparr>g_rc_arm_latched := True\<rparr> else s);
              s = s\<lparr>g_rc_prev_arm_switch := g_rc_arm_switch s\<rparr>
          in if \<not> g_rc_arm_latched s then s\<lparr>g_motor_armed := False\<rparr>
             else s\<lparr>g_rc_arm_allowed := True, g_motor_armed := True\<rparr>))"

definition motor_update_arm_gate :: "'w fw_hw \<Rightarrow> fw \<times> 'w \<Rightarrow> fw \<times> 'w" where
  "motor_update_arm_gate H = (\<lambda>(s, w).
    (let (s, w) = rc_update_freshness_once H (s\<lparr>g_rc_arm_allowed := False\<rparr>, w) in (arm_gate s, w)))"

section \<open>Setpoints and corrections\<close>

definition rc_norm_deadband :: "fw \<Rightarrow> int \<Rightarrow> int" where
  "rc_norm_deadband s us =
    (let d = us - 1500;
         deadzone = sint (g_config_deadzone_us s)
     in if d > - deadzone \<and> d < deadzone then 0 else clamp_i32 d (- 500) 500)"

definition control_update_setpoint_once :: "fw \<Rightarrow> fw" where
  "control_update_setpoint_once s =
    (let s = s\<lparr>g_sp_roll_cd := 0, g_sp_pitch_cd := 0, g_sp_roll_rate_raw := 0, g_sp_pitch_rate_raw := 0,
               g_sp_yaw_rate_raw := 0, g_sp_throttle_us := g_rc_throttle_us s\<rparr>
     in if \<not> g_rc_valid s then s\<lparr>g_sp_throttle_us := 1000\<rparr>
        else
         (let roll_in = 1 * rc_norm_deadband s (sint (g_rc_ch0_us s));
              pitch_in = - 1 * rc_norm_deadband s (sint (g_rc_ch1_us s));
              yaw_in = 1 * rc_norm_deadband s (sint (g_rc_ch3_us s))
          in s\<lparr>g_sp_roll_cd := (roll_in * 2000) sdiv 500, g_sp_pitch_cd := (pitch_in * 2000) sdiv 500,
               g_sp_roll_rate_raw := (roll_in * 600) sdiv 500,
               g_sp_pitch_rate_raw := (pitch_in * 600) sdiv 500,
               g_sp_yaw_rate_raw := (yaw_in * 500) sdiv 500\<rparr>))"

definition control_update_pid_once :: "fw \<Rightarrow> fw" where
  "control_update_pid_once s =
    (let s = s\<lparr>g_pid_roll := 0, g_pid_pitch := 0, g_pid_yaw := 0, g_angle_corr_roll := 0,
               g_angle_corr_pitch := 0, g_rate_corr_roll := 0, g_rate_corr_pitch := 0, g_rate_corr_yaw := 0\<rparr>
     in if \<not> g_sensor_ready s \<or> \<not> g_att_ok s \<or> \<not> g_rc_valid s then s
        else
         (let s = control_update_setpoint_once s;
              roll_rate_err = g_sp_roll_rate_raw s - g_body_rate_roll_raw s;
              pitch_rate_err = g_sp_pitch_rate_raw s - g_body_rate_pitch_raw s;
              yaw_rate_err = g_sp_yaw_rate_raw s - g_body_rate_yaw_raw s;
              s = s\<lparr>g_rate_corr_roll := clamp_i32 (roll_rate_err sdiv sint (g_config_rate_roll_div s)) (- 40) 40,
                    g_rate_corr_pitch := clamp_i32 (pitch_rate_err sdiv sint (g_config_rate_pitch_div s)) (- 40) 40,
                    g_rate_corr_yaw := clamp_i32 (yaw_rate_err sdiv sint (g_config_rate_yaw_div s)) (- 40) 40\<rparr>;
              s = (if g_sp_roll_rate_raw s = 0 then
                     s\<lparr>g_angle_corr_roll := clamp_i32 ((- 1 * g_body_roll_cd s) sdiv sint (g_config_angle_div s)) (- 25) 25\<rparr>
                   else s);
              s = (if g_sp_pitch_rate_raw s = 0 then
                     s\<lparr>g_angle_corr_pitch := clamp_i32 ((- 1 * g_body_pitch_cd s) sdiv sint (g_config_angle_div s)) (- 25) 25\<rparr>
                   else s)
          in s\<lparr>g_pid_roll := clamp_i32 (g_rate_corr_roll s + g_angle_corr_roll s) (- 40) 40,
               g_pid_pitch := clamp_i32 (g_rate_corr_pitch s + g_angle_corr_pitch s) (- 40) 40,
               g_pid_yaw := clamp_i32 (g_rate_corr_yaw s) (- 40) 40\<rparr>))"

definition control_apply_active_throttle_floor_once :: "fw \<Rightarrow> fw" where
  "control_apply_active_throttle_floor_once s =
    (let s = (if g_sp_throttle_us s > MOTOR_PWM_IDLE_US \<and> g_sp_throttle_us s < CONTROL_MIN_ACTIVE_THROTTLE_US
              then s\<lparr>g_sp_throttle_us := CONTROL_MIN_ACTIVE_THROTTLE_US\<rparr> else s)
     in if g_sp_throttle_us s > MOTOR_TEST_MAX_US then s\<lparr>g_sp_throttle_us := MOTOR_TEST_MAX_US\<rparr> else s)"

section \<open>Mixer and trims\<close>

definition clamp_test_us :: "int \<Rightarrow> int" where
  "clamp_test_us v = clamp_i32 v (uint MOTOR_PWM_MIN_US) (uint MOTOR_TEST_MAX_US)"

definition control_update_mixer_once :: "fw \<Rightarrow> fw" where
  "control_update_mixer_once s =
    (let t = clamp_test_us (sint (g_sp_throttle_us s));
         m = Motors (t + g_pid_pitch s + g_pid_roll s - g_pid_yaw s)
                    (t + g_pid_pitch s - g_pid_roll s + g_pid_yaw s)
                    (t - g_pid_pitch s - g_pid_roll s - g_pid_yaw s)
                    (t - g_pid_pitch s + g_pid_roll s + g_pid_yaw s)
     in s\<lparr>g_mix := motor_map clamp_test_us m\<rparr>)"

definition motor_apply_trim_i32 :: "fw \<Rightarrow> nat \<Rightarrow> int \<Rightarrow> int" where
  "motor_apply_trim_i32 s idx us =
    (let trim = (if idx < 4 then clamp_i32 (motor_nth g_motor_trim_us idx) (- 50) 50 else 0);
         min_spin = (if idx < 4 then clamp_test_us (sint (motor_nth g_motor_min_spin_us idx))
                     else uint MOTOR_PWM_MIN_US);
         us = us + trim;
         us = (if g_sp_throttle_us s \<ge> MOTOR_MIN_SPIN_APPLY_US \<and> us < min_spin then min_spin else us)
     in clamp_test_us us)"

definition motor_update_control_outputs :: "fw \<Rightarrow> fw" where
  "motor_update_control_outputs s =
    (if \<not> g_motor_armed s \<or> \<not> g_motor_output_enabled s then motor_set_all MOTOR_PWM_IDLE_US s
     else if \<not> g_rc_valid s \<or> \<not> g_sensor_ready s then motor_set_all MOTOR_PWM_IDLE_US s
     else
      (let s = control_update_mixer_once (control_apply_active_throttle_floor_once (control_update_pid_once s))
       in s\<lparr>g_motor_pwm_us := Motors (word_of_int (motor_apply_trim_i32 s 0 (m0 (g_mix s))))
                                     (word_of_int (motor_apply_trim_i32 s 1 (m1 (g_mix s))))
                                     (word_of_int (motor_apply_trim_i32 s 2 (m2 (g_mix s))))
                                     (word_of_int (motor_apply_trim_i32 s 3 (m3 (g_mix s))))\<rparr>))"

section \<open>The PWM backend\<close>

definition pwm_high_us_from_active_us :: "u32 \<Rightarrow> u32" where
  "pwm_high_us_from_active_us active_us =
    (if PWM_ESC_ACTIVE_HIGH then active_us
     else if active_us \<ge> MOTOR_PWM_PERIOD_US then 0
     else MOTOR_PWM_PERIOD_US - active_us)"

definition pwm_debug_record_cfg :: "nat \<Rightarrow> u32 \<Rightarrow> fw \<Rightarrow> fw" where
  "pwm_debug_record_cfg ch active_us s =
    (if ch \<ge> 4 then s
     else s\<lparr>g_pwm_period_us_dbg := MOTOR_PWM_PERIOD_US, g_pwm_active_high_dbg := (if PWM_ESC_ACTIVE_HIGH then 1 else 0),
            g_pwm_duty_us_dbg := motor_upd (g_pwm_duty_us_dbg s) ch active_us\<rparr>)"

definition pwm_backend_set_cfg_us :: "nat \<Rightarrow> u32 \<Rightarrow> fw \<Rightarrow> fw" where
  "pwm_backend_set_cfg_us ch active_us s =
    (if ch \<ge> 4 then s
     else
      (let high_us = pwm_high_us_from_active_us active_us;
           cfg = (motor_nth (g_pwm_cfg s) ch)\<lparr>pc_period := MOTOR_PWM_PERIOD_US * PWM_NS_PER_US,
                    pc_pulse := high_us * PWM_NS_PER_US\<rparr>
       in pwm_debug_record_cfg ch active_us (s\<lparr>g_pwm_cfg := motor_upd (g_pwm_cfg s) ch cfg\<rparr>)))"

definition pwm_backend_readback_ch :: "'w fw_hw \<Rightarrow> nat \<Rightarrow> fw \<times> 'w \<Rightarrow> fw \<times> 'w" where
  "pwm_backend_readback_ch H ch = (\<lambda>(s, w).
    (if ch \<ge> 4 then (s, w)
     else
      (let cfg = motor_nth (g_pwm_cfg s) ch;
           hw_ch = pc_channel cfg AND PWM_MAX_CH H;
           reg_base = cvi_pwm_reg_base H (pc_pwm_id cfg);
           (v, w) = cvi_pwm_get_period_ch H reg_base hw_ch w;
           s = s\<lparr>g_pwm_period_clk_dbg := motor_upd (g_pwm_period_clk_dbg s) ch (ucast v)\<rparr>;
           (v, w) = cvi_pwm_get_high_period_ch H reg_base hw_ch w;
           s = s\<lparr>g_pwm_duty_clk_dbg := motor_upd (g_pwm_duty_clk_dbg s) ch (ucast v)\<rparr>;
           (v, w) = PWM_PWMSTART H reg_base w;
           s = s\<lparr>g_pwm_start_reg_dbg := motor_upd (g_pwm_start_reg_dbg s) ch v\<rparr>;
           (v, w) = PWM_PWM_OE H reg_base w;
           s = s\<lparr>g_pwm_oe_reg_dbg := motor_upd (g_pwm_oe_reg_dbg s) ch v\<rparr>;
           (v, w) = cvi_pwm_get_polarity H reg_base hw_ch w
       in (s\<lparr>g_pwm_active_high_dbg := ucast v\<rparr>, w))))"

definition pwm_backend_init_ch :: "'w fw_hw \<Rightarrow> fw \<times> 'w \<Rightarrow> nat \<Rightarrow> fw \<times> 'w" where
  "pwm_backend_init_ch H = (\<lambda>(s, w) i.
    (let cfg = (motor_nth (g_pwm_cfg s) i)\<lparr>pc_pwm_id := motor_nth g_duo_pwm_id_map i,
                  pc_channel := motor_nth g_duo_pwm_channel_map i\<rparr>;
         s = pwm_backend_set_cfg_us i MOTOR_PWM_SAFE_US (s\<lparr>g_pwm_cfg := motor_upd (g_pwm_cfg s) i cfg\<rparr>);
         w = hw_pwm_init H (motor_nth (g_pwm_cfg s) i) w;
         w = hw_pwm_set_output_cfg H (motor_nth (g_pwm_cfg s) i) w;
         w = hw_pwm_continuous_start H (motor_nth (g_pwm_cfg s) i) w
     in pwm_backend_readback_ch H i (s, w)))"

definition pwm_backend_init_once :: "'w fw_hw \<Rightarrow> fw \<times> 'w \<Rightarrow> fw \<times> 'w" where
  "pwm_backend_init_once H = (\<lambda>(s, w).
    (if g_pwm_backend_ready s then (s, w)
     else
      (let (s, w) = foldl (pwm_backend_init_ch H) (s, w) [0, 1, 2, 3]
       in (s\<lparr>g_pwm_backend_ready := True, g_pwm_backend_err := 0, g_pwm_real_enabled := True\<rparr>, w))))"

definition esc_update_arm_delay_once :: "'w fw_hw \<Rightarrow> fw \<times> 'w \<Rightarrow> fw \<times> 'w" where
  "esc_update_arm_delay_once H = (\<lambda>(s, w).
    (let (now, w) = xTaskGetTickCount H w
     in if g_esc_arm_start_tick s = 0 then
          (s\<lparr>g_esc_arm_start_tick := now, g_esc_arm_delay_done := False, g_esc_arm_delay_ms := 0\<rparr>, w)
        else
         (let elapsed_ms = (now - g_esc_arm_start_tick s) * portTICK_PERIOD_MS H;
              s = s\<lparr>g_esc_arm_delay_ms := elapsed_ms\<rparr>
          in (if elapsed_ms \<ge> ESC_ARM_DELAY_MS then s\<lparr>g_esc_arm_delay_done := True\<rparr> else s, w))))"

text \<open>The pulse that reaches the driver, after every guard.\<close>

definition pwm_guarded_us :: "fw \<Rightarrow> u32 \<Rightarrow> u32" where
  "pwm_guarded_us s pulse_us =
    (let pulse_us = (if pulse_us < MOTOR_PWM_MIN_US then MOTOR_PWM_MIN_US else pulse_us);
         pulse_us = (if pulse_us > MOTOR_PWM_MAX_US then MOTOR_PWM_MAX_US else pulse_us);
         pulse_us = (if \<not> g_motor_armed s then MOTOR_PWM_SAFE_US else pulse_us);
         pulse_us = (if \<not> g_motor_output_enabled s then MOTOR_PWM_SAFE_US else pulse_us);
         pulse_us = (if \<not> MOTOR_STAGE_ALLOW_THROTTLE_OUTPUT then MOTOR_PWM_SAFE_US else pulse_us);
         pulse_us = (if \<not> g_esc_arm_delay_done s then MOTOR_PWM_IDLE_US else pulse_us)
     in if pulse_us > MOTOR_TEST_MAX_US then MOTOR_TEST_MAX_US else pulse_us)"

definition pwm_backend_write_us :: "'w fw_hw \<Rightarrow> nat \<Rightarrow> u32 \<Rightarrow> fw \<times> 'w \<Rightarrow> fw \<times> 'w" where
  "pwm_backend_write_us H ch pulse_us = (\<lambda>(s, w).
    (if ch \<ge> 4 then (s\<lparr>g_pwm_backend_err := PWM_BACKEND_ERR_BAD_CHANNEL\<rparr>, w)
     else
      (let pulse_us = pwm_guarded_us s pulse_us
       in if \<not> g_pwm_backend_ready s then (s\<lparr>g_pwm_real_enabled := False\<rparr>, w)
          else
           (let s = pwm_backend_set_cfg_us ch pulse_us s;
                w = hw_pwm_set_output_cfg H (motor_nth (g_pwm_cfg s) ch) w;
                w = hw_pwm_continuous_start H (motor_nth (g_pwm_cfg s) ch) w
            in pwm_backend_readback_ch H ch (s, w)))))"

definition motor_apply_ch :: "'w fw_hw \<Rightarrow> fw \<times> 'w \<Rightarrow> nat \<Rightarrow> fw \<times> 'w" where
  "motor_apply_ch H sw i = pwm_backend_write_us H i (motor_nth (g_motor_pwm_us (fst sw)) i) sw"

definition motor_apply_outputs :: "'w fw_hw \<Rightarrow> fw \<times> 'w \<Rightarrow> fw \<times> 'w" where
  "motor_apply_outputs H sw =
    foldl (motor_apply_ch H)
      (pwm_backend_init_once H (esc_update_arm_delay_once H sw)) [0, 1, 2, 3]"

end
