(* ===== verification/FwDebug.thy ===== *)
theory FwDebug
  imports FwSensors FwControl
begin

text \<open>
  The debug structure at a fixed physical address: its layout as \<open>comm_main.c\<close> declares it and, again,
  as the Linux tool \<open>amp_dbg_dump.c\<close> declares it; the words the firmware writes into it; and what the
  tool reads and derives from them. Every field is 32 bits wide, so a field is a word at its index.
\<close>

section \<open>The two declarations of the layout\<close>

datatype dbg_field = U32 string | I32 string

fun dbg_name :: "dbg_field \<Rightarrow> string" where
  "dbg_name (U32 n) = n"
| "dbg_name (I32 n) = n"

definition amp_dbg_sensing :: "dbg_field list" where
  "amp_dbg_sensing =
    [U32 ''magic'', U32 ''version'', U32 ''seq'', U32 ''tick'', U32 ''alive'', U32 ''mailbox_isr_count'',
     U32 ''mailbox_task_count'', U32 ''last_cmd_id'', U32 ''last_param_ptr'', U32 ''ibus_rx_bytes'',
     U32 ''ibus_good_frames'', U32 ''ibus_bad_frames'', U32 ''ibus_header20'', U32 ''ibus_header2040'',
     U32 ''ibus_failsafe'', U32 ''uart3_lsr'', U32 ''uart3_last_byte'', U32 ''shm_phys'',
     U32 ''shm_ready'', U32 ''i2c_probe_count'', U32 ''i2c_last_err'', U32 ''hmc_addr'', U32 ''hmc_id_a'',
     U32 ''hmc_id_b'', U32 ''hmc_id_c'', U32 ''hmc_ok'', U32 ''hmc_bus'', U32 ''hmc_scan_mask'',
     U32 ''hmc_data_ok'', I32 ''hmc_x'', I32 ''hmc_y'', I32 ''hmc_z'', U32 ''mpu_addr'',
     U32 ''mpu_whoami'', U32 ''mpu_ok'', U32 ''mpu_data_ok'', I32 ''mpu_ax'', I32 ''mpu_ay'',
     I32 ''mpu_az'', I32 ''mpu_gx'', I32 ''mpu_gy'', I32 ''mpu_gz'', U32 ''mpu_cal_count'',
     U32 ''mpu_cal_done'', I32 ''mpu_acc_bias_x'', I32 ''mpu_acc_bias_y'', I32 ''mpu_acc_bias_z'',
     I32 ''mpu_gyro_bias_x'', I32 ''mpu_gyro_bias_y'', I32 ''mpu_gyro_bias_z'', U32 ''sensor_ready'',
     I32 ''mpu_ax_corr'', I32 ''mpu_ay_corr'', I32 ''mpu_az_corr'', I32 ''mpu_gx_corr'',
     I32 ''mpu_gy_corr'', I32 ''mpu_gz_corr'', U32 ''att_ok'', I32 ''att_roll_cd'', I32 ''att_pitch_cd'',
     I32 ''att_yaw_cd'', I32 ''rate_roll_raw'', I32 ''rate_pitch_raw'', I32 ''rate_yaw_raw'',
     U32 ''level_trim_done'', I32 ''level_roll_cd'', I32 ''level_pitch_cd'', I32 ''body_roll_cd'',
     I32 ''body_pitch_cd'', I32 ''body_yaw_cd'', I32 ''body_rate_roll_raw'', I32 ''body_rate_pitch_raw'',
     I32 ''body_rate_yaw_raw'']"

definition amp_dbg_control :: "dbg_field list" where
  "amp_dbg_control =
    [I32 ''sp_roll_rate_raw'', I32 ''sp_pitch_rate_raw'', I32 ''sp_roll_cd'', I32 ''sp_pitch_cd'',
     I32 ''sp_yaw_rate_raw'', U32 ''sp_throttle_us'', I32 ''pid_roll'', I32 ''pid_pitch'', I32 ''pid_yaw'',
     I32 ''mix_m0'', I32 ''mix_m1'', I32 ''mix_m2'', I32 ''mix_m3'', U32 ''motor_armed'',
     U32 ''motor_output_enabled'', U32 ''motor_safety_reason'', U32 ''motor_pwm0'', U32 ''motor_pwm1'',
     U32 ''motor_pwm2'', U32 ''motor_pwm3'', I32 ''motor_trim0'', I32 ''motor_trim1'', I32 ''motor_trim2'',
     I32 ''motor_trim3'', U32 ''pwm_backend_ready'', U32 ''pwm_backend_err'', U32 ''pwm_real_enabled'',
     U32 ''pwm_period_us_dbg'', U32 ''pwm_active_high_dbg'', U32 ''pwm_duty0_us_dbg'',
     U32 ''pwm_duty1_us_dbg'', U32 ''pwm_duty2_us_dbg'', U32 ''pwm_duty3_us_dbg'',
     U32 ''pwm_period0_clk_dbg'', U32 ''pwm_period1_clk_dbg'', U32 ''pwm_period2_clk_dbg'',
     U32 ''pwm_period3_clk_dbg'', U32 ''pwm_duty0_clk_dbg'', U32 ''pwm_duty1_clk_dbg'',
     U32 ''pwm_duty2_clk_dbg'', U32 ''pwm_duty3_clk_dbg'', U32 ''pwm_start0_dbg'', U32 ''pwm_start1_dbg'',
     U32 ''pwm_start2_dbg'', U32 ''pwm_start3_dbg'', U32 ''pwm_oe0_dbg'', U32 ''pwm_oe1_dbg'',
     U32 ''pwm_oe2_dbg'', U32 ''pwm_oe3_dbg'', U32 ''esc_arm_delay_done'', U32 ''esc_arm_delay_ms'',
     U32 ''esc_test_max_us'', U32 ''rc_valid'', U32 ''rc_throttle_us'', U32 ''rc_arm_switch'',
     U32 ''rc_arm_allowed'', U32 ''rc_frame_age_ms'', U32 ''rc_seen_arm_low'', U32 ''rc_arm_latched'',
     U32 ''motor_min_spin0'', U32 ''motor_min_spin1'', U32 ''motor_min_spin2'', U32 ''motor_min_spin3'',
     I32 ''angle_corr_roll'', I32 ''angle_corr_pitch'', I32 ''rate_corr_roll'', I32 ''rate_corr_pitch'',
     I32 ''rate_corr_yaw'', U32 ''sensor_state_error'', U32 ''control_stage'',
     U32 ''control_min_active_throttle_us'', U32 ''angle_assist_enable_dbg'',
     U32 ''rate_pid_max_corr_us_dbg'', U32 ''angle_assist_max_corr_us_dbg'', U32 ''amp_shm_poll_count'',
     U32 ''amp_emergency_latched'', U32 ''amp_config_seq'', U32 ''amp_config_update_count'',
     U32 ''amp_rt_report_seq'', U32 ''amp_status_flags'', U32 ''amp_config_deadzone'',
     U32 ''amp_config_rate_div'', U32 ''amp_config_angle_div'', U32 ''stage3_step_count'',
     U32 ''stage3_actuator_map_ok'', U32 ''stage3_external_enabled'']"

definition amp_dbg_shm_t :: "dbg_field list" where
  "amp_dbg_shm_t = amp_dbg_sensing @ amp_dbg_control"

definition dump_sensing :: "dbg_field list" where
  "dump_sensing =
    [U32 ''magic'', U32 ''version'', U32 ''seq'', U32 ''tick'', U32 ''alive'', U32 ''mailbox_isr_count'',
     U32 ''mailbox_task_count'', U32 ''last_cmd_id'', U32 ''last_param_ptr'', U32 ''ibus_rx_bytes'',
     U32 ''ibus_good_frames'', U32 ''ibus_bad_frames'', U32 ''ibus_header20'', U32 ''ibus_header2040'',
     U32 ''ibus_failsafe'', U32 ''uart3_lsr'', U32 ''uart3_last_byte'', U32 ''shm_phys'',
     U32 ''shm_ready'', U32 ''i2c_probe_count'', U32 ''i2c_last_err'', U32 ''hmc_addr'', U32 ''hmc_id_a'',
     U32 ''hmc_id_b'', U32 ''hmc_id_c'', U32 ''hmc_ok'', U32 ''hmc_bus'', U32 ''hmc_scan_mask'',
     U32 ''hmc_data_ok'', I32 ''hmc_x'', I32 ''hmc_y'', I32 ''hmc_z'', U32 ''mpu_addr'',
     U32 ''mpu_whoami'', U32 ''mpu_ok'', U32 ''mpu_data_ok'', I32 ''mpu_ax'', I32 ''mpu_ay'',
     I32 ''mpu_az'', I32 ''mpu_gx'', I32 ''mpu_gy'', I32 ''mpu_gz'', U32 ''mpu_cal_count'',
     U32 ''mpu_cal_done'', I32 ''mpu_acc_bias_x'', I32 ''mpu_acc_bias_y'', I32 ''mpu_acc_bias_z'',
     I32 ''mpu_gyro_bias_x'', I32 ''mpu_gyro_bias_y'', I32 ''mpu_gyro_bias_z'', U32 ''sensor_ready'',
     I32 ''mpu_ax_corr'', I32 ''mpu_ay_corr'', I32 ''mpu_az_corr'', I32 ''mpu_gx_corr'',
     I32 ''mpu_gy_corr'', I32 ''mpu_gz_corr'', U32 ''att_ok'', I32 ''att_roll_cd'', I32 ''att_pitch_cd'',
     I32 ''att_yaw_cd'', I32 ''rate_roll_raw'', I32 ''rate_pitch_raw'', I32 ''rate_yaw_raw'',
     U32 ''level_trim_done'', I32 ''level_roll_cd'', I32 ''level_pitch_cd'', I32 ''body_roll_cd'',
     I32 ''body_pitch_cd'', I32 ''body_yaw_cd'', I32 ''body_rate_roll_raw'', I32 ''body_rate_pitch_raw'',
     I32 ''body_rate_yaw_raw'']"

definition dump_control :: "dbg_field list" where
  "dump_control =
    [I32 ''sp_roll_rate_raw'', I32 ''sp_pitch_rate_raw'', I32 ''sp_roll_cd'', I32 ''sp_pitch_cd'',
     I32 ''sp_yaw_rate_raw'', U32 ''sp_throttle_us'', I32 ''pid_roll'', I32 ''pid_pitch'', I32 ''pid_yaw'',
     I32 ''mix_m0'', I32 ''mix_m1'', I32 ''mix_m2'', I32 ''mix_m3'', U32 ''motor_armed'',
     U32 ''motor_output_enabled'', U32 ''motor_safety_reason'', U32 ''motor_pwm0'', U32 ''motor_pwm1'',
     U32 ''motor_pwm2'', U32 ''motor_pwm3'', I32 ''motor_trim0'', I32 ''motor_trim1'', I32 ''motor_trim2'',
     I32 ''motor_trim3'', U32 ''pwm_backend_ready'', U32 ''pwm_backend_err'', U32 ''pwm_real_enabled'',
     U32 ''pwm_period_us_dbg'', U32 ''pwm_active_high_dbg'', U32 ''pwm_duty0_us_dbg'',
     U32 ''pwm_duty1_us_dbg'', U32 ''pwm_duty2_us_dbg'', U32 ''pwm_duty3_us_dbg'',
     U32 ''pwm_period0_clk_dbg'', U32 ''pwm_period1_clk_dbg'', U32 ''pwm_period2_clk_dbg'',
     U32 ''pwm_period3_clk_dbg'', U32 ''pwm_duty0_clk_dbg'', U32 ''pwm_duty1_clk_dbg'',
     U32 ''pwm_duty2_clk_dbg'', U32 ''pwm_duty3_clk_dbg'', U32 ''pwm_start0_dbg'', U32 ''pwm_start1_dbg'',
     U32 ''pwm_start2_dbg'', U32 ''pwm_start3_dbg'', U32 ''pwm_oe0_dbg'', U32 ''pwm_oe1_dbg'',
     U32 ''pwm_oe2_dbg'', U32 ''pwm_oe3_dbg'', U32 ''esc_arm_delay_done'', U32 ''esc_arm_delay_ms'',
     U32 ''esc_test_max_us'', U32 ''rc_valid'', U32 ''rc_throttle_us'', U32 ''rc_arm_switch'',
     U32 ''rc_arm_allowed'', U32 ''rc_frame_age_ms'', U32 ''rc_seen_arm_low'', U32 ''rc_arm_latched'',
     U32 ''motor_min_spin0'', U32 ''motor_min_spin1'', U32 ''motor_min_spin2'', U32 ''motor_min_spin3'',
     I32 ''angle_corr_roll'', I32 ''angle_corr_pitch'', I32 ''rate_corr_roll'', I32 ''rate_corr_pitch'',
     I32 ''rate_corr_yaw'', U32 ''sensor_state_error'', U32 ''control_stage'',
     U32 ''control_min_active_throttle_us'', U32 ''angle_assist_enable_dbg'',
     U32 ''rate_pid_max_corr_us_dbg'', U32 ''angle_assist_max_corr_us_dbg'', U32 ''amp_shm_poll_count'',
     U32 ''amp_emergency_latched'', U32 ''amp_config_seq'', U32 ''amp_config_update_count'',
     U32 ''amp_rt_report_seq'', U32 ''amp_status_flags'', U32 ''amp_config_deadzone'',
     U32 ''amp_config_rate_div'', U32 ''amp_config_angle_div'', U32 ''stage3_step_count'',
     U32 ''stage3_actuator_map_ok'', U32 ''stage3_external_enabled'']"

definition dump_shm_t :: "dbg_field list" where
  "dump_shm_t = dump_sensing @ dump_control"

definition AMP_DBG_SHM_ADDR :: u64 where "AMP_DBG_SHM_ADDR = 0x8FFFF000"
definition AMP_DBG_SIZE :: nat where "AMP_DBG_SIZE = 4096"

section \<open>What the firmware writes\<close>

definition dbg_bool :: "bool \<Rightarrow> u32" where "dbg_bool b = (if b then 1 else 0)"

definition dbg_words_sensing :: "u32 \<Rightarrow> bool \<Rightarrow> fw \<Rightarrow> u32 list" where
  "dbg_words_sensing now failsafe s =
    [0x414D5044, 1, g_amp_dbg s ! 2 + 1, now, g_amp_dbg s ! 4 + 1, g_mailbox_isr_count s,
     g_mailbox_task_count s, g_last_cmd_id s, g_last_param_ptr s, ib_rx_bytes s, ib_good_frames s,
     ib_bad_frames s, ib_header20 s, ib_header2040 s, dbg_bool failsafe, g_uart3_last_lsr s,
     g_uart3_last_byte s, g_amp_shm_phys s, dbg_bool (g_amp_shm_ready s), g_i2c_probe_count s,
     g_i2c_last_err s, ucast HMC5883L_ADDR, g_hmc_id_a s, g_hmc_id_b s, g_hmc_id_c s,
     dbg_bool (g_hmc_ok s), g_hmc_bus s, g_hmc_scan_mask s, dbg_bool (g_hmc_data_ok s),
     word_of_int (ax_x (g_hmc s)), word_of_int (ax_y (g_hmc s)), word_of_int (ax_z (g_hmc s)),
     if g_mpu_addr_found s \<noteq> 0 then g_mpu_addr_found s else ucast MPU6050_ADDR0, g_mpu_whoami s,
     dbg_bool (g_mpu_ok s), dbg_bool (g_mpu_data_ok s), word_of_int (ax_x (g_mpu_a s)),
     word_of_int (ax_y (g_mpu_a s)), word_of_int (ax_z (g_mpu_a s)), word_of_int (ax_x (g_mpu_g s)),
     word_of_int (ax_y (g_mpu_g s)), word_of_int (ax_z (g_mpu_g s)), g_mpu_cal_count s,
     dbg_bool (g_mpu_cal_done s), word_of_int (ax_x (g_mpu_acc_bias s)),
     word_of_int (ax_y (g_mpu_acc_bias s)), word_of_int (ax_z (g_mpu_acc_bias s)),
     word_of_int (ax_x (g_mpu_gyro_bias s)), word_of_int (ax_y (g_mpu_gyro_bias s)),
     word_of_int (ax_z (g_mpu_gyro_bias s)), dbg_bool (g_sensor_ready s),
     word_of_int (ax_x (g_mpu_a_corr s)), word_of_int (ax_y (g_mpu_a_corr s)),
     word_of_int (ax_z (g_mpu_a_corr s)), word_of_int (ax_x (g_mpu_g_corr s)),
     word_of_int (ax_y (g_mpu_g_corr s)), word_of_int (ax_z (g_mpu_g_corr s)), dbg_bool (g_att_ok s),
     word_of_int (g_att_roll_cd s), word_of_int (g_att_pitch_cd s), word_of_int (g_att_yaw_cd s),
     word_of_int (g_rate_roll_raw s), word_of_int (g_rate_pitch_raw s), word_of_int (g_rate_yaw_raw s),
     dbg_bool (g_level_trim_done s), word_of_int (g_level_roll_cd s), word_of_int (g_level_pitch_cd s),
     word_of_int (g_body_roll_cd s), word_of_int (g_body_pitch_cd s), word_of_int (g_body_yaw_cd s),
     word_of_int (g_body_rate_roll_raw s), word_of_int (g_body_rate_pitch_raw s),
     word_of_int (g_body_rate_yaw_raw s)]"

definition dbg_words_control :: "fw \<Rightarrow> u32 list" where
  "dbg_words_control s =
    [word_of_int (g_sp_roll_rate_raw s), word_of_int (g_sp_pitch_rate_raw s), word_of_int (g_sp_roll_cd s),
     word_of_int (g_sp_pitch_cd s), word_of_int (g_sp_yaw_rate_raw s), g_sp_throttle_us s,
     word_of_int (g_pid_roll s), word_of_int (g_pid_pitch s), word_of_int (g_pid_yaw s),
     word_of_int (m0 (g_mix s)), word_of_int (m1 (g_mix s)), word_of_int (m2 (g_mix s)),
     word_of_int (m3 (g_mix s)), dbg_bool (g_motor_armed s), dbg_bool (g_motor_output_enabled s),
     g_motor_safety_reason s, m0 (g_motor_pwm_us s), m1 (g_motor_pwm_us s), m2 (g_motor_pwm_us s),
     m3 (g_motor_pwm_us s), word_of_int (m0 g_motor_trim_us), word_of_int (m1 g_motor_trim_us),
     word_of_int (m2 g_motor_trim_us), word_of_int (m3 g_motor_trim_us), dbg_bool (g_pwm_backend_ready s),
     g_pwm_backend_err s, dbg_bool (g_pwm_real_enabled s), g_pwm_period_us_dbg s, g_pwm_active_high_dbg s,
     m0 (g_pwm_duty_us_dbg s), m1 (g_pwm_duty_us_dbg s), m2 (g_pwm_duty_us_dbg s),
     m3 (g_pwm_duty_us_dbg s), m0 (g_pwm_period_clk_dbg s), m1 (g_pwm_period_clk_dbg s),
     m2 (g_pwm_period_clk_dbg s), m3 (g_pwm_period_clk_dbg s), m0 (g_pwm_duty_clk_dbg s),
     m1 (g_pwm_duty_clk_dbg s), m2 (g_pwm_duty_clk_dbg s), m3 (g_pwm_duty_clk_dbg s),
     m0 (g_pwm_start_reg_dbg s), m1 (g_pwm_start_reg_dbg s), m2 (g_pwm_start_reg_dbg s),
     m3 (g_pwm_start_reg_dbg s), m0 (g_pwm_oe_reg_dbg s), m1 (g_pwm_oe_reg_dbg s), m2 (g_pwm_oe_reg_dbg s),
     m3 (g_pwm_oe_reg_dbg s), dbg_bool (g_esc_arm_delay_done s), g_esc_arm_delay_ms s, MOTOR_TEST_MAX_US,
     dbg_bool (g_rc_valid s), g_rc_throttle_us s, dbg_bool (g_rc_arm_switch s),
     dbg_bool (g_rc_arm_allowed s), g_rc_frame_age_ms s, dbg_bool (g_rc_seen_arm_low s),
     dbg_bool (g_rc_arm_latched s), m0 g_motor_min_spin_us, m1 g_motor_min_spin_us, m2 g_motor_min_spin_us,
     m3 g_motor_min_spin_us, word_of_int (g_angle_corr_roll s), word_of_int (g_angle_corr_pitch s),
     word_of_int (g_rate_corr_roll s), word_of_int (g_rate_corr_pitch s), word_of_int (g_rate_corr_yaw s),
     g_sensor_state_error s, 2, CONTROL_MIN_ACTIVE_THROTTLE_US, 1, 40, 25, g_amp_shm_poll_count s,
     dbg_bool (g_amp_emergency_stop_latched s), g_amp_config_seq s, g_amp_config_update_count s,
     g_amp_rt_report_seq s, g_amp_status_flags s, g_config_deadzone_us s, g_config_rate_roll_div s,
     g_config_angle_div s, g_stage3_step_count s, dbg_bool (g_stage3_actuator_map_ok s),
     dbg_bool (g_stage3_external_enabled s)]"

definition amp_dbg_flush :: "'w fw_hw \<Rightarrow> 'w \<Rightarrow> 'w" where
  "amp_dbg_flush H w = flush_dcache_range H AMP_DBG_SHM_ADDR (word_of_nat (4 * length amp_dbg_shm_t)) w"

definition amp_dbg_snapshot :: "u32 \<Rightarrow> bool \<Rightarrow> fw \<Rightarrow> fw" where
  "amp_dbg_snapshot now failsafe s =
    s\<lparr>g_amp_dbg := dbg_words_sensing now failsafe s @ dbg_words_control s\<rparr>"

text \<open>The first nineteen fields, which the firmware clears once: all zero but the magic word, the
  version and the failsafe flag.\<close>

definition amp_dbg_clear :: "fw \<Rightarrow> fw" where
  "amp_dbg_clear s =
    s\<lparr>g_amp_dbg := [0x414D5044, 1, 0, 0, 0, 0, 0, 0, 0, 0, 0, 0, 0, 0, 1, 0, 0, 0, 0] @ drop 19 (g_amp_dbg s)\<rparr>"

section \<open>What the tool derives\<close>

definition field_index :: "dbg_field list \<Rightarrow> string \<Rightarrow> nat" where
  "field_index lay n = length (takeWhile (\<lambda>f. dbg_name f \<noteq> n) lay)"

definition dump_field :: "u32 list \<Rightarrow> string \<Rightarrow> u32" where
  "dump_field mem n = mem ! field_index dump_shm_t n"

definition dump_safe_name :: "u32 list \<Rightarrow> string" where
  "dump_safe_name mem =
    (let r = dump_field mem ''motor_safety_reason''
     in if r = 0 then ''OK'' else if r = 1 then ''FAILSAFE'' else if r = 2 then ''SENSOR_NOT_READY''
        else if r = 3 then ''NOT_ARMED'' else if r = 4 then ''THROTTLE_HIGH'' else ''UNKNOWN'')"

definition dump_sensor_warn :: "u32 list \<Rightarrow> string" where
  "dump_sensor_warn mem =
    (if dump_field mem ''sensor_ready'' \<noteq> 0 \<and>
        (dump_field mem ''mpu_ok'' = 0 \<or> dump_field mem ''mpu_data_ok'' = 0)
     then '' WARN_SENSOR_STATE'' else [])"

definition dump_att_warn :: "u32 list \<Rightarrow> string" where
  "dump_att_warn mem =
    (if dump_field mem ''att_ok'' \<noteq> 0 \<and> dump_field mem ''sensor_ready'' = 0
     then '' WARN_ATT_STATE'' else [])"

section \<open>The two sides agree\<close>

lemma layout_same: "amp_dbg_shm_t = dump_shm_t"
  unfolding amp_dbg_shm_t_def dump_shm_t_def amp_dbg_sensing_def amp_dbg_control_def dump_sensing_def
    dump_control_def by (rule refl)

lemma length_layout: "length amp_dbg_shm_t = 159"
  by (simp add: amp_dbg_shm_t_def amp_dbg_sensing_def amp_dbg_control_def)

lemma length_snapshot: "length (g_amp_dbg (amp_dbg_snapshot now fs s)) = 159"
  by (simp add: amp_dbg_snapshot_def dbg_words_sensing_def dbg_words_control_def)

lemma dump_indices:
  "field_index dump_shm_t ''sensor_ready'' = 50" "field_index dump_shm_t ''mpu_ok'' = 34"
  "field_index dump_shm_t ''mpu_data_ok'' = 35" "field_index dump_shm_t ''att_ok'' = 57"
  "field_index dump_shm_t ''motor_safety_reason'' = 88"
  by code_simp+

lemma dump_snapshot:
  "dump_field (g_amp_dbg (amp_dbg_snapshot now fs s)) ''sensor_ready'' = dbg_bool (g_sensor_ready s)"
  "dump_field (g_amp_dbg (amp_dbg_snapshot now fs s)) ''mpu_ok'' = dbg_bool (g_mpu_ok s)"
  "dump_field (g_amp_dbg (amp_dbg_snapshot now fs s)) ''mpu_data_ok'' = dbg_bool (g_mpu_data_ok s)"
  "dump_field (g_amp_dbg (amp_dbg_snapshot now fs s)) ''att_ok'' = dbg_bool (g_att_ok s)"
  "dump_field (g_amp_dbg (amp_dbg_snapshot now fs s)) ''motor_safety_reason'' = g_motor_safety_reason s"
  by (simp_all add: dump_field_def dump_indices amp_dbg_snapshot_def dbg_words_sensing_def
      dbg_words_control_def)

end
