(* ===== verification/FwTask.thy ===== *)
theory FwTask
  imports FwSensors FwControl FwDebug
begin

text \<open>
  The firmware's periodic handler, \<open>ibus_probe_poll_once\<close>: it drains the UART into the IBUS parser,
  probes the sensors, takes over the channels, reads the shared region, decides about the motors,
  writes the pulses and the report, and takes the debug snapshot. Only the console output is left out.
\<close>

section \<open>The UART and the IBUS parser\<close>

definition UART3_BASE :: u64 where "UART3_BASE = 0x04170000"

definition uart3_read_byte :: "'w fw_hw \<Rightarrow> fw \<times> 'w \<Rightarrow> u8 option \<times> fw \<times> 'w" where
  "uart3_read_byte H = (\<lambda>(s, w).
    (let (v_lsr, w) = hw_load32 H (UART3_BASE + 0x14) w;
         s = s\<lparr>g_uart3_last_lsr := v_lsr\<rparr>
     in if v_lsr AND 1 = 0 then (None, s, w)
        else
         (let (v, w) = hw_load32 H (UART3_BASE + 0x00) w;
              s = s\<lparr>g_uart3_last_byte := v AND 0xff\<rparr>
          in (Some (ucast (g_uart3_last_byte s)), s, w))))"

definition frame_checksum :: "u8 list \<Rightarrow> u16" where
  "frame_checksum fr = foldl (\<lambda>c i. c - ucast (fr ! i)) 0xffff [0..<30]"

definition frame_word :: "u8 list \<Rightarrow> nat \<Rightarrow> u16" where
  "frame_word fr i = ucast (fr ! i) OR push_bit 8 (ucast (fr ! (i + 1)))"

definition ibus_parse_byte :: "u8 \<Rightarrow> fw \<Rightarrow> int \<times> fw" where
  "ibus_parse_byte b s =
    (if ib_index s = 0 \<and> b \<noteq> 0x20 then (0, s)
     else
      (let s = s\<lparr>ib_frame := (ib_frame s)[ib_index s := b], ib_index := ib_index s + 1\<rparr>
       in if ib_index s < 32 then (0, s)
          else
           (let s = s\<lparr>ib_index := 0\<rparr>;
                fr = ib_frame s
            in if fr ! 0 \<noteq> 0x20 \<or> fr ! 1 \<noteq> 0x40 then (- 1, s)
               else if frame_checksum fr \<noteq> frame_word fr 30 then (- 1, s)
               else (1, s\<lparr>ib_ch := map (\<lambda>i. frame_word fr (2 + i * 2)) [0..<14]\<rparr>))))"

section \<open>The parts of the handler\<close>

definition ibus_start :: "'w fw_hw \<Rightarrow> fw \<times> 'w \<Rightarrow> fw \<times> 'w" where
  "ibus_start H = (\<lambda>(s, w).
    (if ib_started s then (s, w)
     else (let s = s\<lparr>ib_started := True\<rparr>;
               w = fw_hal_uart_init H 3 115200 25000000 w
           in (amp_dbg_clear s, amp_dbg_flush H w))))"

definition ibus_rx_byte :: "'w fw_hw \<Rightarrow> u32 \<Rightarrow> u8 \<Rightarrow> fw \<times> 'w \<Rightarrow> fw \<times> 'w" where
  "ibus_rx_byte H now b = (\<lambda>(s, w).
    (let s = s\<lparr>ib_rx_bytes := ib_rx_bytes s + 1, ib_prev_b := ib_last_b s, ib_last_b := b\<rparr>;
         s = (if b = 0x20 then s\<lparr>ib_header20 := ib_header20 s + 1\<rparr> else s);
         s = (if ib_prev_b s = 0x20 \<and> b = 0x40 then s\<lparr>ib_header2040 := ib_header2040 s + 1\<rparr> else s);
         (ret, s) = ibus_parse_byte b s
     in if ret = 1 then
          (let s = s\<lparr>ib_last_frame_tick := now\<rparr>;
               (t, w) = xTaskGetTickCount H w
           in (s\<lparr>g_rc_last_frame_tick := t, ib_good_frames := ib_good_frames s + 1\<rparr>, w))
        else if ret < 0 then (s\<lparr>ib_bad_frames := ib_bad_frames s + 1\<rparr>, w)
        else (s, w)))"

text \<open>The loop with the budget left; the source starts it at 128 bytes.\<close>

fun ibus_drain :: "'w fw_hw \<Rightarrow> u32 \<Rightarrow> nat \<Rightarrow> fw \<times> 'w \<Rightarrow> fw \<times> 'w" where
  "ibus_drain H now 0 sw = sw"
| "ibus_drain H now (Suc budget) sw =
    (case uart3_read_byte H sw of
       (None, s, w) \<Rightarrow> (s, w)
     | (Some b, s, w) \<Rightarrow> ibus_drain H now budget (ibus_rx_byte H now b (s, w)))"

definition ibus_sense :: "'w fw_hw \<Rightarrow> u32 \<Rightarrow> fw \<times> 'w \<Rightarrow> fw \<times> 'w" where
  "ibus_sense H now = (\<lambda>(s, w).
    (let (s, w) = (if now - ib_last_i2c_tick s \<ge> pdMS_TO_TICKS H 20 then
                     (let (s, w) = amp_i2c_probe_once H (s, w) in (s\<lparr>ib_last_i2c_tick := now\<rparr>, w))
                   else (s, w));
         s = (if now - ib_last_stage3_tick s \<ge> pdMS_TO_TICKS H 20 then
                (stage3_flight_node_step_legacy_fallback s)\<lparr>ib_last_stage3_tick := now\<rparr>
              else s)
     in (s, w)))"

definition rc_failsafe :: "'w fw_hw \<Rightarrow> u32 \<Rightarrow> fw \<Rightarrow> bool" where
  "rc_failsafe H now s \<longleftrightarrow>
     ib_good_frames s = 0 \<or> now - ib_last_frame_tick s > pdMS_TO_TICKS H 300"

definition rc_take_channels :: "bool \<Rightarrow> fw \<Rightarrow> fw" where
  "rc_take_channels failsafe s =
    (if \<not> failsafe \<and> ib_good_frames s > 0 then
       s\<lparr>g_rc_valid := True, g_rc_ch0_us := ucast (ib_ch s ! 0), g_rc_ch1_us := ucast (ib_ch s ! 1),
         g_rc_throttle_us := ucast (ib_ch s ! 2), g_rc_ch3_us := ucast (ib_ch s ! 3),
         g_rc_arm_switch := (ucast (ib_ch s ! 5) > RC_ARM_SWITCH_THRESHOLD_US)\<rparr>
     else
       s\<lparr>g_rc_valid := False, g_rc_ch0_us := 1500, g_rc_ch1_us := 1500, g_rc_throttle_us := 1000,
         g_rc_ch3_us := 1500, g_rc_arm_switch := False\<rparr>)"

definition motor_decide :: "bool \<Rightarrow> fw \<Rightarrow> fw" where
  "motor_decide failsafe s =
    (if g_amp_emergency_stop_latched s then motor_force_safe MOTOR_SAFE_FAILSAFE s
     else if failsafe then motor_force_safe MOTOR_SAFE_FAILSAFE s
     else if \<not> g_sensor_ready s then motor_force_safe MOTOR_SAFE_SENSOR_NOT_RDY s
     else if \<not> g_motor_armed s then motor_force_safe MOTOR_SAFE_NOT_ARMED s
     else motor_update_control_outputs
            (s\<lparr>g_motor_output_enabled := True, g_motor_safety_reason := MOTOR_SAFE_OK\<rparr>))"

definition ibus_debug :: "'w fw_hw \<Rightarrow> u32 \<Rightarrow> bool \<Rightarrow> fw \<times> 'w \<Rightarrow> fw \<times> 'w" where
  "ibus_debug H now failsafe = (\<lambda>(s, w).
    (let (s, w) = (if now - ib_last_dbg_tick s \<ge> pdMS_TO_TICKS H 20 then
                     ((amp_dbg_snapshot now failsafe s)\<lparr>ib_last_dbg_tick := now\<rparr>, amp_dbg_flush H w)
                   else (s, w))
     in (if now - ib_last_print_tick s \<ge> pdMS_TO_TICKS H 1000 then s\<lparr>ib_last_print_tick := now\<rparr> else s, w)))"

section \<open>The handler\<close>

text \<open>Up to the decision: everything that feeds it, then the decision itself, then the outputs.\<close>

definition ibus_inputs :: "'w fw_hw \<Rightarrow> u32 \<Rightarrow> fw \<times> 'w \<Rightarrow> fw \<times> 'w" where
  "ibus_inputs H now sw = ibus_sense H now (ibus_drain H now 128 (ibus_start H sw))"

definition ibus_decide :: "'w fw_hw \<Rightarrow> bool \<Rightarrow> fw \<times> 'w \<Rightarrow> fw \<times> 'w" where
  "ibus_decide H failsafe = (\<lambda>(s, w).
    (let (s, w) = amp_shared_region_poll_once H (rc_take_channels failsafe s, w);
         s = control_update_setpoint_once s;
         (s, w) = motor_update_arm_gate H (s, w)
     in (motor_decide failsafe s, w)))"

definition ibus_probe_poll_once :: "'w fw_hw \<Rightarrow> fw \<times> 'w \<Rightarrow> fw \<times> 'w" where
  "ibus_probe_poll_once H = (\<lambda>(s, w).
    (let (now, w) = xTaskGetTickCount H w;
         (s, w) = ibus_inputs H now (s, w);
         failsafe = rc_failsafe H now s;
         (s, w) = ibus_decide H failsafe (s, w);
         (s, w) = motor_apply_outputs H (s, w);
         (s, w) = amp_shared_region_write_rt_report_once H (s, w)
     in ibus_debug H now failsafe (s, w)))"

end
