(* ===== verification/Receiver.thy ===== *)
theory Receiver
  imports Hal
begin

text \<open>
  \<open>rt_core/Receiver.hpp\<close>, \<open>rt_core/Receiver.cpp\<close> and the UART backend
  \<open>rt_core/RtosUartBackend.cpp\<close>: the IBUS frame parser, stick shaping, link supervision and the
  simulated transmitter. A receiver backend is a record of functions over the world, the virtual
  class it models; the backend pointer and the clock are arguments because they never change.
  Arrays are lists; \<open>receiver_ok\<close> keeps their lengths. The value \<open>std::lround\<close> gives where it is
  unspecified is the argument \<open>bad\<close>.
\<close>

definition kIbusFrameSize :: nat where "kIbusFrameSize = 32"
definition kIbusChannelCount :: nat where "kIbusChannelCount = 14"

lemma ibus_sizes [simp]: "kIbusFrameSize = 32" "kIbusChannelCount = 14"
  by (simp_all add: kIbusFrameSize_def kIbusChannelCount_def)

section \<open>Stick shaping\<close>

definition kChannelCenterUs :: u16 where "kChannelCenterUs = 1500"
definition kChannelMinUs :: u16 where "kChannelMinUs = 1000"
definition kChannelMaxUs :: u16 where "kChannelMaxUs = 2000"
definition kRollChannel :: nat where "kRollChannel = 0"
definition kPitchChannel :: nat where "kPitchChannel = 1"
definition kThrottleChannel :: nat where "kThrottleChannel = 2"
definition kYawChannel :: nat where "kYawChannel = 3"
definition kArmChannel :: nat where "kArmChannel = 4"
definition kFailsafeChannel :: nat where "kFailsafeChannel = 5"

lemmas channel_defs = kChannelCenterUs_def kChannelMinUs_def kChannelMaxUs_def kRollChannel_def
  kPitchChannel_def kThrottleChannel_def kYawChannel_def kArmChannel_def kFailsafeChannel_def

definition applyCenterDeadzone :: "u16 \<Rightarrow> u16 \<Rightarrow> u16" where
  "applyCenterDeadzone value_us deadzone_us =
    (let delta = uint value_us - uint kChannelCenterUs
     in if \<bar>delta\<bar> < uint deadzone_us then kChannelCenterUs else value_us)"

text \<open>\<open>throttle_normalized\<close>, \<open>throttle_shaped\<close> name the local variables of the source.\<close>

definition throttle_normalized :: "u16 \<Rightarrow> f32" where
  "throttle_normalized value_us =
    fclamp (fdiv (fsub (f32_of_int (uint value_us)) (f32_of_int (uint kChannelMinUs)))
                 (f32_of_int (uint kChannelMaxUs - uint kChannelMinUs)))
           (f32_of_int 0) (f32_of_int 1)"

definition throttle_pwm :: "u16 \<Rightarrow> f32 \<Rightarrow> f32" where
  "throttle_pwm value_us throttle_expo =
    (let normalized = throttle_normalized value_us;
         centered = fmul (fsub normalized (flit 1 2)) (f32_of_int 2);
         shaped = fadd (fmul (fsub (f32_of_int 1) throttle_expo) centered)
                       (fmul (fmul (fmul throttle_expo centered) centered) centered);
         output = fadd (fmul shaped (flit 1 2)) (flit 1 2)
     in fadd (f32_of_int (uint kChannelMinUs))
             (fmul output (f32_of_int (uint kChannelMaxUs - uint kChannelMinUs))))"

definition applyThrottleExpo :: "(f32 \<Rightarrow> int) \<Rightarrow> u16 \<Rightarrow> f32 \<Rightarrow> u16" where
  "applyThrottleExpo bad value_us throttle_expo =
    word_of_int (std_clamp (<) (lround bad (throttle_pwm value_us throttle_expo))
                   (uint kChannelMinUs) (uint kChannelMaxUs))"

lemma applyCenterDeadzone_cases:
  "applyCenterDeadzone v d = kChannelCenterUs \<or> applyCenterDeadzone v d = v"
  by (simp add: applyCenterDeadzone_def Let_def)

lemma applyThrottleExpo_range:
  "kChannelMinUs \<le> applyThrottleExpo bad v e \<and> applyThrottleExpo bad v e \<le> kChannelMaxUs"
proof -
  let ?r = "std_clamp (<) (lround bad (throttle_pwm v e)) 1000 2000"
  have "1000 \<le> ?r" "?r \<le> 2000"
    by (simp_all add: std_clamp_def)
  then have "uint (word_of_int ?r :: u16) = ?r" by (simp add: uint_word_of_int)
  then show ?thesis
    using \<open>1000 \<le> ?r\<close> \<open>?r \<le> 2000\<close>
    by (simp add: applyThrottleExpo_def channel_defs word_le_def)
qed

section \<open>Frames\<close>

definition ibus_sum :: "u8 list \<Rightarrow> u16" where
  "ibus_sum bytes = foldl (\<lambda>sum b. sum + ucast b) 0 bytes"

definition checksum :: "u8 list \<Rightarrow> u16" where
  "checksum frame = 0xFFFF - ibus_sum (take (kIbusFrameSize - 2) frame)"

definition encodeIbusFrame :: "u16 list \<Rightarrow> u8 list" where
  "encodeIbusFrame channels =
    (let body = [word_of_nat kIbusFrameSize, 0x40] @
           concat (map (\<lambda>v. [ucast (v AND 0xFF), ucast (drop_bit 8 v AND 0xFF)]) channels);
         crc = 0xFFFF - ibus_sum body
     in body @ [ucast (crc AND 0xFF), ucast (drop_bit 8 crc AND 0xFF)])"

record receiver_sample =
  rs_channels :: "u16 list"
  rs_link_ok :: bool
  rs_failsafe_switch :: bool
  rs_timestamp_us :: u64

definition empty_sample :: receiver_sample where
  "empty_sample = \<lparr>rs_channels = replicate 14 0, rs_link_ok = False, rs_failsafe_switch = False,
     rs_timestamp_us = 0\<rparr>"

record receiver =
  rc_frame_buffer :: "u8 list"
  rc_frame_index :: nat
  rc_last_sample :: receiver_sample
  rc_last_frame_us :: u64
  rc_arm_switch_threshold_us :: u16
  rc_deadzone_us :: u16
  rc_throttle_expo :: f32

definition new_receiver :: receiver where
  "new_receiver = \<lparr>rc_frame_buffer = replicate 32 0, rc_frame_index = 0,
     rc_last_sample = empty_sample, rc_last_frame_us = 0, rc_arm_switch_threshold_us = 1500,
     rc_deadzone_us = 15, rc_throttle_expo = flit 45 100\<rparr>"

definition raw_channels :: "u8 list \<Rightarrow> u16 list" where
  "raw_channels frame =
    map (\<lambda>channel. let offset = 2 + channel * 2
                   in u16_of_bytes (frame ! offset) (frame ! (offset + 1))) [0..<kIbusChannelCount]"

definition shape_channels :: "(f32 \<Rightarrow> int) \<Rightarrow> receiver \<Rightarrow> u16 list \<Rightarrow> u16 list" where
  "shape_channels bad r ch =
    (let ch = ch[kRollChannel := applyCenterDeadzone (ch ! kRollChannel) (rc_deadzone_us r)];
         ch = ch[kPitchChannel := applyCenterDeadzone (ch ! kPitchChannel) (rc_deadzone_us r)];
         ch = ch[kYawChannel := applyCenterDeadzone (ch ! kYawChannel) (rc_deadzone_us r)]
     in ch[kThrottleChannel := applyThrottleExpo bad (ch ! kThrottleChannel) (rc_throttle_expo r)])"

definition decodeFrame ::
  "(f32 \<Rightarrow> int) \<Rightarrow> receiver \<Rightarrow> u8 list \<Rightarrow> receiver_sample \<Rightarrow> receiver_sample option" where
  "decodeFrame bad r frame sample =
    (let expected = checksum frame;
         received = u16_of_bytes (frame ! (kIbusFrameSize - 2)) (frame ! (kIbusFrameSize - 1))
     in if expected \<noteq> received then None
        else Some (sample\<lparr>rs_channels := shape_channels bad r (raw_channels frame)\<rparr>))"

section \<open>The parser and link supervision\<close>

record 'w rx_backend =
  rxb_init :: "'w \<Rightarrow> bool \<times> 'w"
  rxb_read :: "nat \<Rightarrow> 'w \<Rightarrow> u8 list \<times> 'w"

definition receiver_init :: "'w rx_backend option \<Rightarrow> receiver \<Rightarrow> 'w \<Rightarrow> (bool \<times> receiver) \<times> 'w" where
  "receiver_init backend r w =
    (let r = r\<lparr>rc_frame_index := 0, rc_last_frame_us := 0, rc_last_sample := empty_sample\<rparr>
     in case backend of
          None \<Rightarrow> ((False, r), w)
        | Some b \<Rightarrow> (let (ok, w) = rxb_init b w in ((ok, r), w)))"

definition hasLink :: "receiver \<Rightarrow> u64 \<Rightarrow> u64 \<Rightarrow> bool" where
  "hasLink r now_us timeout_us =
    (if rc_last_frame_us r = 0 then False else now_us - rc_last_frame_us r \<le> timeout_us)"

definition receiver_applyConfig :: "receiver \<Rightarrow> flight_config \<Rightarrow> receiver" where
  "receiver_applyConfig r config =
    r\<lparr>rc_deadzone_us := std_clamp (<) (fc_deadzone_us config) 0 100,
      rc_throttle_expo := fclamp (fc_throttle_expo config) (f32_of_int 0) (flit 95 100)\<rparr>"

definition store_byte :: "receiver \<Rightarrow> u8 \<Rightarrow> receiver" where
  "store_byte r byte = r\<lparr>rc_frame_buffer := (rc_frame_buffer r)[rc_frame_index r := byte],
     rc_frame_index := Suc (rc_frame_index r)\<rparr>"

definition pushByte ::
  "(f32 \<Rightarrow> int) \<Rightarrow> ('w \<Rightarrow> u64 \<times> 'w) \<Rightarrow> u8 \<Rightarrow> receiver \<Rightarrow> receiver_sample \<Rightarrow> 'w \<Rightarrow>
    (bool \<times> receiver \<times> receiver_sample) \<times> 'w" where
  "pushByte bad micros byte r sample w =
    (if rc_frame_index r = 0 then
       (if byte \<noteq> word_of_nat kIbusFrameSize then ((False, r, sample), w)
        else ((False, store_byte r byte, sample), w))
     else if rc_frame_index r = 1 \<and> byte \<noteq> 0x40 then
       ((False, r\<lparr>rc_frame_index := 0\<rparr>, sample), w)
     else
       (let r = store_byte r byte
        in if rc_frame_index r < kIbusFrameSize then ((False, r, sample), w)
           else
             (let r = r\<lparr>rc_frame_index := 0\<rparr>
              in case decodeFrame bad r (rc_frame_buffer r) sample of
                   None \<Rightarrow> ((False, r, sample), w)
                 | Some sample \<Rightarrow>
                     (let (now, w) = micros w;
                          r = r\<lparr>rc_last_frame_us := now\<rparr>;
                          sample = sample\<lparr>rs_timestamp_us := now, rs_link_ok := True,
                            rs_failsafe_switch :=
                              rs_channels sample ! kFailsafeChannel > rc_arm_switch_threshold_us r\<rparr>;
                          r = r\<lparr>rc_last_sample := sample\<rparr>
                      in ((True, r, sample), w)))))"

text \<open>The loop over the bytes of one read, with the flag \<open>frame_updated\<close>.\<close>

fun poll_bytes ::
  "(f32 \<Rightarrow> int) \<Rightarrow> ('w \<Rightarrow> u64 \<times> 'w) \<Rightarrow> u8 list \<Rightarrow> bool \<Rightarrow> receiver \<Rightarrow> receiver_sample \<Rightarrow> 'w \<Rightarrow>
    (bool \<times> receiver \<times> receiver_sample) \<times> 'w" where
  "poll_bytes bad micros [] upd r sample w = ((upd, r, sample), w)"
| "poll_bytes bad micros (b # bs) upd r sample w =
    (let ((ok, r, sample), w) = pushByte bad micros b r sample w
     in if ok then poll_bytes bad micros bs True r (rc_last_sample r) w
        else poll_bytes bad micros bs upd r sample w)"

definition link_lost_channels :: "u16 list \<Rightarrow> u16 list" where
  "link_lost_channels ch = ch[kThrottleChannel := kChannelMinUs, kArmChannel := kChannelMinUs,
     kRollChannel := kChannelCenterUs, kPitchChannel := kChannelCenterUs,
     kYawChannel := kChannelCenterUs]"

definition stale_sample :: "receiver \<Rightarrow> u64 \<Rightarrow> receiver_sample" where
  "stale_sample r now =
    (let sample = rc_last_sample r;
         sample = sample\<lparr>rs_link_ok := hasLink r now 80000\<rparr>;
         sample = sample\<lparr>rs_failsafe_switch :=
           rs_channels sample ! kFailsafeChannel > rc_arm_switch_threshold_us r\<rparr>
     in if rs_link_ok sample then sample
        else sample\<lparr>rs_channels := link_lost_channels (rs_channels sample),
               rs_failsafe_switch := True, rs_link_ok := False\<rparr>)"

definition receiver_poll ::
  "(f32 \<Rightarrow> int) \<Rightarrow> ('w \<Rightarrow> u64 \<times> 'w) \<Rightarrow> 'w rx_backend option \<Rightarrow> receiver \<Rightarrow> receiver_sample \<Rightarrow> 'w \<Rightarrow>
    (bool \<times> receiver \<times> receiver_sample) \<times> 'w" where
  "receiver_poll bad micros backend r sample w =
    (case backend of
       None \<Rightarrow> ((False, r, sample), w)
     | Some b \<Rightarrow>
         (let (raw, w) = rxb_read b 96 w;
              ((frame_updated, r, sample), w) = poll_bytes bad micros raw False r sample w
          in if frame_updated then ((True, r, sample), w)
             else
               (let (now, w) = micros w;
                    sample = stale_sample r now;
                    r = (if rs_link_ok sample then r else r\<lparr>rc_last_sample := sample\<rparr>)
                in ((True, r, sample), w))))"

section \<open>The UART backend\<close>

record uart_rx_config =
  ur_uart_id :: u8
  ur_baud_rate :: u32

definition default_uart_rx_config :: uart_rx_config where
  "default_uart_rx_config = \<lparr>ur_uart_id = 3, ur_baud_rate = 115200\<rparr>"

definition rtos_uart_init :: "'w board \<Rightarrow> uart_rx_config \<Rightarrow> 'w \<Rightarrow> bool \<times> 'w" where
  "rtos_uart_init B config w =
    (let (ret, w) = amp_hal_uart_init B (ur_uart_id config) (ur_baud_rate config) w
     in if ret \<noteq> 0 then (False, w) else (True, w))"

definition rtos_uart_read :: "'w board \<Rightarrow> uart_rx_config \<Rightarrow> nat \<Rightarrow> 'w \<Rightarrow> u8 list \<times> 'w" where
  "rtos_uart_read B config max_bytes w =
    (if max_bytes = 0 then ([], w)
     else (let (bytes, w) = amp_hal_uart_read_buffer B (ur_uart_id config) True max_bytes w
           in (take (min (length bytes) max_bytes) bytes, w)))"

definition rtos_uart_backend :: "'w board \<Rightarrow> uart_rx_config \<Rightarrow> 'w rx_backend" where
  "rtos_uart_backend B config = \<lparr>rxb_init = rtos_uart_init B config, rxb_read = rtos_uart_read B config\<rparr>"

section \<open>The framer as an abstract parser\<close>

text \<open>
  The buffer and its index implement one list, the prefix of the frame received so far.
  \<open>ibus_next\<close> is the parser on that list: the new prefix and, when the byte completes a frame,
  the frame. Two invariants relate the levels: the array lengths, and that a prefix starts with
  the two header bytes.
\<close>

definition receiver_ok :: "receiver \<Rightarrow> bool" where
  "receiver_ok r \<longleftrightarrow> length (rc_frame_buffer r) = 32 \<and> rc_frame_index r < 32 \<and>
     length (rs_channels (rc_last_sample r)) = 14"

definition rx_prefix :: "receiver \<Rightarrow> u8 list" where
  "rx_prefix r = take (rc_frame_index r) (rc_frame_buffer r)"

definition ibus_next :: "u8 list \<Rightarrow> u8 \<Rightarrow> u8 list \<times> u8 list option" where
  "ibus_next pre b =
    (if pre = [] then (if b = 0x20 then [b] else [], None)
     else if length pre = 1 \<and> b \<noteq> 0x40 then ([], None)
     else if length pre < 31 then (pre @ [b], None)
     else ([], Some (pre @ [b])))"

definition frame_valid :: "u8 list \<Rightarrow> bool" where
  "frame_valid frame \<longleftrightarrow> checksum frame = u16_of_bytes (frame ! 30) (frame ! 31)"

lemma length_shape_channels [simp]: "length (shape_channels bad r ch) = length ch"
  by (simp add: shape_channels_def Let_def)

lemma length_raw_channels [simp]: "length (raw_channels frame) = 14"
  by (simp add: raw_channels_def)

lemma decodeFrame_eq:
  "decodeFrame bad r frame sample =
    (if frame_valid frame then Some (sample\<lparr>rs_channels := shape_channels bad r (raw_channels frame)\<rparr>)
     else None)"
  by (simp add: decodeFrame_def frame_valid_def)

lemma store_byte_fields [simp]:
  "rc_last_sample (store_byte r b) = rc_last_sample r"
  "rc_frame_index (store_byte r b) = Suc (rc_frame_index r)"
  "rc_last_frame_us (store_byte r b) = rc_last_frame_us r"
  "rc_deadzone_us (store_byte r b) = rc_deadzone_us r"
  "rc_throttle_expo (store_byte r b) = rc_throttle_expo r"
  "rc_arm_switch_threshold_us (store_byte r b) = rc_arm_switch_threshold_us r"
  "length (rc_frame_buffer (store_byte r b)) = length (rc_frame_buffer r)"
  by (simp_all add: store_byte_def)

lemma rx_prefix_store:
  "\<lbrakk>length (rc_frame_buffer r) = 32; rc_frame_index r < 32\<rbrakk> \<Longrightarrow>
    rx_prefix (store_byte r b) = rx_prefix r @ [b]"
  by (simp add: rx_prefix_def store_byte_def take_Suc_conv_app_nth)

lemma length_rx_prefix: "receiver_ok r \<Longrightarrow> length (rx_prefix r) = rc_frame_index r"
  by (simp add: rx_prefix_def receiver_ok_def)

lemma rx_prefix_zero: "rc_frame_index r = 0 \<Longrightarrow> rx_prefix r = []"
  by (simp add: rx_prefix_def)

text \<open>What an accepted frame leaves behind.\<close>

definition accept_sample ::
  "(f32 \<Rightarrow> int) \<Rightarrow> receiver \<Rightarrow> u8 list \<Rightarrow> u64 \<Rightarrow> receiver_sample \<Rightarrow> receiver_sample" where
  "accept_sample bad r frame now sample =
    (let ch = shape_channels bad r (raw_channels frame)
     in sample\<lparr>rs_channels := ch, rs_timestamp_us := now, rs_link_ok := True,
          rs_failsafe_switch := ch ! kFailsafeChannel > rc_arm_switch_threshold_us r\<rparr>)"

text \<open>
  One byte, all branches: the parser state follows \<open>ibus_next\<close>; only a complete frame with a
  right checksum changes the sample, and then the link time is taken from the clock.
\<close>

lemma shape_channels_cong:
  "\<lbrakk>rc_deadzone_us r = rc_deadzone_us r'; rc_throttle_expo r = rc_throttle_expo r'\<rbrakk> \<Longrightarrow>
    shape_channels bad r ch = shape_channels bad r' ch"
  by (simp add: shape_channels_def)

lemma pushByte_refines:
  assumes ok: "receiver_ok r" and push: "pushByte bad micros b r sample w = ((acc, r', sample'), w')"
  shows "rx_prefix r' = fst (ibus_next (rx_prefix r) b)"
    and "acc \<longleftrightarrow> (\<exists>f. snd (ibus_next (rx_prefix r) b) = Some f \<and> frame_valid f)"
    and "\<not> acc \<Longrightarrow> sample' = sample \<and> w' = w \<and> rc_last_sample r' = rc_last_sample r \<and>
           rc_last_frame_us r' = rc_last_frame_us r"
    and "acc \<Longrightarrow> \<exists>f now. snd (ibus_next (rx_prefix r) b) = Some f \<and> micros w = (now, w') \<and>
           sample' = accept_sample bad r f now sample \<and> rc_last_sample r' = sample' \<and>
           rc_last_frame_us r' = now"
    and "receiver_ok r'"
    and "rc_deadzone_us r' = rc_deadzone_us r \<and> rc_throttle_expo r' = rc_throttle_expo r \<and>
         rc_arm_switch_threshold_us r' = rc_arm_switch_threshold_us r"
proof -
  have len: "length (rc_frame_buffer r) = 32" "rc_frame_index r < 32"
    "length (rs_channels (rc_last_sample r)) = 14"
    using ok by (auto simp: receiver_ok_def)
  have pre: "length (rx_prefix r) = rc_frame_index r" by (rule length_rx_prefix [OF ok])
  have full: "rc_frame_index r = 31 \<Longrightarrow> rc_frame_buffer (store_byte r b) = rx_prefix r @ [b]"
    using rx_prefix_store [OF len(1,2), of b] len(1) by (simp add: rx_prefix_def)
  note facts = pushByte_def Let_def decodeFrame_eq ibus_next_def accept_sample_def
    rx_prefix_zero receiver_ok_def
  consider (idle) "rc_frame_index r = 0" | (resync) "rc_frame_index r = 1" "b \<noteq> 0x40"
    | (grow) "0 < rc_frame_index r" "rc_frame_index r = 1 \<longrightarrow> b = 0x40" "rc_frame_index r < 31"
    | (bad) "rc_frame_index r = 31" "\<not> frame_valid (rx_prefix r @ [b])"
    | (good) "rc_frame_index r = 31" "frame_valid (rx_prefix r @ [b])"
    using len(2) by linarith
  note five = this
  have "rx_prefix r' = fst (ibus_next (rx_prefix r) b) \<and>
    (acc \<longleftrightarrow> (\<exists>f. snd (ibus_next (rx_prefix r) b) = Some f \<and> frame_valid f)) \<and>
    (\<not> acc \<longrightarrow> sample' = sample \<and> w' = w \<and> rc_last_sample r' = rc_last_sample r \<and>
       rc_last_frame_us r' = rc_last_frame_us r) \<and>
    (acc \<longrightarrow> (\<exists>f now. snd (ibus_next (rx_prefix r) b) = Some f \<and> micros w = (now, w') \<and>
       sample' = accept_sample bad r f now sample \<and> rc_last_sample r' = sample' \<and>
       rc_last_frame_us r' = now)) \<and>
    receiver_ok r' \<and>
    (rc_deadzone_us r' = rc_deadzone_us r \<and> rc_throttle_expo r' = rc_throttle_expo r \<and>
     rc_arm_switch_threshold_us r' = rc_arm_switch_threshold_us r)"
  proof (cases rule: five)
    case idle
    then have "rx_prefix r = []" by (rule rx_prefix_zero)
    with idle push len rx_prefix_store [OF len(1,2), of b] show ?thesis
      by (auto simp: facts split: if_splits)
  next
    case resync
    then show ?thesis using push len pre by (auto simp: facts)
  next
    case grow
    then have "rx_prefix r \<noteq> []" using pre by auto
    with grow push len pre rx_prefix_store [OF len(1,2), of b] show ?thesis
      by (auto simp: facts)
  next
    case bad
    then have "rx_prefix r \<noteq> []" using pre by auto
    with bad push len pre full show ?thesis by (auto simp: facts)
  next
    case good
    then have "rx_prefix r \<noteq> []" using pre by auto
    moreover have "shape_channels bad ((store_byte r b)\<lparr>rc_frame_index := 0\<rparr>) ch =
        shape_channels bad r ch" for ch
      by (rule shape_channels_cong) simp_all
    ultimately show ?thesis using good push len pre full
      by (auto simp: facts split: prod.splits)
  qed
  then show "rx_prefix r' = fst (ibus_next (rx_prefix r) b)"
    and "acc \<longleftrightarrow> (\<exists>f. snd (ibus_next (rx_prefix r) b) = Some f \<and> frame_valid f)"
    and "\<not> acc \<Longrightarrow> sample' = sample \<and> w' = w \<and> rc_last_sample r' = rc_last_sample r \<and>
           rc_last_frame_us r' = rc_last_frame_us r"
    and "acc \<Longrightarrow> \<exists>f now. snd (ibus_next (rx_prefix r) b) = Some f \<and> micros w = (now, w') \<and>
           sample' = accept_sample bad r f now sample \<and> rc_last_sample r' = sample' \<and>
           rc_last_frame_us r' = now"
    and "receiver_ok r'"
    and "rc_deadzone_us r' = rc_deadzone_us r \<and> rc_throttle_expo r' = rc_throttle_expo r \<and>
         rc_arm_switch_threshold_us r' = rc_arm_switch_threshold_us r"
    by blast+
qed

end
