(* ===== verification/ReceiverLink.thy ===== *)
theory ReceiverLink
  imports Receiver
begin

text \<open>
  What the receiver of theory \<open>Receiver\<close> promises: the abstract framer run over a whole byte
  stream, the refinement of \<open>Receiver::poll\<close> to it, acceptance of every encoded frame, rejection
  of every single-byte corruption, the loss of a frame after a stray header byte, and the link
  supervision. It also models \<open>SimulatedIbusBackend\<close>.
\<close>

section \<open>The encoder\<close>

lemma nth_concat_pairs:
  assumes "i < length xs"
  shows "concat (map (\<lambda>x. [f x, g x]) xs) ! (2 * i) = f (xs ! i)"
    and "concat (map (\<lambda>x. [f x, g x]) xs) ! Suc (2 * i) = g (xs ! i)"
  using assms
proof (induction xs arbitrary: i)
  case (Cons x xs)
  { case 1 then show ?case using Cons.IH(1) by (cases i) auto }
  { case 2 then show ?case using Cons.IH(2) by (cases i) auto }
qed simp_all

lemma length_concat_pairs [simp]: "length (concat (map (\<lambda>x. [f x, g x]) xs)) = 2 * length xs"
  by (induction xs) auto

lemma byte_masks:
  "(ucast (v AND 0xFF) :: u8) = byte_at 0 (v :: u16)"
  "byte_at 0 (drop_bit 8 v) = byte_at (Suc 0) v"
proof -
  have "v AND 0xFF = take_bit 8 v" by (simp add: take_bit_eq_mask mask_eq_exp_minus_1)
  then have "(ucast (v AND 0xFF) :: u8) = ucast (take_bit 8 v)" by (simp only:)
  also have "\<dots> = byte_at 0 v"
    by (rule bit_word_eqI) (auto simp: bit_byte_at bit_ucast_iff bit_take_bit_iff)
  finally show "(ucast (v AND 0xFF) :: u8) = byte_at 0 v" .
  show "byte_at 0 (drop_bit 8 v) = byte_at (Suc 0) v"
    by (simp add: byte_at_def)
qed

definition ibus_body :: "u16 list \<Rightarrow> u8 list" where
  "ibus_body ch = [0x20, 0x40] @ concat (map (\<lambda>v. [byte_at 0 v, byte_at 1 v]) ch)"

lemma encode_eq: "encodeIbusFrame ch = ibus_body ch @ le16 (0xFFFF - ibus_sum (ibus_body ch))"
  by (simp add: encodeIbusFrame_def Let_def byte_masks ibus_body_def le16_def)

lemma length_ibus_body [simp]: "length (ibus_body ch) = 2 + 2 * length ch"
  by (simp add: ibus_body_def)

lemma length_encode [simp]: "length (encodeIbusFrame ch) = 4 + 2 * length ch"
  by (simp add: encode_eq)

lemma encode_split:
  assumes "length ch = 14"
  obtains g where "encodeIbusFrame ch = 0x20 # 0x40 # g" "length g = 30"
  using assms by (simp add: encode_eq ibus_body_def)

lemma checksum_take: "checksum frame = 0xFFFF - ibus_sum (take 30 frame)"
  by (simp add: checksum_def)

lemma checksum_encode: "length ch = 14 \<Longrightarrow> checksum (encodeIbusFrame ch) = 0xFFFF - ibus_sum (ibus_body ch)"
  by (simp add: checksum_take encode_eq)

lemma encode_valid: "length ch = 14 \<Longrightarrow> frame_valid (encodeIbusFrame ch)"
proof -
  assume ch: "length ch = 14"
  then have "encodeIbusFrame ch ! 30 = byte_at 0 (0xFFFF - ibus_sum (ibus_body ch))"
    "encodeIbusFrame ch ! 31 = byte_at 1 (0xFFFF - ibus_sum (ibus_body ch))"
    by (simp_all add: encode_eq nth_append le16_def)
  with ch show ?thesis by (simp add: frame_valid_def checksum_encode u16_of_le16)
qed

lemma raw_channels_encode: "length ch = 14 \<Longrightarrow> raw_channels (encodeIbusFrame ch) = ch"
proof (rule nth_equalityI)
  assume ch: "length ch = 14"
  then show "length (raw_channels (encodeIbusFrame ch)) = length ch" by simp
  fix i assume "i < length (raw_channels (encodeIbusFrame ch))"
  then have i: "i < 14" by simp
  let ?c = "concat (map (\<lambda>v. [byte_at 0 v, byte_at 1 v]) ch)"
  have "encodeIbusFrame ch ! (2 + i * 2) = ?c ! (2 * i)"
    "encodeIbusFrame ch ! (2 + i * 2 + 1) = ?c ! Suc (2 * i)"
    using i ch by (simp_all add: encode_eq ibus_body_def nth_append mult.commute)
  then show "raw_channels (encodeIbusFrame ch) ! i = ch ! i"
    using i ch nth_concat_pairs [of i ch "byte_at 0" "byte_at 1"]
    by (simp add: raw_channels_def Let_def u16_of_le16)
qed

section \<open>The framer over a stream\<close>

fun framer :: "u8 list \<Rightarrow> u8 list \<Rightarrow> u8 list \<times> u8 list list" where
  "framer pre [] = (pre, [])"
| "framer pre (b # bs) =
    (let (pre', f) = ibus_next pre b; (pre'', fs) = framer pre' bs
     in (pre'', (case f of None \<Rightarrow> fs | Some f \<Rightarrow> f # fs)))"

definition good_frames :: "u8 list \<Rightarrow> u8 list \<Rightarrow> u8 list list" where
  "good_frames pre bs = filter frame_valid (snd (framer pre bs))"

lemma good_frames_Nil [simp]: "good_frames pre [] = []"
  by (simp add: good_frames_def)

lemma good_frames_Cons:
  "good_frames pre (b # bs) =
    (case snd (ibus_next pre b) of
       Some f \<Rightarrow> (if frame_valid f then [f] else []) @ good_frames (fst (ibus_next pre b)) bs
     | None \<Rightarrow> good_frames (fst (ibus_next pre b)) bs)"
  by (simp add: good_frames_def split: prod.splits option.splits)

lemma framer_Cons_fst: "fst (framer pre (b # bs)) = fst (framer (fst (ibus_next pre b)) bs)"
  by (simp split: prod.splits)

text \<open>A frame needs 32 bytes.\<close>

lemma framer_short: "length pre + length bs < 32 \<Longrightarrow> snd (framer pre bs) = []"
proof (induction bs arbitrary: pre)
  case (Cons b bs)
  have "snd (ibus_next pre b) = None" "length (fst (ibus_next pre b)) \<le> Suc (length pre)"
    using Cons.prems by (auto simp: ibus_next_def)
  then show ?case using Cons.IH [of "fst (ibus_next pre b)"] Cons.prems
    by (auto split: prod.splits)
qed simp

lemma good_frames_short: "length pre + length bs < 32 \<Longrightarrow> good_frames pre bs = []"
  by (simp add: good_frames_def framer_short)

text \<open>Once the header has been seen, bytes are taken as they come.\<close>

lemma framer_collect:
  "\<lbrakk>2 \<le> length pre; length pre + length bs = 32\<rbrakk> \<Longrightarrow> bs \<noteq> [] \<Longrightarrow> framer pre bs = ([], [pre @ bs])"
proof (induction bs arbitrary: pre)
  case (Cons b bs)
  have ne: "pre \<noteq> []" "length pre \<noteq> 1" using Cons.prems by auto
  show ?case
  proof (cases "bs = []")
    case True
    then show ?thesis using Cons.prems ne by (simp add: ibus_next_def)
  next
    case False
    then have "length pre < 31" using Cons.prems(2) by (cases bs) auto
    then have "ibus_next pre b = (pre @ [b], None)" using ne by (simp add: ibus_next_def)
    moreover have "framer (pre @ [b]) bs = ([], [(pre @ [b]) @ bs])"
      using Cons.prems False by (intro Cons.IH) auto
    ultimately show ?thesis by simp
  qed
qed simp

lemma framer_frame:
  assumes "length g = 30"
  shows "framer [] (0x20 # 0x40 # g) = ([], [0x20 # 0x40 # g])"
proof -
  have "framer [0x20, 0x40] g = ([], [[0x20, 0x40] @ g])"
    using assms by (intro framer_collect) auto
  then show ?thesis by (simp add: ibus_next_def)
qed

section \<open>Refinement of the byte loop\<close>

text \<open>What a sample must be for the controller, and when the stored one is.\<close>

definition throttle_ok :: "receiver_sample \<Rightarrow> bool" where
  "throttle_ok s \<longleftrightarrow> length (rs_channels s) = 14 \<and> kChannelMinUs \<le> rs_channels s ! kThrottleChannel \<and>
     rs_channels s ! kThrottleChannel \<le> kChannelMaxUs"

definition receiver_inv :: "receiver \<Rightarrow> bool" where
  "receiver_inv r \<longleftrightarrow> receiver_ok r \<and> (rc_last_frame_us r \<noteq> 0 \<longrightarrow> throttle_ok (rc_last_sample r))"

definition same_shaping :: "receiver \<Rightarrow> receiver \<Rightarrow> bool" where
  "same_shaping r r' \<longleftrightarrow> rc_deadzone_us r' = rc_deadzone_us r \<and>
     rc_throttle_expo r' = rc_throttle_expo r \<and>
     rc_arm_switch_threshold_us r' = rc_arm_switch_threshold_us r"

definition accepted :: "(f32 \<Rightarrow> int) \<Rightarrow> receiver \<Rightarrow> u8 list \<Rightarrow> u64 \<Rightarrow> receiver_sample" where
  "accepted bad r frame now = accept_sample bad r frame now empty_sample"

lemma accept_sample_any: "accept_sample bad r frame now s = accepted bad r frame now"
  by (simp add: accepted_def accept_sample_def Let_def empty_sample_def)

lemma accepted_cong: "same_shaping r r' \<Longrightarrow> accepted bad r' frame now = accepted bad r frame now"
  using shape_channels_cong [of r' r bad "raw_channels frame"]
  by (simp add: accepted_def accept_sample_def same_shaping_def Let_def)

lemma accepted_throttle: "throttle_ok (accepted bad r frame now)"
proof -
  have "shape_channels bad r (raw_channels frame) ! kThrottleChannel =
      applyThrottleExpo bad (raw_channels frame ! kThrottleChannel) (rc_throttle_expo r)"
    by (simp add: shape_channels_def channel_defs Let_def)
  then show ?thesis
    using applyThrottleExpo_range
    by (simp add: throttle_ok_def accepted_def accept_sample_def Let_def empty_sample_def)
qed

lemma accepted_fields:
  "rs_link_ok (accepted bad r frame now)" "rs_timestamp_us (accepted bad r frame now) = now"
  "rs_channels (accepted bad r frame now) = shape_channels bad r (raw_channels frame)"
  "rs_failsafe_switch (accepted bad r frame now) \<longleftrightarrow>
    shape_channels bad r (raw_channels frame) ! kFailsafeChannel > rc_arm_switch_threshold_us r"
  by (simp_all add: accepted_def accept_sample_def Let_def)

text \<open>The world after the clock has been read \<open>n\<close> times.\<close>

fun clock_after :: "('w \<Rightarrow> u64 \<times> 'w) \<Rightarrow> nat \<Rightarrow> 'w \<Rightarrow> 'w" where
  "clock_after micros 0 w = w"
| "clock_after micros (Suc n) w = clock_after micros n (snd (micros w))"

lemma poll_bytes_refines:
  assumes "receiver_ok r" "poll_bytes bad micros bs upd r sample w = ((upd', r', sample'), w')"
  shows "rx_prefix r' = fst (framer (rx_prefix r) bs) \<and> receiver_ok r' \<and> same_shaping r r' \<and>
    w' = clock_after micros (length (good_frames (rx_prefix r) bs)) w \<and>
    (if good_frames (rx_prefix r) bs = [] then
       upd' = upd \<and> sample' = sample \<and> rc_last_sample r' = rc_last_sample r \<and>
       rc_last_frame_us r' = rc_last_frame_us r
     else upd' \<and> rc_last_sample r' = sample' \<and>
       sample' = accepted bad r (last (good_frames (rx_prefix r) bs)) (rc_last_frame_us r') \<and>
       rc_last_frame_us r' =
         fst (micros (clock_after micros (length (good_frames (rx_prefix r) bs) - 1) w)))"
  using assms
proof (induction bs arbitrary: upd r sample w)
  case Nil
  then show ?case by (simp add: same_shaping_def)
next
  case (Cons b bs)
  obtain ok r1 s1 w1 where push: "pushByte bad micros b r sample w = ((ok, r1, s1), w1)"
    by (metis prod.collapse)
  note P = pushByte_refines [OF Cons.prems(1) push]
  let ?p = "fst (ibus_next (rx_prefix r) b)"
  have shape: "same_shaping r r1" using P(6) by (simp add: same_shaping_def)
  define s2 where "s2 = (if ok then rc_last_sample r1 else s1)"
  have rest: "poll_bytes bad micros bs (ok \<or> upd) r1 s2 w1 = ((upd', r', sample'), w')"
    using Cons.prems(2) push by (cases ok) (simp_all add: s2_def)
  have pre1: "rx_prefix r1 = ?p" using P(1) .
  note IH = Cons.IH [OF P(5) rest, unfolded pre1]
  have trans: "same_shaping r r'" using IH shape by (simp add: same_shaping_def)
  show ?case
  proof (cases ok)
    case True
    then obtain f where f: "snd (ibus_next (rx_prefix r) b) = Some f" "frame_valid f"
      using P(2) by auto
    then have gf: "good_frames (rx_prefix r) (b # bs) = f # good_frames ?p bs"
      by (simp add: good_frames_Cons)
    obtain now where "micros w = (now, w1)" "s1 = accepted bad r f now" "rc_last_sample r1 = s1"
      "rc_last_frame_us r1 = now"
      using P(4) True f by (auto simp: accept_sample_any)
    then show ?thesis using IH trans True accepted_cong [OF shape]
      by (cases "good_frames ?p bs")
        (auto simp: framer_Cons_fst gf s2_def simp del: framer.simps)
  next
    case False
    then have gf: "good_frames (rx_prefix r) (b # bs) = good_frames ?p bs"
      using P(2) by (auto simp: good_frames_Cons split: option.splits)
    show ?thesis using IH trans P(3) False accepted_cong [OF shape]
      by (auto simp: framer_Cons_fst gf s2_def simp del: framer.simps split: if_splits)
  qed
qed

lemma framer_encode:
  assumes "length ch = 14"
  shows "framer [] (encodeIbusFrame ch) = ([], [encodeIbusFrame ch])"
proof -
  obtain g where "encodeIbusFrame ch = 0x20 # 0x40 # g" "length g = 30"
    by (rule encode_split [OF assms])
  then show ?thesis using framer_frame by metis
qed

lemma good_frames_encode:
  "length ch = 14 \<Longrightarrow> good_frames [] (encodeIbusFrame ch) = [encodeIbusFrame ch]"
  by (simp add: good_frames_def framer_encode encode_valid)

lemma ibus_sum_append: "ibus_sum (xs @ ys) = ibus_sum xs + ibus_sum ys"
proof -
  have "foldl (\<lambda>s b. s + ucast b) a ys = a + foldl (\<lambda>s b. s + ucast b) 0 ys" for a :: u16
    by (induction ys rule: rev_induct) (simp_all add: add.assoc)
  then show ?thesis unfolding ibus_sum_def foldl_append by blast
qed

lemma ibus_sum_one: "ibus_sum [b] = ucast b"
  by (simp add: ibus_sum_def)

lemma ibus_sum_update:
  assumes "i < length xs"
  shows "ibus_sum (xs[i := b]) = ibus_sum xs - ucast (xs ! i) + ucast b"
proof -
  let ?a = "take i xs" and ?c = "drop (Suc i) xs"
  have "ibus_sum xs = ibus_sum (?a @ [xs ! i] @ ?c)"
    using id_take_nth_drop [OF assms] by (metis append_Cons append_Nil)
  moreover have "xs[i := b] = ?a @ [b] @ ?c" using assms by (simp add: upd_conv_take_nth_drop)
  ultimately show ?thesis by (simp only: ibus_sum_append ibus_sum_one) simp
qed

lemma ucast_inj: "(ucast (x :: u8) :: u16) = ucast y \<longleftrightarrow> x = y"
proof
  assume eq: "(ucast x :: u16) = ucast y"
  show "x = y"
  proof (rule bit_word_eqI)
    fix n assume "n < LENGTH(8)"
    then show "bit x n = bit y n" using arg_cong [OF eq, of "\<lambda>w. bit w n"] by (simp add: bit_ucast_iff)
  qed
qed simp

lemma u16_of_bytes_inj: "u16_of_bytes a b = u16_of_bytes c d \<longleftrightarrow> a = c \<and> b = d"
proof
  assume eq: "u16_of_bytes a b = u16_of_bytes c d"
  have *: "bit (u16_of_bytes x y) n \<longleftrightarrow> (if n < 8 then bit x n else n < 16 \<and> bit y (n - 8))" for x y n
    by (auto simp: u16_of_bytes_def bit_or_iff bit_push_bit_iff bit_ucast_iff dest: bit_imp_le_length)
  have "a = c"
  proof (rule bit_word_eqI)
    fix n assume "n < LENGTH(8)"
    then show "bit a n = bit c n" using * [of a b n] * [of c d n] eq by simp
  qed
  moreover have "b = d"
  proof (rule bit_word_eqI)
    fix n assume "n < LENGTH(8)"
    then show "bit b n = bit d n" using * [of a b "n + 8"] * [of c d "n + 8"] eq by simp
  qed
  ultimately show "a = c \<and> b = d" by simp
qed simp

text \<open>Changing one byte of the sum or of the sum's encoding breaks the equation between them.\<close>

lemma corrupt_invalid:
  assumes f: "length f = 32" "frame_valid f" and i: "i < 32" and b: "b \<noteq> f ! i"
  shows "\<not> frame_valid (f[i := b])"
proof (cases "i < 30")
  case True
  have shift: "x + p - q = x \<Longrightarrow> p = q" for x p q :: u16
    by (simp add: diff_eq_eq)
  have take: "take 30 (f[i := b]) = (take 30 f)[i := b]"
    by (simp add: take_update_swap)
  have "checksum (f[i := b]) = checksum f + ucast (f ! i) - ucast b"
    using f(1) True by (simp add: checksum_take take ibus_sum_update)
  moreover have "(ucast (f ! i) :: u16) \<noteq> ucast b" using b ucast_inj by metis
  ultimately have "checksum (f[i := b]) \<noteq> checksum f" using shift by metis
  then show ?thesis using True f by (simp add: frame_valid_def)
next
  case False
  then have same: "checksum (f[i := b]) = checksum f" by (simp add: checksum_take)
  consider "i = 30" | "i = 31" using False i by linarith
  then show ?thesis using f b same by cases (auto simp add: frame_valid_def u16_of_bytes_inj)
qed

lemma good_frames_corrupt:
  assumes "length ch = 14" "i < 32" "b \<noteq> encodeIbusFrame ch ! i"
  shows "good_frames [] ((encodeIbusFrame ch)[i := b]) = []"
proof -
  obtain g where g: "encodeIbusFrame ch = 0x20 # 0x40 # g" "length g = 30"
    by (rule encode_split [OF assms(1)])
  consider "i = 0" | "i = 1" | j where "i = Suc (Suc j)"
    by (cases i; cases "i - 1") auto
  then show ?thesis
  proof cases
    case 1
    then show ?thesis using g assms(3) by (simp add: good_frames_Cons ibus_next_def good_frames_short)
  next
    case 2
    then show ?thesis using g assms(3) by (simp add: good_frames_Cons ibus_next_def good_frames_short)
  next
    case 3
    then have eq: "(encodeIbusFrame ch)[i := b] = 0x20 # 0x40 # g[j := b]" by (simp add: g)
    have "\<not> frame_valid ((encodeIbusFrame ch)[i := b])"
      using assms encode_valid [OF assms(1)] by (intro corrupt_invalid) simp_all
    then show ?thesis using framer_frame [of "g[j := b]"] g(2)
      by (simp add: eq good_frames_def del: framer.simps)
  qed
qed

lemma good_frames_stray:
  assumes "length ch = 14"
  shows "good_frames [] (0x20 # encodeIbusFrame ch) = []"
proof -
  obtain g where "encodeIbusFrame ch = 0x20 # 0x40 # g" "length g = 30"
    by (rule encode_split [OF assms(1)])
  then show ?thesis by (simp add: good_frames_Cons ibus_next_def good_frames_short)
qed

section \<open>One poll\<close>

text \<open>\<open>new_frames\<close>: the valid frames completed by the bytes of one poll.\<close>

definition new_frames :: "receiver \<Rightarrow> u8 list \<Rightarrow> u8 list list" where
  "new_frames r raw = good_frames (rx_prefix r) raw"

lemma receiver_poll_cases:
  assumes ok: "receiver_ok r" and read: "rxb_read b 96 w = (raw, w1)"
    and poll: "receiver_poll bad micros (Some b) r s w = ((res, r', s'), w')"
  shows "res \<and> receiver_ok r' \<and> same_shaping r r' \<and> rx_prefix r' = fst (framer (rx_prefix r) raw) \<and>
    (if new_frames r raw = [] then
       s' = stale_sample r (fst (micros w1)) \<and> rc_last_frame_us r' = rc_last_frame_us r \<and>
       (rs_link_ok s' \<longrightarrow> rc_last_sample r' = rc_last_sample r) \<and>
       (\<not> rs_link_ok s' \<longrightarrow> rc_last_sample r' = s')
     else rc_last_sample r' = s' \<and>
       s' = accepted bad r (last (new_frames r raw)) (rc_last_frame_us r') \<and>
       rc_last_frame_us r' = fst (micros (clock_after micros (length (new_frames r raw) - 1) w1)))"
proof -
  obtain u r1 s1 w2 where pb: "poll_bytes bad micros raw False r s w1 = ((u, r1, s1), w2)"
    by (metis prod.collapse)
  note R = poll_bytes_refines [OF ok pb]
  show ?thesis
  proof (cases "new_frames r raw = []")
    case True
    obtain now w3 where clk: "micros w1 = (now, w3)" by (metis prod.collapse)
    have r1: "stale_sample r1 now = stale_sample r now"
      using R True by (simp add: stale_sample_def new_frames_def hasLink_def same_shaping_def Let_def)
    have "length (rs_channels (stale_sample r now)) = 14"
      using ok by (simp add: stale_sample_def link_lost_channels_def receiver_ok_def Let_def)
    then show ?thesis using R True poll read pb clk r1
      by (auto simp: receiver_poll_def new_frames_def receiver_ok_def rx_prefix_def same_shaping_def
          Let_def split: if_splits)
  next
    case False
    then show ?thesis using R poll read pb by (auto simp: receiver_poll_def new_frames_def)
  qed
qed

lemma stale_lost:
  assumes "\<not> hasLink r now 80000" "length (rs_channels (rc_last_sample r)) = 14"
  shows "\<not> rs_link_ok (stale_sample r now)" "rs_failsafe_switch (stale_sample r now)"
    "rs_channels (stale_sample r now) ! kThrottleChannel = 1000"
    "rs_channels (stale_sample r now) ! kArmChannel = 1000"
    "rs_channels (stale_sample r now) ! kRollChannel = 1500"
    "rs_channels (stale_sample r now) ! kPitchChannel = 1500"
    "rs_channels (stale_sample r now) ! kYawChannel = 1500"
    "length (rs_channels (stale_sample r now)) = 14"
  using assms by (simp_all add: stale_sample_def link_lost_channels_def channel_defs Let_def)

lemma stale_held:
  assumes "hasLink r now 80000"
  shows "rs_link_ok (stale_sample r now)" "rs_channels (stale_sample r now) = rs_channels (rc_last_sample r)"
  using assms by (simp_all add: stale_sample_def Let_def)

lemma receiver_inv_new: "receiver_inv new_receiver"
  by (simp add: receiver_inv_def receiver_ok_def new_receiver_def empty_sample_def)

lemma receiver_inv_init:
  "\<lbrakk>receiver_inv r; receiver_init backend r w = ((ok, r'), w')\<rbrakk> \<Longrightarrow> receiver_inv r'"
  by (auto simp: receiver_init_def receiver_inv_def receiver_ok_def empty_sample_def Let_def
      split: option.splits prod.splits)

lemma receiver_inv_applyConfig: "receiver_inv r \<Longrightarrow> receiver_inv (receiver_applyConfig r c)"
  by (simp add: receiver_inv_def receiver_ok_def receiver_applyConfig_def)

lemma receiver_inv_poll:
  assumes "receiver_inv r" "receiver_poll bad micros backend r s w = ((True, r', s'), w')"
  shows "receiver_inv r' \<and> throttle_ok s'"
proof -
  obtain b where b: "backend = Some b" using assms(2) by (cases backend) (auto simp: receiver_poll_def)
  obtain raw w1 where read: "rxb_read b 96 w = (raw, w1)" by (metis prod.collapse)
  have ok: "receiver_ok r" using assms(1) by (simp add: receiver_inv_def)
  note P = receiver_poll_cases [OF ok read assms(2) [unfolded b]]
  have len: "length (rs_channels (rc_last_sample r)) = 14" using ok by (simp add: receiver_ok_def)
  consider (frame) "new_frames r raw \<noteq> []" | (held) "new_frames r raw = []" "rs_link_ok s'"
    | (lost) "new_frames r raw = []" "\<not> rs_link_ok s'" by blast
  then show ?thesis
  proof cases
    case frame
    then show ?thesis using P by (auto simp: receiver_inv_def intro: accepted_throttle)
  next
    case held
    then have link: "hasLink r (fst (micros w1)) 80000"
      using P stale_lost(1) [OF _ len] by auto
    then have "rc_last_frame_us r \<noteq> 0" by (auto simp: hasLink_def)
    then show ?thesis using P held assms(1) stale_held [OF link]
      by (auto simp: receiver_inv_def throttle_ok_def)
  next
    case lost
    then have "\<not> hasLink r (fst (micros w1)) 80000"
      using P stale_held(1) by auto
    note st = stale_lost [OF this len]
    have "throttle_ok s'"
      using P lost st(3,8) by (simp add: throttle_ok_def kChannelMinUs_def kChannelMaxUs_def)
    then show ?thesis using P lost by (auto simp: receiver_inv_def)
  qed
qed

section \<open>The simulated transmitter\<close>

text \<open>
  \<open>std::sin\<close> on \<open>float\<close> is the argument \<open>fsin\<close>. The conversion of a stick value to an integer is
  undefined outside the integer's range; then the read is \<open>None\<close>. A read of no bytes is empty.
\<close>

record sim_ibus =
  si_channels :: "u16 list"
  si_pending :: "u8 list"
  si_tick :: u64
  si_frame_period_us :: u64

definition new_sim_ibus :: sim_ibus where
  "new_sim_ibus = \<lparr>si_channels = [1500, 1500, 1200, 1500, 1700, 1200, 1000, 1000, 1000, 1000, 1000,
     1000, 1000, 1000], si_pending = [], si_tick = 0, si_frame_period_us = 7000\<rparr>"

definition sim_ibus_init :: "sim_ibus \<Rightarrow> bool \<times> sim_ibus" where
  "sim_ibus_init s = (True, s\<lparr>si_pending := [], si_tick := 0\<rparr>)"

definition sim_stick :: "(f32 \<Rightarrow> f32) \<Rightarrow> int \<Rightarrow> f32 \<Rightarrow> u16 option" where
  "sim_stick fsin amplitude phase =
    u16_of_f32 (fadd (f32_of_int 1500) (fmul (f32_of_int amplitude) (fsin phase)))"

definition sim_ibus_read :: "(f32 \<Rightarrow> f32) \<Rightarrow> nat \<Rightarrow> sim_ibus \<Rightarrow> (u8 list \<times> sim_ibus) option" where
  "sim_ibus_read fsin max_bytes s =
    (if max_bytes = 0 then Some ([], s)
     else
       (let s = s\<lparr>si_tick := si_tick s + 1\<rparr>;
            filled =
              (if si_tick s mod si_frame_period_us s = 0 \<or> si_pending s = [] then
                 (let phase = fmul (f32_of_int (uint (si_tick s))) (flit 7 10000)
                  in case (sim_stick fsin 200 phase, sim_stick fsin 180 (fmul phase (flit 8 10)),
                           sim_stick fsin 100 (fmul phase (flit 6 10))) of
                       (Some roll, Some pitch, Some yaw) \<Rightarrow>
                         (let ch = (si_channels s)[0 := roll, 1 := pitch, 2 := 1320, 3 := yaw,
                                5 := (if si_tick s > 1600 \<and> si_tick s < 1700 then 1700 else 1200)]
                          in Some (s\<lparr>si_channels := ch, si_pending := si_pending s @ encodeIbusFrame ch\<rparr>))
                     | _ \<Rightarrow> None)
               else Some s)
        in case filled of
             None \<Rightarrow> None
           | Some s \<Rightarrow> (let count = min max_bytes (length (si_pending s))
                        in Some (take count (si_pending s), s\<lparr>si_pending := drop count (si_pending s)\<rparr>))))"

lemma sim_stick_defined:
  assumes "frange (funits (- 1)) (funits 1) (fsin phase)" "0 \<le> a" "a \<le> 200"
  shows "sim_stick fsin a phase \<noteq> None"
proof -
  have s: "fis_fin (fsin phase)" by (rule frange_fin [OF assms(1)]) simp_all
  have a: "fval (f32_of_int a) = funits a" "fis_fin (f32_of_int a)"
    using assms(2,3) by (simp_all add: fval_of_int fin_of_int)
  have v: "funits (- 1) \<le> fval (fsin phase)" "fval (fsin phase) \<le> funits 1"
    using assms(1) by (auto simp: frange_def)
  have "frange (funits (- a)) (funits a) (fmul (f32_of_int a) (fsin phase))"
  proof (rule frange_mul [OF a(2) s])
    show "frepr (funits (- a))" "frepr (funits a)"
      using assms(2,3) by (intro frepr_funits; simp)+
    have "funits a * funits (- 1) \<le> funits a * fval (fsin phase)"
      "funits a * fval (fsin phase) \<le> funits a * funits 1"
      using v assms(2) by (intro mult_left_mono; simp)+
    then show "funits (funits (- a)) \<le> fval (f32_of_int a) * fval (fsin phase)"
      "fval (f32_of_int a) * fval (fsin phase) \<le> funits (funits a)"
      by (simp_all add: a(1) algebra_simps)
  qed
  then have m: "frange (funits (- 200)) (funits 200) (fmul (f32_of_int a) (fsin phase))"
    by (rule frange_mono) (use assms(2,3) in simp_all)
  have mf: "fis_fin (fmul (f32_of_int a) (fsin phase))" by (rule frange_fin [OF m]) simp_all
  have r: "frange (funits 1300) (funits 1700) (fadd (f32_of_int 1500) (fmul (f32_of_int a) (fsin phase)))"
    using m by (intro frange_add mf frepr_funits fin_of_int) (simp_all add: fval_of_int frange_def)
  have "fis_fin (fadd (f32_of_int 1500) (fmul (f32_of_int a) (fsin phase)))"
    by (rule frange_fin [OF r]) simp_all
  then show ?thesis using ftrunc_range [OF r] by (simp add: sim_stick_def u16_of_f32_def)
qed

section \<open>Properties\<close>

text \<open>with a sine between -1 and 1 the simulated transmitter never reaches an undefined
  conversion: every read returns, with at most the requested number of bytes.\<close>

theorem sim_ibus_read_defined:
  assumes "\<And>x. frange (funits (- 1)) (funits 1) (fsin x)"
  shows "\<exists>bytes s'. sim_ibus_read fsin n s = Some (bytes, s') \<and> length bytes \<le> n"
proof -
  let ?p = "fmul (f32_of_int (uint (si_tick s + 1))) (flit 7 10000)"
  have d: "\<exists>v. sim_stick fsin a x = Some v" if "0 \<le> a" "a \<le> 200" for a x
    using sim_stick_defined [of fsin x a, OF assms that] by auto
  obtain v1 where 1: "sim_stick fsin 200 ?p = Some v1" using d [of 200] by auto
  obtain v2 where 2: "sim_stick fsin 180 (fmul ?p (flit 8 10)) = Some v2" using d [of 180] by auto
  obtain v3 where 3: "sim_stick fsin 100 (fmul ?p (flit 6 10)) = Some v3" using d [of 100] by auto
  show ?thesis by (auto simp: sim_ibus_read_def Let_def 1 2 3 simp del: take_append)
qed

text \<open>C9: every frame of the encoder is accepted: a receiver between two frames whose backend
  delivers the 32 bytes of an encoded frame returns the encoded channels after stick shaping, with
  the link up and the time of the clock.\<close>

theorem encoded_frame_accepted:
  assumes "receiver_ok r" "rc_frame_index r = 0" "length ch = 14"
    "rxb_read b 96 w = (encodeIbusFrame ch, w1)" "micros w1 = (now, w2)"
    "receiver_poll bad micros (Some b) r s w = ((res, r', s'), w')"
  shows "res \<and> rs_channels s' = shape_channels bad r ch \<and> rs_link_ok s' \<and> rs_timestamp_us s' = now \<and>
    rc_last_frame_us r' = now \<and> rc_last_sample r' = s' \<and> rx_prefix r' = []"
proof -
  have "rx_prefix r = []" using assms(2) by (rule rx_prefix_zero)
  then have nf: "new_frames r (encodeIbusFrame ch) = [encodeIbusFrame ch]"
    "framer (rx_prefix r) (encodeIbusFrame ch) = ([], [encodeIbusFrame ch])"
    by (simp_all add: new_frames_def good_frames_encode framer_encode assms(3))
  then show ?thesis using receiver_poll_cases [OF assms(1,4,6)] assms(3,5)
    by (auto simp: accepted_fields raw_channels_encode)
qed

text \<open>C8: no single-byte transmission error gets through: if one of the 32 bytes of an encoded
  frame is changed, header, data or checksum, the poll reports no new frame, so its sample is the
  stored one under link supervision and the frame time stays.\<close>

theorem corrupted_frame_rejected:
  assumes "receiver_ok r" "rc_frame_index r = 0" "length ch = 14" "i < 32"
    "e \<noteq> encodeIbusFrame ch ! i" "rxb_read b 96 w = ((encodeIbusFrame ch)[i := e], w1)"
    "receiver_poll bad micros (Some b) r s w = ((res, r', s'), w')"
  shows "s' = stale_sample r (fst (micros w1)) \<and> rc_last_frame_us r' = rc_last_frame_us r"
  using receiver_poll_cases [OF assms(1,6,7)] good_frames_corrupt [OF assms(3-5)]
    rx_prefix_zero [OF assms(2)]
  by (simp add: new_frames_def)

text \<open>whatever bytes arrive and whatever the configured exponent is, a NaN included, every
  sample that \<open>poll\<close> returns has a throttle channel between 1000 and 2000 microseconds, and the
  receiver state keeps its array lengths and this bound.\<close>

theorem poll_throttle_in_range:
  assumes "receiver_inv r" "receiver_poll bad micros backend r s w = ((True, r', s'), w')"
  shows "receiver_inv r' \<and> length (rs_channels s') = 14 \<and>
    1000 \<le> rs_channels s' ! kThrottleChannel \<and> rs_channels s' ! kThrottleChannel \<le> 2000"
  using receiver_inv_poll [OF assms] by (simp add: throttle_ok_def kChannelMinUs_def kChannelMaxUs_def)

text \<open>link supervision: when no valid frame arrives and the last one is older than 80 ms, or
  there never was one, the poll returns link down, failsafe switch set, throttle and arm channel at
  1000 and the other sticks centred, and this sample replaces the stored one.\<close>

theorem lost_link_sample:
  assumes "receiver_ok r" "rxb_read b 96 w = (raw, w1)" "new_frames r raw = []"
    "rc_last_frame_us r = 0 \<or> 80000 < fst (micros w1) - rc_last_frame_us r"
    "receiver_poll bad micros (Some b) r s w = ((res, r', s'), w')"
  shows "\<not> rs_link_ok s' \<and> rs_failsafe_switch s' \<and> rs_channels s' ! kThrottleChannel = 1000 \<and>
    rs_channels s' ! kArmChannel = 1000 \<and> rs_channels s' ! kRollChannel = 1500 \<and>
    rs_channels s' ! kPitchChannel = 1500 \<and> rs_channels s' ! kYawChannel = 1500 \<and>
    rc_last_sample r' = s'"
proof -
  have "\<not> hasLink r (fst (micros w1)) 80000" using assms(4) by (auto simp: hasLink_def)
  moreover have "length (rs_channels (rc_last_sample r)) = 14"
    using assms(1) by (simp add: receiver_ok_def)
  ultimately show ?thesis using receiver_poll_cases [OF assms(1,2,5)] assms(3) stale_lost
    by simp
qed

text \<open>the resynchronisation of \<open>pushByte\<close> drops the byte that fails the second header test
  without testing it as a first header byte, so one stray 0x20 in front of a frame loses that frame
  for every channel content.\<close>

theorem stray_header_byte_loses_frame:
  assumes "receiver_ok r" "rc_frame_index r = 0" "length ch = 14"
    "rxb_read b 96 w = (0x20 # encodeIbusFrame ch, w1)"
    "receiver_poll bad micros (Some b) r s w = ((res, r', s'), w')"
  shows "s' = stale_sample r (fst (micros w1)) \<and> rc_last_frame_us r' = rc_last_frame_us r"
  using receiver_poll_cases [OF assms(1,4,5)] good_frames_stray [OF assms(3)]
    rx_prefix_zero [OF assms(2)]
  by (simp add: new_frames_def)

section \<open>Witnesses\<close>

text \<open>A line that delivers the same bytes at every poll, and a clock that stands still.\<close>

definition line_backend :: "u8 list \<Rightarrow> u64 rx_backend" where
  "line_backend bytes = \<lparr>rxb_init = (\<lambda>w. (True, w)), rxb_read = (\<lambda>_ w. (bytes, w))\<rparr>"

definition still_clock :: "u64 \<Rightarrow> u64 \<times> u64" where
  "still_clock w = (w, w)"

definition sticks :: "u16 list" where
  "sticks = replicate 14 1500"

lemma length_sticks: "length sticks = 14"
  by (simp add: sticks_def)

lemma line_read: "rxb_read (line_backend bytes) n w = (bytes, w)"
  by (simp add: line_backend_def)

lemmas fresh_receiver = receiver_inv_new [unfolded receiver_inv_def, THEN conjunct1]

lemma fresh_index: "rc_frame_index new_receiver = 0" "rc_last_frame_us new_receiver = 0"
  by (simp_all add: new_receiver_def)

lemma stick_head: "0x21 \<noteq> encodeIbusFrame sticks ! 0"
  by (simp add: encode_eq ibus_body_def)

definition poll_line :: "u8 list \<Rightarrow> (bool \<times> receiver \<times> receiver_sample) \<times> u64" where
  "poll_line bytes =
    receiver_poll (\<lambda>_. 0) still_clock (Some (line_backend bytes)) new_receiver empty_sample 90000"

abbreviation line_sample :: "u8 list \<Rightarrow> receiver_sample" where
  "line_sample bytes \<equiv> snd (snd (fst (poll_line bytes)))"

lemma poll_line:
  "receiver_poll (\<lambda>_. 0) still_clock (Some (line_backend bytes)) new_receiver empty_sample 90000 =
    ((fst (fst (poll_line bytes)), fst (snd (fst (poll_line bytes))), line_sample bytes),
     snd (poll_line bytes))"
  by (simp add: poll_line_def)

theorem encoded_frame_accepted_witness:
  "rs_channels (line_sample (encodeIbusFrame sticks)) = shape_channels (\<lambda>_. 0) new_receiver sticks \<and>
    rs_timestamp_us (line_sample (encodeIbusFrame sticks)) = 90000"
  using encoded_frame_accepted [OF fresh_receiver fresh_index(1) length_sticks line_read
      still_clock_def poll_line] by simp

theorem corrupted_frame_rejected_witness:
  "line_sample ((encodeIbusFrame sticks)[0 := 0x21]) = stale_sample new_receiver 90000"
  using corrupted_frame_rejected [OF fresh_receiver fresh_index(1) length_sticks _ stick_head line_read
      poll_line] by (simp add: still_clock_def)

theorem poll_throttle_in_range_witness:
  "length (rs_channels (line_sample [])) = 14 \<and>
    1000 \<le> rs_channels (line_sample []) ! kThrottleChannel \<and>
    rs_channels (line_sample []) ! kThrottleChannel \<le> 2000"
proof -
  have "fst (fst (poll_line [])) = True"
    by (simp add: poll_line_def receiver_poll_def line_backend_def still_clock_def Let_def)
  note polled = poll_line [of "[]", unfolded this]
  show ?thesis using poll_throttle_in_range [OF receiver_inv_new polled] by simp
qed

theorem lost_link_sample_witness:
  "rs_failsafe_switch (line_sample [1, 2, 3]) \<and> rs_channels (line_sample [1, 2, 3]) ! kThrottleChannel = 1000"
proof -
  have "new_frames new_receiver [1, 2, 3] = []"
    by (simp add: new_frames_def good_frames_short rx_prefix_zero fresh_index)
  then show ?thesis
    using lost_link_sample [OF fresh_receiver line_read _ disjI1 [OF fresh_index(2)] poll_line] by simp
qed

theorem stray_header_byte_loses_frame_witness:
  "line_sample (0x20 # encodeIbusFrame sticks) = stale_sample new_receiver 90000"
  using stray_header_byte_loses_frame [OF fresh_receiver fresh_index(1) length_sticks line_read poll_line]
  by (simp add: still_clock_def)

text \<open>A constant zero is a sine within the bounds.\<close>

theorem sim_ibus_read_defined_witness:
  "\<exists>bytes s'. sim_ibus_read (\<lambda>_. f32_of_int 0) 96 new_sim_ibus = Some (bytes, s') \<and> length bytes \<le> 96"
  by (rule sim_ibus_read_defined) (simp add: frange_def fval_of_int)

end
