(* ===== verification/FwIbus.thy ===== *)
theory FwIbus
  imports FwTask ReceiverLink
begin

text \<open>
  The firmware's IBUS parser against the frame encoder of the flight node: what the handler's byte loop
  does to the parser, as a fold of a pure step over the bytes that the UART delivers, the frames it
  takes and the alignment it never recovers.
\<close>

section \<open>The parser as a pure step\<close>

definition fw_accepts :: "u8 list \<Rightarrow> bool" where
  "fw_accepts fr \<longleftrightarrow> fr ! 0 = 0x20 \<and> fr ! 1 = 0x40 \<and> frame_valid fr"

type_synonym ibus_view = "u8 list \<times> u16 list \<times> u32 \<times> u32"

definition fw_view :: "fw \<Rightarrow> ibus_view" where
  "fw_view s = (take (ib_index s) (ib_frame s), ib_ch s, ib_good_frames s, ib_last_frame_tick s)"

definition ib_ok :: "fw \<Rightarrow> bool" where
  "ib_ok s \<longleftrightarrow> length (ib_frame s) = 32 \<and> ib_index s < 32"

fun view_step :: "u32 \<Rightarrow> ibus_view \<Rightarrow> u8 \<Rightarrow> ibus_view" where
  "view_step now (pre, ch, good, t) b =
    (if pre = [] \<and> b \<noteq> 0x20 then (pre, ch, good, t)
     else if length pre < 31 then (pre @ [b], ch, good, t)
     else if fw_accepts (pre @ [b]) then ([], raw_channels (pre @ [b]), good + 1, now)
     else ([], ch, good, t))"

lemma frame_checksum_eq:
  assumes "length fr = 32"
  shows "frame_checksum fr = checksum fr"
proof -
  have "foldl (\<lambda>c i. c - ucast (fr ! i)) x [0..<n] = x - ibus_sum (take n fr)" if "n \<le> 32" for n and x :: u16
    using that
  proof (induction n)
    case (Suc n)
    have "take (Suc n) fr = take n fr @ [fr ! n]" using Suc.prems assms by (simp add: take_Suc_conv_app_nth)
    then show ?case using Suc by (simp add: ibus_sum_append ibus_sum_one diff_diff_eq)
  qed (simp add: ibus_sum_def)
  then show ?thesis by (simp add: frame_checksum_def checksum_take)
qed

lemma frame_word_eq: "frame_word fr i = u16_of_bytes (fr ! i) (fr ! (i + 1))"
  by (simp add: frame_word_def u16_of_bytes_def)

lemma frame_channels_eq: "map (\<lambda>i. frame_word fr (2 + i * 2)) [0..<14] = raw_channels fr"
  by (simp add: raw_channels_def frame_word_eq Let_def)

lemma take_stored: "length xs = 32 \<Longrightarrow> i < 32 \<Longrightarrow> take (Suc i) (xs[i := b]) = take i xs @ [b]"
  by (simp add: take_Suc_conv_app_nth)

lemma parse_view:
  assumes "ib_ok s"
  shows "fw_view (fst (ibus_rx_byte H now b (s, w))) = view_step now (fw_view s) b"
    "ib_ok (fst (ibus_rx_byte H now b (s, w)))"
proof -
  define t where "t = s\<lparr>ib_rx_bytes := ib_rx_bytes s + 1, ib_prev_b := ib_last_b s, ib_last_b := b\<rparr>"
  define u where "u = (if b = 0x20 then t\<lparr>ib_header20 := ib_header20 t + 1\<rparr> else t)"
  define v where "v = (if ib_prev_b u = 0x20 \<and> b = 0x40 then u\<lparr>ib_header2040 := ib_header2040 u + 1\<rparr> else u)"
  have v: "ib_ok v" "fw_view v = fw_view s" "ib_index v = ib_index s" "ib_frame v = ib_frame s"
    using assms by (simp_all add: v_def u_def t_def ib_ok_def fw_view_def)
  obtain r p where p: "ibus_parse_byte b v = (r, p)" by (cases "ibus_parse_byte b v")
  have byte: "ibus_rx_byte H now b (s, w) =
      (let (ret, s) = ibus_parse_byte b v
       in if ret = 1 then
            (let s = s\<lparr>ib_last_frame_tick := now\<rparr>; (t, w) = xTaskGetTickCount H w
             in (s\<lparr>g_rc_last_frame_tick := t, ib_good_frames := ib_good_frames s + 1\<rparr>, w))
          else if ret < 0 then (s\<lparr>ib_bad_frames := ib_bad_frames s + 1\<rparr>, w) else (s, w))"
    unfolding ibus_rx_byte_def v_def u_def t_def by (simp only: Let_def prod.case)
  have rx: "fw_view (fst (ibus_rx_byte H now b (s, w))) =
      (let (pre, ch, good, tk) = fw_view p in if r = 1 then (pre, ch, good + 1, now) else (pre, ch, good, tk))"
    "ib_ok (fst (ibus_rx_byte H now b (s, w))) = ib_ok p"
    unfolding byte p by (simp_all add: Let_def case_prod_beta fw_view_def ib_ok_def)
  let ?pre = "take (ib_index v) (ib_frame v)" and ?fr = "(ib_frame v)[ib_index v := b]"
  have len: "length (ib_frame v) = 32" "ib_index v < 32" using v(1) by (simp_all add: ib_ok_def)
  have empty: "?pre = [] \<longleftrightarrow> ib_index v = 0" using len by (cases "ib_frame v") auto
  have stored: "take (Suc (ib_index v)) ?fr = ?pre @ [b]" using len by (simp add: take_stored)
  consider (skip) "ib_index v = 0" "b \<noteq> 0x20" | (more) "\<not> (ib_index v = 0 \<and> b \<noteq> 0x20)" "ib_index v < 31"
    | (full) "\<not> (ib_index v = 0 \<and> b \<noteq> 0x20)" "ib_index v = 31"
    using len by linarith
  then have "fw_view p = (let (pre, ch, good, tk) = fw_view v in
        if pre = [] \<and> b \<noteq> 0x20 then (pre, ch, good, tk)
        else if length pre < 31 then (pre @ [b], ch, good, tk)
        else if fw_accepts (pre @ [b]) then ([], raw_channels (pre @ [b]), good, tk) else ([], ch, good, tk)) \<and>
      ib_ok p \<and> (r = 1) = (ib_index v = 31 \<and> fw_accepts (?pre @ [b]))"
  proof cases
    case skip
    then show ?thesis using p len by (simp add: ibus_parse_byte_def fw_view_def ib_ok_def)
  next
    case more
    then have "r = 0 \<and> p = v\<lparr>ib_frame := ?fr, ib_index := ib_index v + 1\<rparr>"
      using p by (auto simp: ibus_parse_byte_def Let_def)
    then show ?thesis using more len stored empty by (auto simp: fw_view_def ib_ok_def)
  next
    case full
    have fr: "?fr = ?pre @ [b]" using stored full(2) len by simp
    have L: "length (?pre @ [b]) = 32" using full(2) len by simp
    have "(r, p) = (if ?fr ! 0 \<noteq> 0x20 \<or> ?fr ! 1 \<noteq> 0x40 then (- 1, v\<lparr>ib_frame := ?fr, ib_index := 0\<rparr>)
        else if frame_checksum ?fr \<noteq> frame_word ?fr 30 then (- 1, v\<lparr>ib_frame := ?fr, ib_index := 0\<rparr>)
        else (1, v\<lparr>ib_frame := ?fr, ib_index := 0, ib_ch := raw_channels ?fr\<rparr>))"
      unfolding p [symmetric] using full by (simp add: ibus_parse_byte_def Let_def frame_channels_eq frame_channels_eq [simplified])
    then have "(r, p) = (if fw_accepts (?pre @ [b]) then (1, v\<lparr>ib_frame := ?fr, ib_index := 0, ib_ch := raw_channels ?fr\<rparr>)
        else (- 1, v\<lparr>ib_frame := ?fr, ib_index := 0\<rparr>))"
      using frame_checksum_eq [OF L] by (auto simp: fr fw_accepts_def frame_valid_def frame_word_eq)
    then show ?thesis using full len fr empty by (auto simp: fw_view_def ib_ok_def split: if_splits)
  qed
  note P = this
  have "length ?pre = ib_index v" using len by simp
  then show "fw_view (fst (ibus_rx_byte H now b (s, w))) = view_step now (fw_view s) b"
    using P len unfolding rx v(2) [symmetric]
    by (cases "r = 1"; cases "ib_index v < 31") (simp_all add: fw_view_def [of v] split: prod.splits if_splits)
  show "ib_ok (fst (ibus_rx_byte H now b (s, w)))" using P unfolding rx by blast
qed

section \<open>The bytes of the UART\<close>

text \<open>A UART that delivers the bytes \<open>out w\<close> in order: the status register tells whether one waits.\<close>

definition uart_delivers :: "'w fw_hw \<Rightarrow> ('w \<Rightarrow> u8 list) \<Rightarrow> bool" where
  "uart_delivers H out \<longleftrightarrow>
     (\<forall>w. (fst (hw_load32 H (UART3_BASE + 0x14) w) AND 1 = 0) = (out w = []) \<and>
          out (snd (hw_load32 H (UART3_BASE + 0x14) w)) = out w \<and>
          (out w \<noteq> [] \<longrightarrow> fst (hw_load32 H UART3_BASE w) AND 0xff = ucast (hd (out w))) \<and>
          (out w \<noteq> [] \<longrightarrow> out (snd (hw_load32 H UART3_BASE w)) = tl (out w)) \<and>
          out (snd (xTaskGetTickCount H w)) = out w)"

lemma read_delivers:
  assumes "uart_delivers H out"
  shows "out w = [] \<Longrightarrow> \<exists>t v. uart3_read_byte H (s, w) = (None, s\<lparr>g_uart3_last_lsr := t\<rparr>, v) \<and> out v = []"
    "out w = b # bs \<Longrightarrow> \<exists>t u v. uart3_read_byte H (s, w) =
        (Some b, s\<lparr>g_uart3_last_lsr := t, g_uart3_last_byte := u\<rparr>, v) \<and> out v = bs"
proof -
  let ?l = "hw_load32 H (UART3_BASE + 0x14) w"
  have D: "(fst ?l AND 1 = 0) = (out w = [])" "out (snd ?l) = out w"
    "\<And>v. out v \<noteq> [] \<Longrightarrow> fst (hw_load32 H UART3_BASE v) AND 0xff = ucast (hd (out v))"
    "\<And>v. out v \<noteq> [] \<Longrightarrow> out (snd (hw_load32 H UART3_BASE v)) = tl (out v)"
    using assms by (simp_all add: uart_delivers_def)
  { assume "out w = []"
    then show "\<exists>t v. uart3_read_byte H (s, w) = (None, s\<lparr>g_uart3_last_lsr := t\<rparr>, v) \<and> out v = []"
      using D(1,2) by (simp add: uart3_read_byte_def Let_def case_prod_beta) blast }
  { assume b: "out w = b # bs"
    have u: "(ucast (ucast b :: u32) :: u8) = b" by (rule bit_word_eqI) (simp add: bit_ucast_iff)
    have n: "out (snd ?l) = b # bs" using b D(2) by simp
    show "\<exists>t u v. uart3_read_byte H (s, w) =
        (Some b, s\<lparr>g_uart3_last_lsr := t, g_uart3_last_byte := u\<rparr>, v) \<and> out v = bs"
      using D(1) b D(3) [of "snd ?l"] D(4) [of "snd ?l"]
      by (simp add: n uart3_read_byte_def Let_def case_prod_beta u) blast }
qed

lemma rx_world: "uart_delivers H out \<Longrightarrow> out (snd (ibus_rx_byte H now b (s, w))) = out w"
  by (simp add: ibus_rx_byte_def Let_def case_prod_beta uart_delivers_def)

lemma drain_view:
  assumes "uart_delivers H out"
  shows "ib_ok s \<Longrightarrow> fw_view (fst (ibus_drain H now n (s, w))) = foldl (view_step now) (fw_view s) (take n (out w)) \<and>
    ib_ok (fst (ibus_drain H now n (s, w))) \<and> out (snd (ibus_drain H now n (s, w))) = drop n (out w)"
proof (induction n arbitrary: s w)
  case (Suc n)
  have same: "fw_view (s\<lparr>g_uart3_last_lsr := t\<rparr>) = fw_view s" "ib_ok (s\<lparr>g_uart3_last_lsr := t\<rparr>) = ib_ok s"
    "fw_view (s\<lparr>g_uart3_last_lsr := t, g_uart3_last_byte := u\<rparr>) = fw_view s"
    "ib_ok (s\<lparr>g_uart3_last_lsr := t, g_uart3_last_byte := u\<rparr>) = ib_ok s" for t u
    by (simp_all add: fw_view_def ib_ok_def)
  show ?case
  proof (cases "out w")
    case Nil
    from read_delivers(1) [OF assms this, of s] obtain t v where
      "uart3_read_byte H (s, w) = (None, s\<lparr>g_uart3_last_lsr := t\<rparr>, v)" "out v = []" by blast
    then show ?thesis using Nil Suc.prems by (simp add: same)
  next
    case (Cons b bs)
    from read_delivers(2) [OF assms this, of s] obtain t u v where
      r: "uart3_read_byte H (s, w) = (Some b, s\<lparr>g_uart3_last_lsr := t, g_uart3_last_byte := u\<rparr>, v)" "out v = bs"
      by blast
    let ?s = "s\<lparr>g_uart3_last_lsr := t, g_uart3_last_byte := u\<rparr>"
    obtain s' w' where x: "ibus_rx_byte H now b (?s, v) = (s', w')" by (cases "ibus_rx_byte H now b (?s, v)")
    have "ib_ok ?s" using Suc.prems by (simp add: same)
    from parse_view [OF this, of H now b v] rx_world [OF assms, of now b ?s v]
    have "fw_view s' = view_step now (fw_view s) b" "ib_ok s'" "out w' = bs" by (simp_all add: x same r(2))
    then show ?thesis using Suc.IH [of s' w'] by (simp add: Cons r(1) x)
  qed
qed simp

section \<open>Whole frames\<close>

lemma view_collect:
  "\<lbrakk>pre \<noteq> []; length pre + length bs < 32\<rbrakk> \<Longrightarrow>
     foldl (view_step now) (pre, ch, good, t) bs = (pre @ bs, ch, good, t)"
proof (induction bs arbitrary: pre)
  case (Cons b bs)
  then have "view_step now (pre, ch, good, t) b = (pre @ [b], ch, good, t)" by simp
  then show ?case using Cons by simp
qed simp

text \<open>Thirty-two bytes from an empty parser, the first of them 0x20, are one candidate.\<close>

lemma view_frame:
  assumes "length fr = 32" "fr ! 0 = 0x20"
  shows "foldl (view_step now) ([], ch, good, t) fr =
    (if fw_accepts fr then ([], raw_channels fr, good + 1, now) else ([], ch, good, t))"
proof -
  obtain bs b where fr: "fr = 0x20 # bs @ [b]"
  proof -
    obtain a r where r: "fr = a # r" "r \<noteq> []" using assms(1) by (cases fr; cases "tl fr") auto
    then show thesis using that [of "butlast r" "last r"] assms(2) by simp
  qed
  have "length bs = 30" using assms(1) fr by simp
  then have "foldl (view_step now) ([], ch, good, t) (0x20 # bs) = (0x20 # bs, ch, good, t)"
    using view_collect [of "[0x20]" bs] by simp
  moreover have "foldl (view_step now) ([], ch, good, t) fr =
      view_step now (foldl (view_step now) ([], ch, good, t) (0x20 # bs)) b"
    unfolding fr by (simp only: foldl_append foldl.simps append_Cons [symmetric])
  ultimately show ?thesis using \<open>length bs = 30\<close> by (simp add: fr)
qed

lemma encode_accepted: "length ch = 14 \<Longrightarrow> fw_accepts (encodeIbusFrame ch)"
  by (simp add: fw_accepts_def encode_valid) (simp add: encode_eq ibus_body_def)

lemma view_encoded:
  assumes "length ch = 14"
  shows "foldl (view_step now) ([], ch0, good, t) (encodeIbusFrame ch) = ([], ch, good + 1, now)"
  using view_frame [of "encodeIbusFrame ch" now ch0 good t] encode_accepted [OF assms] assms
  by (simp add: raw_channels_encode fw_accepts_def)

text \<open>A stream that repeats one frame, entered at byte \<open>k\<close>.\<close>

definition frame_stream :: "nat \<Rightarrow> nat \<Rightarrow> u8 list \<Rightarrow> u8 list" where
  "frame_stream n k fr = concat (replicate n (rotate k fr))"

lemma view_misaligned:
  assumes "length fr = 32" "k < 32" "fr ! k = 0x20" "fr ! (Suc k mod 32) \<noteq> 0x40"
  shows "\<exists>pre. foldl (view_step now) ([], ch, good, t) (take m (frame_stream n k fr)) = (pre, ch, good, t)"
proof (induction n arbitrary: m)
  case (Suc n)
  let ?r = "rotate k fr"
  have r: "length ?r = 32" "?r ! 0 = 0x20" "?r ! 1 \<noteq> 0x40"
    using assms nth_rotate [of 0 fr k] nth_rotate [of 1 fr k] by simp_all
  have st: "frame_stream (Suc n) k fr = ?r @ frame_stream n k fr" by (simp add: frame_stream_def)
  show ?case
  proof (cases "m < 32")
    case True
    obtain xs where xs: "?r = 0x20 # xs" using r(1,2) by (cases ?r) auto
    have "take m (frame_stream (Suc n) k fr) = take m ?r" using True r(1) by (simp add: st)
    then show ?thesis
      using True r(1) view_collect [of "[0x20]" "take (m - 1) xs"] by (cases m) (simp_all add: xs)
  next
    case False
    have "\<not> fw_accepts ?r" using r(3) by (simp add: fw_accepts_def)
    then have "foldl (view_step now) ([], ch, good, t) ?r = ([], ch, good, t)"
      using view_frame [OF r(1,2)] by simp
    then show ?thesis using Suc.IH [of "m - 32"] False r(1) by (simp add: st)
  qed
qed (simp add: frame_stream_def)

section \<open>The properties\<close>

text \<open>C32: A frame that the flight node's encoder builds from any 14 channels, delivered to an empty parser,
  is taken by the firmware's byte loop: afterwards the stored channels are these, the parser is empty
  again, the frame is counted and the link is not in failsafe unless the counter wrapped to zero.\<close>

theorem firmware_takes_frame:
  assumes "uart_delivers H out" "ib_ok s" "ib_index s = 0" "length ch = 14" "out w = encodeIbusFrame ch"
    "s' = fst (ibus_drain H now 128 (s, w))"
  shows "ib_ch s' = ch \<and> ib_index s' = 0 \<and> ib_good_frames s' = ib_good_frames s + 1 \<and>
    rc_failsafe H now s' = (ib_good_frames s + 1 = 0)"
proof -
  have "take 128 (out w) = encodeIbusFrame ch" using assms(4,5) by simp
  then have "fw_view s' = ([], ch, ib_good_frames s + 1, now)" "ib_ok s'"
    using drain_view [OF assms(1,2), of now 128 w] assms(3,4,6)
    by (simp_all add: fw_view_def [of s] view_encoded)
  then show ?thesis
    by (auto simp: fw_view_def ib_ok_def rc_failsafe_def word_less_nat_alt)
qed

lemma low_byte: "(ucast (b :: u8) :: u32) AND 0xFF = ucast b"
proof -
  have "(ucast b :: u32) AND 0xFF = take_bit 8 (ucast b)" by (simp add: take_bit_eq_mask mask_eq_exp_minus_1)
  also have "\<dots> = ucast b"
    by (rule bit_word_eqI) (auto simp: bit_take_bit_iff bit_ucast_iff dest: bit_imp_le_length)
  finally show ?thesis .
qed

lemma bench_delivers: "uart_delivers bench_hw bn_uart"
  by (auto simp: uart_delivers_def bench_hw_def bench_load_def UART3_BASE_def low_byte)

lemma boot_parser: "ib_ok fw_boot" "ib_index fw_boot = 0" "ib_good_frames fw_boot = 0"
  by (simp_all add: ib_ok_def fw_boot_def)

theorem firmware_takes_frame_witness:
  "ib_ch (fst (ibus_drain bench_hw 5 128 (fw_boot, bench0 (encodeIbusFrame (replicate 14 1500)) 5 fresh_region))) =
     replicate 14 1500"
  using firmware_takes_frame [OF bench_delivers, of fw_boot "replicate 14 1500"
      "bench0 (encodeIbusFrame (replicate 14 1500)) 5 fresh_region"
      "fst (ibus_drain bench_hw 5 128 (fw_boot, bench0 (encodeIbusFrame (replicate 14 1500)) 5 fresh_region))" 5]
  by (simp add: boot_parser bench0_def)

text \<open>C33: A parser that starts, empty, at a byte 0x20 of a repeated frame of 32 bytes that is not followed by 0x40
  never takes a frame: whatever number of repetitions arrives and however many bytes are read, the frame count and the
  channels stay, because after every 32 bytes the parser stands at the same byte again.\<close>

theorem misalignment_is_permanent:
  assumes "uart_delivers H out" "ib_ok s" "ib_index s = 0" "length fr = 32" "k < 32" "fr ! k = 0x20"
    "fr ! (Suc k mod 32) \<noteq> 0x40" "out w = frame_stream n k fr"
  shows "ib_good_frames (fst (ibus_drain H now m (s, w))) = ib_good_frames s \<and>
    ib_ch (fst (ibus_drain H now m (s, w))) = ib_ch s"
proof -
  have "fw_view (fst (ibus_drain H now m (s, w))) =
      foldl (view_step now) ([], ib_ch s, ib_good_frames s, ib_last_frame_tick s) (take m (frame_stream n k fr))"
    using drain_view [OF assms(1,2), of now m w] assms(3,8) by (simp add: fw_view_def [of s])
  with view_misaligned [OF assms(4-7), of now "ib_ch s" "ib_good_frames s" "ib_last_frame_tick s" m n]
  show ?thesis by (auto simp: fw_view_def)
qed

text \<open>A frame with the value 1312 = 0x0520 on the first channel, entered at that channel.\<close>

definition frame_1312 :: "u8 list" where
  "frame_1312 = [0x20, 0x40, 0x20, 0x05] @ concat (replicate 13 [0xDC, 0x05]) @ [0x0D, 0xF4]"

lemma frame_1312_encoded: "encodeIbusFrame (1312 # replicate 13 1500) = frame_1312"
  by code_simp

lemma frame_1312_entry:
  "length frame_1312 = 32" "frame_1312 ! 2 = 0x20" "frame_1312 ! (Suc 2 mod 32) \<noteq> 0x40"
  by code_simp+

lemma stream_1312_recovered: "good_frames [] (frame_stream 3 2 frame_1312) = [frame_1312, frame_1312]"
  by code_simp

theorem misalignment_is_permanent_witness:
  "ib_good_frames (fst (ibus_drain bench_hw 5 96 (fw_boot, bench0 (frame_stream 3 2 frame_1312) 5 fresh_region))) = 0 \<and>
   good_frames [] (frame_stream 3 2 frame_1312) = [frame_1312, frame_1312]"
  using misalignment_is_permanent [OF bench_delivers boot_parser(1,2) frame_1312_entry(1) _ frame_1312_entry(2,3),
      of "bench0 (frame_stream 3 2 frame_1312) 5 fresh_region" 3 5 96] stream_1312_recovered
  by (simp add: boot_parser(3) bench0_def)

end
