(* ===== verification/FwDump.thy ===== *)
theory FwDump
  imports FwDebug "HOL-Library.Multiset"
begin

text \<open>
  The line that the tool \<open>amp_dbg_dump.c\<close> prints: its format string, its arguments and what \<open>printf\<close> makes
  of them, with a check that every conversion gets an argument of its type.
\<close>

section \<open>The call\<close>

text \<open>An argument is a field of the structure, the low byte of one, or a local string.\<close>

datatype dump_arg = Fld string | Low8 string | Loc string

definition dump_format :: string where
  "dump_format = concat [
     ''CORE magic=%08x ver=%u seq=%u tick=%u alive=%u '',
     ''isr=%u task=%u cmd=%u param=%08x shm_phys=%08x shm_ready=%u '',
     ''IBUS_RC rx=%u good=%u bad=%u h20=%u h2040=%u fs=%u '',
     ''lsr=%08x last=%02x rc_valid=%u thr=%u arm_sw=%u '',
     ''arm_allowed=%u rc_age=%u arm_seen_low=%u arm_latched=%u '', ''SENSOR i2c_cnt=%u i2c_err=%08x '',
     ''hmc_addr=%02x hmc_id=%02x,%02x,%02x hmc_ok=%u '',
     ''hmc_bus=%u hmc_mask=%x hmc_data_ok=%u hmc_xyz=%d,%d,%d '',
     ''mpu_addr=%02x mpu_whoami=%02x mpu_ok=%u '', ''mpu_data_ok=%u acc=%d,%d,%d gyro=%d,%d,%d '',
     ''cal=%u/%u acc_bias=%d,%d,%d gyro_bias=%d,%d,%d '',
     ''sensor_ready=%u acc_corr=%d,%d,%d gyro_corr=%d,%d,%d '',
     ''ATT_BODY att_ok=%u att=%d,%d,%d rate_raw=%d,%d,%d '',
     ''level=%u,%d,%d body=%d,%d,%d body_rate=%d,%d,%d '',
     ''SETPOINT control_stage=%u active_thr_min=%u angle_en=%u '',
     ''rate_max=%u angle_max=%u sp_rate=%d,%d sp=%d,%d,%d,%u '',
     ''CORR_PID rate_corr=%d,%d,%d angle_corr=%d,%d pid=%d,%d,%d '', ''MIX mix=%d,%d,%d,%d '',
     ''MOTOR motor_armed=%u motor_out=%u motor_safe=%u(%s) '', ''motor=%u,%u,%u,%u trim=%d,%d,%d,%d '',
     ''min_spin=%u,%u,%u,%u esc_delay=%u/%u esc_max=%u '', ''PWM pwm_ready=%u pwm_err=%u pwm_real=%u '',
     ''pwm_dbg_period=%u pwm_active_high=%u pwm_duty_us=%u,%u,%u,%u '',
     ''pwm_period_clk=%u,%u,%u,%u pwm_duty_clk=%u,%u,%u,%u '',
     ''pwm_start=%u,%u,%u,%u pwm_oe=%u,%u,%u,%u '', ''SAFETY sensor_state_error=%u '',
     ''AMP amp_shm_poll=%u amp_emerg=%u amp_cfg_seq=%u '',
     ''amp_cfg_updates=%u amp_rt_seq=%u amp_flags=%08x '',
     ''amp_cfg_deadzone=%u amp_cfg_rate_div=%u amp_cfg_angle_div=%u '',
     ''stage3_step=%u stage3_map_ok=%u stage3_external=%u%s%s'', [CHR 0x0A]]"

definition dump_args :: "dump_arg list" where
  "dump_args = [
     Fld ''magic'', Fld ''version'', Fld ''seq'', Fld ''tick'', Fld ''alive'',
     Fld ''mailbox_isr_count'', Fld ''mailbox_task_count'', Fld ''last_cmd_id'', Fld ''last_param_ptr'',
     Fld ''shm_phys'', Fld ''shm_ready'', Fld ''ibus_rx_bytes'', Fld ''ibus_good_frames'',
     Fld ''ibus_bad_frames'', Fld ''ibus_header20'', Fld ''ibus_header2040'', Fld ''ibus_failsafe'',
     Fld ''uart3_lsr'', Low8 ''uart3_last_byte'', Fld ''rc_valid'', Fld ''rc_throttle_us'',
     Fld ''rc_arm_switch'', Fld ''rc_arm_allowed'', Fld ''rc_frame_age_ms'', Fld ''rc_seen_arm_low'',
     Fld ''rc_arm_latched'', Fld ''i2c_probe_count'', Fld ''i2c_last_err'', Fld ''hmc_addr'',
     Fld ''hmc_id_a'', Fld ''hmc_id_b'', Fld ''hmc_id_c'', Fld ''hmc_ok'', Fld ''hmc_bus'',
     Fld ''hmc_scan_mask'', Fld ''hmc_data_ok'', Fld ''hmc_x'', Fld ''hmc_y'', Fld ''hmc_z'',
     Fld ''mpu_addr'', Fld ''mpu_whoami'', Fld ''mpu_ok'', Fld ''mpu_data_ok'', Fld ''mpu_ax'',
     Fld ''mpu_ay'', Fld ''mpu_az'', Fld ''mpu_gx'', Fld ''mpu_gy'', Fld ''mpu_gz'',
     Fld ''mpu_cal_count'', Fld ''mpu_cal_done'', Fld ''mpu_acc_bias_x'', Fld ''mpu_acc_bias_y'',
     Fld ''mpu_acc_bias_z'', Fld ''mpu_gyro_bias_x'', Fld ''mpu_gyro_bias_y'', Fld ''mpu_gyro_bias_z'',
     Fld ''sensor_ready'', Fld ''mpu_ax_corr'', Fld ''mpu_ay_corr'', Fld ''mpu_az_corr'',
     Fld ''mpu_gx_corr'', Fld ''mpu_gy_corr'', Fld ''mpu_gz_corr'', Fld ''att_ok'', Fld ''att_roll_cd'',
     Fld ''att_pitch_cd'', Fld ''att_yaw_cd'', Fld ''rate_roll_raw'', Fld ''rate_pitch_raw'',
     Fld ''rate_yaw_raw'', Fld ''level_trim_done'', Fld ''level_roll_cd'', Fld ''level_pitch_cd'',
     Fld ''body_roll_cd'', Fld ''body_pitch_cd'', Fld ''body_yaw_cd'', Fld ''body_rate_roll_raw'',
     Fld ''body_rate_pitch_raw'', Fld ''body_rate_yaw_raw'', Fld ''control_stage'',
     Fld ''control_min_active_throttle_us'', Fld ''angle_assist_enable_dbg'',
     Fld ''rate_pid_max_corr_us_dbg'', Fld ''angle_assist_max_corr_us_dbg'', Fld ''sp_roll_rate_raw'',
     Fld ''sp_pitch_rate_raw'', Fld ''sp_roll_cd'', Fld ''sp_pitch_cd'', Fld ''sp_yaw_rate_raw'',
     Fld ''sp_throttle_us'', Fld ''rate_corr_roll'', Fld ''rate_corr_pitch'', Fld ''rate_corr_yaw'',
     Fld ''angle_corr_roll'', Fld ''angle_corr_pitch'', Fld ''pid_roll'', Fld ''pid_pitch'',
     Fld ''pid_yaw'', Fld ''mix_m0'', Fld ''mix_m1'', Fld ''mix_m2'', Fld ''mix_m3'',
     Fld ''motor_armed'', Fld ''motor_output_enabled'', Fld ''motor_safety_reason'', Loc ''safe_name'',
     Fld ''motor_pwm0'', Fld ''motor_pwm1'', Fld ''motor_pwm2'', Fld ''motor_pwm3'',
     Fld ''motor_trim0'', Fld ''motor_trim1'', Fld ''motor_trim2'', Fld ''motor_trim3'',
     Fld ''motor_min_spin0'', Fld ''motor_min_spin1'', Fld ''motor_min_spin2'', Fld ''motor_min_spin3'',
     Fld ''esc_arm_delay_done'', Fld ''esc_arm_delay_ms'', Fld ''esc_test_max_us'',
     Fld ''pwm_backend_ready'', Fld ''pwm_backend_err'', Fld ''pwm_real_enabled'',
     Fld ''pwm_period_us_dbg'', Fld ''pwm_active_high_dbg'', Fld ''pwm_duty0_us_dbg'',
     Fld ''pwm_duty1_us_dbg'', Fld ''pwm_duty2_us_dbg'', Fld ''pwm_duty3_us_dbg'',
     Fld ''pwm_period0_clk_dbg'', Fld ''pwm_period1_clk_dbg'', Fld ''pwm_period2_clk_dbg'',
     Fld ''pwm_period3_clk_dbg'', Fld ''pwm_duty0_clk_dbg'', Fld ''pwm_duty1_clk_dbg'',
     Fld ''pwm_duty2_clk_dbg'', Fld ''pwm_duty3_clk_dbg'', Fld ''pwm_start0_dbg'',
     Fld ''pwm_start1_dbg'', Fld ''pwm_start2_dbg'', Fld ''pwm_start3_dbg'', Fld ''pwm_oe0_dbg'',
     Fld ''pwm_oe1_dbg'', Fld ''pwm_oe2_dbg'', Fld ''pwm_oe3_dbg'', Fld ''sensor_state_error'',
     Fld ''amp_shm_poll_count'', Fld ''amp_emergency_latched'', Fld ''amp_config_seq'',
     Fld ''amp_config_update_count'', Fld ''amp_rt_report_seq'', Fld ''amp_status_flags'',
     Fld ''amp_config_deadzone'', Fld ''amp_config_rate_div'', Fld ''amp_config_angle_div'',
     Fld ''stage3_step_count'', Fld ''stage3_actuator_map_ok'', Fld ''stage3_external_enabled'',
     Loc ''sensor_warn'', Loc ''att_warn'']"

section \<open>printf\<close>

text \<open>A value as it is passed: an unsigned or a signed 32-bit integer, or a string.\<close>

datatype dump_val = VU u32 | VI u32 | VS string

definition digit_char :: "nat \<Rightarrow> char" where
  "digit_char d = char_of (if d < 10 then 48 + d else 87 + d)"

fun digits :: "nat \<Rightarrow> nat \<Rightarrow> nat \<Rightarrow> string" where
  "digits 0 base n = []"
| "digits (Suc k) base n = (if n < base then [digit_char n] else digits k base (n div base) @ [digit_char (n mod base)])"

text \<open>A 32-bit number has at most ten decimal digits.\<close>

definition pad_zero :: "nat \<Rightarrow> string \<Rightarrow> string" where
  "pad_zero width s = replicate (width - length s) (CHR ''0'') @ s"

definition is_digit :: "char \<Rightarrow> bool" where
  "is_digit c \<longleftrightarrow> 48 \<le> (of_char c :: nat) \<and> (of_char c :: nat) \<le> 57"

definition width_of :: "string \<Rightarrow> nat" where
  "width_of ds = foldl (\<lambda>n c. 10 * n + (of_char c - 48)) 0 ds"

definition convert :: "string \<Rightarrow> char \<Rightarrow> dump_val \<Rightarrow> string option" where
  "convert flags c v =
    (case v of
       VU u \<Rightarrow> if c = CHR ''u'' then Some (digits 10 10 (unat u))
                else if c = CHR ''x'' then Some (pad_zero (width_of flags) (digits 8 16 (unat u)))
                else None
     | VI i \<Rightarrow> if c = CHR ''d'' then
                  Some (if sint i < 0 then CHR ''-'' # digits 10 10 (nat (- sint i)) else digits 10 10 (nat (sint i)))
                else None
     | VS t \<Rightarrow> if c = CHR ''s'' then Some t else None)"

text \<open>
  The printer reads its format as a machine: outside a conversion, or inside one with the digits of its
  width so far. \<open>None\<close> is a conversion without an argument of its type, which C leaves undefined.
\<close>

fun printf_run :: "string option \<Rightarrow> string \<Rightarrow> dump_val list \<Rightarrow> string option" where
  "printf_run None [] vs = Some []"
| "printf_run (Some flags) [] vs = None"
| "printf_run None (c # cs) vs =
    (if c = CHR ''%'' then printf_run (Some []) cs vs else map_option ((#) c) (printf_run None cs vs))"
| "printf_run (Some flags) (c # cs) vs =
    (if is_digit c then printf_run (Some (flags @ [c])) cs vs
     else case vs of
            [] \<Rightarrow> None
          | v # vs \<Rightarrow> (case convert flags c v of None \<Rightarrow> None | Some a \<Rightarrow> map_option ((@) a) (printf_run None cs vs)))"

section \<open>The tool's line\<close>

definition is_signed :: "string \<Rightarrow> bool" where
  "is_signed n \<longleftrightarrow> I32 n \<in> set dump_shm_t"

definition local_text :: "u32 list \<Rightarrow> string \<Rightarrow> string" where
  "local_text mem n = (if n = ''safe_name'' then dump_safe_name mem
                       else if n = ''sensor_warn'' then dump_sensor_warn mem else dump_att_warn mem)"

fun arg_value :: "u32 list \<Rightarrow> dump_arg \<Rightarrow> dump_val" where
  "arg_value mem (Fld n) = (if is_signed n then VI (dump_field mem n) else VU (dump_field mem n))"
| "arg_value mem (Low8 n) = VU (dump_field mem n AND 0xff)"
| "arg_value mem (Loc n) = VS (local_text mem n)"

definition dump_line :: "u32 list \<Rightarrow> string option" where
  "dump_line mem = printf_run None dump_format (map (arg_value mem) dump_args)"

section \<open>The type check\<close>

text \<open>The conversions of a format, in order, and the values each takes.\<close>

fun conversions :: "bool \<Rightarrow> string \<Rightarrow> char list" where
  "conversions inside [] = (if inside then [CHR ''%''] else [])"
| "conversions False (c # cs) = conversions (c = CHR ''%'') cs"
| "conversions True (c # cs) = (if is_digit c then conversions True cs else c # conversions False cs)"

fun takes :: "char \<Rightarrow> dump_val \<Rightarrow> bool" where
  "takes c (VU u) = (c = CHR ''u'' \<or> c = CHR ''x'')"
| "takes c (VI i) = (c = CHR ''d'')"
| "takes c (VS t) = (c = CHR ''s'')"

lemma convert_takes: "takes c v \<Longrightarrow> \<exists>a. convert flags c v = Some a"
  by (cases v) (auto simp: convert_def)

text \<open>A format whose conversions take the values runs to its end.\<close>

lemma printf_typed:
  "list_all2 takes (conversions (st \<noteq> None) fmt) vs \<Longrightarrow> \<exists>out. printf_run st fmt vs = Some out"
proof (induction st fmt vs rule: printf_run.induct)
  case (2 flags vs)
  then show ?case by (cases vs; cases "hd vs") auto
next
  case (3 c cs vs)
  then show ?case by (auto split: if_splits)
next
  case (4 flags c cs vs)
  show ?case
  proof (cases "is_digit c")
    case True
    then show ?thesis using 4 by simp
  next
    case False
    then obtain v vs' where vs: "vs = v # vs'" "takes c v" "list_all2 takes (conversions False cs) vs'"
      using 4(3) by (auto simp: list_all2_Cons1)
    obtain a where "convert flags c v = Some a" using convert_takes [OF vs(2)] ..
    then show ?thesis using 4(2) [OF False vs(1)] False vs by auto
  qed
qed simp

section \<open>The check of the call\<close>

definition dump_conversions :: string where
  "dump_conversions =
    (''xuuuuuuuxxuuuuuuuxxuuuuuuuuxxxxxuuxudddxxuudddddduuddddddudddddduddddddudddddddduuuuuddddd'' @
     ''udddddddddddduuusuuuudddduuuuuuuuuuuuuuuuuuuuuuuuuuuuuuuuuuuuuuxuuuuuuss'')"

text \<open>Where in the structure the fields are that the line shows.\<close>

definition dump_order :: "nat list" where
  "dump_order = [
     0, 1, 2, 3, 4, 5, 6, 7, 8, 17, 18, 9, 10, 11, 12, 13, 14, 15, 16, 125, 126, 127, 128, 129, 130,
     131, 19, 20, 21, 22, 23, 24, 25, 26, 27, 28, 29, 30, 31, 32, 33, 34, 35, 36, 37, 38, 39, 40, 41,
     42, 43, 44, 45, 46, 47, 48, 49, 50, 51, 52, 53, 54, 55, 56, 57, 58, 59, 60, 61, 62, 63, 64, 65, 66,
     67, 68, 69, 70, 71, 72, 142, 143, 144, 145, 146, 73, 74, 75, 76, 77, 78, 138, 139, 140, 136, 137,
     79, 80, 81, 82, 83, 84, 85, 86, 87, 88, 89, 90, 91, 92, 93, 94, 95, 96, 132, 133, 134, 135, 122,
     123, 124, 97, 98, 99, 100, 101, 102, 103, 104, 105, 106, 107, 108, 109, 110, 111, 112, 113, 114,
     115, 116, 117, 118, 119, 120, 121, 141, 147, 148, 149, 150, 151, 152, 153, 154, 155, 156, 157, 158]"

fun shown_as :: "char \<Rightarrow> dump_arg \<Rightarrow> dbg_field list" where
  "shown_as c (Fld n) = [if c = CHR ''d'' then I32 n else U32 n]"
| "shown_as c (Low8 n) = [if c = CHR ''d'' then I32 n else U32 n]"
| "shown_as c (Loc n) = []"

fun number_conversion :: "char \<Rightarrow> dump_arg \<Rightarrow> bool" where
  "number_conversion c (Fld n) = (c = CHR ''u'' \<or> c = CHR ''x'' \<or> c = CHR ''d'')"
| "number_conversion c (Low8 n) = (c = CHR ''u'' \<or> c = CHR ''x'')"
| "number_conversion c (Loc n) = (c = CHR ''s'')"

lemma conversions_of_format: "conversions False dump_format = dump_conversions"
  by code_simp

lemma shown_in_order: "concat (map2 shown_as dump_conversions dump_args) = map ((!) dump_shm_t) dump_order"
  by code_simp

lemma order_complete: "sort dump_order = [0..<159]"
  by code_simp

lemma conversion_shapes: "list_all2 number_conversion dump_conversions dump_args"
  by code_simp

lemma sensing_names_distinct: "distinct (map dbg_name dump_sensing)"
  by code_simp

lemma control_names_distinct: "distinct (map dbg_name dump_control)"
  by code_simp

lemma names_apart: "list_all (\<lambda>n. n \<notin> set (map dbg_name dump_control)) (map dbg_name dump_sensing)"
  by code_simp

lemmas names_distinct = sensing_names_distinct control_names_distinct names_apart

lemma layout_distinct: "distinct (map dbg_name dump_shm_t)"
  using names_distinct by (auto simp: dump_shm_t_def list_all_iff)

lemma signed_unique: "U32 n \<in> set dump_shm_t \<Longrightarrow> \<not> is_signed n"
  using inj_onD [of dbg_name "set dump_shm_t" "U32 n" "I32 n"] layout_distinct
  by (auto simp: is_signed_def distinct_map)

lemma shown_mset: "mset (concat (map2 shown_as dump_conversions dump_args)) = mset dump_shm_t"
proof -
  have "mset dump_order = mset [0..<159]" using order_complete mset_sort by metis
  then have "mset (map ((!) dump_shm_t) dump_order) = mset (map ((!) dump_shm_t) [0..<159])" by (simp only: mset_map)
  also have "map ((!) dump_shm_t) [0..<159] = dump_shm_t"
    using map_nth [of dump_shm_t] length_layout layout_same by simp
  finally show ?thesis by (simp only: shown_in_order)
qed

lemma call_typed: "list_all2 takes dump_conversions (map (arg_value mem) dump_args)"
proof -
  have "takes c (arg_value mem a)" if "(c, a) \<in> set (zip dump_conversions dump_args)" for c a
  proof -
    have sh: "number_conversion c a" using conversion_shapes that by (auto simp: list_all2_iff)
    have "set (shown_as c a) \<subseteq> set (concat (map2 shown_as dump_conversions dump_args))" using that by force
    then have "set (shown_as c a) \<subseteq> set dump_shm_t" using shown_mset by (metis set_mset_mset)
    then show ?thesis using sh signed_unique by (cases a) (auto simp: is_signed_def split: if_splits)
  qed
  then show ?thesis using conversion_shapes by (auto simp: list_all2_iff zip_map2)
qed

text \<open>C37: The tool's call of \<open>printf\<close> is well typed: every one of its 162 conversions finds an argument of the
  type it asks for, unsigned, signed or text, so the line is defined for every content of the memory; and
  it shows each of the 159 fields exactly once, with the conversion of its declared type.\<close>

theorem dump_line_typed:
  "(\<exists>out. dump_line mem = Some out) \<and>
   mset (concat (map2 shown_as (conversions False dump_format) dump_args)) = mset dump_shm_t"
  using printf_typed [of None dump_format "map (arg_value mem) dump_args"] call_typed [of mem] shown_mset
  by (simp add: conversions_of_format dump_line_def)

end
