(* ===== verification/FwSensing.thy ===== *)
theory FwSensing
  imports FwSensors
begin

text \<open>
  What holds of the firmware's sensing: the ranges of every value that the attitude and the controller
  compute with, kept by each operation of \<open>FwSensors\<close> on any hardware; the chain from the
  ready flag back to the two chips; and the contracts of the integer square root and arc tangent.
\<close>

section \<open>The arc tangent\<close>

lemma uint_abs32: "\<bar>v\<bar> \<le> 2 ^ 31 \<Longrightarrow> uint (amp_abs32_to_u32 v) = \<bar>v\<bar>"
proof -
  assume v: "\<bar>v\<bar> \<le> 2 ^ 31"
  have w: "uint (word_of_int k :: u32) = k" if "0 \<le> k" "k \<le> 2 ^ 31" for k
    using that by (simp add: unsigned_of_int take_bit_int_eq_self)
  show ?thesis
  proof (cases "v < 0")
    case True
    with v w [of "- v"] show ?thesis unfolding amp_abs32_to_u32_def by (simp only: if_True)
  next
    case False
    with v w [of v] show ?thesis by (simp add: amp_abs32_to_u32_def)
  qed
qed

lemma small_quotient:
  assumes "uint (a :: u32) \<le> uint (b :: u32)" "b \<noteq> 0"
  shows "sint (ucast ((ucast a * 4500) div (ucast b :: u64)) :: u32) = (uint a * 4500) div uint b"
    "0 \<le> (uint a * 4500) div uint b" "(uint a * 4500) div uint b \<le> 4500"
proof -
  have b: "0 < uint b" using assms(2) by (simp add: word_neq_0_conv word_less_def)
  have "uint a * 4500 div uint b \<le> uint b * 4500 div uint b"
    using assms(1) b by (intro zdiv_mono1) auto
  then show le: "(uint a * 4500) div uint b \<le> 4500" using b by simp
  show ge: "0 \<le> (uint a * 4500) div uint b" using b by (simp add: pos_imp_zdiv_nonneg_iff)
  have up: "uint (ucast c :: u64) = uint c" for c :: u32
    by (rule uint_up_ucast) (simp add: is_up)
  have "uint a < 2 ^ 32" using unsigned_less [of a] by simp
  then have "uint (ucast a * 4500 :: u64) = uint a * 4500"
    by (simp add: uint_word_ariths up)
  then have q: "uint ((ucast a * 4500) div (ucast b :: u64)) = (uint a * 4500) div uint b"
    by (simp add: uint_div up)
  then have "uint (ucast ((ucast a * 4500) div (ucast b :: u64)) :: u32) = (uint a * 4500) div uint b"
    using le ge by (simp add: unsigned_ucast_eq take_bit_eq_mod)
  then show "sint (ucast ((ucast a * 4500) div (ucast b :: u64)) :: u32) = (uint a * 4500) div uint b"
    using le ge by (simp add: sint_uint signed_take_bit_int_eq_self)
qed

text \<open>The octant value: the ratio of the smaller to the larger leg, in hundredths of a degree up to 45.\<close>

definition octant :: "int \<Rightarrow> int \<Rightarrow> int" where
  "octant y x = (if x \<ge> y then (if x = 0 then 9000 else y * 4500 div x) else 9000 - x * 4500 div y)"

lemma atan2_octant:
  assumes "\<bar>x\<bar> \<le> 2 ^ 31" "\<bar>y\<bar> \<le> 2 ^ 31"
  shows "amp_atan2_cd_approx y x =
    (if x = 0 \<and> y = 0 then 0
     else if x \<ge> 0 then (if y \<ge> 0 then octant \<bar>y\<bar> \<bar>x\<bar> else - octant \<bar>y\<bar> \<bar>x\<bar>)
     else if y \<ge> 0 then 18000 - octant \<bar>y\<bar> \<bar>x\<bar> else octant \<bar>y\<bar> \<bar>x\<bar> - 18000)"
proof -
  let ?ax = "amp_abs32_to_u32 x" and ?ay = "amp_abs32_to_u32 y"
  note ux = uint_abs32 [OF assms(1)] and uy = uint_abs32 [OF assms(2)]
  have zx: "?ax = 0 \<longleftrightarrow> x = 0" using ux by (metis abs_eq_0 uint_0_iff)
  have zy: "?ay = 0 \<longleftrightarrow> y = 0" using uy by (metis abs_eq_0 uint_0_iff)
  have le: "?ay \<le> ?ax \<longleftrightarrow> \<bar>y\<bar> \<le> \<bar>x\<bar>" using ux uy by (simp add: word_le_def)
  have q1: "sint (ucast ((ucast ?ay * 4500) div (ucast ?ax :: u64)) :: u32) = \<bar>y\<bar> * 4500 div \<bar>x\<bar>"
    if "\<bar>y\<bar> \<le> \<bar>x\<bar>" "x \<noteq> 0"
    using small_quotient(1) [of ?ay ?ax] that ux uy zx by simp
  have q2: "sint (ucast ((ucast ?ax * 4500) div (ucast ?ay :: u64)) :: u32) = \<bar>x\<bar> * 4500 div \<bar>y\<bar>"
    if "\<bar>x\<bar> < \<bar>y\<bar>"
  proof -
    have "y \<noteq> 0" using that by auto
    then show ?thesis using small_quotient(1) [of ?ax ?ay] that ux uy zy by simp
  qed
  show ?thesis
    unfolding amp_atan2_cd_approx_def Let_def octant_def zx zy le
    using q1 q2 by (auto simp: not_le)
qed

lemma octant_range:
  assumes "0 \<le> x" "0 \<le> y" "x \<noteq> 0 \<or> y \<noteq> 0"
  shows "0 \<le> octant y x" "octant y x \<le> 9000" "y \<le> x \<Longrightarrow> octant y x \<le> 4500" "x \<le> y \<Longrightarrow> 4500 \<le> octant y x"
proof -
  have q: "0 \<le> a * 4500 div b \<and> a * 4500 div b \<le> 4500" if "0 \<le> a" "a \<le> b" "0 < b" for a b :: int
  proof -
    have "a * 4500 div b \<le> b * 4500 div b" using that by (intro zdiv_mono1) auto
    with that show ?thesis by (simp add: pos_imp_zdiv_nonneg_iff)
  qed
  show "0 \<le> octant y x" "octant y x \<le> 9000" "y \<le> x \<Longrightarrow> octant y x \<le> 4500"
    using q [of y x] q [of x y] assms by (auto simp: octant_def)
  show "x \<le> y \<Longrightarrow> 4500 \<le> octant y x"
    using q [of x y] assms by (auto simp: octant_def)
qed

lemma atan2_range:
  assumes "\<bar>x\<bar> \<le> 2 ^ 31" "\<bar>y\<bar> \<le> 2 ^ 31"
  shows "\<bar>amp_atan2_cd_approx y x\<bar> \<le> 18000" "0 \<le> x \<Longrightarrow> \<bar>amp_atan2_cd_approx y x\<bar> \<le> 9000"
  unfolding atan2_octant [OF assms] using octant_range [of "\<bar>x\<bar>" "\<bar>y\<bar>"] by auto

section \<open>Ranges\<close>

definition i16_axes :: "int axes \<Rightarrow> bool" where
  "i16_axes = axes_all (\<lambda>v. - 32768 \<le> v \<and> v \<le> 32767)"

definition sensor_ranges :: "fw \<Rightarrow> bool" where
  "sensor_ranges s \<longleftrightarrow>
     i16_axes (g_hmc s) \<and> i16_axes (g_mpu_a s) \<and> i16_axes (g_mpu_g s) \<and> i16_axes (g_mpu_a_corr s) \<and>
     axes_all (\<lambda>v. \<bar>v\<bar> \<le> 32768 * uint (g_mpu_cal_count s)) (g_mpu_acc_sum s) \<and>
     axes_all (\<lambda>v. \<bar>v\<bar> \<le> 32768 * uint (g_mpu_cal_count s)) (g_mpu_gyro_sum s) \<and>
     g_mpu_cal_count s \<le> MPU_CAL_TARGET_COUNT \<and>
     g_mpu_cal_done s = (g_mpu_cal_count s = MPU_CAL_TARGET_COUNT) \<and>
     axes_all (\<lambda>v. \<bar>v\<bar> \<le> 32768) (g_mpu_acc_bias s) \<and> axes_all (\<lambda>v. \<bar>v\<bar> \<le> 32768) (g_mpu_gyro_bias s) \<and>
     axes_all (\<lambda>v. \<bar>v\<bar> \<le> 65536) (g_mpu_g_corr s)"

definition attitude_ranges :: "fw \<Rightarrow> bool" where
  "attitude_ranges s \<longleftrightarrow>
     \<bar>g_att_roll_cd s\<bar> \<le> 18000 \<and> \<bar>g_att_pitch_cd s\<bar> \<le> 18000 \<and>
     0 \<le> g_att_yaw_cd s \<and> g_att_yaw_cd s < 36000 \<and>
     \<bar>g_rate_roll_raw s\<bar> \<le> 65536 \<and> \<bar>g_rate_pitch_raw s\<bar> \<le> 65536 \<and> \<bar>g_rate_yaw_raw s\<bar> \<le> 65536 \<and>
     \<bar>g_level_roll_cd s\<bar> \<le> 18000 \<and> \<bar>g_level_pitch_cd s\<bar> \<le> 18000 \<and>
     \<bar>g_body_roll_cd s\<bar> \<le> 36000 \<and> \<bar>g_body_pitch_cd s\<bar> \<le> 36000 \<and>
     0 \<le> g_body_yaw_cd s \<and> g_body_yaw_cd s < 36000 \<and>
     \<bar>g_body_rate_roll_raw s\<bar> \<le> 65536 \<and> \<bar>g_body_rate_pitch_raw s\<bar> \<le> 65536 \<and>
     \<bar>g_body_rate_yaw_raw s\<bar> \<le> 65536"

definition sensor_chain :: "fw \<Rightarrow> bool" where
  "sensor_chain s \<longleftrightarrow>
     (g_sensor_ready s \<longrightarrow> g_hmc_ok s \<and> g_hmc_data_ok s \<and> g_mpu_ok s \<and> g_mpu_data_ok s \<and>
        g_mpu_cal_done s \<and> g_sensor_state_error s = SENSOR_STATE_OK) \<and>
     (g_att_ok s \<longrightarrow> g_sensor_ready s)"

definition sensing_ok :: "fw \<Rightarrow> bool" where
  "sensing_ok s \<longleftrightarrow> sensor_ranges s \<and> attitude_ranges s"

lemma sensing_boot: "sensing_ok fw_boot \<and> sensor_chain fw_boot"
  by (simp add: sensing_ok_def sensor_ranges_def attitude_ranges_def sensor_chain_def fw_boot_def
      i16_axes_def axes_all_def MPU_CAL_TARGET_COUNT_def)

lemma i16_be [simp]: "i16_axes (Axes (be_i16 a b) (be_i16 c d) (be_i16 e f))"
  using be_i16_range by (simp add: i16_axes_def axes_all_def)

section \<open>Every operation keeps the ranges\<close>

lemma ranges_frame [simp]:
  "sensor_ranges (s\<lparr>g_hmc_cfg_done := b\<rparr>) = sensor_ranges s"
  "sensor_ranges (s\<lparr>g_hmc_data_ok := b\<rparr>) = sensor_ranges s"
  "sensor_ranges (s\<lparr>g_hmc_ok := b\<rparr>) = sensor_ranges s"
  "sensor_ranges (s\<lparr>g_mpu_cfg_done := b\<rparr>) = sensor_ranges s"
  "sensor_ranges (s\<lparr>g_mpu_addr_found := u\<rparr>) = sensor_ranges s"
  "sensor_ranges (s\<lparr>g_mpu_data_ok := b\<rparr>) = sensor_ranges s"
  "sensor_ranges (s\<lparr>g_mpu_ok := b\<rparr>) = sensor_ranges s"
  "sensor_ranges (s\<lparr>g_mpu_whoami := u\<rparr>) = sensor_ranges s"
  "sensor_ranges (s\<lparr>g_i2c_last_err := u\<rparr>) = sensor_ranges s"
  "sensor_ranges (s\<lparr>g_sensor_ready := b\<rparr>) = sensor_ranges s"
  "sensor_ranges (s\<lparr>g_att_ok := b\<rparr>) = sensor_ranges s"
  "sensor_ranges (s\<lparr>g_sensor_state_error := u\<rparr>) = sensor_ranges s"
  by (simp_all add: sensor_ranges_def)

lemma attitude_frame [simp]:
  "attitude_ranges (s\<lparr>g_hmc_cfg_done := b\<rparr>) = attitude_ranges s"
  "attitude_ranges (s\<lparr>g_hmc_data_ok := b\<rparr>) = attitude_ranges s"
  "attitude_ranges (s\<lparr>g_hmc_ok := b\<rparr>) = attitude_ranges s"
  "attitude_ranges (s\<lparr>g_hmc := a\<rparr>) = attitude_ranges s"
  "attitude_ranges (s\<lparr>g_mpu_cfg_done := b\<rparr>) = attitude_ranges s"
  "attitude_ranges (s\<lparr>g_mpu_addr_found := u\<rparr>) = attitude_ranges s"
  "attitude_ranges (s\<lparr>g_mpu_data_ok := b\<rparr>) = attitude_ranges s"
  "attitude_ranges (s\<lparr>g_mpu_ok := b\<rparr>) = attitude_ranges s"
  "attitude_ranges (s\<lparr>g_mpu_whoami := u\<rparr>) = attitude_ranges s"
  "attitude_ranges (s\<lparr>g_mpu_a := a\<rparr>) = attitude_ranges s"
  "attitude_ranges (s\<lparr>g_mpu_g := a\<rparr>) = attitude_ranges s"
  "attitude_ranges (s\<lparr>g_i2c_last_err := u\<rparr>) = attitude_ranges s"
  "attitude_ranges (s\<lparr>g_sensor_ready := b\<rparr>) = attitude_ranges s"
  "attitude_ranges (s\<lparr>g_att_ok := b\<rparr>) = attitude_ranges s"
  "attitude_ranges (s\<lparr>g_sensor_state_error := u\<rparr>) = attitude_ranges s"
  by (simp_all add: attitude_ranges_def)

lemma ranges_readings:
  "sensor_ranges s \<Longrightarrow> i16_axes a \<Longrightarrow> sensor_ranges (s\<lparr>g_hmc := a\<rparr>)"
  "sensor_ranges s \<Longrightarrow> i16_axes a \<Longrightarrow> i16_axes g \<Longrightarrow> sensor_ranges (s\<lparr>g_mpu_a := a, g_mpu_g := g\<rparr>)"
  by (simp_all add: sensor_ranges_def)

lemma ok_config:
  "sensing_ok (fst (snd (hmc5883l_config_once H (s, w)))) = sensing_ok s"
  "sensing_ok (fst (snd (mpu6050_config_once H addr (s, w)))) = sensing_ok s"
  by (simp_all add: hmc5883l_config_once_def mpu6050_config_once_def sensing_ok_def Let_def
      case_prod_beta)

lemma ok_hmc_read:
  assumes "sensing_ok s" shows "sensing_ok (fst (snd (hmc5883l_read_raw_once H (s, w))))"
  using assms ok_config(1) [of H s w]
  by (simp add: hmc5883l_read_raw_once_def sensing_ok_def Let_def case_prod_beta ranges_readings)

lemma ok_mpu_read:
  assumes "sensing_ok s" shows "sensing_ok (fst (snd (mpu6050_read_raw_once H addr (s, w))))"
proof -
  have frame: "sensor_ranges (s\<lparr>g_mpu_a := a, g_mpu_g := g, g_mpu_data_ok := b\<rparr>) =
      sensor_ranges (s\<lparr>g_mpu_a := a, g_mpu_g := g\<rparr>)" for s a g b
    by (simp add: sensor_ranges_def)
  show ?thesis
    using assms ok_config(2) [of H addr s w]
    by (simp add: mpu6050_read_raw_once_def sensing_ok_def Let_def case_prod_beta frame ranges_readings)
qed

lemma abs_sdiv_sum: "\<lbrakk>0 < d; \<bar>n\<bar> \<le> 32768 * d\<rbrakk> \<Longrightarrow> \<bar>n sdiv d\<bar> \<le> (32768 :: int)"
proof -
  assume d: "0 < d" and "\<bar>n\<bar> \<le> 32768 * d"
  then have "\<bar>n\<bar> div d \<le> (32768 * d) div d" by (intro zdiv_mono1) auto
  with d show ?thesis by (simp add: abs_sdiv)
qed

lemma axes_sum:
  "\<lbrakk>axes_all (\<lambda>v. \<bar>v\<bar> \<le> 32768 * n) a; i16_axes b\<rbrakk> \<Longrightarrow>
     axes_all (\<lambda>v. \<bar>v\<bar> \<le> 32768 * (n + 1)) (axes_map2 (+) a b)"
  by (simp add: axes_all_def i16_axes_def abs_le_iff)

lemma axes_mean:
  "\<lbrakk>0 < (d :: int); axes_all (\<lambda>v. \<bar>v\<bar> \<le> 32768 * d) a\<rbrakk> \<Longrightarrow>
     axes_all (\<lambda>v. \<bar>v\<bar> \<le> 32768) (axes_map (\<lambda>v. v sdiv d) a)"
  by (simp add: axes_all_def abs_sdiv_sum)

lemma ok_cal: "sensing_ok s \<Longrightarrow> sensing_ok (mpu6050_cal_update_once s)"
proof -
  assume ok: "sensing_ok s"
  show ?thesis
  proof (cases "g_mpu_data_ok s \<and> \<not> g_mpu_cal_done s")
    case False
    then show ?thesis using ok by (auto simp: mpu6050_cal_update_once_def)
  next
    case True
    define c where "c = g_mpu_cal_count s + 1"
    have "g_mpu_cal_count s < 50"
      using ok True by (auto simp: sensing_ok_def sensor_ranges_def MPU_CAL_TARGET_COUNT_def le_less)
    then have u: "uint c = uint (g_mpu_cal_count s) + 1" and le: "c \<le> 50"
      by (simp_all add: c_def uint_word_ariths word_less_def word_le_def)
    have pos: "0 < uint c" using u uint_ge_0 [of "g_mpu_cal_count s"] by linarith
    have sums: "axes_all (\<lambda>v. \<bar>v\<bar> \<le> 32768 * uint c) (axes_map2 (+) (g_mpu_acc_sum s) (g_mpu_a s))"
      "axes_all (\<lambda>v. \<bar>v\<bar> \<le> 32768 * uint c) (axes_map2 (+) (g_mpu_gyro_sum s) (g_mpu_g s))"
      using ok axes_sum [of "uint (g_mpu_cal_count s)", folded u]
      by (simp_all add: sensing_ok_def sensor_ranges_def)
    have "attitude_ranges (mpu6050_cal_update_once s)"
      using ok by (simp add: mpu6050_cal_update_once_def Let_def sensing_ok_def attitude_ranges_def)
    moreover have "sensor_ranges (mpu6050_cal_update_once s)"
    proof (cases "c < 50")
      case True
      then have "c \<noteq> 50" by auto
      with True \<open>g_mpu_data_ok s \<and> \<not> g_mpu_cal_done s\<close> ok le sums show ?thesis
        by (simp add: mpu6050_cal_update_once_def Let_def sensing_ok_def sensor_ranges_def
            MPU_CAL_TARGET_COUNT_def c_def [symmetric])
    next
      case False
      with \<open>g_mpu_data_ok s \<and> \<not> g_mpu_cal_done s\<close> ok le sums axes_mean [OF pos sums(1)]
        axes_mean [OF pos sums(2)] show ?thesis
        by (simp add: mpu6050_cal_update_once_def Let_def sensing_ok_def sensor_ranges_def
            MPU_CAL_TARGET_COUNT_def c_def [symmetric])
    qed
    ultimately show ?thesis by (simp add: sensing_ok_def)
  qed
qed

lemma axes_diff:
  "\<lbrakk>i16_axes a; axes_all (\<lambda>v. \<bar>v\<bar> \<le> 32768) b\<rbrakk> \<Longrightarrow>
     axes_all (\<lambda>v. \<bar>v\<bar> \<le> 65536) (axes_map2 (-) a b)"
  by (simp add: axes_all_def i16_axes_def abs_le_iff)

lemma ranges_corr:
  "sensor_ranges s \<Longrightarrow> i16_axes a \<Longrightarrow> sensor_ranges (s\<lparr>g_mpu_a_corr := a\<rparr>)"
  "sensor_ranges s \<Longrightarrow> axes_all (\<lambda>v. \<bar>v\<bar> \<le> 65536) g \<Longrightarrow> sensor_ranges (s\<lparr>g_mpu_g_corr := g\<rparr>)"
  by (simp_all add: sensor_ranges_def)

lemma ok_corrected: "sensing_ok s \<Longrightarrow> sensing_ok (sensor_update_corrected_once s)"
proof -
  assume ok: "sensing_ok s"
  then have "axes_all (\<lambda>v. \<bar>v\<bar> \<le> 65536) (axes_map2 (-) (g_mpu_g s) (g_mpu_gyro_bias s))"
    "i16_axes (g_mpu_a s)" "sensor_ranges s"
    by (auto simp add: sensing_ok_def sensor_ranges_def intro: axes_diff)
  then have "sensor_ranges (sensor_update_corrected_once s)"
    by (simp add: sensor_update_corrected_once_def Let_def ranges_corr)
  moreover have "attitude_ranges (sensor_update_corrected_once s)"
    using ok by (simp add: sensor_update_corrected_once_def Let_def sensing_ok_def attitude_ranges_def)
  ultimately show ?thesis by (simp add: sensing_ok_def)
qed

lemma chain_corrected: "sensor_chain (sensor_update_corrected_once s)"
  by (simp add: sensor_chain_def sensor_update_corrected_once_def Let_def)

lemma square_small:
  assumes "\<bar>k\<bar> \<le> 32768"
  shows "unat (ucast (amp_abs32_to_u32 k) * ucast (amp_abs32_to_u32 k) :: u64) \<le> 2 ^ 30"
proof -
  have "uint (amp_abs32_to_u32 k) = \<bar>k\<bar>" using assms by (intro uint_abs32) simp
  then have "unat (amp_abs32_to_u32 k) \<le> 32768" using assms by (simp add: unat_eq_nat_uint)
  then have le: "unat (ucast (amp_abs32_to_u32 k) :: u64) \<le> 32768"
    by (simp add: unat_ucast_up)
  have "unat (ucast (amp_abs32_to_u32 k) :: u64) * unat (ucast (amp_abs32_to_u32 k) :: u64) \<le> 32768 * 32768"
    by (intro mult_le_mono le)
  then have le2: "unat (ucast (amp_abs32_to_u32 k) :: u64) * unat (ucast (amp_abs32_to_u32 k) :: u64) \<le> 2 ^ 30"
    by simp
  have "unat (ucast (amp_abs32_to_u32 k) * ucast (amp_abs32_to_u32 k) :: u64) =
      unat (ucast (amp_abs32_to_u32 k) :: u64) * unat (ucast (amp_abs32_to_u32 k) :: u64)"
    using le2 unat_mult_lem [of "ucast (amp_abs32_to_u32 k) :: u64" "ucast (amp_abs32_to_u32 k)"] by simp
  with le2 show ?thesis by simp
qed

lemma small_root: "unat v \<le> 2 ^ 31 \<Longrightarrow> unat (amp_isqrt64 v) < 65536"
proof (rule ccontr)
  assume v: "unat v \<le> 2 ^ 31" and "\<not> unat (amp_isqrt64 v) < 65536"
  then have "65536 * 65536 \<le> unat (amp_isqrt64 v) * unat (amp_isqrt64 v)" by (intro mult_le_mono) auto
  also have "\<dots> \<le> 2 ^ 31" using isqrt64_root [of v] v by linarith
  finally show False by simp
qed

lemma sint_small: "unat (x :: u32) < 65536 \<Longrightarrow> 0 \<le> sint x \<and> sint x < 65536"
proof -
  assume "unat x < 65536"
  then have "x < 65536" by (simp add: word_less_nat_alt)
  then have "uint x < 65536" by (simp add: word_less_def)
  moreover have "- 2147483648 \<le> uint x" using uint_ge_0 [of x] by linarith
  ultimately have "signed_take_bit 31 (uint x) = uint x" by (intro signed_take_bit_int_eq_self) simp_all
  then have "sint x = uint x" by (simp add: sint_uint)
  with \<open>uint x < 65536\<close> show ?thesis by simp
qed

lemma isqrt_accel_range:
  assumes "\<bar>y\<bar> \<le> 32768" "\<bar>z\<bar> \<le> 32768"
  shows "0 \<le> sint (amp_isqrt64 (ucast (amp_abs32_to_u32 y) * ucast (amp_abs32_to_u32 y) +
      ucast (amp_abs32_to_u32 z) * ucast (amp_abs32_to_u32 z)))"
    "sint (amp_isqrt64 (ucast (amp_abs32_to_u32 y) * ucast (amp_abs32_to_u32 y) +
      ucast (amp_abs32_to_u32 z) * ucast (amp_abs32_to_u32 z))) < 65536"
proof -
  let ?a = "ucast (amp_abs32_to_u32 y) * ucast (amp_abs32_to_u32 y) :: u64"
  let ?b = "ucast (amp_abs32_to_u32 z) * ucast (amp_abs32_to_u32 z) :: u64"
  note q = square_small [OF assms(1)] square_small [OF assms(2)]
  have "unat ?a + unat ?b \<le> 2 ^ 30 + 2 ^ 30" using q by (rule add_le_mono)
  then have "unat ?a + unat ?b \<le> 2 ^ 31" by simp
  moreover have "unat (?a + ?b) = unat ?a + unat ?b"
    by (rule unat_plus_small, rule le_less_trans [OF calculation]) simp
  ultimately have lt: "unat (amp_isqrt64 (?a + ?b)) < 65536" by (intro small_root) simp
  show "0 \<le> sint (amp_isqrt64 (?a + ?b))" "sint (amp_isqrt64 (?a + ?b)) < 65536"
    using sint_small [OF lt] by simp_all
qed

lemma i16_abs: "i16_axes a \<Longrightarrow> \<bar>ax_x a\<bar> \<le> 32768 \<and> \<bar>ax_y a\<bar> \<le> 32768 \<and> \<bar>ax_z a\<bar> \<le> 32768"
  by (simp add: i16_axes_def axes_all_def abs_le_iff)

lemma attitude_ranges_set:
  assumes "attitude_ranges s" "\<bar>r\<bar> \<le> 18000" "\<bar>p\<bar> \<le> 18000" "0 \<le> y" "y < 36000"
    "\<bar>a\<bar> \<le> 65536" "\<bar>b\<bar> \<le> 65536" "\<bar>c\<bar> \<le> 65536"
  shows "attitude_ranges (s\<lparr>g_att_ok := k, g_rate_roll_raw := a, g_rate_pitch_raw := b, g_rate_yaw_raw := c,
    g_att_roll_cd := r, g_att_pitch_cd := p, g_att_yaw_cd := y\<rparr>)"
  using assms by (simp add: attitude_ranges_def)

lemma attitude_result:
  "attitude_update_debug_once s =
    (if g_sensor_ready s \<and> g_hmc_data_ok s \<and> g_mpu_data_ok s then
      (let a = g_mpu_a_corr s;
           horiz = sint (amp_isqrt64 (ucast (amp_abs32_to_u32 (ax_y a)) * ucast (amp_abs32_to_u32 (ax_y a)) +
                     ucast (amp_abs32_to_u32 (ax_z a)) * ucast (amp_abs32_to_u32 (ax_z a))));
           y = amp_atan2_cd_approx (ax_y (g_hmc s)) (ax_x (g_hmc s))
       in s\<lparr>g_att_ok := True, g_rate_roll_raw := ax_x (g_mpu_g_corr s),
            g_rate_pitch_raw := ax_y (g_mpu_g_corr s), g_rate_yaw_raw := ax_z (g_mpu_g_corr s),
            g_att_roll_cd := amp_atan2_cd_approx (ax_y a) (ax_z a),
            g_att_pitch_cd := amp_atan2_cd_approx (- ax_x a) horiz,
            g_att_yaw_cd := (if y < 0 then y + 36000 else y)\<rparr>)
     else s\<lparr>g_att_ok := False\<rparr>)"
  by (simp add: attitude_update_debug_once_def Let_def)

lemma ok_attitude: "sensing_ok s \<Longrightarrow> sensing_ok (attitude_update_debug_once s)"
proof -
  assume ok: "sensing_ok s"
  have S: "sensor_ranges (attitude_update_debug_once s)"
    using ok unfolding attitude_result Let_def by (simp add: sensing_ok_def sensor_ranges_def)
  let ?a = "g_mpu_a_corr s"
  have c: "\<bar>ax_x ?a\<bar> \<le> 32768" "\<bar>ax_y ?a\<bar> \<le> 32768" "\<bar>ax_z ?a\<bar> \<le> 32768"
    "\<bar>ax_x (g_hmc s)\<bar> \<le> 32768" "\<bar>ax_y (g_hmc s)\<bar> \<le> 32768"
    using ok i16_abs [of ?a] i16_abs [of "g_hmc s"] by (simp_all add: sensing_ok_def sensor_ranges_def)
  note h = isqrt_accel_range [OF c(2,3)]
  have rates: "\<bar>ax_x (g_mpu_g_corr s)\<bar> \<le> 65536" "\<bar>ax_y (g_mpu_g_corr s)\<bar> \<le> 65536"
    "\<bar>ax_z (g_mpu_g_corr s)\<bar> \<le> 65536"
    using ok by (simp_all add: sensing_ok_def sensor_ranges_def axes_all_def)
  have y: "\<bar>amp_atan2_cd_approx (ax_y (g_hmc s)) (ax_x (g_hmc s))\<bar> \<le> 18000"
    using c by (intro atan2_range(1)) simp_all
  have y2: "amp_atan2_cd_approx (ax_y (g_hmc s)) (ax_x (g_hmc s)) < 36000"
    "0 \<le> amp_atan2_cd_approx (ax_y (g_hmc s)) (ax_x (g_hmc s)) + 36000"
    using y by linarith+
  have A: "attitude_ranges s" using ok by (simp add: sensing_ok_def)
  have "attitude_ranges (attitude_update_debug_once s)"
  proof (cases "g_sensor_ready s \<and> g_hmc_data_ok s \<and> g_mpu_data_ok s")
    case True
    show ?thesis
      unfolding attitude_result Let_def if_P [OF True]
      by (intro attitude_ranges_set A rates atan2_range(1)) (use c h y2 in \<open>simp_all\<close>)
  next
    case False
    then show ?thesis unfolding attitude_result Let_def if_not_P [OF False] using A by simp
  qed
  with S show ?thesis by (simp add: sensing_ok_def)
qed

lemma ok_body: "sensing_ok s \<Longrightarrow> sensing_ok (body_axis_update_once s)"
  by (simp add: body_axis_update_once_def Let_def sensing_ok_def sensor_ranges_def
      attitude_ranges_def abs_le_iff)

section \<open>The probe\<close>

lemma chain_after:
  "sensor_chain s \<Longrightarrow> sensor_chain (body_axis_update_once (attitude_update_debug_once s))"
  by (simp add: sensor_chain_def body_axis_update_once_def attitude_update_debug_once_def Let_def)

lemma ok_reset:
  "sensing_ok s \<Longrightarrow> sensing_ok (amp_i2c_reset s)"
  by (simp add: amp_i2c_reset_def sensing_ok_def sensor_ranges_def attitude_ranges_def)

lemma ok_err [simp]: "sensing_ok (s\<lparr>g_i2c_last_err := e\<rparr>) = sensing_ok s"
  by (simp add: sensing_ok_def)

lemma ok_probe_err: "sensing_ok s \<Longrightarrow> sensing_ok (probe_err base ret s)"
  by (simp add: probe_err_def ok_corrected)

lemma ok_hmc: "sensing_ok s \<Longrightarrow> sensing_ok (fst (amp_i2c_hmc H a b c (s, w)))"
proof -
  assume ok: "sensing_ok s"
  have frame: "sensing_ok (s\<lparr>g_hmc_id_a := i, g_hmc_id_b := j, g_hmc_id_c := k, g_hmc_bus := l,
      g_hmc_scan_mask := m, g_hmc_ok := n, g_i2c_last_err := q\<rparr>)" for i j k l m n q
    using ok by (simp add: sensing_ok_def sensor_ranges_def attitude_ranges_def)
  have frame2: "sensing_ok (s\<lparr>g_hmc_id_a := i, g_hmc_id_b := j, g_hmc_id_c := k, g_hmc_bus := l,
      g_hmc_scan_mask := m, g_hmc_ok := n, g_hmc_data_ok := d, g_i2c_last_err := q\<rparr>)" for i j k l m n q d
    using ok by (simp add: sensing_ok_def sensor_ranges_def attitude_ranges_def)
  show ?thesis
    using frame2 by (simp add: amp_i2c_hmc_def Let_def case_prod_beta ok_hmc_read [OF frame])
qed

lemma ok_mpu: "sensing_ok s \<Longrightarrow> sensing_ok (fst (snd (amp_i2c_mpu H addr who (s, w))))"
proof -
  assume ok: "sensing_ok s"
  have frame: "sensing_ok (s\<lparr>g_mpu_whoami := i, g_mpu_ok := b, g_mpu_addr_found := j\<rparr>)" for i b j
    using ok by (simp add: sensing_ok_def)
  show ?thesis
    by (simp add: amp_i2c_mpu_def Let_def case_prod_beta ok_body ok_attitude ok_corrected ok_cal
        ok_mpu_read [OF frame])
qed

lemma chain_mpu:
  "fst (amp_i2c_mpu H addr who sw) \<Longrightarrow> sensor_chain (fst (snd (amp_i2c_mpu H addr who sw)))"
  by (cases sw)
     (simp add: amp_i2c_mpu_def Let_def case_prod_beta chain_after chain_corrected split: if_splits)

lemma ok_find:
  assumes "sensing_ok (fst sw)"
  shows "sensing_ok (fst (amp_i2c_find_mpu H sw))" "sensor_chain (fst (amp_i2c_find_mpu H sw))"
proof -
  have data: "sensing_ok (s\<lparr>g_mpu_data_ok := b\<rparr>) = sensing_ok s" for s b by (simp add: sensing_ok_def)
  show "sensing_ok (fst (amp_i2c_find_mpu H sw))"
    using assms by (cases sw) (simp add: amp_i2c_find_mpu_def Let_def case_prod_beta ok_corrected data ok_mpu)
  show "sensor_chain (fst (amp_i2c_find_mpu H sw))"
    by (cases sw) (simp add: amp_i2c_find_mpu_def Let_def case_prod_beta chain_corrected chain_mpu)
qed

lemma ok_probe:
  assumes "sensing_ok (fst sw)"
  shows "sensing_ok (fst (amp_i2c_probe_once H sw))" "sensor_chain (fst (amp_i2c_probe_once H sw))"
proof -
  show "sensing_ok (fst (amp_i2c_probe_once H sw))"
    using assms
    by (cases sw) (simp add: amp_i2c_probe_once_def Let_def case_prod_beta ok_probe_err ok_reset
        ok_find(1) ok_hmc)
  show "sensor_chain (fst (amp_i2c_probe_once H sw))"
    using assms
    by (cases sw) (simp add: amp_i2c_probe_once_def Let_def case_prod_beta probe_err_def
        chain_corrected ok_find(2) ok_hmc ok_reset)
qed

section \<open>The evidence behind the ready flag\<close>

definition sensor_ids :: "fw \<Rightarrow> bool" where
  "sensor_ids s \<longleftrightarrow>
     (g_hmc_ok s \<longrightarrow> g_hmc_id_a s = 0x48 \<and> g_hmc_id_b s = 0x34 \<and> g_hmc_id_c s = 0x33) \<and>
     (g_mpu_ok s \<longrightarrow> g_mpu_whoami s = 0x68 \<and> (g_mpu_addr_found s = 0x68 \<or> g_mpu_addr_found s = 0x69))"

lemma ids_corrected [simp]: "sensor_ids (sensor_update_corrected_once s) = sensor_ids s"
  by (simp add: sensor_ids_def sensor_update_corrected_once_def Let_def)

lemma ids_cal [simp]: "sensor_ids (mpu6050_cal_update_once s) = sensor_ids s"
  by (simp add: sensor_ids_def mpu6050_cal_update_once_def Let_def)

lemma ids_attitude [simp]: "sensor_ids (body_axis_update_once (attitude_update_debug_once s)) = sensor_ids s"
  by (simp add: sensor_ids_def body_axis_update_once_def attitude_update_debug_once_def Let_def)

lemma ids_hmc_read: "sensor_ids s \<Longrightarrow> sensor_ids (fst (snd (hmc5883l_read_raw_once H (s, w))))"
proof -
  assume ids: "sensor_ids s"
  have f: "sensor_ids (s\<lparr>g_hmc_cfg_done := b\<rparr>) = sensor_ids s" "sensor_ids (s\<lparr>g_hmc_data_ok := b\<rparr>) = sensor_ids s"
    "sensor_ids (s\<lparr>g_hmc := a\<rparr>) = sensor_ids s" for s b a by (simp_all add: sensor_ids_def)
  have "sensor_ids (fst (snd (hmc5883l_config_once H (s, w)))) = sensor_ids s"
    by (simp add: hmc5883l_config_once_def Let_def case_prod_beta f)
  with ids show ?thesis by (simp add: hmc5883l_read_raw_once_def Let_def case_prod_beta f)
qed

lemma ids_mpu_config:
  "sensor_ids s \<Longrightarrow> addr = 0x68 \<or> addr = 0x69 \<Longrightarrow> sensor_ids (fst (snd (mpu6050_config_once H addr (s, w))))"
  by (auto simp: mpu6050_config_once_def sensor_ids_def Let_def case_prod_beta)

lemma ids_mpu_read:
  "sensor_ids s \<Longrightarrow> addr = 0x68 \<or> addr = 0x69 \<Longrightarrow> sensor_ids (fst (snd (mpu6050_read_raw_once H addr (s, w))))"
  using ids_mpu_config [of s addr H w]
  by (simp add: mpu6050_read_raw_once_def sensor_ids_def Let_def case_prod_beta)

lemma ids_hmc:
  "\<not> g_mpu_ok s \<Longrightarrow> \<not> g_hmc_ok s \<Longrightarrow> sensor_ids (fst (amp_i2c_hmc H a b c (s, w)))"
proof -
  assume m: "\<not> g_mpu_ok s" "\<not> g_hmc_ok s"
  have "sensor_ids (s\<lparr>g_hmc_id_a := 72, g_hmc_id_b := 52, g_hmc_id_c := 51, g_hmc_bus := 100,
      g_hmc_scan_mask := k, g_hmc_ok := True, g_i2c_last_err := e\<rparr>)" for k e
    using m by (simp add: sensor_ids_def)
  note rd = ids_hmc_read [OF this, of H]
  have e: "sensor_ids (s\<lparr>g_i2c_last_err := e\<rparr>) = sensor_ids s" for s e by (simp add: sensor_ids_def)
  have no: "sensor_ids (s\<lparr>g_hmc_id_a := i, g_hmc_id_b := j, g_hmc_id_c := k, g_hmc_bus := l,
      g_hmc_scan_mask := n, g_hmc_ok := False, g_hmc_data_ok := d\<rparr>)" for i j k l n d
    using m by (simp add: sensor_ids_def)
  show ?thesis
    by (simp add: amp_i2c_hmc_def Let_def case_prod_beta rd e no)
qed

lemma ids_mpu:
  assumes "sensor_ids s" "addr = 0x68 \<or> addr = 0x69" "who = 0x68"
  shows "sensor_ids (fst (snd (amp_i2c_mpu H addr who (s, w))))"
proof -
  have "sensor_ids (s\<lparr>g_mpu_whoami := ucast who, g_mpu_ok := True, g_mpu_addr_found := ucast addr\<rparr>)"
    using assms by (auto simp: sensor_ids_def)
  note rd = ids_mpu_read [OF this assms(2), of H]
  have e: "sensor_ids (s\<lparr>g_i2c_last_err := e\<rparr>) = sensor_ids s" for s e by (simp add: sensor_ids_def)
  show ?thesis by (simp add: amp_i2c_mpu_def Let_def case_prod_beta rd e)
qed

lemma ids_find: "sensor_ids (fst sw) \<Longrightarrow> sensor_ids (fst (amp_i2c_find_mpu H sw))"
proof -
  assume "sensor_ids (fst sw)"
  moreover have d: "sensor_ids (s\<lparr>g_mpu_data_ok := b\<rparr>) = sensor_ids s" for s b
    by (simp add: sensor_ids_def)
  ultimately show ?thesis
    by (cases sw) (simp add: amp_i2c_find_mpu_def Let_def case_prod_beta d ids_mpu sensor_consts)
qed

lemma ids_probe: "sensor_ids (fst (amp_i2c_probe_once H sw))"
proof -
  obtain s w where sw: "sw = (s, w)" by (cases sw)
  have e: "sensor_ids (s\<lparr>g_i2c_last_err := e\<rparr>) = sensor_ids s" for s e by (simp add: sensor_ids_def)
  have r: "sensor_ids (amp_i2c_reset s)" "\<not> g_mpu_ok (amp_i2c_reset s)" "\<not> g_hmc_ok (amp_i2c_reset s)"
    by (simp_all add: sensor_ids_def amp_i2c_reset_def)
  show ?thesis
    unfolding sw
    by (simp add: amp_i2c_probe_once_def Let_def case_prod_beta probe_err_def e r ids_find ids_hmc)
qed

section \<open>A bus that follows a script\<close>

text \<open>
  The smallest hardware a probe can run on: the world is the list of levels that the data line will
  show when it is read. A slave's answer to a register read is three acknowledges and the bits of the
  bytes, the most significant first.
\<close>

definition script_load :: "u64 \<Rightarrow> bool list \<Rightarrow> u32 \<times> bool list" where
  "script_load a w =
    (if a = GPIOA_BASE + GPIO_EXT_PORTA then (if hd w then BB_SDA_MASK else 0, tl w) else (0, w))"

definition script_hw :: "bool list fw_hw" where
  "script_hw = \<lparr>configTICK_RATE_HZ = 200, xTaskGetTickCount = (\<lambda>w. (5, w)), hw_load32 = script_load,
     hw_store32 = (\<lambda>_ _ w. w), hw_nop = (\<lambda>w. w), fw_hal_uart_init = (\<lambda>_ _ _ w. w), PWM_MAX_CH = 3,
     cvi_pwm_reg_base = (\<lambda>_. 0), hw_pwm_init = (\<lambda>_ w. w), hw_pwm_set_output_cfg = (\<lambda>_ w. w),
     hw_pwm_continuous_start = (\<lambda>_ w. w), cvi_pwm_get_period_ch = (\<lambda>_ _ w. (0, w)),
     cvi_pwm_get_high_period_ch = (\<lambda>_ _ w. (0, w)), PWM_PWMSTART = (\<lambda>_ w. (0, w)),
     PWM_PWM_OE = (\<lambda>_ w. (0, w)), cvi_pwm_get_polarity = (\<lambda>_ _ w. (1, w)),
     hw_shm_load = (\<lambda>_ w. (fresh_region, w)), hw_shm_store = (\<lambda>_ _ w. w), flush_dcache_range = (\<lambda>_ _ w. w),
     undefined_u32 = (\<lambda>_. 0xFFFFFFFF)\<rparr>"

lemma script_lines:
  "bb_delay script_hw w = w" "bb_gpio_release script_hw m w = w" "bb_gpio_output_low script_hw m w = w"
  "bb_sda_read script_hw (b # bs) = (b, bs)"
proof -
  have "((\<lambda>w. w) ^^ n) w = w" for n and w :: "bool list" by (induction n) simp_all
  then show "bb_delay script_hw w = w" by (simp add: bb_delay_def script_hw_def)
  show "bb_gpio_release script_hw m w = w" "bb_gpio_output_low script_hw m w = w"
    "bb_sda_read script_hw (b # bs) = (b, bs)"
    by (simp_all add: bb_gpio_release_def bb_gpio_output_low_def bb_sda_read_def bb_gpio_read_def
        gpioa_read_def gpioa_write_def script_hw_def script_load_def GPIOA_BASE_def GPIO_EXT_PORTA_def
        GPIO_SWPORTA_DR_def GPIO_SWPORTA_DDR_def BB_SDA_MASK_def)
qed

lemma script_bits:
  "bb_i2c_idle script_hw w = w" "bb_i2c_start script_hw w = w" "bb_i2c_stop script_hw w = w"
  "bb_i2c_write_bit script_hw b w = w" "bb_i2c_read_bit script_hw (c # w) = (c, w)"
  by (simp_all add: bb_i2c_idle_def bb_i2c_start_def bb_i2c_stop_def bb_i2c_write_bit_def
      bb_i2c_read_bit_def bb_scl_low_def bb_scl_release_def bb_sda_low_def bb_sda_release_def script_lines)

lemma script_write_byte: "bb_i2c_write_byte script_hw v (False # w) = (0, w)"
proof -
  have "bb_write_bits script_hw v n w = w" for n w by (induction n) (simp_all add: script_bits)
  then show ?thesis by (simp add: bb_i2c_write_byte_def script_bits)
qed

definition bits_of :: "u8 \<Rightarrow> bool list" where "bits_of v = map (bit v) (rev [0..<8])"

lemma script_read_byte: "bb_i2c_read_byte script_hw ack (bits_of x @ w) = (x, w)"
proof -
  have "bb_read_bits script_hw n v (map (bit x) (rev [0..<n]) @ w) = (push_bit n v OR take_bit n x, w)" for n v
  proof (induction n arbitrary: v)
    case (Suc n)
    have "push_bit n (if bit x n then push_bit 1 v OR 1 else push_bit 1 v) OR take_bit n x =
        push_bit (Suc n) v OR take_bit (Suc n) x"
    proof (rule bit_word_eqI)
      fix k
      assume "k < LENGTH(8)"
      consider "k < n" | "k = n" | "n < k" by linarith
      then show "bit (push_bit n (if bit x n then push_bit 1 v OR 1 else push_bit 1 v) OR take_bit n x) k =
          bit (push_bit (Suc n) v OR take_bit (Suc n) x) k"
        using \<open>k < LENGTH(8)\<close> by cases (auto simp: bit_or_iff bit_push_bit_iff bit_take_bit_iff bit_1_iff)
    qed
    then show ?case by (cases "bit x n") (simp_all add: script_bits Suc.IH Let_def)
  qed simp
  from this [of 8 0] show ?thesis
    by (simp add: bb_i2c_read_byte_def bits_of_def script_bits take_bit_word_eq_self)
qed

lemma script_read_buf: "bb_read_buf script_hw (length vs) (concat (map bits_of vs) @ w) = (vs, w)"
  by (induction vs) (simp_all add: script_read_byte)

definition reply :: "u8 list \<Rightarrow> bool list" where
  "reply vs = [False, False, False] @ concat (map bits_of vs)"

lemma script_read_reg: "bb_i2c_read_reg script_hw dev reg (reply [v] @ w) = ((0, v), w)"
  by (simp add: bb_i2c_read_reg_def reply_def script_bits script_write_byte script_read_byte)

lemma script_read_regs:
  "length vs = n \<Longrightarrow> n \<noteq> 0 \<Longrightarrow> bb_i2c_read_regs script_hw dev reg n (reply vs @ w) = ((0, vs), w)"
  using script_read_buf [of vs w]
  by (simp add: bb_i2c_read_regs_def reply_def script_bits script_write_byte)

lemmas script_read_regs_end = script_read_regs [where w = "[]", unfolded append_Nil2]

text \<open>A level vehicle: one probe after 49 readings, with both chips configured.\<close>

definition fw_almost :: fw where
  "fw_almost = fw_boot\<lparr>g_hmc_cfg_done := True, g_mpu_cfg_done := True, g_mpu_addr_found := 0x68,
     g_mpu_cal_count := 49\<rparr>"

definition level_script :: "bool list" where
  "level_script = reply [0x48] @ reply [0x34] @ reply [0x33] @ reply [0, 100, 0, 0, 0, 0] @ reply [0x68] @
     reply [0, 0, 0, 0, 0x40, 0, 0, 0, 0, 50, 0, 0, 0, 0] @ []"

lemma ready_chain:
  "g_sensor_ready (body_axis_update_once s) = g_sensor_ready s"
  "g_sensor_ready (attitude_update_debug_once s) = g_sensor_ready s"
  "g_sensor_ready (sensor_update_corrected_once s) \<longleftrightarrow>
     g_hmc_ok s \<and> g_hmc_data_ok s \<and> g_mpu_ok s \<and> g_mpu_data_ok s \<and> g_mpu_cal_done s"
  by (auto simp: body_axis_update_once_def attitude_update_debug_once_def
      sensor_update_corrected_once_def Let_def)

lemma level_probe:
  "g_sensor_ready (fst (amp_i2c_probe_once script_hw (fw_almost, level_script)))"
  "snd (amp_i2c_probe_once script_hw (fw_almost, level_script)) = []"
  by (simp_all add: amp_i2c_probe_once_def level_script_def script_read_reg amp_i2c_find_mpu_def
      amp_i2c_hmc_def hmc5883l_read_raw_once_def hmc5883l_config_once_def script_read_regs
      script_read_regs_end
      amp_i2c_reset_def fw_almost_def amp_i2c_mpu_def mpu6050_read_raw_once_def mpu6050_config_once_def
      mpu6050_cal_update_once_def ready_chain Let_def sensor_consts be_i16_def)

lemma fw_almost_ok: "sensing_ok fw_almost"
  by (simp add: fw_almost_def sensing_ok_def sensor_ranges_def attitude_ranges_def fw_boot_def
      i16_axes_def axes_all_def MPU_CAL_TARGET_COUNT_def)

section \<open>What sensing leaves alone\<close>

text \<open>A view of the state that depends on no variable the sensing code writes.\<close>

definition sensing_blind :: "(fw \<Rightarrow> 'a) \<Rightarrow> bool" where
  "sensing_blind F \<longleftrightarrow>
     (\<forall>s u. F (s\<lparr>g_i2c_probe_count := u\<rparr>) = F s \<and> F (s\<lparr>g_i2c_last_err := u\<rparr>) = F s \<and>
        F (s\<lparr>g_hmc_bus := u\<rparr>) = F s \<and> F (s\<lparr>g_hmc_scan_mask := u\<rparr>) = F s \<and> F (s\<lparr>g_hmc_id_a := u\<rparr>) = F s \<and>
        F (s\<lparr>g_hmc_id_b := u\<rparr>) = F s \<and> F (s\<lparr>g_hmc_id_c := u\<rparr>) = F s \<and> F (s\<lparr>g_mpu_whoami := u\<rparr>) = F s \<and>
        F (s\<lparr>g_mpu_addr_found := u\<rparr>) = F s \<and> F (s\<lparr>g_mpu_cal_count := u\<rparr>) = F s \<and>
        F (s\<lparr>g_sensor_state_error := u\<rparr>) = F s) \<and>
     (\<forall>s b. F (s\<lparr>g_hmc_ok := b\<rparr>) = F s \<and> F (s\<lparr>g_hmc_data_ok := b\<rparr>) = F s \<and> F (s\<lparr>g_hmc_cfg_done := b\<rparr>) = F s \<and>
        F (s\<lparr>g_mpu_ok := b\<rparr>) = F s \<and> F (s\<lparr>g_mpu_data_ok := b\<rparr>) = F s \<and> F (s\<lparr>g_mpu_cfg_done := b\<rparr>) = F s \<and>
        F (s\<lparr>g_mpu_cal_done := b\<rparr>) = F s \<and> F (s\<lparr>g_sensor_ready := b\<rparr>) = F s \<and> F (s\<lparr>g_att_ok := b\<rparr>) = F s \<and>
        F (s\<lparr>g_level_trim_done := b\<rparr>) = F s) \<and>
     (\<forall>s a. F (s\<lparr>g_hmc := a\<rparr>) = F s \<and> F (s\<lparr>g_mpu_a := a\<rparr>) = F s \<and> F (s\<lparr>g_mpu_g := a\<rparr>) = F s \<and>
        F (s\<lparr>g_mpu_acc_sum := a\<rparr>) = F s \<and> F (s\<lparr>g_mpu_gyro_sum := a\<rparr>) = F s \<and>
        F (s\<lparr>g_mpu_acc_bias := a\<rparr>) = F s \<and> F (s\<lparr>g_mpu_gyro_bias := a\<rparr>) = F s \<and>
        F (s\<lparr>g_mpu_a_corr := a\<rparr>) = F s \<and> F (s\<lparr>g_mpu_g_corr := a\<rparr>) = F s) \<and>
     (\<forall>s v. F (s\<lparr>g_att_roll_cd := v\<rparr>) = F s \<and> F (s\<lparr>g_att_pitch_cd := v\<rparr>) = F s \<and> F (s\<lparr>g_att_yaw_cd := v\<rparr>) = F s \<and>
        F (s\<lparr>g_rate_roll_raw := v\<rparr>) = F s \<and> F (s\<lparr>g_rate_pitch_raw := v\<rparr>) = F s \<and>
        F (s\<lparr>g_rate_yaw_raw := v\<rparr>) = F s \<and> F (s\<lparr>g_level_roll_cd := v\<rparr>) = F s \<and>
        F (s\<lparr>g_level_pitch_cd := v\<rparr>) = F s \<and> F (s\<lparr>g_body_roll_cd := v\<rparr>) = F s \<and>
        F (s\<lparr>g_body_pitch_cd := v\<rparr>) = F s \<and> F (s\<lparr>g_body_yaw_cd := v\<rparr>) = F s \<and>
        F (s\<lparr>g_body_rate_roll_raw := v\<rparr>) = F s \<and> F (s\<lparr>g_body_rate_pitch_raw := v\<rparr>) = F s \<and>
        F (s\<lparr>g_body_rate_yaw_raw := v\<rparr>) = F s)"

lemma blind_updates:
  assumes "sensing_blind F"
  shows "F (s\<lparr>g_i2c_probe_count := u\<rparr>) = F s" "F (s\<lparr>g_i2c_last_err := u\<rparr>) = F s"
    "F (s\<lparr>g_hmc_bus := u\<rparr>) = F s" "F (s\<lparr>g_hmc_scan_mask := u\<rparr>) = F s" "F (s\<lparr>g_hmc_id_a := u\<rparr>) = F s"
    "F (s\<lparr>g_hmc_id_b := u\<rparr>) = F s" "F (s\<lparr>g_hmc_id_c := u\<rparr>) = F s" "F (s\<lparr>g_mpu_whoami := u\<rparr>) = F s"
    "F (s\<lparr>g_mpu_addr_found := u\<rparr>) = F s" "F (s\<lparr>g_mpu_cal_count := u\<rparr>) = F s"
    "F (s\<lparr>g_sensor_state_error := u\<rparr>) = F s" "F (s\<lparr>g_hmc_ok := b\<rparr>) = F s" "F (s\<lparr>g_hmc_data_ok := b\<rparr>) = F s"
    "F (s\<lparr>g_hmc_cfg_done := b\<rparr>) = F s" "F (s\<lparr>g_mpu_ok := b\<rparr>) = F s" "F (s\<lparr>g_mpu_data_ok := b\<rparr>) = F s"
    "F (s\<lparr>g_mpu_cfg_done := b\<rparr>) = F s" "F (s\<lparr>g_mpu_cal_done := b\<rparr>) = F s" "F (s\<lparr>g_sensor_ready := b\<rparr>) = F s"
    "F (s\<lparr>g_att_ok := b\<rparr>) = F s" "F (s\<lparr>g_level_trim_done := b\<rparr>) = F s" "F (s\<lparr>g_hmc := a\<rparr>) = F s"
    "F (s\<lparr>g_mpu_a := a\<rparr>) = F s" "F (s\<lparr>g_mpu_g := a\<rparr>) = F s" "F (s\<lparr>g_mpu_acc_sum := a\<rparr>) = F s"
    "F (s\<lparr>g_mpu_gyro_sum := a\<rparr>) = F s" "F (s\<lparr>g_mpu_acc_bias := a\<rparr>) = F s" "F (s\<lparr>g_mpu_gyro_bias := a\<rparr>) = F s"
    "F (s\<lparr>g_mpu_a_corr := a\<rparr>) = F s" "F (s\<lparr>g_mpu_g_corr := a\<rparr>) = F s" "F (s\<lparr>g_att_roll_cd := v\<rparr>) = F s"
    "F (s\<lparr>g_att_pitch_cd := v\<rparr>) = F s" "F (s\<lparr>g_att_yaw_cd := v\<rparr>) = F s" "F (s\<lparr>g_rate_roll_raw := v\<rparr>) = F s"
    "F (s\<lparr>g_rate_pitch_raw := v\<rparr>) = F s" "F (s\<lparr>g_rate_yaw_raw := v\<rparr>) = F s" "F (s\<lparr>g_level_roll_cd := v\<rparr>) = F s"
    "F (s\<lparr>g_level_pitch_cd := v\<rparr>) = F s" "F (s\<lparr>g_body_roll_cd := v\<rparr>) = F s" "F (s\<lparr>g_body_pitch_cd := v\<rparr>) = F s"
    "F (s\<lparr>g_body_yaw_cd := v\<rparr>) = F s" "F (s\<lparr>g_body_rate_roll_raw := v\<rparr>) = F s"
    "F (s\<lparr>g_body_rate_pitch_raw := v\<rparr>) = F s" "F (s\<lparr>g_body_rate_yaw_raw := v\<rparr>) = F s"
  using assms by (simp_all add: sensing_blind_def)

lemma blind_steps:
  assumes "sensing_blind F"
  shows "F (mpu6050_cal_update_once s) = F s" "F (sensor_update_corrected_once s) = F s"
    "F (attitude_update_debug_once s) = F s" "F (body_axis_update_once s) = F s" "F (amp_i2c_reset s) = F s"
    "F (probe_err base ret s) = F s"
  unfolding mpu6050_cal_update_once_def sensor_update_corrected_once_def attitude_update_debug_once_def
    body_axis_update_once_def amp_i2c_reset_def probe_err_def Let_def
  by (simp_all only: blind_updates [OF assms] if_cancel split: if_split) simp_all

lemma blind_reads:
  assumes "sensing_blind F"
  shows "F (fst (snd (hmc5883l_read_raw_once H (s, w)))) = F s"
    "F (fst (snd (mpu6050_read_raw_once H addr (s, w)))) = F s"
proof -
  have "F (fst (snd (hmc5883l_config_once H (s, w)))) = F s"
    "F (fst (snd (mpu6050_config_once H addr (s, w)))) = F s"
    by (simp_all add: hmc5883l_config_once_def mpu6050_config_once_def Let_def case_prod_beta
        blind_updates [OF assms])
  then show "F (fst (snd (hmc5883l_read_raw_once H (s, w)))) = F s"
    "F (fst (snd (mpu6050_read_raw_once H addr (s, w)))) = F s"
    by (simp_all add: hmc5883l_read_raw_once_def mpu6050_read_raw_once_def Let_def case_prod_beta
        blind_updates [OF assms])
qed

lemma blind_probe:
  assumes "sensing_blind F"
  shows "F (fst (amp_i2c_probe_once H (s, w))) = F s"
proof -
  have hmc: "F (fst (amp_i2c_hmc H a b c (s, w))) = F s" for a b c s w
    by (simp add: amp_i2c_hmc_def Let_def case_prod_beta blind_updates [OF assms] blind_reads [OF assms])
  have mpu: "F (fst (snd (amp_i2c_mpu H addr who (s, w)))) = F s" for addr who s w
    by (simp add: amp_i2c_mpu_def Let_def case_prod_beta blind_updates [OF assms] blind_reads [OF assms]
        blind_steps [OF assms])
  have find: "F (fst (amp_i2c_find_mpu H sw)) = F (fst sw)" for sw
    by (cases sw) (simp add: amp_i2c_find_mpu_def Let_def case_prod_beta blind_updates [OF assms]
        blind_steps [OF assms] mpu)
  show ?thesis
    by (simp add: amp_i2c_probe_once_def Let_def case_prod_beta blind_steps [OF assms] find hmc)
qed

text \<open>And the world only changes through the bus.\<close>

lemma keeps_probe:
  assumes "hw_keeps H Q P" "P w"
  shows "P (snd (amp_i2c_probe_once H (s, w)))"
proof -
  note L = line_keeps_transactions [OF hw_keeps_line [OF assms(1)]]
  have cfg: "P (snd (snd (hmc5883l_config_once H (s, w))))" "P (snd (snd (mpu6050_config_once H addr (s, w))))"
    if "P w" for s w addr
    using that by (simp_all add: hmc5883l_config_once_def mpu6050_config_once_def Let_def case_prod_beta L)
  have rd: "P (snd (snd (hmc5883l_read_raw_once H (s, w))))" "P (snd (snd (mpu6050_read_raw_once H addr (s, w))))"
    if "P w" for s w addr
    using that by (simp_all add: hmc5883l_read_raw_once_def mpu6050_read_raw_once_def Let_def case_prod_beta L cfg)
  have hmc: "P (snd (amp_i2c_hmc H a b c (s, w)))" if "P w" for a b c s w
    using that by (simp add: amp_i2c_hmc_def Let_def case_prod_beta rd)
  have mpu: "P (snd (snd (amp_i2c_mpu H addr who (s, w))))" if "P w" for addr who s w
    using that by (simp add: amp_i2c_mpu_def Let_def case_prod_beta rd)
  have find: "P (snd (amp_i2c_find_mpu H sw))" if "P (snd sw)" for sw
    using that by (cases sw) (simp add: amp_i2c_find_mpu_def Let_def case_prod_beta mpu L)
  show ?thesis
    using assms(2) by (simp add: amp_i2c_probe_once_def Let_def case_prod_beta find hmc L)
qed

section \<open>The properties\<close>

text \<open>C39: The integer square root is the floor of the root, for every 64-bit argument: both loops end and
  the result squared is at most the argument, its successor squared above it.
\<close>

theorem isqrt64_floor:
  "unat (amp_isqrt64 v) * unat (amp_isqrt64 v) \<le> unat v \<and>
   unat v < (unat (amp_isqrt64 v) + 1) * (unat (amp_isqrt64 v) + 1)"
  by (rule isqrt64_root)

text \<open>The integer arc tangent lies within half a turn, within a quarter when its second argument is not
  negative, has the sign of its first argument, is at most 45 degrees off the axis that the larger leg
  is on, and does not divide by zero.
\<close>

theorem atan2_quadrants:
  assumes "\<bar>x\<bar> \<le> 2 ^ 31" "\<bar>y\<bar> \<le> 2 ^ 31" "x \<noteq> 0 \<or> y \<noteq> 0"
  shows "- 18000 \<le> amp_atan2_cd_approx y x \<and> amp_atan2_cd_approx y x \<le> 18000 \<and>
    (0 \<le> y \<and> 0 \<le> amp_atan2_cd_approx y x \<or> y < 0 \<and> amp_atan2_cd_approx y x \<le> 0) \<and>
    (if \<bar>y\<bar> \<le> x then \<bar>amp_atan2_cd_approx y x\<bar> \<le> 4500
     else if \<bar>y\<bar> \<le> - x then 13500 \<le> \<bar>amp_atan2_cd_approx y x\<bar>
     else 4500 \<le> \<bar>amp_atan2_cd_approx y x\<bar> \<and> \<bar>amp_atan2_cd_approx y x\<bar> \<le> 13500)"
proof -
  let ?o = "octant \<bar>y\<bar> \<bar>x\<bar>"
  have nz: "\<bar>x\<bar> \<noteq> 0 \<or> \<bar>y\<bar> \<noteq> 0" using assms(3) by simp
  note o = octant_range [OF abs_ge_zero abs_ge_zero nz]
  have x0: "\<not> (x = 0 \<and> y = 0)" using assms(3) by simp
  note eq = atan2_octant [OF assms(1,2), unfolded if_not_P [OF x0]]
  have abs: "\<bar>?o\<bar> = ?o" "\<bar>- ?o\<bar> = ?o" "\<bar>18000 - ?o\<bar> = 18000 - ?o" "\<bar>?o - 18000\<bar> = 18000 - ?o"
    using o(1,2) by linarith+
  have half: "\<bar>y\<bar> \<le> \<bar>x\<bar> \<and> ?o \<le> 4500 \<or> \<bar>x\<bar> < \<bar>y\<bar> \<and> 4500 \<le> ?o"
    using o(3,4) by linarith
  have out: "\<not> \<bar>y\<bar> \<le> x" if "x < 0" using that abs_ge_zero [of y] by linarith
  have ins: "\<not> \<bar>y\<bar> \<le> - x" if "0 \<le> x" "\<bar>x\<bar> < \<bar>y\<bar>" using that by linarith
  consider "0 \<le> x" "0 \<le> y" | "0 \<le> x" "y < 0" | "x < 0" "0 \<le> y" | "x < 0" "y < 0" by linarith
  then show ?thesis
  proof cases
    case 1
    then have a: "amp_atan2_cd_approx y x = ?o" and x: "\<bar>x\<bar> = x" by (simp_all add: eq)
    show ?thesis unfolding a abs using 1 o(1,2) half ins x by auto
  next
    case 2
    then have a: "amp_atan2_cd_approx y x = - ?o" and x: "\<bar>x\<bar> = x" by (simp_all add: eq)
    show ?thesis unfolding a abs using 2 o(1,2) half ins x by auto
  next
    case 3
    then have a: "amp_atan2_cd_approx y x = 18000 - ?o" and x: "\<bar>x\<bar> = - x" by (simp_all add: eq)
    show ?thesis unfolding a abs using 3 o(1,2) half out x by auto
  next
    case 4
    then have a: "amp_atan2_cd_approx y x = ?o - 18000" and x: "\<bar>x\<bar> = - x" by (simp_all add: eq)
    show ?thesis unfolding a abs using 4 o(1,2) half out x by auto
  qed
qed

theorem atan2_quadrants_witness:
  "- 18000 \<le> amp_atan2_cd_approx (- 300) 400 \<and> amp_atan2_cd_approx (- 300) 400 \<le> 0"
  using atan2_quadrants [of 400 "- 300"] by simp

text \<open>One probe, on any hardware and whatever the bus answers, keeps every reading, bias, angle and
  rate inside the ranges in which the controller's arithmetic cannot overflow, the calibration counter
  at most 50, and the calibration flag set exactly when it has reached 50.
\<close>

theorem probe_keeps_ranges:
  assumes "sensing_ok s"
  shows "sensing_ok (fst (amp_i2c_probe_once H (s, w)))"
  by (rule ok_probe(1)) (use assms in simp)

theorem probe_keeps_ranges_witness:
  "sensing_ok (fst (amp_i2c_probe_once bench_hw (fw_boot, bench0 [] 5 fresh_region)))"
  by (rule probe_keeps_ranges) (rule sensing_boot [THEN conjunct1])

text \<open>The sensors are ready after a probe only if in that probe the magnetometer returned its three
  identification bytes and data, the inertial unit returned its identity at one of its two addresses
  and data, and fifty readings have been averaged into the biases; a valid attitude needs all of that.
\<close>

theorem ready_has_evidence:
  assumes "sensing_ok s" "s' = fst (amp_i2c_probe_once H (s, w))" "g_sensor_ready s' \<or> g_att_ok s'"
  shows "g_hmc_id_a s' = 0x48 \<and> g_hmc_id_b s' = 0x34 \<and> g_hmc_id_c s' = 0x33 \<and> g_hmc_data_ok s' \<and>
    g_mpu_whoami s' = 0x68 \<and> (g_mpu_addr_found s' = 0x68 \<or> g_mpu_addr_found s' = 0x69) \<and>
    g_mpu_data_ok s' \<and> g_mpu_cal_count s' = 50 \<and> g_sensor_state_error s' = 0"
proof -
  have "sensor_chain s'" "sensing_ok s'" using ok_probe [of "(s, w)" H] assms by simp_all
  moreover have "sensor_ids s'" using ids_probe assms by simp
  ultimately show ?thesis using assms(3)
    by (auto simp: sensor_chain_def sensor_ids_def sensing_ok_def sensor_ranges_def
        MPU_CAL_TARGET_COUNT_def SENSOR_STATE_OK_def)
qed

theorem ready_has_evidence_witness:
  "g_hmc_id_a (fst (amp_i2c_probe_once script_hw (fw_almost, level_script))) = 0x48 \<and>
   g_mpu_cal_count (fst (amp_i2c_probe_once script_hw (fw_almost, level_script))) = 50"
  using ready_has_evidence [OF fw_almost_ok refl, of script_hw level_script] level_probe(1) by simp

end
