(* ===== verification/FwSafety.thy ===== *)
theory FwSafety
  imports FwTask FwSensing
begin

text \<open>
  What one run of the firmware's handler guarantees about the motors, on any hardware and from any
  state: which configurations reach the PWM driver, what has to hold for a motor to be driven above
  idle, when the gate arms, and what an emergency stop and a lost link do.
\<close>

section \<open>What the control code and the backend leave alone\<close>

definition control_blind :: "(fw \<Rightarrow> 'a) \<Rightarrow> bool" where
  "control_blind F \<longleftrightarrow>
     (\<forall>s v. F (s\<lparr>g_sp_roll_cd := v\<rparr>) = F s \<and> F (s\<lparr>g_sp_pitch_cd := v\<rparr>) = F s \<and>
        F (s\<lparr>g_sp_roll_rate_raw := v\<rparr>) = F s \<and> F (s\<lparr>g_sp_pitch_rate_raw := v\<rparr>) = F s \<and>
        F (s\<lparr>g_sp_yaw_rate_raw := v\<rparr>) = F s \<and> F (s\<lparr>g_pid_roll := v\<rparr>) = F s \<and> F (s\<lparr>g_pid_pitch := v\<rparr>) = F s \<and>
        F (s\<lparr>g_pid_yaw := v\<rparr>) = F s \<and> F (s\<lparr>g_angle_corr_roll := v\<rparr>) = F s \<and>
        F (s\<lparr>g_angle_corr_pitch := v\<rparr>) = F s \<and> F (s\<lparr>g_rate_corr_roll := v\<rparr>) = F s \<and>
        F (s\<lparr>g_rate_corr_pitch := v\<rparr>) = F s \<and> F (s\<lparr>g_rate_corr_yaw := v\<rparr>) = F s) \<and>
     (\<forall>s u. F (s\<lparr>g_sp_throttle_us := u\<rparr>) = F s) \<and> (\<forall>s m. F (s\<lparr>g_mix := m\<rparr>) = F s) \<and>
     (\<forall>s m. F (s\<lparr>g_motor_pwm_us := m\<rparr>) = F s)"

lemma control_updates:
  assumes "control_blind F"
  shows "F (s\<lparr>g_sp_roll_cd := v\<rparr>) = F s" "F (s\<lparr>g_sp_pitch_cd := v\<rparr>) = F s"
    "F (s\<lparr>g_sp_roll_rate_raw := v\<rparr>) = F s" "F (s\<lparr>g_sp_pitch_rate_raw := v\<rparr>) = F s"
    "F (s\<lparr>g_sp_yaw_rate_raw := v\<rparr>) = F s" "F (s\<lparr>g_pid_roll := v\<rparr>) = F s" "F (s\<lparr>g_pid_pitch := v\<rparr>) = F s"
    "F (s\<lparr>g_pid_yaw := v\<rparr>) = F s" "F (s\<lparr>g_angle_corr_roll := v\<rparr>) = F s" "F (s\<lparr>g_angle_corr_pitch := v\<rparr>) = F s"
    "F (s\<lparr>g_rate_corr_roll := v\<rparr>) = F s" "F (s\<lparr>g_rate_corr_pitch := v\<rparr>) = F s"
    "F (s\<lparr>g_rate_corr_yaw := v\<rparr>) = F s" "F (s\<lparr>g_sp_throttle_us := u\<rparr>) = F s" "F (s\<lparr>g_mix := m\<rparr>) = F s"
    "F (s\<lparr>g_motor_pwm_us := p\<rparr>) = F s"
  using assms by (simp_all add: control_blind_def)

lemma control_steps:
  assumes "control_blind F"
  shows "F (motor_set_all us s) = F s" "F (control_update_setpoint_once s) = F s"
    "F (control_update_pid_once s) = F s" "F (control_apply_active_throttle_floor_once s) = F s"
    "F (control_update_mixer_once s) = F s" "F (motor_update_control_outputs s) = F s"
proof -
  note U = control_updates [OF assms]
  show set: "F (motor_set_all us s) = F s" for us s by (simp add: motor_set_all_def Let_def U)
  show sp: "F (control_update_setpoint_once s) = F s" for s
    by (simp add: control_update_setpoint_once_def Let_def U)
  show pid: "F (control_update_pid_once s) = F s" for s
    by (simp add: control_update_pid_once_def Let_def U sp)
  show fl: "F (control_apply_active_throttle_floor_once s) = F s" for s
    by (simp add: control_apply_active_throttle_floor_once_def Let_def U)
  show mix: "F (control_update_mixer_once s) = F s" for s
    by (simp add: control_update_mixer_once_def Let_def U)
  show "F (motor_update_control_outputs s) = F s"
    by (simp add: motor_update_control_outputs_def Let_def U set pid fl mix)
qed

definition pwm_blind :: "(fw \<Rightarrow> 'a) \<Rightarrow> bool" where
  "pwm_blind F \<longleftrightarrow>
     (\<forall>s u. F (s\<lparr>g_pwm_backend_err := u\<rparr>) = F s \<and> F (s\<lparr>g_pwm_period_us_dbg := u\<rparr>) = F s \<and>
        F (s\<lparr>g_pwm_active_high_dbg := u\<rparr>) = F s) \<and>
     (\<forall>s b. F (s\<lparr>g_pwm_backend_ready := b\<rparr>) = F s \<and> F (s\<lparr>g_pwm_real_enabled := b\<rparr>) = F s) \<and>
     (\<forall>s m. F (s\<lparr>g_pwm_duty_us_dbg := m\<rparr>) = F s \<and> F (s\<lparr>g_pwm_period_clk_dbg := m\<rparr>) = F s \<and>
        F (s\<lparr>g_pwm_duty_clk_dbg := m\<rparr>) = F s \<and> F (s\<lparr>g_pwm_start_reg_dbg := m\<rparr>) = F s \<and>
        F (s\<lparr>g_pwm_oe_reg_dbg := m\<rparr>) = F s) \<and>
     (\<forall>s c. F (s\<lparr>g_pwm_cfg := c\<rparr>) = F s)"

lemma pwm_updates:
  assumes "pwm_blind F"
  shows "F (s\<lparr>g_pwm_backend_err := u\<rparr>) = F s" "F (s\<lparr>g_pwm_period_us_dbg := u\<rparr>) = F s"
    "F (s\<lparr>g_pwm_active_high_dbg := u\<rparr>) = F s" "F (s\<lparr>g_pwm_backend_ready := b\<rparr>) = F s"
    "F (s\<lparr>g_pwm_real_enabled := b\<rparr>) = F s" "F (s\<lparr>g_pwm_duty_us_dbg := m\<rparr>) = F s"
    "F (s\<lparr>g_pwm_period_clk_dbg := m\<rparr>) = F s" "F (s\<lparr>g_pwm_duty_clk_dbg := m\<rparr>) = F s"
    "F (s\<lparr>g_pwm_start_reg_dbg := m\<rparr>) = F s" "F (s\<lparr>g_pwm_oe_reg_dbg := m\<rparr>) = F s"
    "F (s\<lparr>g_pwm_cfg := c\<rparr>) = F s"
  using assms by (simp_all add: pwm_blind_def)

lemma pwm_steps:
  assumes "pwm_blind F"
  shows "F (pwm_backend_set_cfg_us ch us s) = F s" "F (fst (pwm_backend_readback_ch H ch (s, w))) = F s"
    "F (fst (pwm_backend_init_ch H (s, w) ch)) = F s" "F (fst (pwm_backend_init_once H (s, w))) = F s"
    "F (fst (pwm_backend_write_us H ch us (s, w))) = F s"
proof -
  note U = pwm_updates [OF assms]
  show set: "F (pwm_backend_set_cfg_us ch us s) = F s" for ch us s
    by (simp add: pwm_backend_set_cfg_us_def pwm_debug_record_cfg_def Let_def U)
  show rb: "F (fst (pwm_backend_readback_ch H ch (s, w))) = F s" for ch s w
    by (simp add: pwm_backend_readback_ch_def Let_def case_prod_beta U)
  show ini: "F (fst (pwm_backend_init_ch H (s, w) ch)) = F s" for ch s w
    by (simp add: pwm_backend_init_ch_def Let_def U set rb)
  have ini': "F (fst (pwm_backend_init_ch H sw ch)) = F (fst sw)" for ch sw
    using ini by (cases sw) simp
  show "F (fst (pwm_backend_init_once H (s, w))) = F s"
    by (simp add: pwm_backend_init_once_def Let_def case_prod_beta U ini')
  show "F (fst (pwm_backend_write_us H ch us (s, w))) = F s"
    by (simp add: pwm_backend_write_us_def Let_def U set rb)
qed

section \<open>What the PWM driver is handed\<close>

text \<open>The conditions for a motor to run, and the configurations they allow.\<close>

definition motors_live :: "fw \<Rightarrow> bool" where
  "motors_live s \<longleftrightarrow>
     g_motor_armed s \<and> g_motor_output_enabled s \<and> g_rc_valid s \<and> g_rc_arm_switch s \<and> g_rc_arm_latched s \<and>
     g_rc_throttle_us s \<le> 1350 \<and> g_sensor_ready s \<and> \<not> g_amp_emergency_stop_latched s"

definition motors_driven :: "fw \<Rightarrow> bool" where
  "motors_driven s \<longleftrightarrow> motors_live s \<and> g_esc_arm_delay_done s"

definition pulse_ns_ok :: "bool \<Rightarrow> pwm_configuration \<Rightarrow> bool" where
  "pulse_ns_ok live c \<longleftrightarrow>
     pc_period c = 20000000 \<and>
     (if live then 1000000 \<le> pc_pulse c \<and> pc_pulse c \<le> 1500000 else pc_pulse c = 1000000)"

lemma guarded_us:
  "pwm_guarded_us s us = 1000 \<or>
   g_motor_armed s \<and> g_motor_output_enabled s \<and> g_esc_arm_delay_done s \<and>
   1000 \<le> pwm_guarded_us s us \<and> pwm_guarded_us s us \<le> 1500"
  by (auto simp: pwm_guarded_us_def motor_consts Let_def)

lemma pulse_scaled: "1000 \<le> (us :: u32) \<Longrightarrow> us \<le> 1500 \<Longrightarrow> 1000000 \<le> us * 1000 \<and> us * 1000 \<le> 1500000"
proof -
  assume "1000 \<le> us" "us \<le> 1500"
  then have "1000 \<le> unat us" "unat us \<le> 1500" by (simp_all add: word_le_nat_alt)
  moreover from this have "unat (us * 1000) = unat us * 1000" by (simp add: unat_word_ariths)
  ultimately show ?thesis by (simp add: word_le_nat_alt)
qed

lemma cfg_written:
  "ch < 4 \<Longrightarrow> motor_nth (g_pwm_cfg (pwm_backend_set_cfg_us ch us s)) ch =
     (motor_nth (g_pwm_cfg s) ch)\<lparr>pc_period := 20000000, pc_pulse := us * 1000\<rparr>"
  by (simp add: pwm_backend_set_cfg_us_def pwm_debug_record_cfg_def Let_def motor_nth_upd motor_consts
      pwm_high_us_from_active_us_def)

lemma keeps_readback:
  assumes "hw_keeps H Q P" "P w"
  shows "P (snd (pwm_backend_readback_ch H ch (s, w)))"
  using assms(2) by (simp add: pwm_backend_readback_ch_def Let_def case_prod_beta hw_keepsD [OF assms(1)])

lemma keeps_init_ch:
  assumes "hw_keeps H (pulse_ns_ok l) P" "P w" "ch < 4"
  shows "P (snd (pwm_backend_init_ch H (s, w) ch))"
  using assms
  by (simp add: pwm_backend_init_ch_def Let_def keeps_readback hw_keepsD [OF assms(1)] cfg_written
      pulse_ns_ok_def motor_consts)

lemma keeps_init:
  assumes "hw_keeps H (pulse_ns_ok l) P" "P w"
  shows "P (snd (pwm_backend_init_once H (s, w)))"
proof -
  have "P (snd (pwm_backend_init_ch H sw ch))" if "P (snd sw)" "ch < 4" for sw ch
    using keeps_init_ch [OF assms(1) that] by (cases sw) simp
  then show ?thesis using assms(2)
    by (simp add: pwm_backend_init_once_def Let_def case_prod_beta)
qed

lemma keeps_write:
  assumes "hw_keeps H (pulse_ns_ok l) P" "P w" "ch < 4"
    "g_motor_armed s \<and> g_motor_output_enabled s \<and> g_esc_arm_delay_done s \<longrightarrow> l"
  shows "P (snd (pwm_backend_write_us H ch us (s, w)))"
proof -
  let ?c = "motor_nth (g_pwm_cfg (pwm_backend_set_cfg_us ch (pwm_guarded_us s us) s)) ch"
  have "pulse_ns_ok l ?c"
    using guarded_us [of s us] assms(3,4) pulse_scaled [of "pwm_guarded_us s us"]
    by (auto simp: cfg_written pulse_ns_ok_def)
  then show ?thesis
    using assms(2,3) by (simp add: pwm_backend_write_us_def Let_def keeps_readback [OF assms(1)]
        hw_keepsD [OF assms(1)])
qed

lemma foldl_keeps: "\<lbrakk>\<And>x i. I x \<Longrightarrow> i \<in> set is \<Longrightarrow> I (f x i); I x\<rbrakk> \<Longrightarrow> I (foldl f x is)"
  by (induction "is" arbitrary: x) simp_all

lemma keeps_outputs:
  fixes s' :: fw
  assumes "hw_keeps H (pulse_ns_ok l) P" "P w" "s' = fst (motor_apply_outputs H (s, w))"
    "g_motor_armed s' \<and> g_motor_output_enabled s' \<and> g_esc_arm_delay_done s' \<longrightarrow> l"
  shows "P (snd (motor_apply_outputs H (s, w)))"
proof -
  let ?on = "\<lambda>s. g_motor_armed s \<and> g_motor_output_enabled s \<and> g_esc_arm_delay_done s"
  have blind: "pwm_blind ?on" by (simp add: pwm_blind_def)
  obtain s1 w1 where e: "esc_update_arm_delay_once H (s, w) = (s1, w1)" by (cases "esc_update_arm_delay_once H (s, w)")
  define sw where "sw = pwm_backend_init_once H (s1, w1)"
  have "P w1" using assms(2) hw_keepsD(1) [OF assms(1), of w] arg_cong [OF e, of snd]
    by (auto simp: esc_update_arm_delay_once_def Let_def case_prod_beta)
  then have sw: "?on (fst sw) = ?on s1" "P (snd sw)"
    using pwm_steps(4) [OF blind, of H s1 w1] keeps_init [OF assms(1), of w1 s1] by (simp_all add: sw_def)
  have out: "motor_apply_outputs H (s, w) = foldl (motor_apply_ch H) sw [0, 1, 2, 3]"
    by (simp add: motor_apply_outputs_def e sw_def)
  have ch: "?on (fst (motor_apply_ch H x i)) = ?on (fst x)" for x i
    using pwm_steps(5) [OF blind, of H i _ "fst x" "snd x"] by (cases x) (simp add: motor_apply_ch_def)
  have "?on (fst (motor_apply_outputs H (s, w))) = ?on s1"
    unfolding out by (rule foldl_keeps [where I = "\<lambda>x. ?on (fst x) = ?on s1"]) (simp_all only: ch sw(1))
  then have l: "?on s1 \<longrightarrow> l" using assms(3,4) by simp
  have "?on (fst (motor_apply_outputs H (s, w))) = ?on s1 \<and> P (snd (motor_apply_outputs H (s, w)))"
    unfolding out
  proof (rule foldl_keeps [where I = "\<lambda>x. ?on (fst x) = ?on s1 \<and> P (snd x)"])
    fix x :: "fw \<times> 'a" and i :: nat
    assume x: "?on (fst x) = ?on s1 \<and> P (snd x)" and "i \<in> set [0, 1, 2, 3]"
    then have "i < 4" by auto
    moreover have "?on (fst x) \<longrightarrow> l" using x l by simp
    ultimately have "P (snd (motor_apply_ch H x i))"
      using keeps_write [OF assms(1), of "snd x" i "fst x"] x by (simp add: motor_apply_ch_def)
    with ch x show "?on (fst (motor_apply_ch H x i)) = ?on s1 \<and> P (snd (motor_apply_ch H x i))" by simp
  qed (use sw in simp)
  then show ?thesis by simp
qed

lemma outputs_blind:
  assumes "pwm_blind F" "\<And>s t. F (s\<lparr>g_esc_arm_start_tick := t\<rparr>) = F s"
    "\<And>s b. F (s\<lparr>g_esc_arm_delay_done := b\<rparr>) = F s" "\<And>s u. F (s\<lparr>g_esc_arm_delay_ms := u\<rparr>) = F s"
  shows "F (fst (motor_apply_outputs H sw)) = F (fst sw)"
proof -
  have esc: "F (fst (esc_update_arm_delay_once H sw)) = F (fst sw)"
    by (cases sw) (simp add: esc_update_arm_delay_once_def Let_def case_prod_beta assms(2-4))
  have ini: "F (fst (pwm_backend_init_once H x)) = F (fst x)" for x
    using pwm_steps(4) [OF assms(1)] by (cases x) simp
  have "F (fst (motor_apply_ch H x i)) = F (fst x)" for x i
    using pwm_steps(5) [OF assms(1)] by (cases x) (simp add: motor_apply_ch_def)
  then show ?thesis
    unfolding motor_apply_outputs_def
    by (intro foldl_keeps [where I = "\<lambda>x. F (fst x) = F (fst sw)"]) (simp_all add: esc ini)
qed

section \<open>The decision\<close>

lemma gate_armed:
  "g_motor_armed (arm_gate s) \<Longrightarrow>
     g_rc_valid (arm_gate s) \<and> g_sensor_ready (arm_gate s) \<and> g_rc_arm_switch (arm_gate s) \<and>
     g_rc_arm_latched (arm_gate s) \<and> g_rc_throttle_us (arm_gate s) \<le> 1350"
  by (auto simp: arm_gate_def Let_def rc_consts not_less split: if_splits)

lemma force_safe_off: "\<not> g_motor_output_enabled (motor_force_safe r s)" "\<not> g_motor_armed (motor_force_safe r s)"
  by (simp_all add: motor_force_safe_def motor_set_all_def Let_def)

lemma motors_live_blind:
  "control_blind motors_live" "pwm_blind motors_live"
  by (simp_all add: control_blind_def pwm_blind_def motors_live_def)

lemma decide_live:
  assumes "g_motor_output_enabled (motor_decide failsafe (arm_gate s))"
  shows "motors_live (motor_decide failsafe (arm_gate s))"
proof -
  let ?s = "arm_gate s"
  have live: "\<not> g_amp_emergency_stop_latched ?s" "g_sensor_ready ?s" "g_motor_armed ?s"
    "motor_decide failsafe ?s =
       motor_update_control_outputs (?s\<lparr>g_motor_output_enabled := True, g_motor_safety_reason := MOTOR_SAFE_OK\<rparr>)"
    using assms by (auto simp: motor_decide_def force_safe_off split: if_splits)
  then have "motors_live (?s\<lparr>g_motor_output_enabled := True, g_motor_safety_reason := MOTOR_SAFE_OK\<rparr>)"
    using gate_armed [of s] by (simp add: motors_live_def)
  with live(4) show ?thesis by (simp add: control_steps [OF motors_live_blind(1)])
qed

section \<open>The rest of the handler and the world\<close>

lemma keeps_shm:
  assumes "hw_keeps H Q P" "P w"
  shows "P (snd (shm_get H p sel w))" "P (snd (shm_valid H p w))"
  using assms(2)
  by (simp_all add: shm_get_def shm_valid_def Let_def case_prod_beta hw_keepsD [OF assms(1)])

lemma keeps_shm_parts:
  assumes "hw_keeps H Q P" "P w"
  shows "P (snd (amp_poll_emergency H p (s, w)))" "P (snd (amp_poll_config H p (s, w)))"
    "P (snd (amp_poll_seqs H p (s, w)))"
  using assms(2)
  by (simp_all add: amp_poll_emergency_def amp_poll_config_def amp_poll_seqs_def Let_def case_prod_beta
      keeps_shm [OF assms(1)])

lemma keeps_shm_poll:
  assumes "hw_keeps H Q P" "P w"
  shows "P (snd (amp_shared_region_poll_once H (s, w)))"
  using assms(2)
  by (simp add: amp_shared_region_poll_once_def Let_def case_prod_beta keeps_shm [OF assms(1)]
      keeps_shm_parts(1) [OF assms(1)] split: option.split)
     (metis keeps_shm(2) keeps_shm_parts assms(1) prod.collapse)

lemma keeps_report:
  assumes "hw_keeps H Q P" "P w"
  shows "P (snd (amp_shared_region_write_rt_report_once H (s, w)))"
  using assms(2)
  by (simp add: amp_shared_region_write_rt_report_once_def Let_def case_prod_beta keeps_shm [OF assms(1)]
      hw_keepsD [OF assms(1)] split: option.split)

lemma keeps_rx:
  assumes "hw_keeps H Q P" "P w"
  shows "P (snd (snd (uart3_read_byte H (s, w))))" "P (snd (ibus_rx_byte H now b (s, w)))"
  using assms(2)
  by (simp_all add: uart3_read_byte_def ibus_rx_byte_def Let_def case_prod_beta hw_keepsD [OF assms(1)])

lemma keeps_drain:
  assumes "hw_keeps H Q P"
  shows "P (snd sw) \<Longrightarrow> P (snd (ibus_drain H now n sw))"
proof (induction n arbitrary: sw)
  case (Suc n)
  obtain s w where sw: "sw = (s, w)" by (cases sw)
  obtain r s' w' where r: "uart3_read_byte H (s, w) = (r, s', w')" by (cases "uart3_read_byte H (s, w)") auto
  have w': "P w'" using keeps_rx(1) [OF assms, of w s] Suc.prems by (simp add: sw r)
  show ?case
    using Suc.IH keeps_rx(2) [OF assms w'] w' by (cases r) (simp_all add: sw r)
qed simp

lemma keeps_inputs:
  assumes "hw_keeps H Q P" "P (snd sw)"
  shows "P (snd (ibus_inputs H now sw))"
proof -
  have st: "P (snd (ibus_start H sw))"
    using assms(2) by (cases sw) (simp add: ibus_start_def amp_dbg_flush_def Let_def hw_keepsD [OF assms(1)])
  obtain s w where d: "ibus_drain H now 128 (ibus_start H sw) = (s, w)"
    by (cases "ibus_drain H now 128 (ibus_start H sw)")
  have "P w" using keeps_drain [OF assms(1) st, of now 128] by (simp add: d)
  then show ?thesis
    using keeps_probe [OF assms(1), of w s]
    by (simp add: ibus_inputs_def d ibus_sense_def Let_def case_prod_beta)
qed

lemma keeps_decide:
  assumes "hw_keeps H Q P" "P w"
  shows "P (snd (ibus_decide H fs (s, w)))"
proof -
  have "P (snd (rc_update_freshness_once H (t, v)))" if "P v" for t v
    using that by (simp add: rc_update_freshness_once_def Let_def case_prod_beta hw_keepsD [OF assms(1)])
  then have "P (snd (motor_update_arm_gate H (t, v)))" if "P v" for t v
    using that by (simp add: motor_update_arm_gate_def Let_def case_prod_beta)
  then show ?thesis
    using keeps_shm_poll [OF assms]
    by (simp add: ibus_decide_def Let_def case_prod_beta)
qed

lemma keeps_debug:
  assumes "hw_keeps H Q P" "P w"
  shows "P (snd (ibus_debug H now fs (s, w)))"
  using assms(2) by (simp add: ibus_debug_def amp_dbg_flush_def Let_def case_prod_beta hw_keepsD [OF assms(1)])

section \<open>The handler in three stages\<close>

lemma poll_stages:
  obtains now w0 s1 w1 s2 w2 s3 w3 s4 w4 where
    "xTaskGetTickCount H w = (now, w0)" "ibus_inputs H now (s, w0) = (s1, w1)"
    "ibus_decide H (rc_failsafe H now s1) (s1, w1) = (s2, w2)" "motor_apply_outputs H (s2, w2) = (s3, w3)"
    "amp_shared_region_write_rt_report_once H (s3, w3) = (s4, w4)"
    "ibus_probe_poll_once H (s, w) = ibus_debug H now (rc_failsafe H now s1) (s4, w4)"
proof -
  obtain now w0 where 0: "xTaskGetTickCount H w = (now, w0)" by (cases "xTaskGetTickCount H w")
  obtain s1 w1 where 1: "ibus_inputs H now (s, w0) = (s1, w1)" by (cases "ibus_inputs H now (s, w0)")
  obtain s2 w2 where 2: "ibus_decide H (rc_failsafe H now s1) (s1, w1) = (s2, w2)"
    by (cases "ibus_decide H (rc_failsafe H now s1) (s1, w1)")
  obtain s3 w3 where 3: "motor_apply_outputs H (s2, w2) = (s3, w3)" by (cases "motor_apply_outputs H (s2, w2)")
  obtain s4 w4 where 4: "amp_shared_region_write_rt_report_once H (s3, w3) = (s4, w4)"
    by (cases "amp_shared_region_write_rt_report_once H (s3, w3)")
  show thesis by (rule that [OF 0 1 2 3 4]) (simp add: ibus_probe_poll_once_def 0 1 2 3 4)
qed

lemma report_blind:
  assumes "\<And>s u. F (s\<lparr>last_rt_report_tick := u\<rparr>) = F s" "\<And>s u. F (s\<lparr>g_amp_rt_report_seq := u\<rparr>) = F s"
    "\<And>s u. F (s\<lparr>g_amp_status_flags := u\<rparr>) = F s"
  shows "F (fst (amp_shared_region_write_rt_report_once H (s, w))) = F s"
  by (simp add: amp_shared_region_write_rt_report_once_def Let_def case_prod_beta assms split: option.split)

lemma debug_blind:
  assumes "\<And>s x. F (s\<lparr>g_amp_dbg := x\<rparr>) = F s" "\<And>s u. F (s\<lparr>ib_last_dbg_tick := u\<rparr>) = F s"
    "\<And>s u. F (s\<lparr>ib_last_print_tick := u\<rparr>) = F s"
  shows "F (fst (ibus_debug H now fs (s, w))) = F s"
  by (simp add: ibus_debug_def amp_dbg_snapshot_def Let_def case_prod_beta assms)

text \<open>What the handler ends with is what it decided, for all that the tail does not write.\<close>

definition tail_blind :: "(fw \<Rightarrow> 'a) \<Rightarrow> bool" where
  "tail_blind F \<longleftrightarrow> pwm_blind F \<and>
     (\<forall>s u. F (s\<lparr>g_esc_arm_start_tick := u\<rparr>) = F s \<and> F (s\<lparr>g_esc_arm_delay_ms := u\<rparr>) = F s \<and>
        F (s\<lparr>last_rt_report_tick := u\<rparr>) = F s \<and> F (s\<lparr>g_amp_rt_report_seq := u\<rparr>) = F s \<and>
        F (s\<lparr>g_amp_status_flags := u\<rparr>) = F s \<and> F (s\<lparr>ib_last_dbg_tick := u\<rparr>) = F s \<and>
        F (s\<lparr>ib_last_print_tick := u\<rparr>) = F s) \<and>
     (\<forall>s b. F (s\<lparr>g_esc_arm_delay_done := b\<rparr>) = F s) \<and> (\<forall>s x. F (s\<lparr>g_amp_dbg := x\<rparr>) = F s)"

lemma tail_keeps:
  assumes "tail_blind F" "motor_apply_outputs H (s2, w2) = (s3, w3)"
    "amp_shared_region_write_rt_report_once H (s3, w3) = (s4, w4)"
  shows "F (fst (ibus_debug H now fs (s4, w4))) = F s2"
proof -
  have "F s3 = F s2" using assms outputs_blind [of F H "(s2, w2)"] by (simp add: tail_blind_def)
  moreover have "F s4 = F s3" using assms report_blind [of F H s3 w3] by (simp add: tail_blind_def)
  moreover have "F (fst (ibus_debug H now fs (s4, w4))) = F s4"
    using assms(1) by (intro debug_blind) (simp_all add: tail_blind_def)
  ultimately show ?thesis by simp
qed

lemma decide_enabled:
  assumes "ibus_decide H fs (s1, w1) = (s2, w2)" "g_motor_output_enabled s2"
  shows "motors_live s2 \<and> \<not> fs"
proof -
  obtain t v where t: "motor_update_arm_gate H (control_update_setpoint_once
      (fst (amp_shared_region_poll_once H (rc_take_channels fs s1, w1))),
      snd (amp_shared_region_poll_once H (rc_take_channels fs s1, w1))) = (t, v)"
    by (cases "motor_update_arm_gate H (control_update_setpoint_once
      (fst (amp_shared_region_poll_once H (rc_take_channels fs s1, w1))),
      snd (amp_shared_region_poll_once H (rc_take_channels fs s1, w1)))")
  have s2: "s2 = motor_decide fs t" using assms(1) t by (simp add: ibus_decide_def Let_def case_prod_beta)
  obtain u where u: "t = arm_gate u" using t by (auto simp: motor_update_arm_gate_def Let_def case_prod_beta)
  have "\<not> fs" using assms(2) by (auto simp: s2 motor_decide_def force_safe_off split: if_splits)
  then show ?thesis using decide_live [of fs u] assms(2) by (simp add: s2 u)
qed

lemma tail_esc:
  assumes "amp_shared_region_write_rt_report_once H (s3, w3) = (s4, w4)"
  shows "g_esc_arm_delay_done (fst (ibus_debug H now fs (s4, w4))) = g_esc_arm_delay_done s3"
proof -
  have "g_esc_arm_delay_done s4 = g_esc_arm_delay_done s3"
    using report_blind [of g_esc_arm_delay_done H s3 w3] assms by simp
  then show ?thesis using debug_blind [of g_esc_arm_delay_done H now fs s4 w4] by simp
qed

lemma live_tail: "tail_blind motors_live" "tail_blind g_motor_output_enabled" "tail_blind g_motor_armed"
  by (simp_all add: tail_blind_def pwm_blind_def motors_live_def)

lemma poll_pwm:
  assumes K: "hw_keeps H (pulse_ns_ok (motors_driven (fst (ibus_probe_poll_once H (s, w))))) P" and "P w"
  shows "P (snd (ibus_probe_poll_once H (s, w)))"
proof -
  obtain now w0 s1 w1 s2 w2 s3 w3 s4 w4 where st: "xTaskGetTickCount H w = (now, w0)"
    "ibus_inputs H now (s, w0) = (s1, w1)" "ibus_decide H (rc_failsafe H now s1) (s1, w1) = (s2, w2)"
    "motor_apply_outputs H (s2, w2) = (s3, w3)" "amp_shared_region_write_rt_report_once H (s3, w3) = (s4, w4)"
    "ibus_probe_poll_once H (s, w) = ibus_debug H now (rc_failsafe H now s1) (s4, w4)"
    by (rule poll_stages)
  let ?s' = "fst (ibus_debug H now (rc_failsafe H now s1) (s4, w4))"
  have "P w0" using hw_keepsD(1) [OF K \<open>P w\<close>] by (simp add: st(1))
  then have "P w1" using keeps_inputs [OF K, of "(s, w0)" now] by (simp add: st(2))
  then have w2: "P w2" using keeps_decide [OF K, of w1 "rc_failsafe H now s1" s1] by (simp add: st(3))
  have same: "motors_live ?s' = motors_live s2" "g_esc_arm_delay_done ?s' = g_esc_arm_delay_done s3"
    using tail_keeps [OF live_tail(1) st(4,5)] tail_esc [OF st(5)] by simp_all
  have "pwm_blind g_motor_output_enabled" by (simp add: pwm_blind_def)
  then have "g_motor_output_enabled s3 = g_motor_output_enabled s2"
    using outputs_blind [of g_motor_output_enabled H "(s2, w2)"] by (simp add: st(4))
  moreover have D: "g_motor_output_enabled s2 \<longrightarrow> motors_live s2" using decide_enabled [OF st(3)] by blast
  ultimately have "g_motor_armed s3 \<and> g_motor_output_enabled s3 \<and> g_esc_arm_delay_done s3 \<longrightarrow> motors_driven ?s'"
    using D same by (simp add: motors_driven_def)
  then have "P w3"
    using keeps_outputs [OF K [unfolded st(6)] w2, of s3 s2] by (simp add: st(4))
  then have "P w4" using keeps_report [OF K, of w3 s3] by (simp add: st(5))
  then show ?thesis using keeps_debug [OF K, of w4 now "rc_failsafe H now s1" s4] by (simp add: st(6))
qed

section \<open>What the inputs leave alone\<close>

definition input_blind :: "(fw \<Rightarrow> 'a) \<Rightarrow> bool" where
  "input_blind F \<longleftrightarrow> sensing_blind F \<and>
     (\<forall>s u. F (s\<lparr>g_uart3_last_lsr := u\<rparr>) = F s \<and> F (s\<lparr>g_uart3_last_byte := u\<rparr>) = F s \<and>
        F (s\<lparr>ib_last_frame_tick := u\<rparr>) = F s \<and> F (s\<lparr>ib_good_frames := u\<rparr>) = F s \<and>
        F (s\<lparr>ib_bad_frames := u\<rparr>) = F s \<and> F (s\<lparr>ib_rx_bytes := u\<rparr>) = F s \<and> F (s\<lparr>ib_header20 := u\<rparr>) = F s \<and>
        F (s\<lparr>ib_header2040 := u\<rparr>) = F s \<and> F (s\<lparr>ib_last_i2c_tick := u\<rparr>) = F s \<and>
        F (s\<lparr>ib_last_stage3_tick := u\<rparr>) = F s \<and> F (s\<lparr>g_rc_last_frame_tick := u\<rparr>) = F s \<and>
        F (s\<lparr>g_stage3_step_count := u\<rparr>) = F s) \<and>
     (\<forall>s b. F (s\<lparr>ib_last_b := b\<rparr>) = F s \<and> F (s\<lparr>ib_prev_b := b\<rparr>) = F s) \<and>
     (\<forall>s b. F (s\<lparr>ib_started := b\<rparr>) = F s \<and> F (s\<lparr>g_stage3_actuator_map_ok := b\<rparr>) = F s \<and>
        F (s\<lparr>g_stage3_external_enabled := b\<rparr>) = F s) \<and>
     (\<forall>s x. F (s\<lparr>ib_frame := x\<rparr>) = F s) \<and> (\<forall>s n. F (s\<lparr>ib_index := n\<rparr>) = F s) \<and>
     (\<forall>s x. F (s\<lparr>ib_ch := x\<rparr>) = F s) \<and> (\<forall>s x. F (s\<lparr>g_amp_dbg := x\<rparr>) = F s)"

lemma inputs_blind:
  assumes "input_blind F"
  shows "F (fst (ibus_inputs H now sw)) = F (fst sw)"
proof -
  note U = assms [unfolded input_blind_def]
  have st: "F (fst (ibus_start H sw)) = F (fst sw)"
    using U by (cases sw) (simp add: ibus_start_def amp_dbg_clear_def Let_def)
  have rd: "F (fst (snd (uart3_read_byte H (s, w)))) = F s" for s w
    using U by (simp add: uart3_read_byte_def Let_def case_prod_beta)
  have parse: "F (snd (ibus_parse_byte b s)) = F s" for b s
    using U by (simp add: ibus_parse_byte_def Let_def)
  have rx: "F (fst (ibus_rx_byte H now b (s, w))) = F s" for b s w
    using U by (simp add: ibus_rx_byte_def Let_def case_prod_beta parse)
  have drain: "F (fst (ibus_drain H now n x)) = F (fst x)" for n x
  proof (induction n arbitrary: x)
    case (Suc n)
    obtain s w where x: "x = (s, w)" by (cases x)
    obtain r s' w' where r: "uart3_read_byte H (s, w) = (r, s', w')"
      by (cases "uart3_read_byte H (s, w)") auto
    show ?case using Suc.IH rx rd [of s w] by (cases r) (simp_all add: x r)
  qed simp
  have probe: "F (fst (amp_i2c_probe_once H x)) = F (fst x)" for x
    using blind_probe [OF conjunct1 [OF U]] by (cases x) simp
  have sense: "F (fst (ibus_sense H now x)) = F (fst x)" for x
    using U by (cases x) (simp add: ibus_sense_def stage3_flight_node_step_legacy_fallback_def Let_def
        case_prod_beta probe)
  show ?thesis by (simp add: ibus_inputs_def sense drain st)
qed

section \<open>What the shared region can change\<close>

definition shm_blind :: "(fw \<Rightarrow> 'a) \<Rightarrow> bool" where
  "shm_blind F \<longleftrightarrow>
     (\<forall>s u. F (s\<lparr>g_amp_shm_poll_count := u\<rparr>) = F s \<and> F (s\<lparr>g_amp_last_emergency_seq := u\<rparr>) = F s \<and>
        F (s\<lparr>g_amp_last_config_slot_seq := u\<rparr>) = F s \<and> F (s\<lparr>g_amp_last_config_update_seq := u\<rparr>) = F s \<and>
        F (s\<lparr>g_amp_config_seq := u\<rparr>) = F s \<and> F (s\<lparr>g_amp_config_update_count := u\<rparr>) = F s \<and>
        F (s\<lparr>g_config_deadzone_us := u\<rparr>) = F s \<and> F (s\<lparr>g_config_rate_roll_div := u\<rparr>) = F s \<and>
        F (s\<lparr>g_config_rate_pitch_div := u\<rparr>) = F s \<and> F (s\<lparr>g_config_rate_yaw_div := u\<rparr>) = F s \<and>
        F (s\<lparr>g_config_angle_div := u\<rparr>) = F s \<and> F (s\<lparr>g_amp_last_arm_seq := u\<rparr>) = F s \<and>
        F (s\<lparr>g_amp_last_setpoint_seq := u\<rparr>) = F s) \<and>
     (\<forall>s b. F (s\<lparr>g_amp_emergency_stop_latched := b\<rparr>) = F s) \<and> (\<forall>r s. F (motor_force_safe r s) = F s)"

lemma shm_parts_blind:
  assumes "shm_blind F"
  shows "F (fst (amp_poll_emergency H p x)) = F (fst x)" "F (fst (amp_poll_config H p x)) = F (fst x)"
    "F (fst (amp_poll_seqs H p x)) = F (fst x)"
  using assms by (cases x; simp add: shm_blind_def amp_poll_emergency_def amp_poll_config_def
      amp_poll_seqs_def Let_def case_prod_beta)+

lemma shm_poll_blind:
  assumes "shm_blind F"
  shows "F (fst (amp_shared_region_poll_once H (s, w))) = F s"
proof -
  have U: "F (s\<lparr>g_amp_shm_poll_count := u\<rparr>) = F s" "F (motor_force_safe r s) = F s" for s u r
    using assms by (simp_all add: shm_blind_def)
  show ?thesis
    by (simp add: amp_shared_region_poll_once_def Let_def case_prod_beta U shm_parts_blind [OF assms]
        split: option.split)
qed

lemma force_safe_frame [simp]:
  "g_rc_valid (motor_force_safe r s) = g_rc_valid s" "g_rc_arm_latched (motor_force_safe r s) = g_rc_arm_latched s"
  "g_rc_seen_arm_low (motor_force_safe r s) = g_rc_seen_arm_low s"
  "g_rc_prev_arm_switch (motor_force_safe r s) = g_rc_prev_arm_switch s"
  "g_rc_arm_switch (motor_force_safe r s) = g_rc_arm_switch s"
  "g_rc_throttle_us (motor_force_safe r s) = g_rc_throttle_us s"
  "g_rc_last_frame_tick (motor_force_safe r s) = g_rc_last_frame_tick s"
  "g_sensor_ready (motor_force_safe r s) = g_sensor_ready s"
  "g_amp_emergency_stop_latched (motor_force_safe r s) = g_amp_emergency_stop_latched s"
  "g_motor_pwm_us (motor_force_safe r s) = Motors 1000 1000 1000 1000"
  "g_motor_safety_reason (motor_force_safe r s) = r"
  by (simp_all add: motor_force_safe_def motor_set_all_def Let_def motor_consts)

text \<open>The four flags of the arming protocol that survive from one run to the next.\<close>

definition arm_memory :: "fw \<Rightarrow> bool \<times> bool \<times> bool" where
  "arm_memory s = (g_rc_arm_latched s, g_rc_seen_arm_low s, g_rc_prev_arm_switch s)"

lemma arm_memory_blind: "input_blind arm_memory" "shm_blind arm_memory" "control_blind arm_memory"
  by (simp_all add: arm_memory_def input_blind_def sensing_blind_def shm_blind_def control_blind_def)

text \<open>The decision: the state before the gate, the gate, the choice.\<close>

lemma decide_parts:
  assumes "ibus_decide H fs (s1, w1) = (s2, w2)"
  obtains u v where
    "fst (rc_update_freshness_once H
       ((control_update_setpoint_once (fst (amp_shared_region_poll_once H (rc_take_channels fs s1, w1))))
          \<lparr>g_rc_arm_allowed := False\<rparr>, v)) = u"
    "v = snd (amp_shared_region_poll_once H (rc_take_channels fs s1, w1))"
    "s2 = motor_decide fs (arm_gate u)"
  using assms by (simp add: ibus_decide_def motor_update_arm_gate_def Let_def case_prod_beta)

lemma freshness_memory:
  "g_rc_arm_latched (fst (rc_update_freshness_once H (s, w))) \<Longrightarrow> g_rc_arm_latched s"
  "g_rc_seen_arm_low (fst (rc_update_freshness_once H (s, w))) \<Longrightarrow> g_rc_seen_arm_low s"
  "g_rc_prev_arm_switch (fst (rc_update_freshness_once H (s, w))) = g_rc_prev_arm_switch s"
  by (auto simp: rc_update_freshness_once_def Let_def case_prod_beta split: if_splits)

lemma before_gate:
  assumes "ibus_inputs H now (s, w0) = (s1, w1)" "ibus_decide H fs (s1, w1) = (s2, w2)"
  obtains u where "s2 = motor_decide fs (arm_gate u)" "g_rc_arm_latched u \<longrightarrow> g_rc_arm_latched s"
    "g_rc_seen_arm_low u \<longrightarrow> g_rc_seen_arm_low s" "g_rc_prev_arm_switch u = g_rc_prev_arm_switch s"
proof -
  from assms(2) obtain u v where u: "fst (rc_update_freshness_once H
      ((control_update_setpoint_once (fst (amp_shared_region_poll_once H (rc_take_channels fs s1, w1))))
        \<lparr>g_rc_arm_allowed := False\<rparr>, v)) = u" and s2: "s2 = motor_decide fs (arm_gate u)"
    by (rule decide_parts)
  let ?t = "control_update_setpoint_once (fst (amp_shared_region_poll_once H (rc_take_channels fs s1, w1)))"
  have "arm_memory (rc_take_channels fs s1) = arm_memory s1"
    by (simp add: arm_memory_def rc_take_channels_def)
  then have "arm_memory ?t = arm_memory s1"
    by (simp add: control_steps [OF arm_memory_blind(3)] shm_poll_blind [OF arm_memory_blind(2)])
  also have "\<dots> = arm_memory s"
    using inputs_blind [OF arm_memory_blind(1), of H now "(s, w0)"] assms(1) by simp
  finally have "g_rc_arm_latched ?t = g_rc_arm_latched s" "g_rc_seen_arm_low ?t = g_rc_seen_arm_low s"
    "g_rc_prev_arm_switch ?t = g_rc_prev_arm_switch s" by (simp_all add: arm_memory_def)
  then show thesis
    using that [OF s2] u freshness_memory [of H "?t\<lparr>g_rc_arm_allowed := False\<rparr>" v] by auto
qed

section \<open>Arming\<close>

lemma gate_memory:
  "g_motor_armed (arm_gate u) \<Longrightarrow>
     g_rc_arm_latched u \<or> g_rc_seen_arm_low u \<and> \<not> g_rc_prev_arm_switch u \<and> g_rc_throttle_us (arm_gate u) \<le> 1100"
  "g_rc_arm_latched (arm_gate u) \<or> g_rc_seen_arm_low (arm_gate u) \<Longrightarrow>
     g_rc_arm_latched u \<or> g_rc_seen_arm_low u \<or>
     g_rc_valid (arm_gate u) \<and> g_sensor_ready (arm_gate u) \<and> \<not> g_rc_arm_switch (arm_gate u)"
  by (auto simp: arm_gate_def Let_def rc_consts not_less split: if_splits)

lemma decide_frame:
  assumes "control_blind F" "\<And>s r. F (motor_force_safe r s) = F s"
    "\<And>s b. F (s\<lparr>g_motor_output_enabled := b\<rparr>) = F s" "\<And>s u. F (s\<lparr>g_motor_safety_reason := u\<rparr>) = F s"
  shows "F (motor_decide fs s) = F s"
  by (simp add: motor_decide_def assms(2-4) control_steps [OF assms(1)])

lemma decide_same:
  "g_rc_valid (motor_decide fs s) = g_rc_valid s" "g_rc_arm_switch (motor_decide fs s) = g_rc_arm_switch s"
  "g_rc_arm_latched (motor_decide fs s) = g_rc_arm_latched s"
  "g_rc_seen_arm_low (motor_decide fs s) = g_rc_seen_arm_low s"
  "g_rc_throttle_us (motor_decide fs s) = g_rc_throttle_us s"
  "g_sensor_ready (motor_decide fs s) = g_sensor_ready s"
  "g_amp_emergency_stop_latched (motor_decide fs s) = g_amp_emergency_stop_latched s"
  by (rule decide_frame; simp add: control_blind_def)+

lemma decide_armed: "g_motor_armed (motor_decide fs s) \<Longrightarrow> g_motor_armed s"
  by (auto simp: motor_decide_def force_safe_off split: if_splits)

text \<open>The part of the final state that tells what was decided.\<close>

definition verdict :: "fw \<Rightarrow> bool list \<times> u32 \<times> u32 \<times> u32 motors" where
  "verdict s = ([g_motor_armed s, g_motor_output_enabled s, g_rc_valid s, g_rc_arm_switch s, g_rc_arm_latched s,
     g_rc_seen_arm_low s, g_sensor_ready s, g_amp_emergency_stop_latched s],
     g_rc_throttle_us s, g_motor_safety_reason s, g_motor_pwm_us s)"

lemma verdict_tail: "tail_blind verdict"
  by (simp add: tail_blind_def pwm_blind_def verdict_def)

lemma poll_verdict:
  obtains fs u where "verdict (fst (ibus_probe_poll_once H (s, w))) = verdict (motor_decide fs (arm_gate u))"
    "g_rc_arm_latched u \<longrightarrow> g_rc_arm_latched s" "g_rc_seen_arm_low u \<longrightarrow> g_rc_seen_arm_low s"
    "g_rc_prev_arm_switch u = g_rc_prev_arm_switch s"
proof -
  obtain now w0 s1 w1 s2 w2 s3 w3 s4 w4 where st: "xTaskGetTickCount H w = (now, w0)"
    "ibus_inputs H now (s, w0) = (s1, w1)" "ibus_decide H (rc_failsafe H now s1) (s1, w1) = (s2, w2)"
    "motor_apply_outputs H (s2, w2) = (s3, w3)" "amp_shared_region_write_rt_report_once H (s3, w3) = (s4, w4)"
    "ibus_probe_poll_once H (s, w) = ibus_debug H now (rc_failsafe H now s1) (s4, w4)"
    by (rule poll_stages)
  from before_gate [OF st(2,3)] obtain u where u: "s2 = motor_decide (rc_failsafe H now s1) (arm_gate u)"
    "g_rc_arm_latched u \<longrightarrow> g_rc_arm_latched s" "g_rc_seen_arm_low u \<longrightarrow> g_rc_seen_arm_low s"
    "g_rc_prev_arm_switch u = g_rc_prev_arm_switch s" .
  show thesis
    using that [of "rc_failsafe H now s1" u] u tail_keeps [OF verdict_tail st(4,5)] by (simp add: st(6))
qed

section \<open>The motors' command\<close>

definition us_in_range :: "u32 \<Rightarrow> bool" where
  "us_in_range u \<longleftrightarrow> 1000 \<le> u \<and> u \<le> 1500"

lemma clamp_test_range: "1000 \<le> clamp_test_us v \<and> clamp_test_us v \<le> 1500"
  using clamp_i32_range [of 1000 1500 v] by (simp add: clamp_test_us_def motor_consts)

lemma us_of_clamp: "us_in_range (word_of_int (motor_apply_trim_i32 s idx v))"
proof -
  define k where "k = motor_apply_trim_i32 s idx v"
  have k: "1000 \<le> k" "k \<le> 1500"
    using clamp_test_range by (simp_all add: k_def motor_apply_trim_i32_def Let_def)
  then have "uint (word_of_int k :: u32) = k" by (simp add: unsigned_of_int take_bit_int_eq_self)
  with k show ?thesis by (simp add: us_in_range_def word_le_def flip: k_def)
qed

lemma outputs_in_range: "motor_all us_in_range (g_motor_pwm_us (motor_update_control_outputs s))"
proof -
  have idle: "motor_all us_in_range (g_motor_pwm_us (motor_set_all MOTOR_PWM_IDLE_US s))"
    by (simp add: motor_set_all_def motor_consts us_in_range_def)
  show ?thesis by (simp add: motor_update_control_outputs_def Let_def idle us_of_clamp)
qed

lemma decide_outputs:
  "if motors_live (motor_decide fs (arm_gate u))
   then motor_all us_in_range (g_motor_pwm_us (motor_decide fs (arm_gate u))) \<and>
        g_motor_safety_reason (motor_decide fs (arm_gate u)) = 0
   else g_motor_pwm_us (motor_decide fs (arm_gate u)) = Motors 1000 1000 1000 1000 \<and>
        \<not> g_motor_armed (motor_decide fs (arm_gate u)) \<and>
        \<not> g_motor_output_enabled (motor_decide fs (arm_gate u)) \<and>
        g_motor_safety_reason (motor_decide fs (arm_gate u)) \<noteq> 0"
proof (cases "g_motor_output_enabled (motor_decide fs (arm_gate u))")
  case True
  from decide_live [OF this] have live: "motors_live (motor_decide fs (arm_gate u))" .
  have d: "motor_decide fs (arm_gate u) = motor_update_control_outputs
      ((arm_gate u)\<lparr>g_motor_output_enabled := True, g_motor_safety_reason := MOTOR_SAFE_OK\<rparr>)"
    using True by (auto simp: motor_decide_def force_safe_off split: if_splits)
  have "control_blind g_motor_safety_reason" by (simp add: control_blind_def)
  then have "g_motor_safety_reason (motor_decide fs (arm_gate u)) = 0"
    by (simp add: d control_steps(6) safe_codes)
  with live show ?thesis using outputs_in_range by (simp add: d)
next
  case False
  have "control_blind g_motor_output_enabled" by (simp add: control_blind_def)
  then have "motor_decide fs (arm_gate u) = motor_force_safe 1 (arm_gate u) \<or>
      motor_decide fs (arm_gate u) = motor_force_safe 2 (arm_gate u) \<or>
      motor_decide fs (arm_gate u) = motor_force_safe 3 (arm_gate u)"
    using False by (auto simp: motor_decide_def control_steps(6) safe_codes split: if_splits)
  then show ?thesis by (auto simp: motors_live_def force_safe_off)
qed

lemma poll_armed_latched:
  "g_motor_armed (fst (ibus_probe_poll_once H (s, w))) \<Longrightarrow> g_rc_arm_latched (fst (ibus_probe_poll_once H (s, w)))"
proof -
  assume a: "g_motor_armed (fst (ibus_probe_poll_once H (s, w)))"
  obtain fs u where "verdict (fst (ibus_probe_poll_once H (s, w))) = verdict (motor_decide fs (arm_gate u))"
    by (rule poll_verdict)
  with a have "g_motor_armed (motor_decide fs (arm_gate u))"
    "g_rc_arm_latched (fst (ibus_probe_poll_once H (s, w))) = g_rc_arm_latched (arm_gate u)"
    by (simp_all add: verdict_def decide_same)
  then show ?thesis using gate_armed [OF decide_armed] by simp
qed

section \<open>Runs\<close>

fun fw_run :: "'w fw_hw \<Rightarrow> nat \<Rightarrow> fw \<times> 'w \<Rightarrow> fw \<times> 'w" where
  "fw_run H 0 sw = sw"
| "fw_run H (Suc n) sw = ibus_probe_poll_once H (fw_run H n sw)"

definition switch_seen_low :: "fw \<Rightarrow> bool" where
  "switch_seen_low s \<longleftrightarrow> g_rc_valid s \<and> g_sensor_ready s \<and> \<not> g_rc_arm_switch s"

lemma memory_step:
  assumes "g_rc_arm_latched (fst (ibus_probe_poll_once H (s, w))) \<or>
    g_rc_seen_arm_low (fst (ibus_probe_poll_once H (s, w)))"
  shows "g_rc_arm_latched s \<or> g_rc_seen_arm_low s \<or> switch_seen_low (fst (ibus_probe_poll_once H (s, w)))"
proof -
  obtain fs u where u: "verdict (fst (ibus_probe_poll_once H (s, w))) = verdict (motor_decide fs (arm_gate u))"
    "g_rc_arm_latched u \<longrightarrow> g_rc_arm_latched s" "g_rc_seen_arm_low u \<longrightarrow> g_rc_seen_arm_low s"
    by (rule poll_verdict)
  from u(1) have "g_rc_arm_latched (arm_gate u) \<or> g_rc_seen_arm_low (arm_gate u)"
    using assms by (auto simp: verdict_def decide_same)
  from gate_memory(2) [OF this] u show ?thesis
    by (auto simp: verdict_def decide_same switch_seen_low_def)
qed

lemma memory_needs_low:
  assumes "\<not> g_rc_arm_latched (fst sw)" "\<not> g_rc_seen_arm_low (fst sw)"
    "g_rc_arm_latched (fst (fw_run H n sw)) \<or> g_rc_seen_arm_low (fst (fw_run H n sw))"
  shows "list_ex (\<lambda>k. switch_seen_low (fst (fw_run H k sw))) [0..<Suc n]"
  using assms(3)
proof (induction n)
  case 0
  then show ?case using assms(1,2) by simp
next
  case (Suc n)
  obtain s w where r: "fw_run H n sw = (s, w)" by (cases "fw_run H n sw")
  from memory_step [of H s w] Suc r show ?case by (auto simp: list_ex_iff less_Suc_eq)
qed

section \<open>A link and a switch\<close>

text \<open>A bench whose registers return a script: a link that is up, ready sensors, the switch low and then,
  when the last byte of the frame in the buffer arrives, high.\<close>

definition feed_hw :: "u32 list fw_hw" where
  "feed_hw = \<lparr>configTICK_RATE_HZ = 200, xTaskGetTickCount = (\<lambda>w. (5, w)), hw_load32 = (\<lambda>_ w. (hd w, tl w)),
     hw_store32 = (\<lambda>_ _ w. w), hw_nop = (\<lambda>w. w), fw_hal_uart_init = (\<lambda>_ _ _ w. w), PWM_MAX_CH = 3,
     cvi_pwm_reg_base = (\<lambda>_. 0), hw_pwm_init = (\<lambda>_ w. w), hw_pwm_set_output_cfg = (\<lambda>_ w. w),
     hw_pwm_continuous_start = (\<lambda>_ w. w), cvi_pwm_get_period_ch = (\<lambda>_ _ w. (0, w)),
     cvi_pwm_get_high_period_ch = (\<lambda>_ _ w. (0, w)), PWM_PWMSTART = (\<lambda>_ w. (0, w)),
     PWM_PWM_OE = (\<lambda>_ w. (0, w)), cvi_pwm_get_polarity = (\<lambda>_ _ w. (1, w)),
     hw_shm_load = (\<lambda>_ w. (fresh_region, w)), hw_shm_store = (\<lambda>_ _ w. w), flush_dcache_range = (\<lambda>_ _ w. w),
     undefined_u32 = (\<lambda>_. 0xFFFFFFFF)\<rparr>"

definition high_frame :: "u8 list" where
  "high_frame = [32, 64, 220, 5, 220, 5, 232, 3, 220, 5, 220, 5, 208, 7, 220, 5, 220, 5, 220, 5, 220, 5, 220, 5, 220, 5, 220, 5, 220, 5, 81, 243]"

definition fw_linked :: fw where
  "fw_linked = fw_boot\<lparr>ib_started := True, ib_good_frames := 1, ib_last_frame_tick := 5, ib_last_i2c_tick := 5,
     ib_last_stage3_tick := 5, g_rc_last_frame_tick := 5, g_sensor_ready := True,
     ib_ch := [1500, 1500, 1000, 1500, 1500, 1000, 1500, 1500, 1500, 1500, 1500, 1500, 1500, 1500],
     ib_frame := take 31 high_frame @ [0], ib_index := 31\<rparr>"

lemma feed_tick: "xTaskGetTickCount feed_hw w = (5, w)"
  by (simp add: feed_hw_def)

lemma ibus_drain_numeral:
  "ibus_drain H now (numeral k) sw =
    (case uart3_read_byte H sw of
       (None, s, w) \<Rightarrow> (s, w)
     | (Some b, s, w) \<Rightarrow> ibus_drain H now (pred_numeral k) (ibus_rx_byte H now b (s, w)))"
  by (simp add: numeral_eq_Suc)

lemma poll_core:
  assumes "tail_blind F" "xTaskGetTickCount H w = (now, w0)" "ibus_inputs H now (s, w0) = (s1, w1)"
  shows "F (fst (ibus_probe_poll_once H (s, w))) = F (fst (ibus_decide H (rc_failsafe H now s1) (s1, w1)))"
proof -
  obtain now' w0' s1' w1' s2 w2 s3 w3 s4 w4 where st: "xTaskGetTickCount H w = (now', w0')"
    "ibus_inputs H now' (s, w0') = (s1', w1')" "ibus_decide H (rc_failsafe H now' s1') (s1', w1') = (s2, w2)"
    "motor_apply_outputs H (s2, w2) = (s3, w3)" "amp_shared_region_write_rt_report_once H (s3, w3) = (s4, w4)"
    "ibus_probe_poll_once H (s, w) = ibus_debug H now' (rc_failsafe H now' s1') (s4, w4)"
    by (rule poll_stages)
  then show ?thesis using assms(2,3) tail_keeps [OF assms(1) st(4,5)] by simp
qed

lemma feed_world:
  "snd (ibus_probe_poll_once feed_hw (s, w)) = snd (ibus_inputs feed_hw 5 (s, w))"
proof -
  have rb: "snd (pwm_backend_readback_ch feed_hw ch x) = snd x" for ch x
    by (cases x) (simp add: pwm_backend_readback_ch_def feed_hw_def Let_def)
  have ini: "snd (pwm_backend_init_ch feed_hw x i) = snd x" for x i
    by (cases x) (simp add: pwm_backend_init_ch_def Let_def rb, simp add: feed_hw_def)
  have wr: "snd (motor_apply_ch feed_hw x i) = snd x" for x i
    by (cases x) (simp add: motor_apply_ch_def pwm_backend_write_us_def Let_def rb, simp add: feed_hw_def)
  have out: "snd (motor_apply_outputs feed_hw x) = snd x" for x
    by (cases x) (simp add: motor_apply_outputs_def wr pwm_backend_init_once_def ini
        esc_update_arm_delay_once_def Let_def case_prod_beta, simp add: feed_hw_def)
  have shm: "snd (shm_get feed_hw p sel v) = v" for p sel v by (simp add: shm_get_def feed_hw_def)
  have shv: "snd (shm_valid feed_hw p v) = v" for p v by (simp add: shm_valid_def Let_def case_prod_beta shm)
  have rep: "snd (amp_shared_region_write_rt_report_once feed_hw x) = snd x" for x
    by (cases x) (simp add: amp_shared_region_write_rt_report_once_def Let_def case_prod_beta shv
        split: option.split, simp add: feed_hw_def)
  have dbg: "snd (ibus_debug feed_hw now fs x) = snd x" for now fs x
    by (cases x) (simp add: ibus_debug_def amp_dbg_flush_def Let_def, simp add: feed_hw_def)
  have parts: "snd (amp_poll_emergency feed_hw p x) = snd x" "snd (amp_poll_config feed_hw p x) = snd x"
    "snd (amp_poll_seqs feed_hw p x) = snd x" for p x
    by (cases x, simp add: amp_poll_emergency_def amp_poll_config_def amp_poll_seqs_def Let_def
        case_prod_beta shm)+
  have poll: "snd (amp_shared_region_poll_once feed_hw x) = snd x" for x
    by (cases x) (simp add: amp_shared_region_poll_once_def Let_def case_prod_beta shv parts split: option.split)
  have dec: "snd (ibus_decide feed_hw fs x) = snd x" for fs x
    by (cases x) (simp add: ibus_decide_def motor_update_arm_gate_def rc_update_freshness_once_def Let_def
        case_prod_beta poll feed_tick)
  show ?thesis
    by (simp add: ibus_probe_poll_once_def Let_def case_prod_beta dbg rep out dec feed_tick)
qed

text \<open>What the two runs read.\<close>

definition core :: "fw \<Rightarrow> (bool list \<times> u32 list) \<times> u8 list \<times> nat" where
  "core s = (([ib_started s, g_sensor_ready s, g_amp_shm_ready s, g_amp_emergency_stop_latched s,
     g_rc_seen_arm_low s, g_rc_prev_arm_switch s, g_rc_arm_latched s],
     [ib_good_frames s, ib_last_frame_tick s, ib_last_i2c_tick s, ib_last_stage3_tick s, g_rc_last_frame_tick s]),
     ib_frame s, ib_index s)"

lemma core_tail: "tail_blind core" "tail_blind g_motor_armed"
  by (simp_all add: tail_blind_def pwm_blind_def core_def)

lemma core_decide: "core (motor_decide fs s) = core s"
  by (rule decide_frame) (simp_all add: control_blind_def core_def motor_force_safe_def motor_set_all_def)

lemma boot_fields:
  "g_amp_shm_ready fw_boot = False" "g_rc_seen_arm_low fw_boot = False" "g_rc_prev_arm_switch fw_boot = False"
  "g_rc_arm_latched fw_boot = False" "g_amp_emergency_stop_latched fw_boot = False" "g_rc_arm_allowed fw_boot = False"
  by (simp_all add: fw_boot_def)

lemma linked_inputs:
  "ibus_inputs feed_hw 5 (fw_linked, 0 # w) = (fw_linked\<lparr>g_uart3_last_lsr := 0\<rparr>, w)"
  by (simp add: ibus_inputs_def ibus_start_def ibus_drain_numeral uart3_read_byte_def ibus_sense_def
      pdMS_TO_TICKS_def fw_linked_def feed_hw_def Let_def)

lemma core_setpoint: "core (control_update_setpoint_once s) = core s"
  by (rule control_steps) (simp add: control_blind_def core_def)

lemma feed_decide:
  assumes "\<not> g_amp_shm_ready s" "\<not> fs" "ib_good_frames s > 0" "g_rc_last_frame_tick s = 5" "g_sensor_ready s"
    "\<not> g_rc_arm_latched s" "\<not> g_amp_emergency_stop_latched s"
    "ib_ch s ! 2 = 1000"
  shows "fst (ibus_decide feed_hw fs (s, w)) =
    motor_decide fs (arm_gate ((control_update_setpoint_once (rc_take_channels fs s))
      \<lparr>g_rc_arm_allowed := False, g_rc_frame_age_ms := 0\<rparr>))"
proof -
  let ?t = "control_update_setpoint_once (rc_take_channels fs s)"
  have same: "g_rc_last_frame_tick ?t = 5"
    using assms by (simp add: control_steps(2) [of g_rc_last_frame_tick] control_blind_def rc_take_channels_def)
  have "amp_shared_region_poll_once feed_hw (rc_take_channels fs s, w) = (rc_take_channels fs s, w)"
    using assms(1,2) by (simp add: amp_shared_region_poll_once_def amp_shared_region_get_def rc_take_channels_def)
  then show ?thesis
    using same
    by (simp add: ibus_decide_def motor_update_arm_gate_def rc_update_freshness_once_def Let_def
        case_prod_beta feed_tick rc_consts)
qed

lemma gate_low:
  "\<lbrakk>g_rc_valid s; g_sensor_ready s; g_rc_throttle_us s \<le> 1350; \<not> g_rc_arm_switch s\<rbrakk> \<Longrightarrow>
     arm_gate s = s\<lparr>g_rc_seen_arm_low := True, g_rc_arm_latched := False, g_motor_armed := False,
       g_rc_prev_arm_switch := False\<rparr>"
  by (simp add: arm_gate_def Let_def rc_consts not_less)

lemma gate_high:
  assumes "g_rc_valid s" "g_sensor_ready s" "g_rc_throttle_us s \<le> 1100" "g_rc_arm_switch s"
    "g_rc_seen_arm_low s" "\<not> g_rc_prev_arm_switch s"
  shows "g_motor_armed (arm_gate s)"
proof -
  have "g_rc_throttle_us s \<le> 1350" using assms(3) by (rule order_trans) simp
  moreover have "\<not> 1100 < g_rc_throttle_us s" using assms(3) by (simp only: not_less)
  ultimately show ?thesis using assms by (simp add: arm_gate_def Let_def rc_consts)
qed

lemma setpoint_frame:
  "ib_started (control_update_setpoint_once s) = ib_started s"
  "g_sensor_ready (control_update_setpoint_once s) = g_sensor_ready s"
  "g_amp_shm_ready (control_update_setpoint_once s) = g_amp_shm_ready s"
  "g_amp_emergency_stop_latched (control_update_setpoint_once s) = g_amp_emergency_stop_latched s"
  "g_rc_seen_arm_low (control_update_setpoint_once s) = g_rc_seen_arm_low s"
  "g_rc_prev_arm_switch (control_update_setpoint_once s) = g_rc_prev_arm_switch s"
  "g_rc_arm_latched (control_update_setpoint_once s) = g_rc_arm_latched s"
  "ib_good_frames (control_update_setpoint_once s) = ib_good_frames s"
  "ib_last_frame_tick (control_update_setpoint_once s) = ib_last_frame_tick s"
  "ib_last_i2c_tick (control_update_setpoint_once s) = ib_last_i2c_tick s"
  "ib_last_stage3_tick (control_update_setpoint_once s) = ib_last_stage3_tick s"
  "g_rc_last_frame_tick (control_update_setpoint_once s) = g_rc_last_frame_tick s"
  "ib_frame (control_update_setpoint_once s) = ib_frame s"
  "ib_index (control_update_setpoint_once s) = ib_index s"
  "g_rc_valid (control_update_setpoint_once s) = g_rc_valid s"
  "g_rc_throttle_us (control_update_setpoint_once s) = g_rc_throttle_us s"
  "g_rc_arm_switch (control_update_setpoint_once s) = g_rc_arm_switch s"
  by (rule control_steps, simp add: control_blind_def)+

lemma take_live:
  "\<lbrakk>\<not> fs; ib_good_frames s > 0\<rbrakk> \<Longrightarrow> rc_take_channels fs s =
     s\<lparr>g_rc_valid := True, g_rc_ch0_us := ucast (ib_ch s ! 0), g_rc_ch1_us := ucast (ib_ch s ! 1),
       g_rc_throttle_us := ucast (ib_ch s ! 2), g_rc_ch3_us := ucast (ib_ch s ! 3),
       g_rc_arm_switch := (ucast (ib_ch s ! 5) > RC_ARM_SWITCH_THRESHOLD_US)\<rparr>"
  by (simp add: rc_take_channels_def)

lemma linked_first:
  "core (fst (ibus_probe_poll_once feed_hw (fw_linked, 0 # w))) =
    (([True, True, False, False, True, False, False], [1, 5, 5, 5, 5]), take 31 high_frame @ [0], 31)"
proof -
  let ?s = "fw_linked\<lparr>g_uart3_last_lsr := 0\<rparr>"
  have fs: "\<not> rc_failsafe feed_hw 5 ?s"
    by (simp add: rc_failsafe_def fw_linked_def pdMS_TO_TICKS_def feed_hw_def)
  have d: "fst (ibus_decide feed_hw (rc_failsafe feed_hw 5 ?s) (?s, w)) =
      motor_decide False (arm_gate ((control_update_setpoint_once (rc_take_channels False ?s))
        \<lparr>g_rc_arm_allowed := False, g_rc_frame_age_ms := 0\<rparr>))"
    using fs by (subst feed_decide) (simp_all add: fw_linked_def boot_fields)
  show ?thesis
    unfolding poll_core [OF core_tail(1) feed_tick linked_inputs] d core_decide
    by (subst gate_low) (simp_all add: setpoint_frame take_live core_def fw_linked_def boot_fields rc_consts)
qed

lemma high_frame_parses:
  "ib_index s = 31 \<Longrightarrow> ib_frame s = take 31 high_frame @ [0] \<Longrightarrow>
   ibus_parse_byte 243 s = (1, s\<lparr>ib_frame := high_frame, ib_index := 0,
     ib_ch := [1500, 1500, 1000, 1500, 1500, 2000, 1500, 1500, 1500, 1500, 1500, 1500, 1500, 1500]\<rparr>)"
  by (simp add: ibus_parse_byte_def high_frame_def frame_checksum_def frame_word_def Let_def upt_rec)

lemma linked_second:
  assumes "core s = (([True, True, False, False, True, False, False], [1, 5, 5, 5, 5]),
    take 31 high_frame @ [0], 31)"
  shows "g_motor_armed (fst (ibus_probe_poll_once feed_hw (s, [1, 243, 0])))"
proof -
  from assms have c: "ib_started s" "g_sensor_ready s" "\<not> g_amp_shm_ready s" "\<not> g_amp_emergency_stop_latched s"
    "g_rc_seen_arm_low s" "\<not> g_rc_prev_arm_switch s" "\<not> g_rc_arm_latched s" "ib_good_frames s = 1"
    "ib_last_frame_tick s = 5" "ib_last_i2c_tick s = 5" "ib_last_stage3_tick s = 5"
    "ib_frame s = take 31 high_frame @ [0]" "ib_index s = 31" by (simp_all add: core_def)
  define t where "t = fst (snd (uart3_read_byte feed_hw (s, [1, 243, 0])))"
  have rd: "uart3_read_byte feed_hw (s, [1, 243, 0]) = (Some 243, t, [0])"
    by (simp add: t_def uart3_read_byte_def feed_hw_def)
  have t: "t = s\<lparr>g_uart3_last_lsr := 1, g_uart3_last_byte := 243\<rparr>"
    by (simp add: t_def uart3_read_byte_def feed_hw_def)
  obtain s1 where s1: "ibus_inputs feed_hw 5 (s, [1, 243, 0]) = (s1, [])" "ib_good_frames s1 = 2"
    "g_sensor_ready s1" "\<not> g_amp_shm_ready s1" "\<not> g_amp_emergency_stop_latched s1" "g_rc_seen_arm_low s1"
    "\<not> g_rc_prev_arm_switch s1" "\<not> g_rc_arm_latched s1" "ib_last_frame_tick s1 = 5" "g_rc_last_frame_tick s1 = 5"
    "ib_ch s1 = [1500, 1500, 1000, 1500, 1500, 2000, 1500, 1500, 1500, 1500, 1500, 1500, 1500, 1500]"
    using c by (simp add: ibus_inputs_def ibus_start_def ibus_drain_numeral rd ibus_rx_byte_def t
        high_frame_parses ibus_sense_def Let_def feed_tick)
       (simp add: uart3_read_byte_def feed_hw_def pdMS_TO_TICKS_def)
  have fs: "\<not> rc_failsafe feed_hw 5 s1" using s1 by (simp add: rc_failsafe_def pdMS_TO_TICKS_def feed_hw_def)
  have d: "fst (ibus_decide feed_hw (rc_failsafe feed_hw 5 s1) (s1, [])) =
      motor_decide False (arm_gate ((control_update_setpoint_once (rc_take_channels False s1))
        \<lparr>g_rc_arm_allowed := False, g_rc_frame_age_ms := 0\<rparr>))"
    using fs s1 by (subst feed_decide) simp_all
  let ?u = "(control_update_setpoint_once (rc_take_channels False s1))
    \<lparr>g_rc_arm_allowed := False, g_rc_frame_age_ms := 0\<rparr>"
  have "g_motor_armed (arm_gate ?u)"
    using s1 by (intro gate_high) (simp_all add: setpoint_frame take_live rc_consts)
  moreover have "g_sensor_ready (arm_gate ?u)" using gate_armed [OF calculation] by simp
  moreover have "\<not> g_amp_emergency_stop_latched (arm_gate ?u)"
    using s1 by (simp add: arm_gate_def Let_def setpoint_frame take_live)
  ultimately have "g_motor_armed (motor_decide False (arm_gate ?u))"
    by (simp add: motor_decide_def control_steps(6) control_blind_def)
  then show ?thesis unfolding poll_core [OF core_tail(2) feed_tick s1(1)] d .
qed

lemma linked_run: "g_motor_armed (fst (fw_run feed_hw 2 (fw_linked, [0, 1, 243, 0])))"
proof -
  obtain s where s: "ibus_probe_poll_once feed_hw (fw_linked, [0, 1, 243, 0]) = (s, [1, 243, 0])"
    using feed_world [of fw_linked "[0, 1, 243, 0]"] by (simp add: linked_inputs prod_eq_iff)
  have "core s = (([True, True, False, False, True, False, False], [1, 5, 5, 5, 5]), take 31 high_frame @ [0], 31)"
    using linked_first [of "[1, 243, 0]"] by (simp add: s)
  from linked_second [OF this] show ?thesis by (simp add: numeral_2_eq_2 s)
qed

section \<open>The properties\<close>

text \<open>C15: Whatever the bus, the radio and the other core do, one run of the handler hands the PWM driver only
  configurations with the 20 ms period and a pulse of 1.0 to 1.5 ms, and exactly 1.0 ms unless the run
  ends with the motors armed and enabled, a valid link, the arm switch high and latched, the throttle
  at most 1350, the sensors ready, no emergency stop and the start-up delay over. Stated for every
  predicate on worlds that the hardware keeps and a PWM call keeps for such configurations: with a
  world that records the calls, that all recorded ones are such.
\<close>

theorem poll_pwm_safe:
  assumes "hw_keeps H (pulse_ns_ok (motors_driven (fst (ibus_probe_poll_once H (s, w))))) P" "P w"
  shows "P (snd (ibus_probe_poll_once H (s, w)))"
  using assms by (rule poll_pwm)

lemma bench_keeps: "hw_keeps bench_hw Q (\<lambda>w. list_all Q (bn_pwm w))"
  by (simp add: hw_keeps_def bench_hw_def bench_load_def bench_store_def bench_pwm_def Let_def)

theorem poll_pwm_safe_witness:
  "list_all (pulse_ns_ok (motors_driven (fst (ibus_probe_poll_once bench_hw (fw_boot, bench0 [] 5 fresh_region)))))
     (bn_pwm (snd (ibus_probe_poll_once bench_hw (fw_boot, bench0 [] 5 fresh_region))))"
  by (rule poll_pwm_safe [OF bench_keeps]) (simp add: bench0_def)

text \<open>After every run of the handler the verdict is consistent: either all conditions to run hold, the
  safety reason is 0 and each motor's command is between 1000 and 1500, or the motors are disarmed and
  disabled, all four commands are 1000 and the safety reason names a cause.
\<close>

theorem poll_verdict_consistent:
  "s' = fst (ibus_probe_poll_once H (s, w)) \<Longrightarrow>
   (if motors_live s' then motor_all us_in_range (g_motor_pwm_us s') \<and> g_motor_safety_reason s' = 0
    else g_motor_pwm_us s' = Motors 1000 1000 1000 1000 \<and> \<not> g_motor_armed s' \<and>
         \<not> g_motor_output_enabled s' \<and> g_motor_safety_reason s' \<noteq> 0)"
proof -
  assume s': "s' = fst (ibus_probe_poll_once H (s, w))"
  obtain fs u where "verdict s' = verdict (motor_decide fs (arm_gate u))"
    unfolding s' by (rule poll_verdict)
  then have eqs: "motors_live s' = motors_live (motor_decide fs (arm_gate u))"
    "g_motor_pwm_us s' = g_motor_pwm_us (motor_decide fs (arm_gate u))"
    "g_motor_safety_reason s' = g_motor_safety_reason (motor_decide fs (arm_gate u))"
    "g_motor_armed s' = g_motor_armed (motor_decide fs (arm_gate u))"
    "g_motor_output_enabled s' = g_motor_output_enabled (motor_decide fs (arm_gate u))"
    by (simp_all add: verdict_def motors_live_def)
  show ?thesis unfolding eqs by (rule decide_outputs)
qed

theorem poll_verdict_consistent_witness:
  "if motors_live (fst (ibus_probe_poll_once bench_hw (fw_boot, bench0 [] 5 fresh_region))) then
     motor_all us_in_range (g_motor_pwm_us (fst (ibus_probe_poll_once bench_hw (fw_boot, bench0 [] 5 fresh_region)))) \<and>
     g_motor_safety_reason (fst (ibus_probe_poll_once bench_hw (fw_boot, bench0 [] 5 fresh_region))) = 0
   else g_motor_pwm_us (fst (ibus_probe_poll_once bench_hw (fw_boot, bench0 [] 5 fresh_region))) = Motors 1000 1000 1000 1000 \<and>
     \<not> g_motor_armed (fst (ibus_probe_poll_once bench_hw (fw_boot, bench0 [] 5 fresh_region))) \<and>
     \<not> g_motor_output_enabled (fst (ibus_probe_poll_once bench_hw (fw_boot, bench0 [] 5 fresh_region))) \<and>
     g_motor_safety_reason (fst (ibus_probe_poll_once bench_hw (fw_boot, bench0 [] 5 fresh_region))) \<noteq> 0"
  by (rule poll_verdict_consistent) (rule refl)

text \<open>C16: The motors end a run armed only if the arm switch is high, the link valid, the sensors ready and
  the throttle at most 1350, and either they were latched before the run or this run saw the switch go
  from low to high, after having seen it low, with the throttle at most 1100.
\<close>

theorem arming_is_a_transition:
  assumes "s' = fst (ibus_probe_poll_once H (s, w))" "g_motor_armed s'"
  shows "g_rc_valid s' \<and> g_sensor_ready s' \<and> g_rc_arm_switch s' \<and> g_rc_arm_latched s' \<and>
    g_rc_throttle_us s' \<le> 1350 \<and>
    (g_rc_arm_latched s \<or> g_rc_seen_arm_low s \<and> \<not> g_rc_prev_arm_switch s \<and> g_rc_throttle_us s' \<le> 1100)"
proof -
  obtain fs u where u: "verdict s' = verdict (motor_decide fs (arm_gate u))"
    "g_rc_arm_latched u \<longrightarrow> g_rc_arm_latched s" "g_rc_seen_arm_low u \<longrightarrow> g_rc_seen_arm_low s"
    "g_rc_prev_arm_switch u = g_rc_prev_arm_switch s"
    unfolding assms(1) by (rule poll_verdict)
  from u(1) assms(2) have "g_motor_armed (motor_decide fs (arm_gate u))" by (simp add: verdict_def)
  then have "g_motor_armed (arm_gate u)" by (rule decide_armed)
  from gate_armed [OF this] gate_memory(1) [OF this] u show ?thesis
    by (auto simp: verdict_def decide_same)
qed

theorem arming_is_a_transition_witness:
  "g_rc_arm_switch (fst (fw_run feed_hw 2 (fw_linked, [0, 1, 243, 0]))) \<and>
   g_rc_throttle_us (fst (fw_run feed_hw 2 (fw_linked, [0, 1, 243, 0]))) \<le> 1350"
proof -
  obtain s w where s: "fw_run feed_hw 1 (fw_linked, [0, 1, 243, 0]) = (s, w)"
    by (cases "fw_run feed_hw 1 (fw_linked, [0, 1, 243, 0])")
  then have r: "fw_run feed_hw 2 (fw_linked, [0, 1, 243, 0]) = ibus_probe_poll_once feed_hw (s, w)"
    by (simp add: numeral_2_eq_2)
  show ?thesis
    using arming_is_a_transition [OF refl, of feed_hw s w] linked_run unfolding r by simp
qed

text \<open>C17: From power-on, or any state in which the arm switch has not been seen low and the motors are not
  latched, no sequence of runs arms the motors unless an earlier run of it, or the last one, has ended
  with a valid link, ready sensors and the arm switch low.
\<close>

theorem armed_after_switch_low:
  assumes "\<not> g_rc_arm_latched s" "\<not> g_rc_seen_arm_low s" "\<not> g_motor_armed s"
    "g_motor_armed (fst (fw_run H n (s, w)))"
  shows "list_ex (\<lambda>k. switch_seen_low (fst (fw_run H k (s, w)))) [0..<Suc n]"
proof -
  have "g_rc_arm_latched (fst (fw_run H n (s, w)))"
  proof (cases n)
    case 0
    then show ?thesis using assms by simp
  next
    case (Suc k)
    obtain t v where k: "fw_run H k (s, w) = (t, v)" by (cases "fw_run H k (s, w)")
    have "g_motor_armed (fst (ibus_probe_poll_once H (t, v)))" using assms(4) by (simp add: Suc k)
    then show ?thesis using poll_armed_latched by (simp add: Suc k)
  qed
  then show ?thesis using assms(1,2) by (intro memory_needs_low) simp_all
qed

theorem armed_after_switch_low_witness:
  "list_ex (\<lambda>k. switch_seen_low (fst (fw_run feed_hw k (fw_linked, [0, 1, 243, 0])))) [0..<Suc 2]"
  by (rule armed_after_switch_low [OF _ _ _ linked_run]) (simp_all add: fw_linked_def fw_boot_def)

end
