(* ===== verification/FwInvariant.thy ===== *)
theory FwInvariant
  imports FwSafety "HOL-Library.Monad_Syntax"
begin

text \<open>
  What holds in every state of the firmware, on any hardware and for any contents of the shared region:
  the configuration stays in its limits, the control values in theirs, and with them the arithmetic of
  the control code is the arithmetic of \<open>int32_t\<close>: nothing overflows and nothing is divided by zero.
\<close>

section \<open>The invariant\<close>

definition config_ok :: "fw \<Rightarrow> bool" where
  "config_ok s \<longleftrightarrow>
     5 \<le> uint (g_config_deadzone_us s) \<and> uint (g_config_deadzone_us s) \<le> 80 \<and>
     8 \<le> uint (g_config_rate_roll_div s) \<and> uint (g_config_rate_roll_div s) \<le> 80 \<and>
     8 \<le> uint (g_config_rate_pitch_div s) \<and> uint (g_config_rate_pitch_div s) \<le> 80 \<and>
     8 \<le> uint (g_config_rate_yaw_div s) \<and> uint (g_config_rate_yaw_div s) \<le> 80 \<and>
     100 \<le> uint (g_config_angle_div s) \<and> uint (g_config_angle_div s) \<le> 1200"

definition bounded_by :: "int \<Rightarrow> int \<Rightarrow> bool" where
  "bounded_by b v \<longleftrightarrow> \<bar>v\<bar> \<le> b"

definition setpoint_ok :: "fw \<Rightarrow> bool" where
  "setpoint_ok s \<longleftrightarrow> bounded_by 2000 (g_sp_roll_cd s) \<and> bounded_by 2000 (g_sp_pitch_cd s) \<and>
     bounded_by 600 (g_sp_roll_rate_raw s) \<and> bounded_by 600 (g_sp_pitch_rate_raw s) \<and> bounded_by 500 (g_sp_yaw_rate_raw s)"

definition correction_ok :: "fw \<Rightarrow> bool" where
  "correction_ok s \<longleftrightarrow>
     bounded_by 40 (g_rate_corr_roll s) \<and> bounded_by 40 (g_rate_corr_pitch s) \<and> bounded_by 40 (g_rate_corr_yaw s) \<and>
     bounded_by 25 (g_angle_corr_roll s) \<and> bounded_by 25 (g_angle_corr_pitch s) \<and>
     bounded_by 40 (g_pid_roll s) \<and> bounded_by 40 (g_pid_pitch s) \<and> bounded_by 40 (g_pid_yaw s) \<and>
     motor_all (\<lambda>v. 1000 \<le> v \<and> v \<le> 1500) (g_mix s)"

definition sense_ok :: "fw \<Rightarrow> bool" where
  "sense_ok s \<longleftrightarrow> sensing_ok s \<and> sensor_chain s"

definition rc_ok :: "fw \<Rightarrow> bool" where
  "rc_ok s \<longleftrightarrow> uint (g_rc_ch0_us s) \<le> 65535 \<and> uint (g_rc_ch1_us s) \<le> 65535 \<and> uint (g_rc_ch3_us s) \<le> 65535"

definition fw_inv :: "fw \<Rightarrow> bool" where
  "fw_inv s \<longleftrightarrow> sense_ok s \<and> config_ok s \<and> setpoint_ok s \<and> correction_ok s \<and> rc_ok s"

lemmas inv_defs = fw_inv_def rc_ok_def sense_ok_def sensing_ok_def sensor_chain_def config_ok_def setpoint_ok_def correction_ok_def
  sensor_ranges_def attitude_ranges_def

lemma inv_boot: "fw_inv fw_boot"
proof -
  have "config_ok fw_boot" "setpoint_ok fw_boot" "correction_ok fw_boot" "rc_ok fw_boot"
    by (simp_all add: fw_boot_def rc_ok_def config_ok_def setpoint_ok_def correction_ok_def bounded_by_def)
  then show ?thesis using sensing_boot by (simp add: fw_inv_def sense_ok_def)
qed

text \<open>Which part a write of the control code touches.\<close>

lemma inv_sense_frame [simp]:
  "sense_ok (s\<lparr>g_config_deadzone_us := u\<rparr>) = sense_ok s"
  "sense_ok (s\<lparr>g_config_rate_roll_div := u\<rparr>) = sense_ok s"
  "sense_ok (s\<lparr>g_config_rate_pitch_div := u\<rparr>) = sense_ok s"
  "sense_ok (s\<lparr>g_config_rate_yaw_div := u\<rparr>) = sense_ok s"
  "sense_ok (s\<lparr>g_config_angle_div := u\<rparr>) = sense_ok s"
  "sense_ok (s\<lparr>g_sp_roll_cd := v\<rparr>) = sense_ok s"
  "sense_ok (s\<lparr>g_sp_pitch_cd := v\<rparr>) = sense_ok s"
  "sense_ok (s\<lparr>g_sp_roll_rate_raw := v\<rparr>) = sense_ok s"
  "sense_ok (s\<lparr>g_sp_pitch_rate_raw := v\<rparr>) = sense_ok s"
  "sense_ok (s\<lparr>g_sp_yaw_rate_raw := v\<rparr>) = sense_ok s"
  "sense_ok (s\<lparr>g_rate_corr_roll := v\<rparr>) = sense_ok s"
  "sense_ok (s\<lparr>g_rate_corr_pitch := v\<rparr>) = sense_ok s"
  "sense_ok (s\<lparr>g_rate_corr_yaw := v\<rparr>) = sense_ok s"
  "sense_ok (s\<lparr>g_angle_corr_roll := v\<rparr>) = sense_ok s"
  "sense_ok (s\<lparr>g_angle_corr_pitch := v\<rparr>) = sense_ok s"
  "sense_ok (s\<lparr>g_pid_roll := v\<rparr>) = sense_ok s"
  "sense_ok (s\<lparr>g_pid_pitch := v\<rparr>) = sense_ok s"
  "sense_ok (s\<lparr>g_pid_yaw := v\<rparr>) = sense_ok s"
  "sense_ok (s\<lparr>g_mix := n\<rparr>) = sense_ok s"
  "sense_ok (s\<lparr>g_motor_pwm_us := m\<rparr>) = sense_ok s"
  "sense_ok (s\<lparr>g_motor_armed := b\<rparr>) = sense_ok s"
  "sense_ok (s\<lparr>g_motor_output_enabled := b\<rparr>) = sense_ok s"
  "sense_ok (s\<lparr>g_motor_safety_reason := u\<rparr>) = sense_ok s"
  "sense_ok (s\<lparr>g_sp_throttle_us := u\<rparr>) = sense_ok s"
  by (simp_all add: sense_ok_def sensing_ok_def sensor_chain_def sensor_ranges_def attitude_ranges_def)

lemma inv_config_frame [simp]:
  "config_ok (s\<lparr>g_sp_roll_cd := v\<rparr>) = config_ok s"
  "config_ok (s\<lparr>g_sp_pitch_cd := v\<rparr>) = config_ok s"
  "config_ok (s\<lparr>g_sp_roll_rate_raw := v\<rparr>) = config_ok s"
  "config_ok (s\<lparr>g_sp_pitch_rate_raw := v\<rparr>) = config_ok s"
  "config_ok (s\<lparr>g_sp_yaw_rate_raw := v\<rparr>) = config_ok s"
  "config_ok (s\<lparr>g_rate_corr_roll := v\<rparr>) = config_ok s"
  "config_ok (s\<lparr>g_rate_corr_pitch := v\<rparr>) = config_ok s"
  "config_ok (s\<lparr>g_rate_corr_yaw := v\<rparr>) = config_ok s"
  "config_ok (s\<lparr>g_angle_corr_roll := v\<rparr>) = config_ok s"
  "config_ok (s\<lparr>g_angle_corr_pitch := v\<rparr>) = config_ok s"
  "config_ok (s\<lparr>g_pid_roll := v\<rparr>) = config_ok s"
  "config_ok (s\<lparr>g_pid_pitch := v\<rparr>) = config_ok s"
  "config_ok (s\<lparr>g_pid_yaw := v\<rparr>) = config_ok s"
  "config_ok (s\<lparr>g_mix := n\<rparr>) = config_ok s"
  "config_ok (s\<lparr>g_motor_pwm_us := m\<rparr>) = config_ok s"
  "config_ok (s\<lparr>g_motor_armed := b\<rparr>) = config_ok s"
  "config_ok (s\<lparr>g_motor_output_enabled := b\<rparr>) = config_ok s"
  "config_ok (s\<lparr>g_motor_safety_reason := u\<rparr>) = config_ok s"
  "config_ok (s\<lparr>g_sp_throttle_us := u\<rparr>) = config_ok s"
  by (simp_all add: config_ok_def)

lemma inv_setpoint_frame [simp]:
  "setpoint_ok (s\<lparr>g_config_deadzone_us := u\<rparr>) = setpoint_ok s"
  "setpoint_ok (s\<lparr>g_config_rate_roll_div := u\<rparr>) = setpoint_ok s"
  "setpoint_ok (s\<lparr>g_config_rate_pitch_div := u\<rparr>) = setpoint_ok s"
  "setpoint_ok (s\<lparr>g_config_rate_yaw_div := u\<rparr>) = setpoint_ok s"
  "setpoint_ok (s\<lparr>g_config_angle_div := u\<rparr>) = setpoint_ok s"
  "setpoint_ok (s\<lparr>g_rate_corr_roll := v\<rparr>) = setpoint_ok s"
  "setpoint_ok (s\<lparr>g_rate_corr_pitch := v\<rparr>) = setpoint_ok s"
  "setpoint_ok (s\<lparr>g_rate_corr_yaw := v\<rparr>) = setpoint_ok s"
  "setpoint_ok (s\<lparr>g_angle_corr_roll := v\<rparr>) = setpoint_ok s"
  "setpoint_ok (s\<lparr>g_angle_corr_pitch := v\<rparr>) = setpoint_ok s"
  "setpoint_ok (s\<lparr>g_pid_roll := v\<rparr>) = setpoint_ok s"
  "setpoint_ok (s\<lparr>g_pid_pitch := v\<rparr>) = setpoint_ok s"
  "setpoint_ok (s\<lparr>g_pid_yaw := v\<rparr>) = setpoint_ok s"
  "setpoint_ok (s\<lparr>g_mix := n\<rparr>) = setpoint_ok s"
  "setpoint_ok (s\<lparr>g_motor_pwm_us := m\<rparr>) = setpoint_ok s"
  "setpoint_ok (s\<lparr>g_motor_armed := b\<rparr>) = setpoint_ok s"
  "setpoint_ok (s\<lparr>g_motor_output_enabled := b\<rparr>) = setpoint_ok s"
  "setpoint_ok (s\<lparr>g_motor_safety_reason := u\<rparr>) = setpoint_ok s"
  "setpoint_ok (s\<lparr>g_sp_throttle_us := u\<rparr>) = setpoint_ok s"
  by (simp_all add: setpoint_ok_def)

lemma inv_correction_frame [simp]:
  "correction_ok (s\<lparr>g_config_deadzone_us := u\<rparr>) = correction_ok s"
  "correction_ok (s\<lparr>g_config_rate_roll_div := u\<rparr>) = correction_ok s"
  "correction_ok (s\<lparr>g_config_rate_pitch_div := u\<rparr>) = correction_ok s"
  "correction_ok (s\<lparr>g_config_rate_yaw_div := u\<rparr>) = correction_ok s"
  "correction_ok (s\<lparr>g_config_angle_div := u\<rparr>) = correction_ok s"
  "correction_ok (s\<lparr>g_sp_roll_cd := v\<rparr>) = correction_ok s"
  "correction_ok (s\<lparr>g_sp_pitch_cd := v\<rparr>) = correction_ok s"
  "correction_ok (s\<lparr>g_sp_roll_rate_raw := v\<rparr>) = correction_ok s"
  "correction_ok (s\<lparr>g_sp_pitch_rate_raw := v\<rparr>) = correction_ok s"
  "correction_ok (s\<lparr>g_sp_yaw_rate_raw := v\<rparr>) = correction_ok s"
  "correction_ok (s\<lparr>g_motor_pwm_us := m\<rparr>) = correction_ok s"
  "correction_ok (s\<lparr>g_motor_armed := b\<rparr>) = correction_ok s"
  "correction_ok (s\<lparr>g_motor_output_enabled := b\<rparr>) = correction_ok s"
  "correction_ok (s\<lparr>g_motor_safety_reason := u\<rparr>) = correction_ok s"
  "correction_ok (s\<lparr>g_sp_throttle_us := u\<rparr>) = correction_ok s"
  by (simp_all add: correction_ok_def)

lemma inv_rc_frame [simp]:
  "rc_ok (s\<lparr>g_config_deadzone_us := u\<rparr>) = rc_ok s"
  "rc_ok (s\<lparr>g_config_rate_roll_div := u\<rparr>) = rc_ok s"
  "rc_ok (s\<lparr>g_config_rate_pitch_div := u\<rparr>) = rc_ok s"
  "rc_ok (s\<lparr>g_config_rate_yaw_div := u\<rparr>) = rc_ok s"
  "rc_ok (s\<lparr>g_config_angle_div := u\<rparr>) = rc_ok s"
  "rc_ok (s\<lparr>g_sp_roll_cd := v\<rparr>) = rc_ok s"
  "rc_ok (s\<lparr>g_sp_pitch_cd := v\<rparr>) = rc_ok s"
  "rc_ok (s\<lparr>g_sp_roll_rate_raw := v\<rparr>) = rc_ok s"
  "rc_ok (s\<lparr>g_sp_pitch_rate_raw := v\<rparr>) = rc_ok s"
  "rc_ok (s\<lparr>g_sp_yaw_rate_raw := v\<rparr>) = rc_ok s"
  "rc_ok (s\<lparr>g_rate_corr_roll := v\<rparr>) = rc_ok s"
  "rc_ok (s\<lparr>g_rate_corr_pitch := v\<rparr>) = rc_ok s"
  "rc_ok (s\<lparr>g_rate_corr_yaw := v\<rparr>) = rc_ok s"
  "rc_ok (s\<lparr>g_angle_corr_roll := v\<rparr>) = rc_ok s"
  "rc_ok (s\<lparr>g_angle_corr_pitch := v\<rparr>) = rc_ok s"
  "rc_ok (s\<lparr>g_pid_roll := v\<rparr>) = rc_ok s"
  "rc_ok (s\<lparr>g_pid_pitch := v\<rparr>) = rc_ok s"
  "rc_ok (s\<lparr>g_pid_yaw := v\<rparr>) = rc_ok s" "rc_ok (s\<lparr>g_mix := n\<rparr>) = rc_ok s"
  "rc_ok (s\<lparr>g_motor_pwm_us := m\<rparr>) = rc_ok s"
  "rc_ok (s\<lparr>g_motor_armed := b\<rparr>) = rc_ok s"
  "rc_ok (s\<lparr>g_motor_output_enabled := b\<rparr>) = rc_ok s"
  "rc_ok (s\<lparr>g_motor_safety_reason := u\<rparr>) = rc_ok s"
  "rc_ok (s\<lparr>g_sp_throttle_us := u\<rparr>) = rc_ok s"
  by (simp_all add: rc_ok_def)

text \<open>Fields it does not mention.\<close>

lemma inv_frame [simp]:
  "fw_inv (s\<lparr>g_rc_valid := b\<rparr>) = fw_inv s" "fw_inv (s\<lparr>g_rc_arm_switch := b\<rparr>) = fw_inv s"
  "fw_inv (s\<lparr>g_rc_arm_allowed := b\<rparr>) = fw_inv s" "fw_inv (s\<lparr>g_rc_seen_arm_low := b\<rparr>) = fw_inv s"
  "fw_inv (s\<lparr>g_rc_arm_latched := b\<rparr>) = fw_inv s" "fw_inv (s\<lparr>g_rc_prev_arm_switch := b\<rparr>) = fw_inv s"
  "fw_inv (s\<lparr>g_motor_armed := b\<rparr>) = fw_inv s" "fw_inv (s\<lparr>g_motor_output_enabled := b\<rparr>) = fw_inv s"
  "fw_inv (s\<lparr>g_rc_throttle_us := u\<rparr>) = fw_inv s"
  "fw_inv (s\<lparr>g_rc_frame_age_ms := u\<rparr>) = fw_inv s" "fw_inv (s\<lparr>g_rc_last_frame_tick := u\<rparr>) = fw_inv s"
  "fw_inv (s\<lparr>g_motor_safety_reason := u\<rparr>) = fw_inv s" "fw_inv (s\<lparr>g_sp_throttle_us := u\<rparr>) = fw_inv s"
  "fw_inv (s\<lparr>g_amp_shm_poll_count := u\<rparr>) = fw_inv s" "fw_inv (s\<lparr>g_amp_last_emergency_seq := u\<rparr>) = fw_inv s"
  "fw_inv (s\<lparr>g_amp_last_config_slot_seq := u\<rparr>) = fw_inv s" "fw_inv (s\<lparr>g_amp_last_config_update_seq := u\<rparr>) = fw_inv s"
  "fw_inv (s\<lparr>g_amp_config_seq := u\<rparr>) = fw_inv s" "fw_inv (s\<lparr>g_amp_config_update_count := u\<rparr>) = fw_inv s"
  "fw_inv (s\<lparr>g_amp_last_arm_seq := u\<rparr>) = fw_inv s" "fw_inv (s\<lparr>g_amp_last_setpoint_seq := u\<rparr>) = fw_inv s"
  "fw_inv (s\<lparr>g_amp_emergency_stop_latched := b\<rparr>) = fw_inv s" "fw_inv (s\<lparr>g_motor_pwm_us := m\<rparr>) = fw_inv s"
  by (simp_all add: inv_defs)

lemma inv_tail: "tail_blind fw_inv"
  by (simp add: tail_blind_def pwm_blind_def inv_defs)

section \<open>The shared region\<close>

lemma uint_clamp_u32: "uint lo \<le> uint hi \<Longrightarrow> uint lo \<le> uint (clamp_u32 v lo hi) \<and> uint (clamp_u32 v lo hi) \<le> uint hi"
  by (auto simp: clamp_u32_def word_less_def)

lemma div_in_range:
  assumes "uint lo \<le> uint hi" "uint lo \<le> uint fb" "uint fb \<le> uint hi"
  shows "uint lo \<le> uint (amp_config_float_to_div H v fb lo hi)" "uint (amp_config_float_to_div H v fb lo hi) \<le> uint hi"
  using assms uint_clamp_u32 [OF assms(1)] by (simp_all add: amp_config_float_to_div_def)

lemma inv_config:
  "\<lbrakk>fw_inv s; 5 \<le> uint d; uint d \<le> 80\<rbrakk> \<Longrightarrow> fw_inv (s\<lparr>g_config_deadzone_us := d\<rparr>)"
  "\<lbrakk>fw_inv s; 8 \<le> uint r; uint r \<le> 80; 100 \<le> uint a; uint a \<le> 1200\<rbrakk> \<Longrightarrow>
     fw_inv (s\<lparr>g_config_rate_roll_div := r, g_config_rate_pitch_div := r, g_config_rate_yaw_div := r,
       g_config_angle_div := a\<rparr>)"
  by (simp_all add: fw_inv_def) (simp_all add: config_ok_def)

lemma inv_divs: "fw_inv s \<Longrightarrow> 8 \<le> uint (g_config_rate_roll_div s) \<and> uint (g_config_rate_roll_div s) \<le> 80 \<and>
    100 \<le> uint (g_config_angle_div s) \<and> uint (g_config_angle_div s) \<le> 1200"
  by (simp add: fw_inv_def config_ok_def)

lemma inv_force_safe: "fw_inv s \<Longrightarrow> fw_inv (motor_force_safe r s)"
  by (simp add: motor_force_safe_def motor_set_all_def Let_def fw_inv_def)
    (simp add: setpoint_ok_def correction_ok_def bounded_by_def motor_consts)

lemma inv_poll_config:
  assumes "fw_inv s"
  shows "fw_inv (fst (amp_poll_config H p (s, w)))"
proof -
  have dz: "fw_inv (if d \<noteq> 0 then t\<lparr>g_config_deadzone_us := clamp_u32 d 5 80\<rparr> else t)" if "fw_inv t" for d t
    using inv_config(1) [OF that] uint_clamp_u32 [of 5 80 d] that by simp
  have rate: "8 \<le> uint (amp_config_float_to_div H v (g_config_rate_roll_div t) 8 80) \<and>
      uint (amp_config_float_to_div H v (g_config_rate_roll_div t) 8 80) \<le> 80" if "fw_inv t" for t v
    using div_in_range [of 8 80 "g_config_rate_roll_div t" H v] inv_divs [OF that] by simp
  have angle: "100 \<le> uint (amp_config_float_to_div H v (g_config_angle_div t) 100 1200) \<and>
      uint (amp_config_float_to_div H v (g_config_angle_div t) 100 1200) \<le> 1200" if "fw_inv t" for t v
    using div_in_range [of 100 1200 "g_config_angle_div t" H v] inv_divs [OF that] by simp
  have divs: "fw_inv (t\<lparr>g_config_rate_roll_div := amp_config_float_to_div H v (g_config_rate_roll_div t) 8 80,
      g_config_rate_pitch_div := amp_config_float_to_div H v (g_config_rate_roll_div t) 8 80,
      g_config_rate_yaw_div := amp_config_float_to_div H v (g_config_rate_roll_div t) 8 80,
      g_config_angle_div := amp_config_float_to_div H u (g_config_angle_div t) 100 1200\<rparr>)" if "fw_inv t" for t v u
    using inv_config(2) [OF that] rate [OF that] angle [OF that] by simp
  define t where "t a b = s\<lparr>g_amp_last_config_slot_seq := a, g_amp_last_config_update_seq := b,
      g_amp_config_seq := a, g_amp_config_update_count := g_amp_config_update_count s + 1\<rparr>" for a b
  have t: "fw_inv (t a b)" for a b using assms by (simp add: t_def)
  obtain a w1 where 1: "shm_get H p (\<lambda>r. slot_seq (sr_config r)) w = (a, w1)"
    by (cases "shm_get H p (\<lambda>r. slot_seq (sr_config r)) w")
  obtain b w2 where 2: "shm_get H p (\<lambda>r. fc_update_seq (slot_payload (sr_config r))) w1 = (b, w2)"
    by (cases "shm_get H p (\<lambda>r. fc_update_seq (slot_payload (sr_config r))) w1")
  obtain d w3 where 3: "shm_get H p (\<lambda>r. ucast (fc_deadzone_us (slot_payload (sr_config r))) :: u32) w2 = (d, w3)"
    by (cases "shm_get H p (\<lambda>r. ucast (fc_deadzone_us (slot_payload (sr_config r))) :: u32) w2")
  obtain v w4 where 4: "shm_get H p (\<lambda>r. fc_rate_p (slot_payload (sr_config r))) w3 = (v, w4)"
    by (cases "shm_get H p (\<lambda>r. fc_rate_p (slot_payload (sr_config r))) w3")
  obtain z w5 where 5: "shm_get H p (\<lambda>r. fc_angle_p (slot_payload (sr_config r))) w4 = (z, w5)"
    by (cases "shm_get H p (\<lambda>r. fc_angle_p (slot_payload (sr_config r))) w4")
  define x where "x = (if d \<noteq> 0 then (t a b)\<lparr>g_config_deadzone_us := clamp_u32 d 5 80\<rparr> else t a b)"
  have x: "fw_inv x" unfolding x_def by (rule dz [OF t])
  have "fst (amp_poll_config H p (s, w)) = s \<or> fst (amp_poll_config H p (s, w)) =
      x\<lparr>g_config_rate_roll_div := amp_config_float_to_div H v (g_config_rate_roll_div x) 8 80,
        g_config_rate_pitch_div := amp_config_float_to_div H v (g_config_rate_roll_div x) 8 80,
        g_config_rate_yaw_div := amp_config_float_to_div H v (g_config_rate_roll_div x) 8 80,
        g_config_angle_div := amp_config_float_to_div H z (g_config_angle_div x) 100 1200\<rparr>"
    unfolding amp_poll_config_def Let_def prod.case 1 2 3 4 5 t_def [symmetric] x_def [symmetric]
    by (simp only: if_split fst_conv split: if_split) blast
  then show ?thesis using assms divs [OF x] by (elim disjE) (simp_all only:)
qed

lemma inv_shm:
  assumes "fw_inv s"
  shows "fw_inv (fst (amp_shared_region_poll_once H (s, w)))"
proof -
  have em: "fw_inv (fst (amp_poll_emergency H p x)) = fw_inv (fst x)" for p x
    by (cases x) (simp add: amp_poll_emergency_def Let_def case_prod_beta)
  have sq: "fw_inv (fst (amp_poll_seqs H p x)) = fw_inv (fst x)" for p x
    by (cases x) (simp add: amp_poll_seqs_def Let_def case_prod_beta)
  have cf: "fw_inv (fst (amp_poll_config H p x))" if "fw_inv (fst x)" for p x
    using inv_poll_config that by (cases x) simp
  show ?thesis
    using assms
    by (simp add: amp_shared_region_poll_once_def Let_def case_prod_beta sq split: option.split)
      (intro allI conjI impI cf; simp add: em inv_force_safe)
qed

section \<open>Setpoints, corrections, mixer\<close>

lemma deadband_bound: "\<bar>rc_norm_deadband s us\<bar> \<le> 500"
  using clamp_i32_range [of "- 500" 500 "us - 1500"] by (auto simp: rc_norm_deadband_def Let_def abs_le_iff)

lemma scaled_bound:
  assumes "\<bar>v\<bar> \<le> 500" "0 \<le> k"
  shows "\<bar>(v * k) sdiv 500\<bar> \<le> (k :: int)"
proof -
  have "\<bar>v * k\<bar> div 500 \<le> (500 * k) div 500"
    using assms by (intro zdiv_mono1) (simp_all add: abs_mult mult_right_mono)
  then show ?thesis using abs_sdiv [of 500 "v * k"] by simp
qed

lemma inv_setpoint: "fw_inv s \<Longrightarrow> fw_inv (control_update_setpoint_once s)"
  using deadband_bound [of s] scaled_bound
  by (simp add: control_update_setpoint_once_def Let_def fw_inv_def)
    (simp add: setpoint_ok_def bounded_by_def rc_norm_deadband_def)

lemma clamp_bounded: "0 \<le> b \<Longrightarrow> bounded_by b (clamp_i32 v (- b) b)"
  using clamp_i32_range [of "- b" b v] by (simp add: bounded_by_def abs_le_iff)

lemma bounded_0 [simp]: "bounded_by 40 0" "bounded_by 25 0"
  by (simp_all add: bounded_by_def)

lemma inv_corrections:
  assumes "fw_inv s" "bounded_by 40 rr" "bounded_by 40 rp" "bounded_by 40 ry" "bounded_by 25 ar" "bounded_by 25 ap"
    "bounded_by 40 pr" "bounded_by 40 pp" "bounded_by 40 py"
  shows "fw_inv (s\<lparr>g_rate_corr_roll := rr, g_rate_corr_pitch := rp, g_rate_corr_yaw := ry\<rparr>)"
    "fw_inv (s\<lparr>g_angle_corr_roll := ar\<rparr>)" "fw_inv (s\<lparr>g_angle_corr_pitch := ap\<rparr>)"
    "fw_inv (s\<lparr>g_pid_roll := pr, g_pid_pitch := pp, g_pid_yaw := py\<rparr>)"
    "fw_inv (s\<lparr>g_pid_roll := pr, g_pid_pitch := pp, g_pid_yaw := py, g_angle_corr_roll := ar,
       g_angle_corr_pitch := ap, g_rate_corr_roll := rr, g_rate_corr_pitch := rp, g_rate_corr_yaw := ry\<rparr>)"
  using assms by (simp_all add: fw_inv_def) (simp_all add: correction_ok_def)

lemma inv_pid:
  assumes "fw_inv s"
  shows "fw_inv (control_update_pid_once s)"
proof -
  note C = inv_corrections [OF _ clamp_bounded [of 40] clamp_bounded [of 40] clamp_bounded [of 40]
      clamp_bounded [of 25] clamp_bounded [of 25] clamp_bounded [of 40] clamp_bounded [of 40] clamp_bounded [of 40]]
  define t where "t = s\<lparr>g_pid_roll := 0, g_pid_pitch := 0, g_pid_yaw := 0, g_angle_corr_roll := 0,
      g_angle_corr_pitch := 0, g_rate_corr_roll := 0, g_rate_corr_pitch := 0, g_rate_corr_yaw := 0\<rparr>"
  have t: "fw_inv t" unfolding t_def by (rule inv_corrections(5)) (use assms in simp_all)
  define q where "q = control_update_setpoint_once t"
  have q: "fw_inv q" unfolding q_def by (rule inv_setpoint [OF t])
  define a where "a = q\<lparr>
      g_rate_corr_roll := clamp_i32 ((g_sp_roll_rate_raw q - g_body_rate_roll_raw q) sdiv sint (g_config_rate_roll_div q)) (- 40) 40,
      g_rate_corr_pitch := clamp_i32 ((g_sp_pitch_rate_raw q - g_body_rate_pitch_raw q) sdiv sint (g_config_rate_pitch_div q)) (- 40) 40,
      g_rate_corr_yaw := clamp_i32 ((g_sp_yaw_rate_raw q - g_body_rate_yaw_raw q) sdiv sint (g_config_rate_yaw_div q)) (- 40) 40\<rparr>"
  have a: "fw_inv a" unfolding a_def by (rule C(1) [OF q]) simp_all
  define b where "b = (if g_sp_roll_rate_raw a = 0 then a\<lparr>g_angle_corr_roll :=
      clamp_i32 ((- 1 * g_body_roll_cd a) sdiv sint (g_config_angle_div a)) (- 25) 25\<rparr> else a)"
  have b: "fw_inv b" unfolding b_def using C(2) [OF a] a by simp
  define c where "c = (if g_sp_pitch_rate_raw b = 0 then b\<lparr>g_angle_corr_pitch :=
      clamp_i32 ((- 1 * g_body_pitch_cd b) sdiv sint (g_config_angle_div b)) (- 25) 25\<rparr> else b)"
  have c: "fw_inv c" unfolding c_def using C(3) [OF b] b by simp
  have "control_update_pid_once s = (if \<not> g_sensor_ready t \<or> \<not> g_att_ok t \<or> \<not> g_rc_valid t then t
      else c\<lparr>g_pid_roll := clamp_i32 (g_rate_corr_roll c + g_angle_corr_roll c) (- 40) 40,
               g_pid_pitch := clamp_i32 (g_rate_corr_pitch c + g_angle_corr_pitch c) (- 40) 40,
               g_pid_yaw := clamp_i32 (g_rate_corr_yaw c) (- 40) 40\<rparr>)"
    unfolding control_update_pid_once_def Let_def t_def [symmetric] q_def [symmetric] a_def [symmetric]
      b_def [symmetric] c_def [symmetric] by (rule refl)
  then show ?thesis using t C(4) [OF c] by simp
qed

lemma inv_outputs: "fw_inv s \<Longrightarrow> fw_inv (motor_update_control_outputs s)"
proof -
  assume s: "fw_inv s"
  have set: "fw_inv (motor_set_all us t) = fw_inv t" for us t by (simp add: motor_set_all_def Let_def)
  have fl: "fw_inv (control_apply_active_throttle_floor_once t) = fw_inv t" for t
    by (simp add: control_apply_active_throttle_floor_once_def Let_def)
  have mix: "fw_inv (control_update_mixer_once t)" if "fw_inv t" for t
    using that clamp_test_range
    by (simp add: control_update_mixer_once_def Let_def fw_inv_def)
      (simp add: correction_ok_def motor_map_def motor_all_def)
  show ?thesis using s by (simp add: motor_update_control_outputs_def Let_def set fl mix inv_pid)
qed

lemma inv_decide: "fw_inv s \<Longrightarrow> fw_inv (motor_decide fs s)"
  by (simp add: motor_decide_def inv_force_safe inv_outputs)

section \<open>One run\<close>

lemma inv_gate: "fw_inv (fst (rc_update_freshness_once H (s, w))) = fw_inv s" "fw_inv (arm_gate s) = fw_inv s"
  by (simp_all add: rc_update_freshness_once_def arm_gate_def Let_def case_prod_beta)

lemma inv_channels:
  assumes "fw_inv s"
  shows "fw_inv (rc_take_channels fs s)"
proof -
  have "uint (ucast (x :: u16) :: u32) \<le> 65535" for x
  proof -
    have "uint (ucast x :: u32) = int (unat x)" by (simp only: uint_nat) (simp add: unat_ucast_up)
    also have "\<dots> = uint x" by (rule uint_nat [symmetric])
    also have "\<dots> < 2 ^ 16" using unsigned_less [of x, where 'a = int] by simp
    finally show ?thesis by simp
  qed
  then have "rc_ok (rc_take_channels fs s)" by (simp add: rc_take_channels_def rc_ok_def)
  moreover have "sense_ok (rc_take_channels fs s) = sense_ok s" "config_ok (rc_take_channels fs s) = config_ok s"
    "setpoint_ok (rc_take_channels fs s) = setpoint_ok s" "correction_ok (rc_take_channels fs s) = correction_ok s"
    by (simp_all add: rc_take_channels_def sense_ok_def sensing_ok_def sensor_chain_def sensor_ranges_def
        attitude_ranges_def config_ok_def setpoint_ok_def correction_ok_def)
  ultimately show ?thesis using assms by (simp add: fw_inv_def)
qed

lemma inv_ibus_decide: "fw_inv s \<Longrightarrow> fw_inv (fst (ibus_decide H fs (s, w)))"
  by (simp add: ibus_decide_def motor_update_arm_gate_def Let_def case_prod_beta inv_decide inv_gate
      inv_setpoint inv_shm inv_channels)

lemma inv_inputs:
  assumes "fw_inv (fst sw)"
  shows "fw_inv (fst (ibus_inputs H now sw))"
proof -
  let ?rest = "\<lambda>s. config_ok s \<and> setpoint_ok s \<and> correction_ok s \<and> rc_ok s"
  have "input_blind ?rest"
    by (simp add: input_blind_def sensing_blind_def config_ok_def setpoint_ok_def correction_ok_def rc_ok_def)
  from inputs_blind [OF this, of H now sw] have rest: "?rest (fst (ibus_inputs H now sw))"
    using assms by (simp add: fw_inv_def)
  have B: "sense_ok (s\<lparr>g_uart3_last_lsr := u\<rparr>) = sense_ok s" "sense_ok (s\<lparr>g_uart3_last_byte := u\<rparr>) = sense_ok s"
    "sense_ok (s\<lparr>ib_last_frame_tick := u\<rparr>) = sense_ok s" "sense_ok (s\<lparr>ib_good_frames := u\<rparr>) = sense_ok s"
    "sense_ok (s\<lparr>ib_bad_frames := u\<rparr>) = sense_ok s" "sense_ok (s\<lparr>ib_rx_bytes := u\<rparr>) = sense_ok s"
    "sense_ok (s\<lparr>ib_header20 := u\<rparr>) = sense_ok s" "sense_ok (s\<lparr>ib_header2040 := u\<rparr>) = sense_ok s"
    "sense_ok (s\<lparr>ib_last_i2c_tick := u\<rparr>) = sense_ok s" "sense_ok (s\<lparr>ib_last_stage3_tick := u\<rparr>) = sense_ok s"
    "sense_ok (s\<lparr>g_rc_last_frame_tick := u\<rparr>) = sense_ok s" "sense_ok (s\<lparr>g_stage3_step_count := u\<rparr>) = sense_ok s"
    "sense_ok (s\<lparr>ib_last_b := c\<rparr>) = sense_ok s" "sense_ok (s\<lparr>ib_prev_b := c\<rparr>) = sense_ok s"
    "sense_ok (s\<lparr>ib_started := b\<rparr>) = sense_ok s" "sense_ok (s\<lparr>g_stage3_actuator_map_ok := b\<rparr>) = sense_ok s"
    "sense_ok (s\<lparr>g_stage3_external_enabled := b\<rparr>) = sense_ok s" "sense_ok (s\<lparr>ib_frame := x\<rparr>) = sense_ok s"
    "sense_ok (s\<lparr>ib_index := n\<rparr>) = sense_ok s" "sense_ok (s\<lparr>ib_ch := y\<rparr>) = sense_ok s"
    "sense_ok (s\<lparr>g_amp_dbg := z\<rparr>) = sense_ok s" for s u c b x n y z
    by (simp_all add: sense_ok_def sensing_ok_def sensor_chain_def sensor_ranges_def attitude_ranges_def)
  have probe: "sense_ok (fst (amp_i2c_probe_once H x))" if "sense_ok (fst x)" for x
    using ok_probe [of x H] that by (simp add: sense_ok_def)
  have sense: "sense_ok (fst (ibus_sense H now x))" if "sense_ok (fst x)" for x
    using probe that by (cases x) (simp add: ibus_sense_def stage3_flight_node_step_legacy_fallback_def Let_def
        case_prod_beta B)
  have st: "sense_ok (fst (ibus_start H sw)) = sense_ok (fst sw)"
    by (cases sw) (simp add: ibus_start_def amp_dbg_clear_def Let_def B)
  have rd: "sense_ok (fst (snd (uart3_read_byte H (s, w)))) = sense_ok s" for s w
    by (simp add: uart3_read_byte_def Let_def case_prod_beta B)
  have parse: "sense_ok (snd (ibus_parse_byte b s)) = sense_ok s" for b s
    by (simp add: ibus_parse_byte_def Let_def B)
  have rx: "sense_ok (fst (ibus_rx_byte H now b (s, w))) = sense_ok s" for b s w
    by (simp add: ibus_rx_byte_def Let_def case_prod_beta parse B)
  have drain: "sense_ok (fst (ibus_drain H now n x)) = sense_ok (fst x)" for n x
  proof (induction n arbitrary: x)
    case (Suc n)
    obtain s w where x: "x = (s, w)" by (cases x)
    obtain r s' w' where r: "uart3_read_byte H (s, w) = (r, s', w')" by (cases "uart3_read_byte H (s, w)") auto
    show ?case using Suc.IH rx rd [of s w] by (cases r) (simp_all add: x r)
  qed simp
  show ?thesis using assms rest sense drain st by (simp add: fw_inv_def ibus_inputs_def)
qed

lemma inv_poll:
  assumes "fw_inv s"
  shows "fw_inv (fst (ibus_probe_poll_once H (s, w)))"
proof -
  obtain now w0 s1 w1 s2 w2 s3 w3 s4 w4 where st: "xTaskGetTickCount H w = (now, w0)"
    "ibus_inputs H now (s, w0) = (s1, w1)" "ibus_decide H (rc_failsafe H now s1) (s1, w1) = (s2, w2)"
    "motor_apply_outputs H (s2, w2) = (s3, w3)" "amp_shared_region_write_rt_report_once H (s3, w3) = (s4, w4)"
    "ibus_probe_poll_once H (s, w) = ibus_debug H now (rc_failsafe H now s1) (s4, w4)"
    by (rule poll_stages)
  have "fw_inv s1" using inv_inputs [of "(s, w0)" H now] assms st(2) by simp
  then have "fw_inv s2" using inv_ibus_decide [of s1 H "rc_failsafe H now s1" w1] st(3) by simp
  then show ?thesis using tail_keeps [OF inv_tail st(4,5)] by (simp add: st(6))
qed

lemma inv_run: "fw_inv s \<Longrightarrow> fw_inv (fst (fw_run H n (s, w)))"
proof (induction n arbitrary: s w)
  case (Suc n)
  obtain t v where "fw_run H n (s, w) = (t, v)" by (cases "fw_run H n (s, w)")
  then show ?case using Suc.IH [OF Suc.prems, of w] inv_poll by simp
qed simp

section \<open>The control code in \<open>int32_t\<close>\<close>

text \<open>
  The same functions with every signed operation checked: \<open>None\<close> is an overflow or a division by zero,
  which C leaves undefined.
\<close>

definition i32 :: "int \<Rightarrow> int option" where
  "i32 v = (if - 2147483648 \<le> v \<and> v \<le> 2147483647 then Some v else None)"

definition i32_div :: "int \<Rightarrow> int \<Rightarrow> int option" where
  "i32_div n d = (if d = 0 then None else i32 (n sdiv d))"

definition rc_norm_deadband_c :: "fw \<Rightarrow> int \<Rightarrow> int option" where
  "rc_norm_deadband_c s us =
    do { d \<leftarrow> i32 (us - 1500);
         let deadzone = sint (g_config_deadzone_us s);
         lo \<leftarrow> i32 (- deadzone);
         Some (if d > lo \<and> d < deadzone then 0 else clamp_i32 d (- 500) 500) }"

definition scale_c :: "int \<Rightarrow> int \<Rightarrow> int option" where
  "scale_c v k = do { p \<leftarrow> i32 (v * k); i32_div p 500 }"

definition control_update_setpoint_c :: "fw \<Rightarrow> fw option" where
  "control_update_setpoint_c s =
    (let s = s\<lparr>g_sp_roll_cd := 0, g_sp_pitch_cd := 0, g_sp_roll_rate_raw := 0, g_sp_pitch_rate_raw := 0,
               g_sp_yaw_rate_raw := 0, g_sp_throttle_us := g_rc_throttle_us s\<rparr>
     in if \<not> g_rc_valid s then Some (s\<lparr>g_sp_throttle_us := 1000\<rparr>)
        else do {
          r \<leftarrow> rc_norm_deadband_c s (sint (g_rc_ch0_us s)); roll_in \<leftarrow> i32 (1 * r);
          p \<leftarrow> rc_norm_deadband_c s (sint (g_rc_ch1_us s)); pitch_in \<leftarrow> i32 (- 1 * p);
          y \<leftarrow> rc_norm_deadband_c s (sint (g_rc_ch3_us s)); yaw_in \<leftarrow> i32 (1 * y);
          roll_cd \<leftarrow> scale_c roll_in 2000; pitch_cd \<leftarrow> scale_c pitch_in 2000;
          roll_rate \<leftarrow> scale_c roll_in 600; pitch_rate \<leftarrow> scale_c pitch_in 600; yaw_rate \<leftarrow> scale_c yaw_in 500;
          Some (s\<lparr>g_sp_roll_cd := roll_cd, g_sp_pitch_cd := pitch_cd, g_sp_roll_rate_raw := roll_rate,
                  g_sp_pitch_rate_raw := pitch_rate, g_sp_yaw_rate_raw := yaw_rate\<rparr>) })"

definition control_update_pid_c :: "fw \<Rightarrow> fw option" where
  "control_update_pid_c s =
    (let s = s\<lparr>g_pid_roll := 0, g_pid_pitch := 0, g_pid_yaw := 0, g_angle_corr_roll := 0,
               g_angle_corr_pitch := 0, g_rate_corr_roll := 0, g_rate_corr_pitch := 0, g_rate_corr_yaw := 0\<rparr>
     in if \<not> g_sensor_ready s \<or> \<not> g_att_ok s \<or> \<not> g_rc_valid s then Some s
        else do {
          s \<leftarrow> control_update_setpoint_c s;
          roll_err \<leftarrow> i32 (g_sp_roll_rate_raw s - g_body_rate_roll_raw s);
          pitch_err \<leftarrow> i32 (g_sp_pitch_rate_raw s - g_body_rate_pitch_raw s);
          yaw_err \<leftarrow> i32 (g_sp_yaw_rate_raw s - g_body_rate_yaw_raw s);
          rr \<leftarrow> i32_div roll_err (sint (g_config_rate_roll_div s));
          rp \<leftarrow> i32_div pitch_err (sint (g_config_rate_pitch_div s));
          ry \<leftarrow> i32_div yaw_err (sint (g_config_rate_yaw_div s));
          let s = s\<lparr>g_rate_corr_roll := clamp_i32 rr (- 40) 40, g_rate_corr_pitch := clamp_i32 rp (- 40) 40,
                    g_rate_corr_yaw := clamp_i32 ry (- 40) 40\<rparr>;
          s \<leftarrow> (if g_sp_roll_rate_raw s = 0 then
                 do { m \<leftarrow> i32 (- 1 * g_body_roll_cd s); q \<leftarrow> i32_div m (sint (g_config_angle_div s));
                      Some (s\<lparr>g_angle_corr_roll := clamp_i32 q (- 25) 25\<rparr>) }
               else Some s);
          s \<leftarrow> (if g_sp_pitch_rate_raw s = 0 then
                 do { m \<leftarrow> i32 (- 1 * g_body_pitch_cd s); q \<leftarrow> i32_div m (sint (g_config_angle_div s));
                      Some (s\<lparr>g_angle_corr_pitch := clamp_i32 q (- 25) 25\<rparr>) }
               else Some s);
          roll_pid \<leftarrow> i32 (g_rate_corr_roll s + g_angle_corr_roll s);
          pitch_pid \<leftarrow> i32 (g_rate_corr_pitch s + g_angle_corr_pitch s);
          Some (s\<lparr>g_pid_roll := clamp_i32 roll_pid (- 40) 40, g_pid_pitch := clamp_i32 pitch_pid (- 40) 40,
                  g_pid_yaw := clamp_i32 (g_rate_corr_yaw s) (- 40) 40\<rparr>) })"

text \<open>Three terms added in the source's order.\<close>

definition sum4_c :: "int \<Rightarrow> int \<Rightarrow> int \<Rightarrow> int \<Rightarrow> int option" where
  "sum4_c t a b c = do { x \<leftarrow> i32 (t + a); y \<leftarrow> i32 (x + b); i32 (y + c) }"

definition control_update_mixer_c :: "fw \<Rightarrow> fw option" where
  "control_update_mixer_c s =
    (let t = clamp_test_us (sint (g_sp_throttle_us s)); p = g_pid_pitch s; r = g_pid_roll s; y = g_pid_yaw s
     in do { a \<leftarrow> sum4_c t p r (- y); b \<leftarrow> sum4_c t p (- r) y;
             c \<leftarrow> sum4_c t (- p) (- r) (- y); d \<leftarrow> sum4_c t (- p) r y;
             Some (s\<lparr>g_mix := motor_map clamp_test_us (Motors a b c d)\<rparr>) })"

definition motor_apply_trim_c :: "fw \<Rightarrow> nat \<Rightarrow> int \<Rightarrow> int option" where
  "motor_apply_trim_c s idx us =
    (let trim = (if idx < 4 then clamp_i32 (motor_nth g_motor_trim_us idx) (- 50) 50 else 0);
         min_spin = (if idx < 4 then clamp_test_us (sint (motor_nth g_motor_min_spin_us idx))
                     else uint MOTOR_PWM_MIN_US)
     in do { us \<leftarrow> i32 (us + trim);
             let us = (if g_sp_throttle_us s \<ge> MOTOR_MIN_SPIN_APPLY_US \<and> us < min_spin then min_spin else us);
             Some (clamp_test_us us) })"

definition motor_update_control_outputs_c :: "fw \<Rightarrow> fw option" where
  "motor_update_control_outputs_c s =
    (if \<not> g_motor_armed s \<or> \<not> g_motor_output_enabled s then Some (motor_set_all MOTOR_PWM_IDLE_US s)
     else if \<not> g_rc_valid s \<or> \<not> g_sensor_ready s then Some (motor_set_all MOTOR_PWM_IDLE_US s)
     else do {
       s \<leftarrow> control_update_pid_c s;
       s \<leftarrow> control_update_mixer_c (control_apply_active_throttle_floor_once s);
       a \<leftarrow> motor_apply_trim_c s 0 (m0 (g_mix s)); b \<leftarrow> motor_apply_trim_c s 1 (m1 (g_mix s));
       c \<leftarrow> motor_apply_trim_c s 2 (m2 (g_mix s)); d \<leftarrow> motor_apply_trim_c s 3 (m3 (g_mix s));
       Some (s\<lparr>g_motor_pwm_us := Motors (word_of_int a) (word_of_int b) (word_of_int c) (word_of_int d)\<rparr>) })"

lemma i32_fits: "\<bar>v\<bar> \<le> 2147483647 \<Longrightarrow> i32 v = Some v"
  by (simp add: i32_def abs_le_iff)

lemma sint_small_u32: "uint (u :: u32) \<le> 65535 \<Longrightarrow> sint u = uint u"
  using signed_take_bit_int_eq_self [of 31 "uint u"] unsigned_greater_eq [of u, where 'a = int]
  by (simp add: sint_uint)

lemma deadband_c:
  assumes "uint (g_config_deadzone_us s) \<le> 80" "uint (u :: u32) \<le> 65535"
  shows "rc_norm_deadband_c s (sint u) = Some (rc_norm_deadband s (sint u))"
proof -
  have "sint (g_config_deadzone_us s) = uint (g_config_deadzone_us s)" "sint u = uint u"
    using assms by (simp_all add: sint_small_u32)
  moreover have "0 \<le> uint u" "0 \<le> uint (g_config_deadzone_us s)" by simp_all
  then have "i32 (uint u - 1500) = Some (uint u - 1500)" using assms by (simp add: i32_def)
  moreover have "i32 (- uint (g_config_deadzone_us s)) = Some (- uint (g_config_deadzone_us s))"
    using assms by (simp add: i32_fits)
  ultimately show ?thesis by (simp add: rc_norm_deadband_c_def rc_norm_deadband_def Let_def)
qed

lemma scale_defined:
  assumes "\<bar>v\<bar> \<le> 500" "0 \<le> k" "k \<le> 2000"
  shows "scale_c v k = Some ((v * k) sdiv 500)"
proof -
  have "\<bar>v * k\<bar> \<le> 500 * 2000" unfolding abs_mult using assms by (intro mult_mono) simp_all
  then have "i32 (v * k) = Some (v * k)" by (simp add: i32_fits)
  moreover have "\<bar>(v * k) sdiv 500\<bar> \<le> 2147483647" using scaled_bound [OF assms(1,2)] assms(3) by linarith
  ultimately show ?thesis by (simp add: scale_c_def i32_div_def i32_fits)
qed

lemma setpoint_defined:
  assumes "fw_inv s"
  shows "control_update_setpoint_c s = Some (control_update_setpoint_once s)"
proof -
  define t where "t = s\<lparr>g_sp_roll_cd := 0, g_sp_pitch_cd := 0, g_sp_roll_rate_raw := 0, g_sp_pitch_rate_raw := 0,
      g_sp_yaw_rate_raw := 0, g_sp_throttle_us := g_rc_throttle_us s\<rparr>"
  have c: "uint (g_config_deadzone_us t) \<le> 80" "uint (g_rc_ch0_us t) \<le> 65535" "uint (g_rc_ch1_us t) \<le> 65535"
    "uint (g_rc_ch3_us t) \<le> 65535"
    using assms by (simp_all add: t_def fw_inv_def config_ok_def rc_ok_def)
  note D = deadband_c [OF c(1) c(2)] deadband_c [OF c(1) c(3)] deadband_c [OF c(1) c(4)]
  have b: "i32 (rc_norm_deadband t u) = Some (rc_norm_deadband t u)"
    "i32 (- rc_norm_deadband t u) = Some (- rc_norm_deadband t u)" for u
    using deadband_bound [of t u] by (simp_all add: i32_fits)
  show ?thesis
    unfolding control_update_setpoint_c_def control_update_setpoint_once_def Let_def t_def [symmetric]
    by (simp add: D b scale_defined deadband_bound)
qed

lemma div_defined:
  "\<lbrakk>0 < d; \<bar>n\<bar> \<le> 2147483647\<rbrakk> \<Longrightarrow> i32_div n d = Some (n sdiv d)"
  using abs_sdiv_le [of d n 2147483647] by (simp add: i32_div_def i32_fits)

text \<open>The bounds that the corrections rest on.\<close>

lemma inv_bounds:
  assumes "fw_inv s"
  shows "\<bar>g_sp_roll_rate_raw s - g_body_rate_roll_raw s\<bar> \<le> 2147483647"
    "\<bar>g_sp_pitch_rate_raw s - g_body_rate_pitch_raw s\<bar> \<le> 2147483647"
    "\<bar>g_sp_yaw_rate_raw s - g_body_rate_yaw_raw s\<bar> \<le> 2147483647"
    "\<bar>g_body_roll_cd s\<bar> \<le> 36000" "\<bar>g_body_pitch_cd s\<bar> \<le> 36000"
    "0 < sint (g_config_rate_roll_div s)" "0 < sint (g_config_rate_pitch_div s)"
    "0 < sint (g_config_rate_yaw_div s)" "0 < sint (g_config_angle_div s)"
proof -
  have "setpoint_ok s" "attitude_ranges s" "config_ok s"
    using assms by (simp_all add: fw_inv_def sense_ok_def sensing_ok_def)
  note B = this [unfolded setpoint_ok_def attitude_ranges_def config_ok_def bounded_by_def]
  have d: "\<bar>a\<bar> \<le> 600 \<Longrightarrow> \<bar>b\<bar> \<le> 65536 \<Longrightarrow> \<bar>a - b\<bar> \<le> 2147483647" for a b :: int by linarith
  have y: "\<bar>g_sp_yaw_rate_raw s\<bar> \<le> 600" using B(1) by simp
  show "\<bar>g_sp_roll_rate_raw s - g_body_rate_roll_raw s\<bar> \<le> 2147483647"
    "\<bar>g_sp_pitch_rate_raw s - g_body_rate_pitch_raw s\<bar> \<le> 2147483647"
    "\<bar>g_sp_yaw_rate_raw s - g_body_rate_yaw_raw s\<bar> \<le> 2147483647"
    using B(1,2) y by (simp_all add: d)
  from B(2) show "\<bar>g_body_roll_cd s\<bar> \<le> 36000" "\<bar>g_body_pitch_cd s\<bar> \<le> 36000" by simp_all
  from B(3) show "0 < sint (g_config_rate_roll_div s)" "0 < sint (g_config_rate_pitch_div s)"
    "0 < sint (g_config_rate_yaw_div s)" "0 < sint (g_config_angle_div s)"
    by (simp_all add: sint_small_u32)
qed

lemma pid_defined:
  assumes "fw_inv s"
  shows "control_update_pid_c s = Some (control_update_pid_once s)"
proof -
  define t where "t = s\<lparr>g_pid_roll := 0, g_pid_pitch := 0, g_pid_yaw := 0, g_angle_corr_roll := 0,
      g_angle_corr_pitch := 0, g_rate_corr_roll := 0, g_rate_corr_pitch := 0, g_rate_corr_yaw := 0\<rparr>"
  have t: "fw_inv t" unfolding t_def by (rule inv_corrections(5)) (use assms in simp_all)
  define q where "q = control_update_setpoint_once t"
  have q: "fw_inv q" unfolding q_def by (rule inv_setpoint [OF t])
  note B = inv_bounds [OF q]
  have neg: "i32 (- g_body_roll_cd q) = Some (- g_body_roll_cd q)" "i32 (- g_body_pitch_cd q) = Some (- g_body_pitch_cd q)"
    using B(4,5) by (simp_all add: i32_fits)
  have k: "\<bar>clamp_i32 v (- 40) 40\<bar> \<le> 40" "\<bar>clamp_i32 v (- 25) 25\<bar> \<le> 25" for v
    using clamp_bounded [of 40 v] clamp_bounded [of 25 v] by (simp_all add: bounded_by_def)
  have sum: "i32 (clamp_i32 v (- 40) 40 + clamp_i32 u (- 25) 25) = Some (clamp_i32 v (- 40) 40 + clamp_i32 u (- 25) 25)"
    "i32 (clamp_i32 v (- 40) 40 + 0) = Some (clamp_i32 v (- 40) 40 + 0)" for v u
    using k(1) [of v] k(2) [of u] by (auto intro!: i32_fits)
  have z: "g_angle_corr_roll q = 0" "g_angle_corr_pitch q = 0"
    by (simp_all add: q_def control_update_setpoint_once_def t_def Let_def)
  show ?thesis
    unfolding control_update_pid_c_def control_update_pid_once_def Let_def t_def [symmetric]
    by (simp add: setpoint_defined [OF t] q_def [symmetric] i32_fits [OF B(1)] i32_fits [OF B(2)] i32_fits [OF B(3)]
        div_defined [OF B(6) B(1)] div_defined [OF B(7) B(2)] div_defined [OF B(8) B(3)] z neg
        div_defined [OF B(9)] B(4,5) sum [simplified] order_trans [OF B(4)] order_trans [OF B(5)])
qed

lemma sum4_defined:
  assumes "1000 \<le> t" "t \<le> 1500" "bounded_by 40 a" "bounded_by 40 b" "bounded_by 40 c"
  shows "sum4_c t a b c = Some (t + a + b + c)"
proof -
  have "i32 (t + a) = Some (t + a)" "i32 (t + a + b) = Some (t + a + b)" "i32 (t + a + b + c) = Some (t + a + b + c)"
    using assms by (auto intro!: i32_fits simp: bounded_by_def abs_le_iff)
  then show ?thesis by (simp add: sum4_c_def)
qed

lemma mixer_defined:
  assumes "fw_inv s"
  shows "control_update_mixer_c s = Some (control_update_mixer_once s)"
proof -
  have b: "bounded_by 40 (g_pid_pitch s)" "bounded_by 40 (g_pid_roll s)" "bounded_by 40 (g_pid_yaw s)"
    using assms by (simp_all add: fw_inv_def correction_ok_def)
  then have n: "bounded_by 40 (- g_pid_pitch s)" "bounded_by 40 (- g_pid_roll s)" "bounded_by 40 (- g_pid_yaw s)"
    by (simp_all add: bounded_by_def)
  have t: "1000 \<le> clamp_test_us v" "clamp_test_us v \<le> 1500" for v using clamp_test_range by simp_all
  show ?thesis
    by (simp add: control_update_mixer_c_def control_update_mixer_once_def Let_def sum4_defined [OF t] b n)
qed

lemma trim_defined:
  assumes "1000 \<le> us" "us \<le> 1500"
  shows "motor_apply_trim_c s idx us = Some (motor_apply_trim_i32 s idx us)"
proof -
  define trim where "trim = (if idx < 4 then clamp_i32 (motor_nth g_motor_trim_us idx) (- 50) 50 else 0)"
  have "\<bar>trim\<bar> \<le> 50" using clamp_bounded [of 50] by (simp add: trim_def bounded_by_def)
  then have "i32 (us + trim) = Some (us + trim)" using assms by (simp add: i32_fits)
  then show ?thesis by (simp add: motor_apply_trim_c_def motor_apply_trim_i32_def Let_def flip: trim_def)
qed

lemma outputs_defined:
  assumes "fw_inv s"
  shows "motor_update_control_outputs_c s = Some (motor_update_control_outputs s)"
proof -
  let ?p = "control_apply_active_throttle_floor_once (control_update_pid_once s)"
  have "fw_inv ?p" using inv_pid [OF assms] by (simp add: control_apply_active_throttle_floor_once_def Let_def)
  note m = mixer_defined [OF this]
  have mix: "1000 \<le> m0 (g_mix (control_update_mixer_once t)) \<and> m0 (g_mix (control_update_mixer_once t)) \<le> 1500"
    "1000 \<le> m1 (g_mix (control_update_mixer_once t)) \<and> m1 (g_mix (control_update_mixer_once t)) \<le> 1500"
    "1000 \<le> m2 (g_mix (control_update_mixer_once t)) \<and> m2 (g_mix (control_update_mixer_once t)) \<le> 1500"
    "1000 \<le> m3 (g_mix (control_update_mixer_once t)) \<and> m3 (g_mix (control_update_mixer_once t)) \<le> 1500" for t
    using clamp_test_range by (simp_all add: control_update_mixer_once_def Let_def motor_map_def)
  show ?thesis
    by (simp add: motor_update_control_outputs_c_def motor_update_control_outputs_def Let_def
        pid_defined [OF assms] m trim_defined mix)
qed

section \<open>The properties\<close>

text \<open>From power-on, after any number of runs, on any hardware and with any bytes from the radio, answers on
  the bus and contents of the shared region, the invariant holds: readings, angles and rates in their
  ranges, the dead zone in 5..80, the rate dividers in 8..80, the angle divider in 100..1200, the
  corrections at most 40 and 25, the mixer between 1000 and 1500.\<close>

theorem firmware_invariant:
  "fw_inv (fst (fw_run H n (fw_boot, w)))"
  by (rule inv_run [OF inv_boot])

text \<open>C20: In every state with the invariant the control path of the motors is defined in C: evaluated with
  every signed 32-bit addition, subtraction, negation, multiplication and division checked for overflow
  and for a zero divisor, it returns, and returns what the unbounded arithmetic gives.\<close>

theorem control_arithmetic_defined:
  assumes "fw_inv s"
  shows "motor_update_control_outputs_c s = Some (motor_update_control_outputs s) \<and>
    control_update_setpoint_c s = Some (control_update_setpoint_once s)"
  using outputs_defined [OF assms] setpoint_defined [OF assms] by simp

text \<open>A state in flight: calibrated, level, sticks centred, throttle 1300.\<close>

definition fw_flying :: fw where
  "fw_flying = fw_boot\<lparr>g_motor_armed := True, g_motor_output_enabled := True, g_rc_valid := True,
     g_rc_throttle_us := 1300, g_sensor_ready := True, g_att_ok := True, g_hmc_ok := True, g_hmc_data_ok := True,
     g_mpu_ok := True, g_mpu_data_ok := True, g_mpu_cal_done := True, g_mpu_cal_count := 50\<rparr>"

lemma flying_inv: "fw_inv fw_flying"
  by (simp add: inv_defs fw_flying_def fw_boot_def i16_axes_def axes_all_def MPU_CAL_TARGET_COUNT_def
      SENSOR_STATE_OK_def bounded_by_def)

lemma flying_pulses: "g_motor_pwm_us (motor_update_control_outputs fw_flying) = Motors 1310 1300 1300 1310"
  by code_simp

theorem control_arithmetic_defined_witness:
  "map_option g_motor_pwm_us (motor_update_control_outputs_c fw_flying) = Some (Motors 1310 1300 1300 1310)"
  using control_arithmetic_defined [OF flying_inv] flying_pulses by simp

end
