(* ===== verification/FwSnapshot.thy ===== *)
theory FwSnapshot
  imports FwInvariant FwDebug
begin

text \<open>
  The debug memory over the firmware's runs, as the tool reads it: which calls write it, and why the
  tool's two warnings about inconsistent flags never appear.
\<close>

section \<open>Who writes the debug memory\<close>

lemma inputs_dbg: "g_amp_dbg (fst (ibus_inputs H now sw)) = g_amp_dbg (fst (ibus_start H sw))"
proof -
  have rd: "g_amp_dbg (fst (snd (uart3_read_byte H (s, w)))) = g_amp_dbg s" for s w
    by (simp add: uart3_read_byte_def Let_def case_prod_beta)
  have parse: "g_amp_dbg (snd (ibus_parse_byte b s)) = g_amp_dbg s" for b s
    by (simp add: ibus_parse_byte_def Let_def)
  have rx: "g_amp_dbg (fst (ibus_rx_byte H now b (s, w))) = g_amp_dbg s" for b s w
    by (simp add: ibus_rx_byte_def Let_def case_prod_beta parse)
  have drain: "g_amp_dbg (fst (ibus_drain H now n x)) = g_amp_dbg (fst x)" for n x
  proof (induction n arbitrary: x)
    case (Suc n)
    obtain s w where x: "x = (s, w)" by (cases x)
    obtain r s' w' where r: "uart3_read_byte H (s, w) = (r, s', w')" by (cases "uart3_read_byte H (s, w)") auto
    show ?case using Suc.IH rx rd [of s w] by (cases r) (simp_all add: x r)
  qed simp
  have "sensing_blind g_amp_dbg" by (simp add: sensing_blind_def)
  then have probe: "g_amp_dbg (fst (amp_i2c_probe_once H x)) = g_amp_dbg (fst x)" for x
    using blind_probe [of g_amp_dbg] by (cases x) simp
  have "g_amp_dbg (fst (ibus_sense H now x)) = g_amp_dbg (fst x)" for x
    by (cases x) (simp add: ibus_sense_def stage3_flight_node_step_legacy_fallback_def Let_def case_prod_beta probe)
  then show ?thesis by (simp add: ibus_inputs_def drain)
qed

lemma decide_dbg:
  assumes "ibus_decide H fs (s1, w1) = (s2, w2)"
  shows "g_amp_dbg s2 = g_amp_dbg s1"
proof -
  from assms obtain u v where u: "fst (rc_update_freshness_once H
      ((control_update_setpoint_once (fst (amp_shared_region_poll_once H (rc_take_channels fs s1, w1))))
        \<lparr>g_rc_arm_allowed := False\<rparr>, v)) = u" and s2: "s2 = motor_decide fs (arm_gate u)"
    by (rule decide_parts)
  have b: "control_blind g_amp_dbg" "shm_blind g_amp_dbg"
    by (simp_all add: control_blind_def shm_blind_def motor_force_safe_def motor_set_all_def Let_def)
  have "g_amp_dbg u = g_amp_dbg s1"
    unfolding u [symmetric]
    by (simp add: rc_update_freshness_once_def Let_def case_prod_beta control_steps(2) [OF b(1)]
        shm_poll_blind [OF b(2)] rc_take_channels_def)
  moreover have "g_amp_dbg (motor_decide fs t) = g_amp_dbg t" for t
    by (rule decide_frame [OF b(1)]) (simp_all add: motor_force_safe_def motor_set_all_def Let_def)
  moreover have "g_amp_dbg (arm_gate u) = g_amp_dbg u" by (simp add: arm_gate_def Let_def)
  ultimately show ?thesis by (simp add: s2)
qed

section \<open>The warnings\<close>

definition dump_quiet :: "fw \<Rightarrow> bool" where
  "dump_quiet s \<longleftrightarrow> length (g_amp_dbg s) = 159 \<and>
     dump_sensor_warn (g_amp_dbg s) = [] \<and> dump_att_warn (g_amp_dbg s) = []"

lemma quiet_cong: "g_amp_dbg s = g_amp_dbg t \<Longrightarrow> dump_quiet s = dump_quiet t"
  by (simp add: dump_quiet_def)

lemma quiet_clear: "dump_quiet s \<Longrightarrow> dump_quiet (amp_dbg_clear s)"
  by (simp add: dump_quiet_def amp_dbg_clear_def dump_sensor_warn_def dump_att_warn_def dump_field_def
      dump_indices nth_append nth_Cons')

lemma quiet_snapshot: "sensor_chain s \<Longrightarrow> dump_quiet (amp_dbg_snapshot now fs s)"
  by (simp add: dump_quiet_def length_snapshot dump_sensor_warn_def dump_att_warn_def dump_snapshot
      sensor_chain_def dbg_bool_def)

lemma quiet_poll:
  assumes "fw_inv s" "dump_quiet s"
  shows "dump_quiet (fst (ibus_probe_poll_once H (s, w)))"
proof -
  obtain now w0 s1 w1 s2 w2 s3 w3 s4 w4 where st: "xTaskGetTickCount H w = (now, w0)"
    "ibus_inputs H now (s, w0) = (s1, w1)" "ibus_decide H (rc_failsafe H now s1) (s1, w1) = (s2, w2)"
    "motor_apply_outputs H (s2, w2) = (s3, w3)" "amp_shared_region_write_rt_report_once H (s3, w3) = (s4, w4)"
    "ibus_probe_poll_once H (s, w) = ibus_debug H now (rc_failsafe H now s1) (s4, w4)"
    by (rule poll_stages)
  have "fw_inv s1" using inv_inputs [of "(s, w0)" H now] assms(1) st(2) by simp
  then have "fw_inv s2" using inv_ibus_decide [of s1 H "rc_failsafe H now s1" w1] st(3) by simp
  moreover have "fw_inv s3 = fw_inv s2" "g_amp_dbg s3 = g_amp_dbg s2"
    using outputs_blind [of fw_inv H "(s2, w2)"] outputs_blind [of g_amp_dbg H "(s2, w2)"] inv_tail st(4)
    by (simp_all add: tail_blind_def pwm_blind_def)
  moreover have "fw_inv s4 = fw_inv s3" "g_amp_dbg s4 = g_amp_dbg s3"
    using report_blind [of fw_inv H s3 w3] report_blind [of g_amp_dbg H s3 w3] inv_tail st(5)
    by (simp_all add: tail_blind_def)
  ultimately have "fw_inv s4" "g_amp_dbg s4 = g_amp_dbg s2" by simp_all
  then have ch: "sensor_chain s4" by (simp add: fw_inv_def sense_ok_def)
  have "dump_quiet (fst (ibus_start H (s, w0)))"
    using assms(2) quiet_clear [of "s\<lparr>ib_started := True\<rparr>"] quiet_cong [of "s\<lparr>ib_started := True\<rparr>" s]
    by (simp add: ibus_start_def Let_def)
  then have "dump_quiet s1" using inputs_dbg [of H now "(s, w0)"] st(2) quiet_cong [of s1] by simp
  then have "dump_quiet s4"
    using decide_dbg [OF st(3)] \<open>g_amp_dbg s4 = g_amp_dbg s2\<close> quiet_cong [of s4 s1] by simp
  moreover have "g_amp_dbg (fst (ibus_debug H now fs (s4, w4))) = g_amp_dbg s4 \<or>
      g_amp_dbg (fst (ibus_debug H now fs (s4, w4))) = g_amp_dbg (amp_dbg_snapshot now fs s4)" for fs
    by (simp add: ibus_debug_def Let_def case_prod_beta)
  ultimately show ?thesis using quiet_snapshot [OF ch] quiet_cong st(6) by metis
qed

lemma quiet_run:
  "fw_inv s \<Longrightarrow> dump_quiet s \<Longrightarrow> dump_quiet (fst (fw_run H n (s, w)))"
proof (induction n)
  case (Suc n)
  obtain t v where "fw_run H n (s, w) = (t, v)" by (cases "fw_run H n (s, w)")
  then show ?case using Suc quiet_poll [of t H v] inv_run [OF Suc.prems(1), of H n w] by simp
qed simp

lemma quiet_boot: "dump_quiet fw_boot"
  by (simp add: dump_quiet_def fw_boot_def dump_sensor_warn_def dump_att_warn_def dump_field_def dump_indices)

section \<open>The property\<close>

text \<open>The tool's two warnings never show: after any number of runs from power-on, on any hardware, the
  debug memory never claims ready sensors without a good inertial unit, nor a valid attitude without ready
  sensors, and it always has its 159 words.\<close>

theorem dump_never_warns:
  "dump_sensor_warn (g_amp_dbg (fst (fw_run H n (fw_boot, w)))) = [] \<and>
   dump_att_warn (g_amp_dbg (fst (fw_run H n (fw_boot, w)))) = [] \<and>
   length (g_amp_dbg (fst (fw_run H n (fw_boot, w)))) = 159"
  using quiet_run [OF inv_boot quiet_boot, of H n w] by (simp add: dump_quiet_def)

end
