(* ===== verification/Cmdqu.thy ===== *)
theory Cmdqu
  imports Protocol
begin

text \<open>
  The command that the two cores exchange in the mailbox, with its packing into two 32-bit words, shared by
  the firmware's task and the Linux transport.
\<close>

section \<open>The structure\<close>

record cmdqu =
  cq_ip_id :: u8
  cq_cmd_id :: u8
  cq_block :: bool
  cq_linux_valid :: u8
  cq_rtos_valid :: u8
  cq_param_ptr :: u32

text \<open>The first word of a slot, from the fields and back: a bit field of 7 bits and one of 1 bit.\<close>

definition cmdqu_head :: "cmdqu \<Rightarrow> u32" where
  "cmdqu_head c =
    ucast (cq_ip_id c) OR push_bit 8 (ucast (cq_cmd_id c)) OR push_bit 15 (if cq_block c then 1 else 0) OR
    push_bit 16 (ucast (cq_linux_valid c)) OR push_bit 24 (ucast (cq_rtos_valid c))"

definition cmdqu_of :: "u32 \<times> u32 \<Rightarrow> cmdqu" where
  "cmdqu_of = (\<lambda>(head, param).
    \<lparr>cq_ip_id = ucast head, cq_cmd_id = ucast (drop_bit 8 head) AND 0x7F, cq_block = bit head 15,
     cq_linux_valid = ucast (drop_bit 16 head), cq_rtos_valid = ucast (drop_bit 24 head), cq_param_ptr = param\<rparr>)"

section \<open>Packing\<close>

lemma low_7: "x < 0x80 \<Longrightarrow> take_bit 7 (x :: u8) = x"
proof -
  assume "x < 0x80"
  then have "unat x < 2 ^ 7" by (simp add: word_less_nat_alt)
  then have "unat (take_bit 7 x) = unat x" by (simp only: unsigned_take_bit_eq take_bit_nat_eq_self)
  then show ?thesis by (simp only: word_unat_eq_iff)
qed

lemma bit_low_7: "x < 0x80 \<Longrightarrow> bit (x :: u8) k \<Longrightarrow> k < 7"
  by (metis low_7 bit_take_bit_iff)

lemma head_bits:
  assumes "cq_cmd_id c < 0x80"
  shows "bit (cmdqu_head c) n \<longleftrightarrow>
    (if n < 8 then bit (cq_ip_id c) n else if n < 15 then bit (cq_cmd_id c) (n - 8)
     else if n = 15 then cq_block c else if n < 24 then bit (cq_linux_valid c) (n - 16)
     else n < 32 \<and> bit (cq_rtos_valid c) (n - 24))"
proof -
  have len: "bit (w :: u8) k \<Longrightarrow> k < 8" for w k using bit_imp_le_length [of w k] by simp
  show ?thesis
    by (auto simp: cmdqu_head_def bit_or_iff bit_push_bit_iff bit_ucast_iff bit_1_iff dest: len bit_low_7 [OF assms]
        split: if_splits)
qed

lemma cmdqu_roundtrip:
  assumes "cq_cmd_id c < 0x80"
  shows "cmdqu_of (cmdqu_head c, cq_param_ptr c) = c"
proof -
  note B = head_bits [OF assms]
  have m: "(0x7F :: u8) = mask 7" by (simp add: mask_eq_exp_minus_1)
  have "ucast (cmdqu_head c) = cq_ip_id c"
    by (rule bit_word_eqI) (simp add: bit_ucast_iff B)
  moreover have "ucast (drop_bit 8 (cmdqu_head c)) AND 0x7F = cq_cmd_id c"
    by (rule bit_word_eqI)
      (auto simp: m bit_and_iff bit_mask_iff bit_ucast_iff bit_drop_bit_eq B dest: bit_low_7 [OF assms])
  moreover have "bit (cmdqu_head c) 15 = cq_block c" by (simp add: B)
  moreover have "ucast (drop_bit 16 (cmdqu_head c)) = cq_linux_valid c"
    by (rule bit_word_eqI) (auto simp: bit_ucast_iff bit_drop_bit_eq B)
  moreover have "ucast (drop_bit 24 (cmdqu_head c)) = cq_rtos_valid c"
    by (rule bit_word_eqI) (auto simp: bit_ucast_iff bit_drop_bit_eq B)
  ultimately show ?thesis by (simp add: cmdqu_of_def)
qed

end
