(* ===== verification/Transport.thy ===== *)
theory Transport
  imports Protocol
begin

text \<open>
  The command transport of the real-time core: the interface \<open>RtTransport\<close> and the loopback of
  \<open>rt_core/FlightRtNode.cpp\<close>, and \<open>rt_core/RtosCmdquIsrTransport.cpp\<close>: the doorbell ring that the
  mailbox interrupt fills and \<open>poll\<close> drains, and the slots of the shared region. The region is
  memory that both cores see; it is passed along with the transport's own state. \<open>poll\<close> contains a
  loop over the ring and is partial: \<open>None\<close> is not returning.
\<close>

section \<open>The interface\<close>

record incoming_command =
  ic_setpoint :: "command_setpoint option"
  ic_arm :: "command_arm option"
  ic_heartbeat :: "heartbeat option"
  ic_config :: "flight_config option"
  ic_emergency_stop :: bool

definition empty_command :: incoming_command where
  "empty_command = \<lparr>ic_setpoint = None, ic_arm = None, ic_heartbeat = None, ic_config = None,
     ic_emergency_stop = False\<rparr>"

record 'w rt_transport =
  rtt_init :: "'w \<Rightarrow> bool \<times> 'w"
  rtt_poll :: "'w \<Rightarrow> ((bool \<times> incoming_command) \<times> 'w) option"
  rtt_publish :: "rt_report \<Rightarrow> 'w \<Rightarrow> bool \<times> 'w"

section \<open>Loopback\<close>

record loopback =
  lb_tick :: u64
  lb_publish_count :: u32

definition loopback_init :: "loopback \<Rightarrow> bool \<times> loopback" where
  "loopback_init l = (True, l\<lparr>lb_tick := 0, lb_publish_count := 0\<rparr>)"

definition loopback_poll :: "(f32 \<Rightarrow> f32) \<Rightarrow> loopback \<Rightarrow> (bool \<times> incoming_command) \<times> loopback" where
  "loopback_poll fsin l =
    (let c = empty_command;
         l = l\<lparr>lb_tick := lb_tick l + 1\<rparr>;
         tick = lb_tick l;
         wave = (\<lambda>amplitude rate. fmul (f32_of_int amplitude) (fsin (fmul (f32_of_int (uint tick)) rate)));
         c = (if tick = 40 then c\<lparr>ic_arm := Some (zero_arm\<lparr>ca_state := arm_code Armed\<rparr>)\<rparr> else c);
         c = (if tick mod 10 = 0
              then c\<lparr>ic_setpoint := Some \<lparr>sp_throttle = flit 32 100, sp_roll_deg = wave 6 (flit 1 100),
                       sp_pitch_deg = wave 5 (flit 8 1000), sp_yaw_rate_dps = wave 10 (flit 12 1000),
                       sp_seq = ucast tick\<rparr>\<rparr>
              else c);
         c = (if tick mod 20 = 0
              then c\<lparr>ic_heartbeat := Some \<lparr>hb_monotonic_us = tick * 1000, hb_seq = ucast tick\<rparr>\<rparr> else c);
         c = (if tick = 600
              then c\<lparr>ic_config := Some (default_flight_config\<lparr>fc_angle_p := flit 55 10,
                       fc_rate_p := flit 13 100, fc_rate_i := flit 2 100, fc_rate_d := flit 3 1000,
                       fc_throttle_expo := flit 45 100, fc_deadzone_us := 15,
                       fc_update_seq := ucast tick\<rparr>)\<rparr>
              else c);
         c = (if tick = 2400 then c\<lparr>ic_emergency_stop := True\<rparr> else c)
     in ((True, c), l))"

definition loopback_publish :: "rt_report \<Rightarrow> loopback \<Rightarrow> bool \<times> loopback" where
  "loopback_publish report l = (True, l\<lparr>lb_publish_count := lb_publish_count l + 1\<rparr>)"

section \<open>The doorbell ring\<close>

record pending_cmd =
  pq_cmd_id :: u8
  pq_seq_hint :: u32

definition kQueueDepth :: nat where "kQueueDepth = 32"

record ring =
  rg_queue :: "pending_cmd list"
  rg_head :: u32
  rg_tail :: u32

definition new_ring :: ring where
  "new_ring = \<lparr>rg_queue = replicate kQueueDepth \<lparr>pq_cmd_id = 0, pq_seq_hint = 0\<rparr>, rg_head = 0, rg_tail = 0\<rparr>"

definition ring_next :: "u32 \<Rightarrow> u32" where
  "ring_next i = (i + 1) mod word_of_nat kQueueDepth"

definition ring_push :: "pending_cmd \<Rightarrow> ring \<Rightarrow> ring" where
  "ring_push cmd q =
    (let head = rg_head q; nxt = ring_next head
     in if nxt = rg_tail q then q
        else (let q = q\<lparr>rg_queue := (rg_queue q)[unat head := cmd]\<rparr> in q\<lparr>rg_head := nxt\<rparr>))"

definition popCommand :: "ring \<Rightarrow> pending_cmd option \<times> ring" where
  "popCommand q =
    (let tail = rg_tail q
     in if tail = rg_head q then (None, q)
        else (let out = rg_queue q ! unat tail in (Some out, q\<lparr>rg_tail := ring_next tail\<rparr>)))"

definition ring_ok :: "ring \<Rightarrow> bool" where
  "ring_ok q \<longleftrightarrow> length (rg_queue q) = 32 \<and> unat (rg_head q) < 32 \<and> unat (rg_tail q) < 32"

text \<open>The commands waiting in the ring, oldest first.\<close>

definition ring_used :: "ring \<Rightarrow> nat" where
  "ring_used q = (unat (rg_head q) + 32 - unat (rg_tail q)) mod 32"

definition ring_contents :: "ring \<Rightarrow> pending_cmd list" where
  "ring_contents q = map (\<lambda>k. rg_queue q ! ((unat (rg_tail q) + k) mod 32)) [0..<ring_used q]"

lemma unat_ring_next: "unat i < 32 \<Longrightarrow> unat (ring_next i) = (unat i + 1) mod 32"
  by (simp add: ring_next_def kQueueDepth_def unat_mod unat_word_ariths)

lemma ring_next_less: "unat (ring_next i) < 32"
  by (simp add: ring_next_def kQueueDepth_def unat_mod)

section \<open>Bounded queues\<close>

text \<open>
  What a user of a bounded first-in first-out queue relies on, and what follows for any
  interleaving of its two users.
\<close>

datatype 'a queue_event = Push 'a | Pop

locale bounded_fifo =
  fixes push :: "'a \<Rightarrow> 'q \<Rightarrow> 'q"
    and pop :: "'q \<Rightarrow> 'a option \<times> 'q"
    and contents :: "'q \<Rightarrow> 'a list"
    and ok :: "'q \<Rightarrow> bool"
    and capacity :: nat
  assumes push_ok: "ok q \<Longrightarrow> ok (push x q)"
    and push_room: "\<lbrakk>ok q; length (contents q) < capacity\<rbrakk> \<Longrightarrow> contents (push x q) = contents q @ [x]"
    and push_full: "\<lbrakk>ok q; length (contents q) = capacity\<rbrakk> \<Longrightarrow> push x q = q"
    and contents_bound: "ok q \<Longrightarrow> length (contents q) \<le> capacity"
    and pop_empty: "\<lbrakk>ok q; contents q = []\<rbrakk> \<Longrightarrow> pop q = (None, q)"
    and pop_first: "\<lbrakk>ok q; contents q = x # xs\<rbrakk> \<Longrightarrow> \<exists>q'. pop q = (Some x, q') \<and> ok q' \<and> contents q' = xs"
begin

fun queue_run :: "'a queue_event list \<Rightarrow> 'q \<Rightarrow> 'a list \<times> 'a list \<times> 'q" where
  "queue_run [] q = ([], [], q)"
| "queue_run (Push x # es) q =
    (let (taken, given, q') = queue_run es (push x q)
     in (if length (contents q) < capacity then x # taken else taken, given, q'))"
| "queue_run (Pop # es) q =
    (let (y, q1) = pop q; (taken, given, q') = queue_run es q1
     in (taken, (case y of None \<Rightarrow> given | Some v \<Rightarrow> v # given), q'))"

text \<open>Nothing accepted is lost, duplicated or reordered.\<close>

lemma fifo_order: "\<lbrakk>ok q; queue_run es q = (taken, given, q')\<rbrakk> \<Longrightarrow> ok q' \<and> contents q @ taken = given @ contents q'"
proof (induction es q arbitrary: taken given q' rule: queue_run.induct)
  case (2 x es q)
  obtain t g r where r: "queue_run es (push x q) = (t, g, r)" by (metis prod.collapse)
  have IH: "ok r \<and> contents (push x q) @ t = g @ contents r"
    using 2 push_ok r by blast
  show ?case
  proof (cases "length (contents q) < capacity")
    case True
    then show ?thesis using 2 IH r push_room by auto
  next
    case False
    then have "length (contents q) = capacity" using contents_bound [OF \<open>ok q\<close>] by simp
    then show ?thesis using 2 IH r False push_full by auto
  qed
next
  case (3 es q)
  show ?case
  proof (cases "contents q")
    case Nil
    then show ?thesis using 3 pop_empty by (auto split: prod.splits)
  next
    case (Cons x xs)
    then obtain q1 where p: "pop q = (Some x, q1)" "ok q1" "contents q1 = xs"
      using 3 pop_first by blast
    obtain t g r where r: "queue_run es q1 = (t, g, r)" by (metis prod.collapse)
    then have "ok r \<and> contents q1 @ t = g @ contents r"
      using 3 p by auto
    then show ?thesis using 3 p r Cons by auto
  qed
qed auto

end

lemma ring_used_less: "ring_used q < 32"
  by (simp add: ring_used_def)

lemma length_ring_contents: "length (ring_contents q) = ring_used q"
  by (simp add: ring_contents_def)

lemma ring_full: "ring_ok q \<Longrightarrow> ring_next (rg_head q) = rg_tail q \<longleftrightarrow> ring_used q = 31"
proof -
  assume ok: "ring_ok q"
  have lt: "unat (rg_head q) < 32" "unat (rg_tail q) < 32" using ok by (auto simp: ring_ok_def)
  have "ring_next (rg_head q) = rg_tail q \<longleftrightarrow> (unat (rg_head q) + 1) mod 32 = unat (rg_tail q)"
    using unat_ring_next [OF lt(1)] by (auto simp: word_unat_eq_iff)
  then show ?thesis using lt unfolding ring_used_def by (auto simp: mod_if)
qed

lemma ring_empty: "ring_ok q \<Longrightarrow> rg_tail q = rg_head q \<longleftrightarrow> ring_used q = 0"
proof -
  assume ok: "ring_ok q"
  have lt: "unat (rg_head q) < 32" "unat (rg_tail q) < 32" using ok by (auto simp: ring_ok_def)
  then show ?thesis unfolding ring_used_def by (auto simp: mod_if word_unat_eq_iff)
qed

lemma ring_arith:
  fixes h t :: nat
  assumes "h < 32" "t < 32"
  shows "(t + (h + 32 - t) mod 32) mod 32 = h"
    and "k < (h + 32 - t) mod 32 \<Longrightarrow> (t + k) mod 32 \<noteq> h"
proof -
  have "(t + (h + 32 - t) mod 32) mod 32 = (t + (h + 32 - t)) mod 32" by (rule mod_add_right_eq)
  then show "(t + (h + 32 - t) mod 32) mod 32 = h" using assms by simp
  assume k: "k < (h + 32 - t) mod 32"
  show "(t + k) mod 32 \<noteq> h"
  proof (cases "t \<le> h")
    case True
    then have "h + 32 - t = (h - t) + 32" by simp
    then have "(h + 32 - t) mod 32 = h - t" using assms by (simp only: mod_add_self2) simp
    then show ?thesis using k True assms by simp
  next
    case False
    then have "(h + 32 - t) mod 32 = h + 32 - t" using assms by simp
    then show ?thesis using k False assms by (cases "t + k < 32") (auto simp: le_mod_geq)
  qed
qed

lemma ring_slot:
  assumes "ring_ok q"
  shows "(unat (rg_tail q) + ring_used q) mod 32 = unat (rg_head q)"
    and "k < ring_used q \<Longrightarrow> unat (rg_head q) \<noteq> (unat (rg_tail q) + k) mod 32"
proof -
  have lt: "unat (rg_head q) < 32" "unat (rg_tail q) < 32" using assms by (auto simp: ring_ok_def)
  show "(unat (rg_tail q) + ring_used q) mod 32 = unat (rg_head q)"
    unfolding ring_used_def by (rule ring_arith(1) [OF lt])
  show "k < ring_used q \<Longrightarrow> unat (rg_head q) \<noteq> (unat (rg_tail q) + k) mod 32"
    unfolding ring_used_def by (rule not_sym) (rule ring_arith(2) [OF lt])
qed

lemma ring_push_contents:
  assumes ok: "ring_ok q" and room: "ring_used q < 31"
  shows "ring_ok (ring_push x q)" "ring_contents (ring_push x q) = ring_contents q @ [x]"
proof -
  have lt: "unat (rg_head q) < 32" "unat (rg_tail q) < 32" "length (rg_queue q) = 32"
    using ok by (auto simp: ring_ok_def)
  have "ring_next (rg_head q) \<noteq> rg_tail q" using ring_full [OF ok] room by simp
  then have p: "ring_push x q = q\<lparr>rg_queue := (rg_queue q)[unat (rg_head q) := x],
      rg_head := ring_next (rg_head q)\<rparr>"
    by (simp add: ring_push_def Let_def)
  show "ring_ok (ring_push x q)" using lt by (simp add: p ring_ok_def ring_next_less)
  have u: "ring_used (ring_push x q) = Suc (ring_used q)"
    using lt room by (auto simp: p ring_used_def unat_ring_next mod_if split: if_splits)
  have "map (\<lambda>k. rg_queue (ring_push x q) ! ((unat (rg_tail q) + k) mod 32)) [0..<ring_used q] = ring_contents q"
    using ring_slot(2) [OF ok] by (auto simp: p ring_contents_def)
  then show "ring_contents (ring_push x q) = ring_contents q @ [x]"
    using ring_slot(1) [OF ok] lt u
    by (simp add: ring_contents_def [of "ring_push x q"]) (simp add: p)
qed

lemma ring_pop_contents:
  assumes ok: "ring_ok q" and c: "ring_contents q = x # xs"
  shows "\<exists>q'. popCommand q = (Some x, q') \<and> ring_ok q' \<and> ring_contents q' = xs"
proof -
  have lt: "unat (rg_head q) < 32" "unat (rg_tail q) < 32" "length (rg_queue q) = 32"
    using ok by (auto simp: ring_ok_def)
  let ?q = "q\<lparr>rg_tail := ring_next (rg_tail q)\<rparr>"
  obtain u where u: "ring_used q = Suc u"
    using c length_ring_contents [of q] by (cases "ring_used q") auto
  then have ne: "rg_tail q \<noteq> rg_head q" using ring_empty [OF ok] by simp
  have u': "ring_used ?q = u"
    using u lt by (auto simp: ring_used_def unat_ring_next mod_if split: if_splits)
  have "map (\<lambda>k. rg_queue q ! ((unat (rg_tail q) + k) mod 32)) [0..<Suc u] =
      rg_queue q ! unat (rg_tail q) # map (\<lambda>k. rg_queue q ! ((unat (rg_tail q) + Suc k) mod 32)) [0..<u]"
    using lt by (simp add: upt_conv_Cons map_Suc_upt [symmetric] comp_def del: upt_Suc)
  moreover have "(unat (rg_tail q) + Suc k) mod 32 = (unat (ring_next (rg_tail q)) + k) mod 32" for k
    using lt by (simp add: unat_ring_next mod_simps)
  ultimately have "rg_queue q ! unat (rg_tail q) = x" "ring_contents ?q = xs"
    using c u u' by (simp_all add: ring_contents_def)
  then show ?thesis using ne lt by (simp add: popCommand_def Let_def ring_ok_def ring_next_less)
qed

interpretation ring_fifo: bounded_fifo ring_push popCommand ring_contents ring_ok 31
proof unfold_locales
  fix q :: ring and x :: pending_cmd
  assume ok: "ring_ok q"
  have le: "ring_used q \<le> 31" using ring_used_less [of q] by simp
  show "length (ring_contents q) \<le> 31" using le by (simp add: length_ring_contents)
  have full: "ring_push x q = q" if "ring_used q = 31"
    using that ring_full [OF ok] by (simp add: ring_push_def Let_def)
  then show "length (ring_contents q) = 31 \<Longrightarrow> ring_push x q = q" by (simp add: length_ring_contents)
  show "ring_ok (ring_push x q)"
    using full ring_push_contents(1) [OF ok, of x] ok le by (cases "ring_used q = 31") auto
  show "length (ring_contents q) < 31 \<Longrightarrow> ring_contents (ring_push x q) = ring_contents q @ [x]"
    using ring_push_contents(2) [OF ok] by (simp add: length_ring_contents)
  show "ring_contents q = [] \<Longrightarrow> popCommand q = (None, q)"
    using ring_empty [OF ok] length_ring_contents [of q] by (simp add: popCommand_def Let_def)
  show "ring_contents q = y # ys \<Longrightarrow> \<exists>q'. popCommand q = (Some y, q') \<and> ring_ok q' \<and> ring_contents q' = ys"
    for y ys by (rule ring_pop_contents [OF ok])
qed

lemma new_ring_ok: "ring_ok new_ring" "ring_contents new_ring = []"
  by (simp_all add: ring_ok_def new_ring_def kQueueDepth_def ring_contents_def ring_used_def)

section \<open>The transport\<close>

text \<open>\<open>tq_attached\<close> says that \<open>shared_region_\<close> is not null, \<open>tq_active\<close> that \<open>active_instance_\<close> is set.\<close>

record transport =
  tq_ring :: ring
  tq_active :: bool
  tq_attached :: bool
  tq_last_setpoint_seq :: u32
  tq_last_arm_seq :: u32
  tq_last_heartbeat_seq :: u32
  tq_last_emergency_seq :: u32
  tq_last_config_seq :: u32
  tq_report_seq :: u32

definition new_transport :: transport where
  "new_transport = \<lparr>tq_ring = new_ring, tq_active = False, tq_attached = False, tq_last_setpoint_seq = 0,
     tq_last_arm_seq = 0, tq_last_heartbeat_seq = 0, tq_last_emergency_seq = 0, tq_last_config_seq = 0,
     tq_report_seq = 0\<rparr>"

text \<open>
  On FreeRTOS the region is at a fixed address, whose contents the second argument is; a null
  address fails. Elsewhere it is a private one, valid from the start.
\<close>

definition transport_init :: "bool \<Rightarrow> bool \<Rightarrow> transport \<Rightarrow> shared_region \<Rightarrow> (bool \<times> transport) \<times> shared_region" where
  "transport_init freertos null_address t region =
    (let region = (if freertos then region else fresh_region)
     in if freertos \<and> null_address then ((False, t\<lparr>tq_attached := False\<rparr>), region)
        else
          (let region = ensure_region region
           in ((True, t\<lparr>tq_attached := True, tq_last_setpoint_seq := 0, tq_last_arm_seq := 0,
                   tq_last_heartbeat_seq := 0, tq_last_emergency_seq := 0, tq_last_config_seq := 0,
                   tq_report_seq := 0, tq_ring := (tq_ring t)\<lparr>rg_head := 0, rg_tail := 0\<rparr>,
                   tq_active := True\<rparr>), region)))"

definition onCmdFromMailbox :: "u8 \<Rightarrow> u32 \<Rightarrow> transport \<Rightarrow> transport" where
  "onCmdFromMailbox cmd_id seq_hint t =
    (if \<not> tq_active t then t
     else t\<lparr>tq_ring := ring_push \<lparr>pq_cmd_id = cmd_id, pq_seq_hint = seq_hint\<rparr> (tq_ring t)\<rparr>)"

type_synonym poll_state = "transport \<times> incoming_command"

definition parseSetpoint :: "shared_region \<Rightarrow> poll_state \<Rightarrow> bool \<times> poll_state" where
  "parseSetpoint region = (\<lambda>(t, c).
    if \<not> tq_attached t then (False, t, c)
    else (let slot = sr_setpoint region
          in if \<not> verify_slot setpoint_bytes slot \<or> slot_seq slot \<le> tq_last_setpoint_seq t then (False, t, c)
             else (True, t\<lparr>tq_last_setpoint_seq := slot_seq slot\<rparr>, c\<lparr>ic_setpoint := Some (slot_payload slot)\<rparr>)))"

definition parseArm :: "shared_region \<Rightarrow> poll_state \<Rightarrow> bool \<times> poll_state" where
  "parseArm region = (\<lambda>(t, c).
    if \<not> tq_attached t then (False, t, c)
    else (let slot = sr_arm region
          in if \<not> verify_slot arm_bytes slot \<or> slot_seq slot \<le> tq_last_arm_seq t then (False, t, c)
             else (True, t\<lparr>tq_last_arm_seq := slot_seq slot\<rparr>, c\<lparr>ic_arm := Some (slot_payload slot)\<rparr>)))"

definition parseHeartbeat :: "shared_region \<Rightarrow> poll_state \<Rightarrow> bool \<times> poll_state" where
  "parseHeartbeat region = (\<lambda>(t, c).
    if \<not> tq_attached t then (False, t, c)
    else (let slot = sr_heartbeat region
          in if \<not> verify_slot heartbeat_bytes slot \<or> slot_seq slot \<le> tq_last_heartbeat_seq t then (False, t, c)
             else (True, t\<lparr>tq_last_heartbeat_seq := slot_seq slot\<rparr>,
                   c\<lparr>ic_heartbeat := Some (slot_payload slot)\<rparr>)))"

definition parseEmergency :: "shared_region \<Rightarrow> poll_state \<Rightarrow> bool \<times> poll_state" where
  "parseEmergency region = (\<lambda>(t, c).
    if \<not> tq_attached t then (False, t, c)
    else (let slot = sr_emergency region
          in if \<not> verify_slot emergency_bytes slot \<or> slot_seq slot \<le> tq_last_emergency_seq t then (False, t, c)
             else (True, t\<lparr>tq_last_emergency_seq := slot_seq slot\<rparr>, c\<lparr>ic_emergency_stop := True\<rparr>)))"

definition parseConfig :: "shared_region \<Rightarrow> poll_state \<Rightarrow> bool \<times> poll_state" where
  "parseConfig region = (\<lambda>(t, c).
    if \<not> tq_attached t then (False, t, c)
    else (let slot = sr_config region
          in if \<not> verify_slot config_bytes slot \<or> slot_seq slot \<le> tq_last_config_seq t then (False, t, c)
             else (True, t\<lparr>tq_last_config_seq := slot_seq slot\<rparr>, c\<lparr>ic_config := Some (slot_payload slot)\<rparr>)))"

text \<open>One doorbell of the loop: the result says whether the poll returns at once.\<close>

definition dispatch :: "shared_region \<Rightarrow> u8 \<Rightarrow> poll_state \<Rightarrow> bool \<times> poll_state" where
  "dispatch region cmd_id s =
    (if cmd_id = cmd_code EmergencyStop then parseEmergency region s
     else if cmd_id = cmd_code Arm then (False, snd (parseArm region s))
     else if cmd_id = cmd_code Setpoint then (False, snd (parseSetpoint region s))
     else if cmd_id = cmd_code Heartbeat then (False, snd (parseHeartbeat region s))
     else if cmd_id = cmd_code Config then (False, snd (parseConfig region s))
     else (False, s))"

partial_function (option) drain :: "shared_region \<Rightarrow> poll_state \<Rightarrow> (bool \<times> poll_state) option" where
  "drain region s =
    (case popCommand (tq_ring (fst s)) of
       (None, q) \<Rightarrow> Some (False, s)
     | (Some pending, q) \<Rightarrow>
         (let (done, s) = dispatch region (pq_cmd_id pending) ((fst s)\<lparr>tq_ring := q\<rparr>, snd s)
          in if done then Some (True, s) else drain region s))"

definition transport_poll :: "shared_region \<Rightarrow> transport \<Rightarrow> ((bool \<times> incoming_command) \<times> transport) option" where
  "transport_poll region t =
    (let (stop, s) = parseEmergency region (t, empty_command)
     in if stop then Some ((True, snd s), fst s)
        else
          (case drain region s of
             None \<Rightarrow> None
           | Some (True, s) \<Rightarrow> Some ((True, snd s), fst s)
           | Some (False, s) \<Rightarrow>
               (let s = snd (parseArm region s);
                    s = snd (parseSetpoint region s);
                    s = snd (parseHeartbeat region s);
                    s = snd (parseConfig region s)
                in Some ((True, snd s), fst s))))"

definition transport_publish :: "rt_report \<Rightarrow> transport \<Rightarrow> shared_region \<Rightarrow> (bool \<times> transport) \<times> shared_region" where
  "transport_publish report t region =
    (if \<not> tq_attached t then ((False, t), region)
     else
       (let t = t\<lparr>tq_report_seq := tq_report_seq t + 1\<rparr>;
            payload = report\<lparr>rr_seq := (if rr_seq report = 0 then tq_report_seq t else rr_seq report)\<rparr>
        in ((True, t), region\<lparr>sr_rt_report := publishSlot report_bytes (sr_rt_report region) (rr_seq payload) payload\<rparr>)))"

text \<open>The transport as an instance of the interface: \<open>get\<close> and \<open>put\<close> find it and the region in the world.\<close>

definition cmdqu_transport ::
  "bool \<Rightarrow> bool \<Rightarrow> ('w \<Rightarrow> transport \<times> shared_region) \<Rightarrow> (transport \<times> shared_region \<Rightarrow> 'w \<Rightarrow> 'w) \<Rightarrow> 'w rt_transport" where
  "cmdqu_transport freertos null_address get put = \<lparr>
     rtt_init = (\<lambda>w. let (t, r) = get w; ((ok, t), r) = transport_init freertos null_address t r
                     in (ok, put (t, r) w)),
     rtt_poll = (\<lambda>w. let (t, r) = get w in
                     case transport_poll r t of
                       None \<Rightarrow> None
                     | Some ((ok, c), t) \<Rightarrow> Some ((ok, c), put (t, r) w)),
     rtt_publish = (\<lambda>report w. let (t, r) = get w; ((ok, t), r) = transport_publish report t r
                               in (ok, put (t, r) w))\<rparr>"

section \<open>What a poll returns\<close>

text \<open>
  A slot is new when its checksum is right and its sequence number is above the last one seen.
  \<open>poll_command\<close> is the specification: the command a poll delivers, by the slots alone.
\<close>

definition slot_new :: "('a \<Rightarrow> u8 list) \<Rightarrow> 'a shared_slot \<Rightarrow> u32 \<Rightarrow> bool" where
  "slot_new bytes slot seen \<longleftrightarrow> verify_slot bytes slot \<and> seen < slot_seq slot"

definition new_payload :: "('a \<Rightarrow> u8 list) \<Rightarrow> 'a shared_slot \<Rightarrow> u32 \<Rightarrow> 'a option" where
  "new_payload bytes slot seen = (if slot_new bytes slot seen then Some (slot_payload slot) else None)"

definition seen_seq :: "('a \<Rightarrow> u8 list) \<Rightarrow> 'a shared_slot \<Rightarrow> u32 \<Rightarrow> u32" where
  "seen_seq bytes slot seen = (if slot_new bytes slot seen then slot_seq slot else seen)"

definition emergency_new :: "shared_region \<Rightarrow> transport \<Rightarrow> bool" where
  "emergency_new region t \<longleftrightarrow> slot_new emergency_bytes (sr_emergency region) (tq_last_emergency_seq t)"

definition poll_command :: "shared_region \<Rightarrow> transport \<Rightarrow> incoming_command" where
  "poll_command region t =
    (if emergency_new region t then empty_command\<lparr>ic_emergency_stop := True\<rparr>
     else \<lparr>ic_setpoint = new_payload setpoint_bytes (sr_setpoint region) (tq_last_setpoint_seq t),
       ic_arm = new_payload arm_bytes (sr_arm region) (tq_last_arm_seq t),
       ic_heartbeat = new_payload heartbeat_bytes (sr_heartbeat region) (tq_last_heartbeat_seq t),
       ic_config = new_payload config_bytes (sr_config region) (tq_last_config_seq t),
       ic_emergency_stop = False\<rparr>)"

definition poll_seqs :: "shared_region \<Rightarrow> transport \<Rightarrow> transport" where
  "poll_seqs region t =
    (if emergency_new region t
     then t\<lparr>tq_last_emergency_seq := slot_seq (sr_emergency region)\<rparr>
     else t\<lparr>tq_last_setpoint_seq := seen_seq setpoint_bytes (sr_setpoint region) (tq_last_setpoint_seq t),
       tq_last_arm_seq := seen_seq arm_bytes (sr_arm region) (tq_last_arm_seq t),
       tq_last_heartbeat_seq := seen_seq heartbeat_bytes (sr_heartbeat region) (tq_last_heartbeat_seq t),
       tq_last_config_seq := seen_seq config_bytes (sr_config region) (tq_last_config_seq t)\<rparr>)"

definition pick :: "'a option \<Rightarrow> 'a option \<Rightarrow> 'a option" where
  "pick new old = (case new of None \<Rightarrow> old | Some _ \<Rightarrow> new)"

lemma parse_eqs:
  assumes "tq_attached t"
  shows "snd (parseSetpoint r (t, c)) =
      (t\<lparr>tq_last_setpoint_seq := seen_seq setpoint_bytes (sr_setpoint r) (tq_last_setpoint_seq t)\<rparr>,
       c\<lparr>ic_setpoint := pick (new_payload setpoint_bytes (sr_setpoint r) (tq_last_setpoint_seq t)) (ic_setpoint c)\<rparr>)"
    and "snd (parseArm r (t, c)) =
      (t\<lparr>tq_last_arm_seq := seen_seq arm_bytes (sr_arm r) (tq_last_arm_seq t)\<rparr>,
       c\<lparr>ic_arm := pick (new_payload arm_bytes (sr_arm r) (tq_last_arm_seq t)) (ic_arm c)\<rparr>)"
    and "snd (parseHeartbeat r (t, c)) =
      (t\<lparr>tq_last_heartbeat_seq := seen_seq heartbeat_bytes (sr_heartbeat r) (tq_last_heartbeat_seq t)\<rparr>,
       c\<lparr>ic_heartbeat := pick (new_payload heartbeat_bytes (sr_heartbeat r) (tq_last_heartbeat_seq t)) (ic_heartbeat c)\<rparr>)"
    and "snd (parseConfig r (t, c)) =
      (t\<lparr>tq_last_config_seq := seen_seq config_bytes (sr_config r) (tq_last_config_seq t)\<rparr>,
       c\<lparr>ic_config := pick (new_payload config_bytes (sr_config r) (tq_last_config_seq t)) (ic_config c)\<rparr>)"
    and "parseEmergency r (t, c) =
      (if emergency_new r t
       then (True, t\<lparr>tq_last_emergency_seq := slot_seq (sr_emergency r)\<rparr>, c\<lparr>ic_emergency_stop := True\<rparr>)
       else (False, t, c))"
  using assms
  by (auto simp: parseSetpoint_def parseArm_def parseHeartbeat_def parseConfig_def parseEmergency_def
      Let_def seen_seq_def new_payload_def slot_new_def pick_def emergency_new_def not_le)

lemma parse_idem:
  "seen_seq b s (seen_seq b s l) = seen_seq b s l"
  "pick (new_payload b s (seen_seq b s l)) (pick (new_payload b s l) x) = pick (new_payload b s l) x"
  by (auto simp: seen_seq_def new_payload_def slot_new_def pick_def)

text \<open>The four parses at the end of a poll absorb any dispatch of a doorbell before them.\<close>

definition parse_all :: "shared_region \<Rightarrow> poll_state \<Rightarrow> poll_state" where
  "parse_all r s =
    (let s = snd (parseArm r s); s = snd (parseSetpoint r s); s = snd (parseHeartbeat r s)
     in snd (parseConfig r s))"

lemma parse_all_eq:
  assumes "tq_attached t"
  shows "parse_all r (t, c) =
    (t\<lparr>tq_last_setpoint_seq := seen_seq setpoint_bytes (sr_setpoint r) (tq_last_setpoint_seq t),
       tq_last_arm_seq := seen_seq arm_bytes (sr_arm r) (tq_last_arm_seq t),
       tq_last_heartbeat_seq := seen_seq heartbeat_bytes (sr_heartbeat r) (tq_last_heartbeat_seq t),
       tq_last_config_seq := seen_seq config_bytes (sr_config r) (tq_last_config_seq t)\<rparr>,
     c\<lparr>ic_setpoint := pick (new_payload setpoint_bytes (sr_setpoint r) (tq_last_setpoint_seq t)) (ic_setpoint c),
       ic_arm := pick (new_payload arm_bytes (sr_arm r) (tq_last_arm_seq t)) (ic_arm c),
       ic_heartbeat := pick (new_payload heartbeat_bytes (sr_heartbeat r) (tq_last_heartbeat_seq t)) (ic_heartbeat c),
       ic_config := pick (new_payload config_bytes (sr_config r) (tq_last_config_seq t)) (ic_config c)\<rparr>)"
  using assms by (simp add: parse_all_def Let_def parse_eqs)

lemma dispatch_absorbed:
  assumes "tq_attached t" "\<not> emergency_new r t"
  shows "\<exists>t' c'. dispatch r i (t, c) = (False, t', c') \<and> tq_attached t' \<and> \<not> emergency_new r t' \<and>
    tq_ring t' = tq_ring t \<and> parse_all r (t', c') = parse_all r (t, c)"
  using assms
  by (simp add: dispatch_def parse_eqs parse_all_eq parse_idem emergency_new_def split: if_splits)

lemma parse_all_ring:
  "tq_attached t \<Longrightarrow> parse_all r (t\<lparr>tq_ring := q\<rparr>, c) =
    (let (t', c') = parse_all r (t, c) in (t'\<lparr>tq_ring := q\<rparr>, c'))"
  by (simp add: parse_all_eq)

lemma drain_returns:
  assumes "tq_attached t" "\<not> emergency_new r t" "ring_ok (tq_ring t)"
  shows "\<exists>t' c'. drain r (t, c) = Some (False, t', c') \<and> ring_ok (tq_ring t') \<and>
    ring_contents (tq_ring t') = [] \<and>
    parse_all r (t', c') = (let (t1, c1) = parse_all r (t, c) in (t1\<lparr>tq_ring := tq_ring t'\<rparr>, c1))"
  using assms
proof (induction "ring_contents (tq_ring t)" arbitrary: t c)
  case Nil
  then have "popCommand (tq_ring t) = (None, tq_ring t)" by (intro ring_fifo.pop_empty) simp_all
  then have "drain r (t, c) = Some (False, t, c)" by (subst drain.simps) simp
  then show ?case using Nil by (simp add: parse_all_eq)
next
  case (Cons x xs)
  obtain q where q: "popCommand (tq_ring t) = (Some x, q)" "ring_ok q" "ring_contents q = xs"
    using ring_fifo.pop_first [OF Cons.prems(3) Cons.hyps(2) [symmetric]] by blast
  let ?t = "t\<lparr>tq_ring := q\<rparr>"
  have "tq_attached ?t" "\<not> emergency_new r ?t" using Cons.prems by (simp_all add: emergency_new_def)
  from dispatch_absorbed [OF this, of "pq_cmd_id x" c] obtain t1 c1 where d: "dispatch r (pq_cmd_id x) (?t, c) = (False, t1, c1)"
    "tq_attached t1" "\<not> emergency_new r t1" "tq_ring t1 = q" "parse_all r (t1, c1) = parse_all r (?t, c)"
    by auto
  obtain t' c' where r': "drain r (t1, c1) = Some (False, t', c')" "ring_ok (tq_ring t')"
    "ring_contents (tq_ring t') = []"
    "parse_all r (t', c') = (let (t2, c2) = parse_all r (t1, c1) in (t2\<lparr>tq_ring := tq_ring t'\<rparr>, c2))"
    using Cons.hyps(1) [of t1 c1] d q by auto
  have "drain r (t, c) = Some (False, t', c')"
    using q d r' by (subst drain.simps) simp
  then show ?case using r' d(5) Cons.prems by (simp add: parse_all_eq)
qed

lemma poll_seqs_ring: "tq_ring (poll_seqs r t) = tq_ring t"
  by (simp add: poll_seqs_def)

lemma ring_id: "t\<lparr>tq_ring := tq_ring t\<rparr> = t"
  by (cases t) simp

lemma pick_None: "pick x None = x"
  by (cases x) (simp_all add: pick_def)

lemma parse_all_empty:
  assumes "tq_attached t" "\<not> emergency_new r t"
  shows "parse_all r (t, empty_command) = (poll_seqs r t, poll_command r t)"
  using assms by (simp add: parse_all_eq poll_seqs_def poll_command_def empty_command_def pick_None)

lemma transport_poll_stop:
  assumes "tq_attached t" "emergency_new r t"
  shows "transport_poll r t = Some ((True, poll_command r t), poll_seqs r t)"
  using assms by (simp add: transport_poll_def parse_eqs poll_command_def poll_seqs_def)

lemma transport_poll_go:
  assumes "tq_attached t" "\<not> emergency_new r t" "drain r (t, empty_command) = Some (False, t', c')"
  shows "transport_poll r t = Some ((True, snd (parse_all r (t', c'))), fst (parse_all r (t', c')))"
  using assms by (simp only: transport_poll_def parse_eqs parse_all_def Let_def if_False prod.case option.case bool.case)

lemma transport_poll_eq:
  assumes "tq_attached t" "ring_ok (tq_ring t)"
  shows "\<exists>q. transport_poll r t = Some ((True, poll_command r t), (poll_seqs r t)\<lparr>tq_ring := q\<rparr>) \<and>
    ring_ok q \<and> ring_contents q = (if emergency_new r t then ring_contents (tq_ring t) else [])"
proof (cases "emergency_new r t")
  case True
  have "(poll_seqs r t)\<lparr>tq_ring := tq_ring t\<rparr> = poll_seqs r t"
    using ring_id [of "poll_seqs r t"] by (simp only: poll_seqs_ring)
  then show ?thesis using True assms transport_poll_stop [of t r]
    by (intro exI [of _ "tq_ring t"]) simp
next
  case False
  obtain t' c' where d: "drain r (t, empty_command) = Some (False, t', c')" "ring_ok (tq_ring t')"
    "ring_contents (tq_ring t') = []"
    "parse_all r (t', c') = (let (t1, c1) = parse_all r (t, empty_command) in (t1\<lparr>tq_ring := tq_ring t'\<rparr>, c1))"
    using drain_returns [OF assms(1) False assms(2), of empty_command] by auto
  have p: "parse_all r (t', c') = ((poll_seqs r t)\<lparr>tq_ring := tq_ring t'\<rparr>, poll_command r t)"
    by (simp only: d(4) parse_all_empty [OF assms(1) False] Let_def prod.case)
  show ?thesis using transport_poll_go [OF assms(1) False d(1)] d(2,3) False
    by (intro exI [of _ "tq_ring t'"]) (simp only: p fst_conv snd_conv if_False)
qed

text \<open>A poll that returned, and two polls of the same region in a row.\<close>

lemma polled:
  assumes "tq_attached t" "ring_ok (tq_ring t)" "transport_poll r t = Some ((ok, c), t')"
  shows "ok \<and> c = poll_command r t \<and> (\<exists>q. t' = (poll_seqs r t)\<lparr>tq_ring := q\<rparr> \<and> ring_ok q)"
  using transport_poll_eq [OF assms(1,2), of r] assms(3) by auto

lemma poll_command_ring: "poll_command r (t\<lparr>tq_ring := q\<rparr>) = poll_command r t"
  by (simp add: poll_command_def emergency_new_def)

lemma polls_twice:
  assumes "tq_attached t" "ring_ok (tq_ring t)" "transport_poll r t = Some ((ok, c), t')"
    "transport_poll r t' = Some ((ok', c'), t'')"
  shows "c = poll_command r t \<and> c' = poll_command r (poll_seqs r t)"
proof -
  obtain q where t': "t' = (poll_seqs r t)\<lparr>tq_ring := q\<rparr>" "ring_ok q" and c: "c = poll_command r t"
    using polled [OF assms(1-3)] by blast
  have "tq_attached t'" "ring_ok (tq_ring t')" using assms(1) t' by (simp_all add: poll_seqs_def)
  then have "c' = poll_command r t'" using polled [OF _ _ assms(4)] by blast
  then show ?thesis using c t' poll_command_ring by simp
qed

section \<open>Properties\<close>

text \<open>C6: whatever doorbells wait in the ring, a poll returns, and the command it delivers depends on
  the slots and the sequence numbers alone: an emergency stop that is new, or else every new slot.
  Without an emergency the ring is empty afterwards.\<close>

theorem poll_refines_slots:
  assumes "tq_attached t" "ring_ok q"
  shows "\<exists>q'. transport_poll r (t\<lparr>tq_ring := q\<rparr>) =
      Some ((True, poll_command r t), (poll_seqs r t)\<lparr>tq_ring := q'\<rparr>) \<and> ring_ok q' \<and>
    ring_contents q' = (if emergency_new r t then ring_contents q else [])"
proof -
  have "poll_command r (t\<lparr>tq_ring := q\<rparr>) = poll_command r t"
    "emergency_new r (t\<lparr>tq_ring := q\<rparr>) = emergency_new r t"
    "(poll_seqs r (t\<lparr>tq_ring := q\<rparr>))\<lparr>tq_ring := q'\<rparr> = (poll_seqs r t)\<lparr>tq_ring := q'\<rparr>" for q'
    by (simp_all add: poll_command_def emergency_new_def poll_seqs_def)
  then show ?thesis using transport_poll_eq [of "t\<lparr>tq_ring := q\<rparr>" r] assms by (simp cong: if_cong)
qed

text \<open>no command is delivered twice: of two polls of an unchanged region the second never reports an
  emergency, and it delivers nothing at all unless the first one reported an emergency.\<close>

theorem command_delivered_once:
  assumes "tq_attached t" "ring_ok (tq_ring t)" "transport_poll r t = Some ((ok, c), t')"
    "transport_poll r t' = Some ((ok', c'), t'')"
  shows "\<not> ic_emergency_stop c' \<and> (\<not> ic_emergency_stop c \<longrightarrow> c' = empty_command)"
  using polls_twice [OF assms]
  by (auto simp: poll_command_def poll_seqs_def emergency_new_def slot_new_def new_payload_def
      seen_seq_def empty_command_def)

text \<open>an arm command whose payload was changed after its checksum was computed is not delivered,
  whatever the change and the sequence number, and does not count as seen.\<close>

theorem corrupted_arm_ignored:
  assumes "tq_attached t" "ring_ok (tq_ring t)" "transport_poll r t = Some ((ok, c), t')"
    "sr_arm r = (publishSlot arm_bytes slot seq p)\<lparr>slot_payload := p'\<rparr>" "p' \<noteq> p"
  shows "ic_arm c = None \<and> tq_last_arm_seq t' = tq_last_arm_seq t"
proof -
  have "\<not> verify_slot arm_bytes (sr_arm r)"
    unfolding assms(4)
    by (rule arm_wire.verify_corrupt [of _ "[]" "arm_bytes p" "[]" _ "arm_bytes p'"])
      (use assms(5) in \<open>simp_all add: arm_wire.bytes_length\<close>)
  then show ?thesis using polled [OF assms(1-3)]
    by (auto simp: poll_command_def poll_seqs_def new_payload_def seen_seq_def slot_new_def empty_command_def)
qed

text \<open>an emergency stop does not discard an arm command that is pending with it: the poll that
  delivers the emergency leaves the arm slot new, and the next poll delivers it.\<close>

theorem arm_survives_emergency:
  assumes "tq_attached t" "ring_ok (tq_ring t)" "transport_poll r t = Some ((ok, c), t')"
    "transport_poll r t' = Some ((ok', c'), t'')" "emergency_new r t"
    "slot_new arm_bytes (sr_arm r) (tq_last_arm_seq t)"
  shows "c = empty_command\<lparr>ic_emergency_stop := True\<rparr> \<and> ic_arm c' = Some (slot_payload (sr_arm r)) \<and>
    \<not> ic_emergency_stop c'"
  using polls_twice [OF assms(1-4)] assms(5,6)
  by (simp add: poll_command_def poll_seqs_def emergency_new_def new_payload_def)
    (simp add: slot_new_def)

section \<open>Witnesses\<close>

text \<open>An attached transport on a region with an arm command and an emergency stop.\<close>

definition ready_transport :: transport where
  "ready_transport = snd (fst (transport_init False False new_transport zero_region))"

lemma ready_ok: "tq_attached ready_transport" "ring_ok (tq_ring ready_transport)"
  "tq_last_arm_seq ready_transport = 0" "tq_last_emergency_seq ready_transport = 0"
  using new_ring_ok(1) by (simp_all add: ready_transport_def transport_init_def new_transport_def Let_def ring_ok_def)

definition arm_command :: command_arm where
  "arm_command = zero_arm\<lparr>ca_state := arm_code Armed\<rparr>"

definition armed_region :: shared_region where
  "armed_region = fresh_region\<lparr>sr_arm := publishSlot arm_bytes (zero_slot zero_arm) 1 arm_command\<rparr>"

definition stopped_region :: shared_region where
  "stopped_region = armed_region\<lparr>sr_emergency :=
     publishSlot emergency_bytes (zero_slot zero_emergency) 1 zero_emergency\<rparr>"

lemma published_new: "slot_new arm_bytes (publishSlot arm_bytes s 1 p) 0"
  "slot_new emergency_bytes (publishSlot emergency_bytes s' 1 p') 0"
  by (simp_all add: slot_new_def arm_wire.verify_publish arm_wire.publish_fields
      emergency_wire.verify_publish emergency_wire.publish_fields)

lemma armed_no_emergency: "\<not> emergency_new armed_region ready_transport"
  by (simp add: emergency_new_def slot_new_def armed_region_def fresh_region_def zero_region_def
      zero_slot_unverified)

theorem poll_refines_slots_witness:
  "\<exists>q'. transport_poll armed_region (ready_transport\<lparr>tq_ring := new_ring\<rparr>) =
      Some ((True, poll_command armed_region ready_transport),
        (poll_seqs armed_region ready_transport)\<lparr>tq_ring := q'\<rparr>) \<and> ring_contents q' = []"
  using poll_refines_slots [OF ready_ok(1) new_ring_ok(1), of armed_region] armed_no_emergency by auto

text \<open>Two polls of a region from the start.\<close>

lemma two_polls:
  obtains ok c t' ok' c' t'' where "transport_poll r ready_transport = Some ((ok, c), t')"
    "transport_poll r t' = Some ((ok', c'), t'')"
proof -
  obtain q where 1: "transport_poll r ready_transport =
      Some ((True, poll_command r ready_transport), (poll_seqs r ready_transport)\<lparr>tq_ring := q\<rparr>)" "ring_ok q"
    using transport_poll_eq [OF ready_ok(1,2), of r] by blast
  let ?t = "(poll_seqs r ready_transport)\<lparr>tq_ring := q\<rparr>"
  have "tq_attached ?t" "ring_ok (tq_ring ?t)" using ready_ok(1) 1(2) by (simp_all add: poll_seqs_def)
  from transport_poll_eq [OF this, of r] obtain x where "transport_poll r ?t = Some x" by blast
  then show thesis using that 1(1) by (metis prod.collapse)
qed

theorem command_delivered_once_witness:
  "\<exists>ok c t ok' t'. transport_poll armed_region ready_transport = Some ((ok, c), t) \<and>
    ic_arm c = Some arm_command \<and> transport_poll armed_region t = Some ((ok', empty_command), t')"
proof -
  obtain ok c t ok' c' t' where p: "transport_poll armed_region ready_transport = Some ((ok, c), t)"
    "transport_poll armed_region t = Some ((ok', c'), t')" by (rule two_polls)
  have c: "c = poll_command armed_region ready_transport" using polled [OF ready_ok(1,2) p(1)] by blast
  have "\<not> ic_emergency_stop c \<and> ic_arm c = Some arm_command"
    using armed_no_emergency
    by (simp add: c poll_command_def new_payload_def ready_ok armed_region_def published_new
        arm_wire.publish_fields)
  then show ?thesis using command_delivered_once [OF ready_ok(1,2) p] p by blast
qed

theorem corrupted_arm_ignored_witness:
  "\<exists>ok c t. transport_poll (armed_region\<lparr>sr_arm := (sr_arm armed_region)\<lparr>slot_payload := zero_arm\<rparr>\<rparr>)
     ready_transport = Some ((ok, c), t) \<and> ic_arm c = None"
proof -
  let ?r = "armed_region\<lparr>sr_arm := (sr_arm armed_region)\<lparr>slot_payload := zero_arm\<rparr>\<rparr>"
  have e: "sr_arm ?r = (publishSlot arm_bytes (zero_slot zero_arm) 1 arm_command)\<lparr>slot_payload := zero_arm\<rparr>"
    by (simp add: armed_region_def)
  have n: "zero_arm \<noteq> arm_command" by (simp add: arm_command_def zero_arm_def Armed_def)
  obtain ok c t where "transport_poll ?r ready_transport = Some ((ok, c), t)"
    using two_polls [of ?r] by blast
  then show ?thesis using corrupted_arm_ignored [OF ready_ok(1,2) _ e n] by blast
qed

theorem arm_survives_emergency_witness:
  "\<exists>ok c t ok' c' t'. transport_poll stopped_region ready_transport = Some ((ok, c), t) \<and>
    ic_emergency_stop c \<and> transport_poll stopped_region t = Some ((ok', c'), t') \<and>
    ic_arm c' = Some arm_command"
proof -
  have new: "emergency_new stopped_region ready_transport"
    "slot_new arm_bytes (sr_arm stopped_region) (tq_last_arm_seq ready_transport)"
    "slot_payload (sr_arm stopped_region) = arm_command"
    by (simp_all add: stopped_region_def armed_region_def emergency_new_def ready_ok published_new
        arm_wire.publish_fields)
  obtain ok c t ok' c' t' where p: "transport_poll stopped_region ready_transport = Some ((ok, c), t)"
    "transport_poll stopped_region t = Some ((ok', c'), t')" by (rule two_polls)
  show ?thesis using arm_survives_emergency [OF ready_ok(1,2) p new(1,2)] p new(3) by simp
qed

end
