(* ===== verification/LinuxMailbox.thy ===== *)
theory LinuxMailbox
  imports Cmdqu Transport
begin

text \<open>
  The Linux side of the shared region (\<open>linux_core/MailboxTransport.cpp\<close>): where the region comes from, the
  announcement of its address, the writers of its slots, and the commands that ring the firmware's
  mailbox.
\<close>

section \<open>Linux\<close>

text \<open>
  System calls, the ION allocator, the clock and the mapped memory as functions on the world; a failed
  \<open>mmap\<close> is \<open>None\<close>. The environment does not change while the process runs.
\<close>

datatype open_flag = O_RDWR | O_SYNC | O_CREAT

record 'w linux_os =
  getenv :: "string \<Rightarrow> string option"
  sys_open :: "string \<Rightarrow> open_flag list \<Rightarrow> 'w \<Rightarrow> int \<times> 'w"
  sys_close :: "int \<Rightarrow> 'w \<Rightarrow> 'w"
  sys_ftruncate :: "int \<Rightarrow> u64 \<Rightarrow> 'w \<Rightarrow> int \<times> 'w"
  sys_mmap :: "u64 \<Rightarrow> int \<Rightarrow> u64 \<Rightarrow> 'w \<Rightarrow> u64 option \<times> 'w"
  sys_munmap :: "u64 \<Rightarrow> u64 \<Rightarrow> 'w \<Rightarrow> 'w"
  sys_ioctl :: "int \<Rightarrow> u64 \<Rightarrow> cmdqu \<Rightarrow> 'w \<Rightarrow> int \<times> 'w"
  page_size :: u64
  steady_clock_ns :: "'w \<Rightarrow> u64 \<times> 'w"
  ion_allocate :: "u64 \<Rightarrow> 'w \<Rightarrow> (u64 \<times> u64 \<times> int) option \<times> 'w"
  ion_free :: "u64 \<Rightarrow> u64 \<Rightarrow> int \<Rightarrow> 'w \<Rightarrow> 'w"
  ion_flush :: "u64 \<Rightarrow> u64 \<Rightarrow> int \<Rightarrow> 'w \<Rightarrow> bool \<times> 'w"
  mem_load :: "u64 \<Rightarrow> 'w \<Rightarrow> shared_region \<times> 'w"
  mem_store :: "u64 \<Rightarrow> (shared_region \<Rightarrow> shared_region) \<Rightarrow> 'w \<Rightarrow> 'w"

text \<open>The weak definitions, in force unless another library provides the allocator.\<close>

definition amp_fc_allocate_ion_region :: "u64 \<Rightarrow> 'w \<Rightarrow> (u64 \<times> u64 \<times> int) option \<times> 'w" where
  "amp_fc_allocate_ion_region n w = (None, w)"

definition amp_fc_free_ion_region :: "u64 \<Rightarrow> u64 \<Rightarrow> int \<Rightarrow> 'w \<Rightarrow> 'w" where
  "amp_fc_free_ion_region virt n fd w = w"

definition amp_fc_flush_ion_region :: "u64 \<Rightarrow> u64 \<Rightarrow> int \<Rightarrow> 'w \<Rightarrow> bool \<times> 'w" where
  "amp_fc_flush_ion_region virt n fd w = (True, w)"

text \<open>The request numbers: a write of an \<open>unsigned long\<close> to the driver \<open>'r'\<close>.\<close>

definition iow_r :: "u64 \<Rightarrow> u64" where
  "iow_r nr = push_bit 30 1 OR push_bit 16 8 OR push_bit 8 0x72 OR nr"

definition kRtosCmdquSend :: u64 where "kRtosCmdquSend = iow_r 1"
definition kRtosCmdquSendWait :: u64 where "kRtosCmdquSendWait = iow_r 2"

definition kInitSharedMemoryAckTimeoutMs :: u16 where "kInitSharedMemoryAckTimeoutMs = 100"
definition kConfigAckTimeoutMs :: u16 where "kConfigAckTimeoutMs = 100"
definition kArmAckTimeoutMs :: u16 where "kArmAckTimeoutMs = 100"
definition kEmergencyAckTimeoutMs :: u16 where "kEmergencyAckTimeoutMs = 50"

text \<open>\<open>std::strtoull\<close> with base 0: white space, a sign, a prefix that gives the base, digits, saturation.\<close>

definition c_space :: "char \<Rightarrow> bool" where
  "c_space c \<longleftrightarrow> c = CHR '' '' \<or> 9 \<le> (of_char c :: int) \<and> (of_char c :: int) \<le> 13"

definition digit_value :: "char \<Rightarrow> int" where
  "digit_value c =
    (let k = of_char c
     in if 48 \<le> k \<and> k \<le> 57 then k - 48 else if 97 \<le> k \<and> k \<le> 122 then k - 87
        else if 65 \<le> k \<and> k \<le> 90 then k - 55 else 99)"

definition number_in :: "int \<Rightarrow> string \<Rightarrow> int" where
  "number_in base cs = foldl (\<lambda>n c. base * n + digit_value c) 0 (takeWhile (\<lambda>c. digit_value c < base) cs)"

fun take_sign :: "string \<Rightarrow> bool \<times> string" where
  "take_sign [] = (False, [])"
| "take_sign (c # cs) = (if c = CHR ''-'' then (True, cs) else if c = CHR ''+'' then (False, cs) else (False, c # cs))"

fun take_base :: "string \<Rightarrow> int \<times> string" where
  "take_base (z # x # d # cs) =
    (if z = CHR ''0'' \<and> (x = CHR ''x'' \<or> x = CHR ''X'') \<and> digit_value d < 16 then (16, d # cs)
     else if z = CHR ''0'' then (8, z # x # d # cs) else (10, z # x # d # cs))"
| "take_base cs = (if take 1 cs = [CHR ''0''] then (8, cs) else (10, cs))"

definition strtoull :: "string \<Rightarrow> u64" where
  "strtoull s =
    (let (neg, cs) = take_sign (dropWhile c_space s);
         (base, cs) = take_base cs;
         n = number_in base cs
     in if n \<ge> 2 ^ 64 then - 1 else if neg then word_of_int (- n) else word_of_int n)"

section \<open>The transport\<close>

datatype shared_region_backend = Fallback | Ion | DevMem | Shm

text \<open>The pointer \<open>shared_region_\<close>: null, the object's own copy, or mapped memory.\<close>

datatype region_ptr = NoRegion | OwnRegion | MappedAt u64

record mailbox_transport =
  mt_device_path :: string
  mt_devmem_path :: string
  mt_shared_region_path :: string
  mt_fd :: int
  mt_ion_fd :: int
  mt_devmem_fd :: int
  mt_shared_fd :: int
  mt_shared_region :: region_ptr
  mt_map_base :: u64
  mt_map_size :: u64
  mt_fallback_region :: shared_region
  mt_fallback_mode :: bool
  mt_backend :: shared_region_backend
  mt_phys_addr :: u64
  mt_region_size :: u64
  mt_setpoint_seq :: u32
  mt_arm_seq :: u32
  mt_heartbeat_seq :: u32
  mt_emergency_seq :: u32
  mt_config_seq :: u32

text \<open>The size of the packed region: two words and six slots, each with a number and a checksum.\<close>

definition shared_region_size :: u64 where
  "shared_region_size = 8 + (20 + 8) + (4 + 8) + (12 + 8) + (4 + 8) + (28 + 8) + (48 + 8)"

definition new_mailbox :: "string \<Rightarrow> mailbox_transport" where
  "new_mailbox path = \<lparr>mt_device_path = path, mt_devmem_path = ''/dev/mem'',
     mt_shared_region_path = ''/dev/shm/amp_fc_cmd_region.bin'', mt_fd = - 1, mt_ion_fd = - 1, mt_devmem_fd = - 1,
     mt_shared_fd = - 1, mt_shared_region = NoRegion, mt_map_base = 0, mt_map_size = 0,
     mt_fallback_region = zero_region, mt_fallback_mode = False, mt_backend = Fallback, mt_phys_addr = 0,
     mt_region_size = shared_region_size, mt_setpoint_seq = 0, mt_arm_seq = 0, mt_heartbeat_seq = 0,
     mt_emergency_seq = 0, mt_config_seq = 0\<rparr>"

text \<open>Loads and stores through \<open>shared_region_ ? shared_region_ : &fallback_region_\<close>.\<close>

type_synonym 'w mt = "mailbox_transport \<times> 'w"

definition region_get :: "'w linux_os \<Rightarrow> 'w mt \<Rightarrow> shared_region \<times> 'w mt" where
  "region_get L = (\<lambda>(t, w).
    (case mt_shared_region t of
       MappedAt a \<Rightarrow> (case mem_load L a w of (r, w) \<Rightarrow> (r, t, w))
     | _ \<Rightarrow> (mt_fallback_region t, t, w)))"

definition region_put :: "'w linux_os \<Rightarrow> (shared_region \<Rightarrow> shared_region) \<Rightarrow> 'w mt \<Rightarrow> 'w mt" where
  "region_put L f = (\<lambda>(t, w).
    (case mt_shared_region t of
       MappedAt a \<Rightarrow> (t, mem_store L a f w)
     | _ \<Rightarrow> (t\<lparr>mt_fallback_region := f (mt_fallback_region t)\<rparr>, w)))"

section \<open>Writing a slot\<close>

definition flushSharedRegion :: "'w linux_os \<Rightarrow> 'w mt \<Rightarrow> bool \<times> 'w mt" where
  "flushSharedRegion L = (\<lambda>(t, w).
    if mt_backend t = Ion then
      (case ion_flush L (mt_map_base t) (mt_map_size t) (mt_ion_fd t) w of (ok, w) \<Rightarrow> (ok, t, w))
    else (True, t, w))"

definition monotonicNowUs_linux :: "'w linux_os \<Rightarrow> 'w \<Rightarrow> u64 \<times> 'w" where
  "monotonicNowUs_linux L w = (case steady_clock_ns L w of (ns, w) \<Rightarrow> (ns div 1000, w))"

text \<open>Five writers: a slot, a counter, a payload and its number.\<close>

definition writeSetpointCache :: "'w linux_os \<Rightarrow> command_setpoint \<Rightarrow> 'w mt \<Rightarrow> bool \<times> 'w mt" where
  "writeSetpointCache L sp x =
    (let (r, x) = region_get L x;
         (t, w) = (if \<not> region_valid r then region_put L (\<lambda>_. fresh_region) x else x);
         t = t\<lparr>mt_setpoint_seq := (if sp_seq sp = 0 then mt_setpoint_seq t + 1 else sp_seq sp)\<rparr>;
         payload = sp\<lparr>sp_seq := mt_setpoint_seq t\<rparr>
     in flushSharedRegion L (region_put L
          (\<lambda>r. r\<lparr>sr_setpoint := publishSlot setpoint_bytes (sr_setpoint r) (mt_setpoint_seq t) payload\<rparr>) (t, w)))"

definition writeArmCache :: "'w linux_os \<Rightarrow> arm_state \<Rightarrow> 'w mt \<Rightarrow> bool \<times> 'w mt" where
  "writeArmCache L state x =
    (let (r, t, w) = region_get L x
     in if \<not> region_valid r then (False, t, w)
        else
         (let t = t\<lparr>mt_arm_seq := mt_arm_seq t + 1\<rparr>;
              payload = zero_arm\<lparr>ca_state := arm_code state\<rparr>
          in flushSharedRegion L (region_put L
               (\<lambda>r. r\<lparr>sr_arm := publishSlot arm_bytes (sr_arm r) (mt_arm_seq t) payload\<rparr>) (t, w))))"

definition writeHeartbeatCache :: "'w linux_os \<Rightarrow> u32 \<Rightarrow> 'w mt \<Rightarrow> bool \<times> 'w mt" where
  "writeHeartbeatCache L seq x =
    (let (r, t, w) = region_get L x
     in if \<not> region_valid r then (False, t, w)
        else
         (let t = t\<lparr>mt_heartbeat_seq := (if seq = 0 then mt_heartbeat_seq t + 1 else seq)\<rparr>;
              payload = zero_heartbeat\<lparr>hb_seq := mt_heartbeat_seq t\<rparr>;
              (now, w) = monotonicNowUs_linux L w;
              payload = payload\<lparr>hb_monotonic_us := now\<rparr>
          in flushSharedRegion L (region_put L
               (\<lambda>r. r\<lparr>sr_heartbeat := publishSlot heartbeat_bytes (sr_heartbeat r) (mt_heartbeat_seq t) payload\<rparr>) (t, w))))"

definition writeEmergencyCache :: "'w linux_os \<Rightarrow> u32 \<Rightarrow> 'w mt \<Rightarrow> bool \<times> 'w mt" where
  "writeEmergencyCache L reason x =
    (let (r, t, w) = region_get L x
     in if \<not> region_valid r then (False, t, w)
        else
         (let t = t\<lparr>mt_emergency_seq := mt_emergency_seq t + 1\<rparr>;
              payload = zero_emergency\<lparr>ce_reason := reason\<rparr>
          in flushSharedRegion L (region_put L
               (\<lambda>r. r\<lparr>sr_emergency := publishSlot emergency_bytes (sr_emergency r) (mt_emergency_seq t) payload\<rparr>) (t, w))))"

definition writeConfigCache :: "'w linux_os \<Rightarrow> flight_config \<Rightarrow> 'w mt \<Rightarrow> bool \<times> 'w mt" where
  "writeConfigCache L config x =
    (let (r, t, w) = region_get L x
     in if \<not> region_valid r then (False, t, w)
        else
         (let t = t\<lparr>mt_config_seq := (if fc_update_seq config = 0 then mt_config_seq t + 1 else fc_update_seq config)\<rparr>;
              payload = config\<lparr>fc_update_seq := mt_config_seq t\<rparr>
          in flushSharedRegion L (region_put L
               (\<lambda>r. r\<lparr>sr_config := publishSlot config_bytes (sr_config r) (mt_config_seq t) payload\<rparr>) (t, w))))"

section \<open>Sending\<close>

definition sendCommand :: "'w linux_os \<Rightarrow> u8 \<Rightarrow> u32 \<Rightarrow> bool \<Rightarrow> u16 \<Rightarrow> 'w mt \<Rightarrow> bool \<times> 'w mt" where
  "sendCommand L cmd_id param wait_ack timeout_ms = (\<lambda>(t, w).
    if mt_fallback_mode t then (True, t, w)
    else if mt_fd t < 0 then (False, t, w)
    else
     (let cmd = \<lparr>cq_ip_id = 0, cq_cmd_id = cmd_id AND 0x7F, cq_block = wait_ack, cq_linux_valid = ucast timeout_ms,
            cq_rtos_valid = ucast (drop_bit 8 timeout_ms), cq_param_ptr = param\<rparr>;
          request = (if wait_ack then kRtosCmdquSendWait else kRtosCmdquSend);
          (ret, w) = sys_ioctl L (mt_fd t) request cmd w
      in (\<not> ret < 0, t, w)))"

definition sendSetpoint :: "'w linux_os \<Rightarrow> command_setpoint \<Rightarrow> 'w mt \<Rightarrow> bool \<times> 'w mt" where
  "sendSetpoint L = writeSetpointCache L"

definition sendArm :: "'w linux_os \<Rightarrow> arm_state \<Rightarrow> 'w mt \<Rightarrow> bool \<times> 'w mt" where
  "sendArm L state x =
    (let (ok, t, w) = writeArmCache L state x
     in if \<not> ok then (False, t, w) else sendCommand L (cmd_code Arm) (mt_arm_seq t) True kArmAckTimeoutMs (t, w))"

definition sendHeartbeat :: "'w linux_os \<Rightarrow> u32 \<Rightarrow> 'w mt \<Rightarrow> bool \<times> 'w mt" where
  "sendHeartbeat L = writeHeartbeatCache L"

definition sendEmergencyStop :: "'w linux_os \<Rightarrow> u32 \<Rightarrow> 'w mt \<Rightarrow> bool \<times> 'w mt" where
  "sendEmergencyStop L reason x =
    (let (ok, t, w) = writeEmergencyCache L reason x
     in if \<not> ok then (False, t, w)
        else sendCommand L (cmd_code EmergencyStop) (mt_emergency_seq t) True kEmergencyAckTimeoutMs (t, w))"

definition sendConfig :: "'w linux_os \<Rightarrow> flight_config \<Rightarrow> 'w mt \<Rightarrow> bool \<times> 'w mt" where
  "sendConfig L config x =
    (let (ok, t, w) = writeConfigCache L config x
     in if \<not> ok then (False, t, w)
        else sendCommand L (cmd_code Config) (mt_config_seq t) True kConfigAckTimeoutMs (t, w))"

section \<open>Opening and closing\<close>

definition allocateIonSharedRegion :: "'w linux_os \<Rightarrow> 'w mt \<Rightarrow> bool \<times> 'w mt" where
  "allocateIonSharedRegion L = (\<lambda>(t, w).
    (case ion_allocate L (mt_region_size t) w of
       (None, w) \<Rightarrow> (False, t, w)
     | (Some (virt, phys, fd), w) \<Rightarrow>
        (if virt = 0 \<or> phys = 0 then (False, t, w)
         else (True, t\<lparr>mt_shared_region := MappedAt virt, mt_map_base := virt, mt_map_size := mt_region_size t,
                 mt_phys_addr := phys, mt_ion_fd := fd, mt_backend := Ion\<rparr>, w))))"

definition allocateDevmemSharedRegion :: "'w linux_os \<Rightarrow> 'w mt \<Rightarrow> bool \<times> 'w mt" where
  "allocateDevmemSharedRegion L = (\<lambda>(t, w).
    (case getenv L ''AMP_CMD_REGION_PHYS'' of
       None \<Rightarrow> (False, t, w)
     | Some env_phys \<Rightarrow>
        (let parsed = strtoull env_phys
         in if parsed = 0 then (False, t, w)
            else
             (let t = t\<lparr>mt_phys_addr := parsed\<rparr>;
                  (fd, w) = sys_open L (mt_devmem_path t) [O_RDWR, O_SYNC] w;
                  t = t\<lparr>mt_devmem_fd := fd\<rparr>
              in if fd < 0 then (False, t, w)
                 else
                  (let page_mask = page_size L - 1;
                       page_base = mt_phys_addr t AND NOT page_mask;
                       page_offset = mt_phys_addr t - page_base;
                       map_size = page_offset + mt_region_size t
                   in case sys_mmap L map_size fd page_base w of
                        (None, w) \<Rightarrow> (False, t\<lparr>mt_devmem_fd := - 1, mt_phys_addr := 0\<rparr>, sys_close L fd w)
                      | (Some mapped, w) \<Rightarrow>
                         (True, t\<lparr>mt_map_base := mapped, mt_map_size := map_size,
                            mt_shared_region := MappedAt (mapped + page_offset), mt_backend := DevMem\<rparr>, w))))))"

definition allocateShmSharedRegion :: "'w linux_os \<Rightarrow> 'w mt \<Rightarrow> bool \<times> 'w mt" where
  "allocateShmSharedRegion L = (\<lambda>(t, w).
    (let (fd, w) = sys_open L (mt_shared_region_path t) [O_RDWR, O_CREAT] w;
         t = t\<lparr>mt_shared_fd := fd\<rparr>
     in if fd < 0 then (True, t, w)
        else
         (let (rc, w) = sys_ftruncate L fd shared_region_size w
          in if rc \<noteq> 0 then (True, t\<lparr>mt_shared_fd := - 1\<rparr>, sys_close L fd w)
             else
              (case sys_mmap L shared_region_size fd 0 w of
                 (None, w) \<Rightarrow> (True, t\<lparr>mt_shared_fd := - 1\<rparr>, sys_close L fd w)
               | (Some mapped, w) \<Rightarrow>
                  (True, t\<lparr>mt_shared_region := MappedAt mapped, mt_map_base := mapped, mt_map_size := shared_region_size,
                     mt_backend := Shm, mt_phys_addr := 0\<rparr>, w)))))"

definition env_override :: "'w linux_os \<Rightarrow> string \<Rightarrow> string \<Rightarrow> string" where
  "env_override L name old = (case getenv L name of Some v \<Rightarrow> if v = [] then old else v | None \<Rightarrow> old)"

definition allocateSharedRegion :: "'w linux_os \<Rightarrow> 'w mt \<Rightarrow> bool \<times> 'w mt" where
  "allocateSharedRegion L = (\<lambda>(t, w).
    (let t = t\<lparr>mt_devmem_path := env_override L ''AMP_DEVMEM_PATH'' (mt_devmem_path t)\<rparr>;
         t = t\<lparr>mt_shared_region_path := env_override L ''AMP_CMD_REGION_SHM'' (mt_shared_region_path t)\<rparr>;
         ion_disabled = (getenv L ''AMP_DISABLE_ION'' = Some ''1'');
         (ion, t, w) = (if \<not> ion_disabled then allocateIonSharedRegion L (t, w) else (False, t, w))
     in if ion then (True, t, w)
        else
         (let (devmem, t, w) = (if getenv L ''AMP_CMD_REGION_PHYS'' \<noteq> None then allocateDevmemSharedRegion L (t, w)
                                else (False, t, w))
          in if devmem then (True, t, w) else allocateShmSharedRegion L (t, w))))"

definition initializeSharedRegion :: "'w linux_os \<Rightarrow> 'w mt \<Rightarrow> bool \<times> 'w mt" where
  "initializeSharedRegion L x =
    (if mt_shared_region (fst x) = NoRegion then (False, x)
     else
      (let (r, x) = region_get L x
       in flushSharedRegion L (if \<not> region_valid r then region_put L (\<lambda>_. fresh_region) x else x)))"

definition openSharedRegion :: "'w linux_os \<Rightarrow> 'w mt \<Rightarrow> bool \<times> 'w mt" where
  "openSharedRegion L = (\<lambda>(t, w).
    (let t = t\<lparr>mt_fallback_region := fresh_region, mt_shared_region := OwnRegion, mt_backend := Fallback,
               mt_phys_addr := 0, mt_map_base := 0, mt_map_size := 0, mt_ion_fd := - 1\<rparr>;
         (ok, t, w) = allocateSharedRegion L (t, w)
     in if \<not> ok then (False, t, w) else initializeSharedRegion L (t, w)))"

definition notifySharedRegion :: "'w linux_os \<Rightarrow> 'w mt \<Rightarrow> bool \<times> 'w mt" where
  "notifySharedRegion L = (\<lambda>(t, w).
    if mt_phys_addr t = 0 then (False, t, w)
    else if mt_phys_addr t > 0xFFFFFFFF then (False, t, w)
    else sendCommand L (cmd_code InitSharedMemory) (ucast (mt_phys_addr t)) True kInitSharedMemoryAckTimeoutMs (t, w))"

text \<open>Closing in steps: the mapping, the descriptors of memory and of the file, the device.\<close>

definition release_mapping :: "'w linux_os \<Rightarrow> 'w mt \<Rightarrow> 'w mt" where
  "release_mapping L = (\<lambda>(t, w).
    (t\<lparr>mt_map_base := 0, mt_map_size := 0, mt_ion_fd := (if mt_ion_fd t \<ge> 0 then - 1 else mt_ion_fd t)\<rparr>,
     if mt_backend t = Ion \<and> mt_map_base t \<noteq> 0 then ion_free L (mt_map_base t) (mt_map_size t) (mt_ion_fd t) w
     else if mt_map_base t \<noteq> 0 \<and> mt_map_size t > 0 then sys_munmap L (mt_map_base t) (mt_map_size t) w
     else w))"

definition close_devmem :: "'w linux_os \<Rightarrow> 'w mt \<Rightarrow> 'w mt" where
  "close_devmem L = (\<lambda>(t, w).
    if mt_devmem_fd t \<ge> 0 then (t\<lparr>mt_devmem_fd := - 1\<rparr>, sys_close L (mt_devmem_fd t) w) else (t, w))"

definition close_shm :: "'w linux_os \<Rightarrow> 'w mt \<Rightarrow> 'w mt" where
  "close_shm L = (\<lambda>(t, w).
    if mt_shared_fd t \<ge> 0 then (t\<lparr>mt_shared_fd := - 1\<rparr>, sys_close L (mt_shared_fd t) w) else (t, w))"

definition closeSharedRegion :: "'w linux_os \<Rightarrow> 'w mt \<Rightarrow> 'w mt" where
  "closeSharedRegion L x =
    (let (t, w) = close_shm L (close_devmem L (release_mapping L x))
     in (t\<lparr>mt_shared_region := NoRegion, mt_phys_addr := 0, mt_backend := Fallback\<rparr>, w))"

definition close_device :: "'w linux_os \<Rightarrow> 'w mt \<Rightarrow> 'w mt" where
  "close_device L = (\<lambda>(t, w).
    if mt_fd t \<ge> 0 then (t\<lparr>mt_fd := - 1\<rparr>, sys_close L (mt_fd t) w) else (t, w))"

definition close_transport :: "'w linux_os \<Rightarrow> 'w mt \<Rightarrow> 'w mt" where
  "close_transport L x = (let (t, w) = close_device L x in closeSharedRegion L (t\<lparr>mt_fallback_mode := False\<rparr>, w))"

definition open_transport :: "'w linux_os \<Rightarrow> 'w mt \<Rightarrow> bool \<times> 'w mt" where
  "open_transport L x =
    (let (ok, t, w) = openSharedRegion L (close_transport L x)
     in if \<not> ok then (False, t, w)
        else
         (let (fd, w) = sys_open L (mt_device_path t) [O_RDWR] w;
              t = t\<lparr>mt_fd := fd\<rparr>
          in if fd < 0 then (True, t\<lparr>mt_fallback_mode := True\<rparr>, w)
             else
              (let (ok, x) = notifySharedRegion L (t\<lparr>mt_fallback_mode := False\<rparr>, w)
               in if \<not> ok then (False, close_transport L x) else (True, x))))"

definition isLive :: "mailbox_transport \<Rightarrow> bool" where
  "isLive t \<longleftrightarrow> mt_fd t \<ge> 0 \<and> \<not> mt_fallback_mode t"

section \<open>Mapped memory\<close>

text \<open>The region \<open>reg\<close> in the world, mapped at \<open>a\<close>, when only loads and stores there touch it.\<close>

definition shared_memory :: "'w linux_os \<Rightarrow> u64 \<Rightarrow> ('w \<Rightarrow> shared_region) \<Rightarrow> bool" where
  "shared_memory L a reg \<longleftrightarrow>
     (\<forall>w. fst (mem_load L a w) = reg w \<and> reg (snd (mem_load L a w)) = reg w) \<and>
     (\<forall>f w. reg (mem_store L a f w) = f (reg w)) \<and>
     (\<forall>fd r c w. reg (snd (sys_ioctl L fd r c w)) = reg w) \<and>
     (\<forall>w. reg (snd (steady_clock_ns L w)) = reg w) \<and>
     (\<forall>b n fd w. reg (snd (ion_flush L b n fd w)) = reg w)"

definition maps :: "'w linux_os \<Rightarrow> ('w \<Rightarrow> shared_region) \<Rightarrow> mailbox_transport \<Rightarrow> bool" where
  "maps L reg t \<longleftrightarrow> (\<exists>a. mt_shared_region t = MappedAt a \<and> shared_memory L a reg)"

lemma mapped_get:
  assumes "maps L reg t"
  shows "fst (region_get L (t, w)) = reg w" "fst (snd (region_get L (t, w))) = t" "reg (snd (snd (region_get L (t, w)))) = reg w"
  using assms by (auto simp: maps_def region_get_def shared_memory_def case_prod_beta)

lemma mapped_put:
  assumes "maps L reg t"
  shows "fst (region_put L f (t, w)) = t" "reg (snd (region_put L f (t, w))) = f (reg w)"
  using assms by (auto simp: maps_def region_put_def shared_memory_def)

lemma mapped_other:
  assumes "maps L reg t"
  shows "fst (snd (flushSharedRegion L (t, w))) = t" "reg (snd (snd (flushSharedRegion L (t, w)))) = reg w"
    "fst (snd (sendCommand L k p b ms (t, w))) = t" "reg (snd (snd (sendCommand L k p b ms (t, w)))) = reg w"
    "reg (snd (monotonicNowUs_linux L w)) = reg w"
  using assms
  by (auto simp: maps_def shared_memory_def flushSharedRegion_def sendCommand_def monotonicNowUs_linux_def Let_def case_prod_beta)

lemma maps_counters [simp]:
  "maps L reg (t\<lparr>mt_setpoint_seq := q\<rparr>) = maps L reg t" "maps L reg (t\<lparr>mt_arm_seq := q\<rparr>) = maps L reg t"
  "maps L reg (t\<lparr>mt_heartbeat_seq := q\<rparr>) = maps L reg t" "maps L reg (t\<lparr>mt_emergency_seq := q\<rparr>) = maps L reg t"
  "maps L reg (t\<lparr>mt_config_seq := q\<rparr>) = maps L reg t"
  by (simp_all add: maps_def)

lemma put_flush:
  assumes "maps L reg t"
  shows "fst (snd (flushSharedRegion L (region_put L f (t, w)))) = t"
    "reg (snd (snd (flushSharedRegion L (region_put L f (t, w))))) = f (reg w)"
  using mapped_put [OF assms, of f w] mapped_other(1,2) [OF assms, where w = "snd (region_put L f (t, w))"]
  by (cases "region_put L f (t, w)"; simp)+

text \<open>What each sender leaves in the object and in the region.\<close>

lemma sent_emergency:
  assumes "maps L reg t" "region_valid (reg w)"
  shows "fst (snd (sendEmergencyStop L reason (t, w))) = t\<lparr>mt_emergency_seq := mt_emergency_seq t + 1\<rparr>"
    "reg (snd (snd (sendEmergencyStop L reason (t, w)))) = (reg w)\<lparr>sr_emergency :=
       publishSlot emergency_bytes (sr_emergency (reg w)) (mt_emergency_seq t + 1) \<lparr>ce_reason = reason\<rparr>\<rparr>"
proof -
  let ?t = "t\<lparr>mt_emergency_seq := mt_emergency_seq t + 1\<rparr>"
  have m: "maps L reg ?t" using assms(1) by simp
  have "fst (snd (writeEmergencyCache L reason (t, w))) = ?t \<and>
    reg (snd (snd (writeEmergencyCache L reason (t, w)))) = (reg w)\<lparr>sr_emergency :=
       publishSlot emergency_bytes (sr_emergency (reg w)) (mt_emergency_seq t + 1) \<lparr>ce_reason = reason\<rparr>\<rparr>"
    using assms(2)
    by (simp add: writeEmergencyCache_def Let_def case_prod_beta mapped_get [OF assms(1)] put_flush [OF m] zero_emergency_def)
  moreover have "fst (snd (sendEmergencyStop L reason (t, w))) = fst (snd (writeEmergencyCache L reason (t, w)))"
    "reg (snd (snd (sendEmergencyStop L reason (t, w)))) = reg (snd (snd (writeEmergencyCache L reason (t, w))))"
    using calculation
    by (simp_all add: sendEmergencyStop_def Let_def case_prod_beta mapped_other [OF m])
  ultimately show "fst (snd (sendEmergencyStop L reason (t, w))) = ?t"
    "reg (snd (snd (sendEmergencyStop L reason (t, w)))) = (reg w)\<lparr>sr_emergency :=
       publishSlot emergency_bytes (sr_emergency (reg w)) (mt_emergency_seq t + 1) \<lparr>ce_reason = reason\<rparr>\<rparr>"
    by simp_all
qed

lemma sent_arm:
  assumes "maps L reg t" "region_valid (reg w)"
  shows "fst (snd (sendArm L state (t, w))) = t\<lparr>mt_arm_seq := mt_arm_seq t + 1\<rparr>"
    "reg (snd (snd (sendArm L state (t, w)))) = (reg w)\<lparr>sr_arm :=
       publishSlot arm_bytes (sr_arm (reg w)) (mt_arm_seq t + 1) (zero_arm\<lparr>ca_state := arm_code state\<rparr>)\<rparr>"
proof -
  let ?t = "t\<lparr>mt_arm_seq := mt_arm_seq t + 1\<rparr>"
  have m: "maps L reg ?t" using assms(1) by simp
  have w: "fst (snd (writeArmCache L state (t, w))) = ?t"
    "reg (snd (snd (writeArmCache L state (t, w)))) = (reg w)\<lparr>sr_arm :=
       publishSlot arm_bytes (sr_arm (reg w)) (mt_arm_seq t + 1) (zero_arm\<lparr>ca_state := arm_code state\<rparr>)\<rparr>"
    using assms(2)
    by (simp_all add: writeArmCache_def Let_def case_prod_beta mapped_get [OF assms(1)] put_flush [OF m])
  then show "fst (snd (sendArm L state (t, w))) = ?t"
    "reg (snd (snd (sendArm L state (t, w)))) = (reg w)\<lparr>sr_arm :=
       publishSlot arm_bytes (sr_arm (reg w)) (mt_arm_seq t + 1) (zero_arm\<lparr>ca_state := arm_code state\<rparr>)\<rparr>"
    by (simp_all add: sendArm_def Let_def case_prod_beta mapped_other [OF m])
qed

text \<open>The number a configuration gets.\<close>

definition sent_number :: "flight_config \<Rightarrow> mailbox_transport \<Rightarrow> u32" where
  "sent_number cf t = (if fc_update_seq cf = 0 then mt_config_seq t + 1 else fc_update_seq cf)"

lemma sent_config:
  assumes "maps L reg t" "region_valid (reg w)"
  shows "fst (snd (sendConfig L cf (t, w))) = t\<lparr>mt_config_seq := sent_number cf t\<rparr>"
    "reg (snd (snd (sendConfig L cf (t, w)))) = (reg w)\<lparr>sr_config :=
       publishSlot config_bytes (sr_config (reg w)) (sent_number cf t) (cf\<lparr>fc_update_seq := sent_number cf t\<rparr>)\<rparr>"
proof -
  let ?t = "t\<lparr>mt_config_seq := sent_number cf t\<rparr>"
  have m: "maps L reg ?t" using assms(1) by simp
  have w: "fst (snd (writeConfigCache L cf (t, w))) = ?t"
    "reg (snd (snd (writeConfigCache L cf (t, w)))) = (reg w)\<lparr>sr_config :=
       publishSlot config_bytes (sr_config (reg w)) (sent_number cf t) (cf\<lparr>fc_update_seq := sent_number cf t\<rparr>)\<rparr>"
    using assms(2)
    by (simp_all add: writeConfigCache_def Let_def case_prod_beta mapped_get [OF assms(1)] put_flush [OF m]
        flip: sent_number_def)
  then show "fst (snd (sendConfig L cf (t, w))) = ?t"
    "reg (snd (snd (sendConfig L cf (t, w)))) = (reg w)\<lparr>sr_config :=
       publishSlot config_bytes (sr_config (reg w)) (sent_number cf t) (cf\<lparr>fc_update_seq := sent_number cf t\<rparr>)\<rparr>"
    by (simp_all add: sendConfig_def Let_def case_prod_beta mapped_other [OF m])
qed

section \<open>Descriptors\<close>

text \<open>
  The open descriptors \<open>fds\<close> of the process: opening gives a new one or fails, closing gives it back. The ION
  allocator is not in the repository, its two functions are replaced when a library provides them. What is asked of
  it: a region it hands out comes with a new descriptor or a negative number, freeing that region closes the
  descriptor, and an allocation that fails, or that the transport refuses because an address is 0, leaves nothing open
  (\<open>refused_region_lost\<close> shows why). The weak definitions, which never hand out a region, need not close anything.
\<close>

definition usable :: "(u64 \<times> u64 \<times> int) option \<Rightarrow> bool" where
  "usable r = (case r of None \<Rightarrow> False | Some (virt, phys, _) \<Rightarrow> virt \<noteq> 0 \<and> phys \<noteq> 0)"

definition ion_present :: "'w linux_os \<Rightarrow> bool" where
  "ion_present L \<longleftrightarrow> (\<exists>n w. usable (fst (ion_allocate L n w)))"

definition fd_given :: "('w \<Rightarrow> int set) \<Rightarrow> int \<Rightarrow> 'w \<Rightarrow> 'w \<Rightarrow> bool" where
  "fd_given fds fd w w' \<longleftrightarrow> (if fd < 0 then fds w' = fds w else fd \<notin> fds w \<and> fds w' = insert fd (fds w))"

definition fd_world :: "'w linux_os \<Rightarrow> ('w \<Rightarrow> int set) \<Rightarrow> bool" where
  "fd_world L fds \<longleftrightarrow>
     (\<forall>p fl w. fd_given fds (fst (sys_open L p fl w)) w (snd (sys_open L p fl w))) \<and>
     (\<forall>fd w. fds (sys_close L fd w) = fds w - {fd}) \<and>
     (\<forall>fd n w. fds (snd (sys_ftruncate L fd n w)) = fds w) \<and>
     (\<forall>n fd b w. fds (snd (sys_mmap L n fd b w)) = fds w) \<and> (\<forall>b n w. fds (sys_munmap L b n w) = fds w) \<and>
     (\<forall>fd r c w. fds (snd (sys_ioctl L fd r c w)) = fds w) \<and> (\<forall>w. fds (snd (steady_clock_ns L w)) = fds w) \<and>
     (\<forall>n w. case ion_allocate L n w of (r, w') \<Rightarrow>
        if usable r then fd_given fds (snd (snd (the r))) w w' else fds w' = fds w) \<and>
     (\<forall>b n fd w. ion_present L \<longrightarrow> fds (ion_free L b n fd w) = (if fd < 0 then fds w else fds w - {fd})) \<and>
     (\<forall>b n fd w. fds (snd (ion_flush L b n fd w)) = fds w) \<and> (\<forall>a w. fds (snd (mem_load L a w)) = fds w) \<and>
     (\<forall>a f w. fds (mem_store L a f w) = fds w)"


definition owned :: "mailbox_transport \<Rightarrow> int list" where
  "owned t = filter (\<lambda>fd. 0 \<le> fd) [mt_fd t, mt_ion_fd t, mt_devmem_fd t, mt_shared_fd t]"






lemma owned_frame [simp]:
  "owned (t\<lparr>mt_setpoint_seq := q\<rparr>) = owned t" "owned (t\<lparr>mt_arm_seq := q\<rparr>) = owned t"
  "owned (t\<lparr>mt_heartbeat_seq := q\<rparr>) = owned t" "owned (t\<lparr>mt_emergency_seq := q\<rparr>) = owned t"
  "owned (t\<lparr>mt_config_seq := q\<rparr>) = owned t" "owned (t\<lparr>mt_fallback_region := r\<rparr>) = owned t"
  "owned (t\<lparr>mt_fallback_mode := b\<rparr>) = owned t" "owned (t\<lparr>mt_shared_region := p\<rparr>) = owned t"
  "owned (t\<lparr>mt_backend := k\<rparr>) = owned t" "owned (t\<lparr>mt_phys_addr := a\<rparr>) = owned t"
  "owned (t\<lparr>mt_map_base := a\<rparr>) = owned t" "owned (t\<lparr>mt_map_size := a\<rparr>) = owned t"
  "owned (t\<lparr>mt_devmem_path := d\<rparr>) = owned t"
  "owned (t\<lparr>mt_shared_region_path := d\<rparr>) = owned t"
  by (simp_all add: owned_def)















text \<open>The descriptor that comes with a region the transport refuses is forgotten.\<close>

lemma refused_region_lost:
  "\<lbrakk>ion_allocate L (mt_region_size t) w = (Some (virt, phys, fd), w'); virt = 0 \<or> phys = 0\<rbrakk> \<Longrightarrow>
     allocateIonSharedRegion L (t, w) = (False, t, w')"
  by (auto simp: allocateIonSharedRegion_def)








section \<open>Announcing the region\<close>

definition announcement :: "u64 \<Rightarrow> cmdqu" where
  "announcement phys = \<lparr>cq_ip_id = 0, cq_cmd_id = 0x20, cq_block = True, cq_linux_valid = 100, cq_rtos_valid = 0,
     cq_param_ptr = ucast phys\<rparr>"

lemma notified:
  assumes "notifySharedRegion L (t, w) = (True, t', w')" "mt_fd t \<ge> 0" "\<not> mt_fallback_mode t"
  shows "t' = t \<and> mt_phys_addr t \<noteq> 0 \<and> mt_phys_addr t \<le> 0xFFFFFFFF \<and>
    (\<exists>ret. sys_ioctl L (mt_fd t) kRtosCmdquSendWait (announcement (mt_phys_addr t)) w = (ret, w') \<and> \<not> ret < 0)"
proof -
  have "cmd_code InitSharedMemory AND 0x7F = 0x20" by simp
  moreover have "(ucast (drop_bit 8 (100 :: u16)) :: u8) = 0" by simp
  ultimately show ?thesis
    using assms
    by (cases "sys_ioctl L (mt_fd t) kRtosCmdquSendWait (announcement (mt_phys_addr t)) w")
      (simp add: notifySharedRegion_def sendCommand_def announcement_def kInitSharedMemoryAckTimeoutMs_def Let_def
        case_prod_beta not_less split: if_splits)
qed

section \<open>A process to evaluate\<close>

text \<open>Descriptors, one region that every mapping shows, and the commands sent; some ways of opening fail.\<close>

record linux_bench =
  lb_fds :: "int list"
  lb_region :: shared_region
  lb_sent :: "cmdqu list"

definition next_fd :: "int list \<Rightarrow> int" where
  "next_fd l = foldr max l 2 + 1"

lemma next_fd_fresh: "x \<in> set l \<Longrightarrow> x < next_fd l" and next_fd_positive: "3 \<le> next_fd l"
  by (induction l) (auto simp: next_fd_def)

definition linux_bench_os :: "(string \<Rightarrow> string option) \<Rightarrow> (open_flag list \<Rightarrow> bool) \<Rightarrow> linux_bench linux_os" where
  "linux_bench_os env missing = \<lparr>getenv = env,
     sys_open = (\<lambda>_ fl w. if missing fl then (- 1, w)
       else (next_fd (lb_fds w), w\<lparr>lb_fds := next_fd (lb_fds w) # lb_fds w\<rparr>)),
     sys_close = (\<lambda>fd w. w\<lparr>lb_fds := removeAll fd (lb_fds w)\<rparr>), sys_ftruncate = (\<lambda>_ _ w. (0, w)),
     sys_mmap = (\<lambda>_ _ _ w. (Some 0x40000000, w)), sys_munmap = (\<lambda>_ _ w. w),
     sys_ioctl = (\<lambda>_ _ c w. (0, w\<lparr>lb_sent := lb_sent w @ [c]\<rparr>)), page_size = 4096, steady_clock_ns = (\<lambda>w. (5000000, w)),
     ion_allocate = amp_fc_allocate_ion_region, ion_free = amp_fc_free_ion_region, ion_flush = amp_fc_flush_ion_region,
     mem_load = (\<lambda>_ w. (lb_region w, w)), mem_store = (\<lambda>_ f w. w\<lparr>lb_region := f (lb_region w)\<rparr>)\<rparr>"

lemma linux_bench_fds: "fd_world (linux_bench_os env missing) (\<lambda>w. set (lb_fds w))"
proof -
  have "next_fd l \<notin> set l" "\<not> next_fd l < 0" for l
    using next_fd_fresh [of "next_fd l" l] next_fd_positive [of l] by auto
  then show ?thesis
    by (simp add: fd_world_def fd_given_def ion_present_def usable_def linux_bench_os_def amp_fc_allocate_ion_region_def
        amp_fc_free_ion_region_def amp_fc_flush_ion_region_def set_removeAll)
qed

lemma linux_bench_memory: "shared_memory (linux_bench_os env missing) a lb_region"
  by (simp add: shared_memory_def linux_bench_os_def amp_fc_flush_ion_region_def)

definition linux_bench0 :: linux_bench where
  "linux_bench0 = \<lparr>lb_fds = [0, 1, 2], lb_region = zero_region, lb_sent = []\<rparr>"

definition phys_env :: "string \<Rightarrow> string option" where
  "phys_env n = (if n = ''AMP_CMD_REGION_PHYS'' then Some ''0x83F00000'' else None)"

lemma phys_parsed: "strtoull ''0x83F00000'' = 0x83F00000"
  by code_simp

lemma bench_closed: "close_transport L (new_mailbox d, w) = (new_mailbox d, w)"
  by (simp add: close_transport_def close_device_def closeSharedRegion_def close_shm_def close_devmem_def
      release_mapping_def new_mailbox_def)

definition bench_mapped :: mailbox_transport where
  "bench_mapped = (new_mailbox ''/dev/cvi'')\<lparr>mt_fallback_region := fresh_region, mt_shared_region := MappedAt 0x40000000,
     mt_backend := DevMem, mt_phys_addr := 0x83F00000, mt_map_base := 0x40000000, mt_map_size := shared_region_size,
     mt_devmem_fd := 3\<rparr>"

lemma bench_allocated:
  "allocateDevmemSharedRegion (linux_bench_os phys_env (\<lambda>_. False)) ((new_mailbox ''/dev/cvi'')\<lparr>mt_fallback_region := fresh_region,
     mt_shared_region := OwnRegion\<rparr>, linux_bench0) = (True, bench_mapped, linux_bench0\<lparr>lb_fds := [3, 0, 1, 2]\<rparr>)"
  by (simp add: allocateDevmemSharedRegion_def linux_bench_os_def phys_env_def phys_parsed next_fd_def linux_bench0_def
      Let_def new_mailbox_def bench_mapped_def)

lemma bench_region:
  "openSharedRegion (linux_bench_os phys_env (\<lambda>_. False)) (new_mailbox ''/dev/cvi'', linux_bench0) =
     (True, bench_mapped, linux_bench0\<lparr>lb_fds := [3, 0, 1, 2], lb_region := fresh_region\<rparr>)"
proof -
  have e: "env_override (linux_bench_os phys_env (\<lambda>_. False)) ''AMP_DEVMEM_PATH'' p = p"
    "env_override (linux_bench_os phys_env (\<lambda>_. False)) ''AMP_CMD_REGION_SHM'' p = p"
    "getenv (linux_bench_os phys_env (\<lambda>_. False)) ''AMP_DISABLE_ION'' \<noteq> Some ''1''"
    "getenv (linux_bench_os phys_env (\<lambda>_. False)) ''AMP_CMD_REGION_PHYS'' \<noteq> None" for p
    by (simp_all add: env_override_def linux_bench_os_def phys_env_def)
  have ion: "allocateIonSharedRegion (linux_bench_os phys_env (\<lambda>_. False)) (t, w) = (False, t, w)" for t w
    by (simp add: allocateIonSharedRegion_def linux_bench_os_def amp_fc_allocate_ion_region_def)
  have "allocateSharedRegion (linux_bench_os phys_env (\<lambda>_. False)) ((new_mailbox ''/dev/cvi'')\<lparr>mt_fallback_region := fresh_region,
     mt_shared_region := OwnRegion\<rparr>, linux_bench0) = (True, bench_mapped, linux_bench0\<lparr>lb_fds := [3, 0, 1, 2]\<rparr>)"
    using bench_allocated by (simp add: allocateSharedRegion_def e ion Let_def new_mailbox_def)
  then show ?thesis
    by (simp add: openSharedRegion_def new_mailbox_def Let_def initializeSharedRegion_def bench_mapped_def
        region_get_def region_put_def flushSharedRegion_def linux_bench_os_def linux_bench0_def region_valid_def
        zero_region_def kSharedRegionMagic_def)
qed

section \<open>Sending to a private copy\<close>

text \<open>What an opening that succeeds with a live mailbox has done last.\<close>

lemma opened_announced:
  assumes "open_transport L x = (True, t, w)" "isLive t"
  shows "mt_phys_addr t \<noteq> 0 \<and> mt_phys_addr t \<le> 0xFFFFFFFF \<and>
    (\<exists>v ret. sys_ioctl L (mt_fd t) kRtosCmdquSendWait (announcement (mt_phys_addr t)) v = (ret, w) \<and> \<not> ret < 0)"
proof -
  obtain ok t1 w1 where o: "openSharedRegion L (close_transport L x) = (ok, t1, w1)"
    by (cases "openSharedRegion L (close_transport L x)") auto
  obtain fd v where d: "sys_open L (mt_device_path t1) [O_RDWR] w1 = (fd, v)"
    by (cases "sys_open L (mt_device_path t1) [O_RDWR] w1")
  let ?t = "t1\<lparr>mt_fd := fd, mt_fallback_mode := False\<rparr>"
  obtain n t2 w2 where n: "notifySharedRegion L (?t, v) = (n, t2, w2)" by (cases "notifySharedRegion L (?t, v)") auto
  have "open_transport L x = (if \<not> ok then (False, t1, w1) else if fd < 0 then (True, t1\<lparr>mt_fd := fd, mt_fallback_mode := True\<rparr>, v)
      else if \<not> n then (False, close_transport L (t2, w2)) else (True, t2, w2))"
    by (simp add: open_transport_def o d n Let_def)
  then have "\<not> fd < 0 \<and> n \<and> t2 = t \<and> w2 = w"
    using assms by (simp add: isLive_def split: if_splits)
  with n notified [of L ?t v t2 w2] show ?thesis by auto
qed

text \<open>Each sender from a state, with its report; the states that a sequence of sends passes through.\<close>

inductive sent_one :: "'w linux_os \<Rightarrow> 'w mt \<Rightarrow> bool \<times> 'w mt \<Rightarrow> bool" for L x where
  one_setpoint: "sent_one L x (sendSetpoint L sp x)"
| one_arm: "sent_one L x (sendArm L state x)"
| one_heartbeat: "sent_one L x (sendHeartbeat L q x)"
| one_emergency: "sent_one L x (sendEmergencyStop L reason x)"
| one_config: "sent_one L x (sendConfig L cf x)"

inductive sends :: "'w linux_os \<Rightarrow> 'w mt \<Rightarrow> 'w mt \<Rightarrow> bool" for L x0 where
  sent_none: "sends L x0 x0"
| sent_more: "sends L x0 x \<Longrightarrow> sent_one L x (ok, y) \<Longrightarrow> sends L x0 y"

text \<open>A live mailbox whose region is the copy inside the object.\<close>

definition private_live :: "mailbox_transport \<Rightarrow> bool" where
  "private_live t \<longleftrightarrow> isLive t \<and> mt_shared_region t = OwnRegion \<and> mt_backend t = Fallback \<and> region_valid (mt_fallback_region t)"

lemma private_send:
  assumes "\<And>fd r c v. \<not> fst (sys_ioctl L fd r c v) < 0" "\<And>fd r c v. mem (snd (sys_ioctl L fd r c v)) = mem v"
    "\<And>v. mem (snd (steady_clock_ns L v)) = mem v" "private_live (fst x)" "sent_one L x r"
  shows "fst r \<and> private_live (fst (snd r)) \<and> mem (snd (snd r)) = mem (snd x)"
proof -
  obtain t w where x: "x = (t, w)" by (cases x)
  have p: "\<not> mt_fd t < 0" "\<not> mt_fallback_mode t" "mt_shared_region t = OwnRegion" "mt_backend t = Fallback"
    "region_valid (mt_fallback_region t)" using assms(4) by (simp_all add: x private_live_def isLive_def not_less)
  have get: "region_get L (t', w') = (mt_fallback_region t', t', w')"
    and put: "region_put L f (t', w') = (t'\<lparr>mt_fallback_region := f (mt_fallback_region t')\<rparr>, w')"
    and flush: "flushSharedRegion L (t', w') = (True, t', w')"
    if "mt_shared_region t' = OwnRegion" "mt_backend t' = Fallback" for t' w' f
    using that by (simp_all add: region_get_def region_put_def flushSharedRegion_def)
  have valid: "region_valid (r\<lparr>sr_setpoint := a\<rparr>) = region_valid r" "region_valid (r\<lparr>sr_arm := b\<rparr>) = region_valid r"
    "region_valid (r\<lparr>sr_heartbeat := h\<rparr>) = region_valid r" "region_valid (r\<lparr>sr_emergency := e\<rparr>) = region_valid r"
    "region_valid (r\<lparr>sr_config := c\<rparr>) = region_valid r" for r a b h e c
    by (simp_all add: region_valid_def)
  have ack: "0 \<le> fst (sys_ioctl L fd r c v)" for fd r c v using assms(1) [of fd r c v] by simp
  note ops = x p ack assms(2,3) Let_def case_prod_beta private_live_def isLive_def not_less get put flush valid
    sendCommand_def monotonicNowUs_linux_def
  have fd: "0 \<le> mt_fd t" using p(1) by simp
  show ?thesis
    using assms(5)
  proof cases
    case (one_setpoint sp)
    then show ?thesis using fd by (simp add: sendSetpoint_def writeSetpointCache_def ops)
  next
    case (one_arm state)
    then show ?thesis using fd by (simp add: sendArm_def writeArmCache_def ops)
  next
    case (one_heartbeat q)
    then show ?thesis using fd by (simp add: sendHeartbeat_def writeHeartbeatCache_def ops)
  next
    case (one_emergency reason)
    then show ?thesis using fd by (simp add: sendEmergencyStop_def writeEmergencyCache_def ops)
  next
    case (one_config cf)
    then show ?thesis using fd by (simp add: sendConfig_def writeConfigCache_def ops)
  qed
qed

lemma private_sends:
  assumes "\<And>fd r c v. \<not> fst (sys_ioctl L fd r c v) < 0" "\<And>fd r c v. mem (snd (sys_ioctl L fd r c v)) = mem v"
    "\<And>v. mem (snd (steady_clock_ns L v)) = mem v" "private_live (fst x)" "sends L x y"
  shows "private_live (fst y) \<and> mem (snd y) = mem (snd x)"
  using assms(5)
proof (induction rule: sends.induct)
  case sent_none
  show ?case using assms(4) by simp
next
  case (sent_more y ok z)
  then show ?case using private_send [OF assms(1-3) _ sent_more.hyps(2)] by simp
qed

section \<open>The properties\<close>

text \<open>C30: When opening succeeds and the mailbox is live, the last thing it did was to announce by mailbox, and wait
  for the acknowledgement of, a physical address that is neither zero nor beyond 32 bits: the very address
  the object keeps.\<close>

theorem live_means_announced:
  assumes "open_transport L x = (True, t, w)" "isLive t"
  shows "mt_phys_addr t \<noteq> 0 \<and> mt_phys_addr t \<le> 0xFFFFFFFF \<and>
    (\<exists>v ret. sys_ioctl L (mt_fd t) kRtosCmdquSendWait (announcement (mt_phys_addr t)) v = (ret, w) \<and> \<not> ret < 0)"
  by (rule opened_announced [OF assms])

theorem live_means_announced_witness:
  "\<exists>v ret. sys_ioctl (linux_bench_os phys_env (\<lambda>_. False)) 4 kRtosCmdquSendWait (announcement 0x83F00000) v =
     (ret, linux_bench0\<lparr>lb_fds := [4, 3, 0, 1, 2], lb_region := fresh_region, lb_sent := [announcement 0x83F00000]\<rparr>) \<and> \<not> ret < 0"
proof -
  have "open_transport (linux_bench_os phys_env (\<lambda>_. False)) (new_mailbox ''/dev/cvi'', linux_bench0) =
      (True, bench_mapped\<lparr>mt_fd := 4, mt_fallback_mode := False\<rparr>,
       linux_bench0\<lparr>lb_fds := [4, 3, 0, 1, 2], lb_region := fresh_region, lb_sent := [announcement 0x83F00000]\<rparr>)"
    by (simp add: open_transport_def bench_closed bench_region)
      (simp add: linux_bench_os_def next_fd_def bench_mapped_def notifySharedRegion_def sendCommand_def Let_def
        announcement_def kInitSharedMemoryAckTimeoutMs_def linux_bench0_def)
  from live_means_announced [OF this] show ?thesis by (simp add: isLive_def bench_mapped_def)
qed





text \<open>The region when no descriptor for it can be had: the own copy, with the address from the environment.\<close>

lemma open_without_region:
  assumes "getenv L ''AMP_CMD_REGION_PHYS'' = Some e" "strtoull e = p" "p \<noteq> 0"
    "\<And>q fl v. fl \<noteq> [O_RDWR] \<Longrightarrow> fst (sys_open L q fl v) < 0" "\<And>n v. fst (ion_allocate L n v) = None"
  shows "fst (openSharedRegion L x) \<and> mt_phys_addr (fst (snd (openSharedRegion L x))) = p \<and>
    mt_shared_region (fst (snd (openSharedRegion L x))) = OwnRegion \<and> mt_backend (fst (snd (openSharedRegion L x))) = Fallback \<and>
    mt_fallback_region (fst (snd (openSharedRegion L x))) = fresh_region"
proof -
  have ion: "allocateIonSharedRegion L (t, w) = (False, t, snd (ion_allocate L (mt_region_size t) w))" for t w
    using assms(5) [of "mt_region_size t" w]
    by (cases "ion_allocate L (mt_region_size t) w") (simp add: allocateIonSharedRegion_def)
  have dev: "allocateDevmemSharedRegion L (t, w) = (False, t\<lparr>mt_phys_addr := p,
      mt_devmem_fd := fst (sys_open L (mt_devmem_path t) [O_RDWR, O_SYNC] w)\<rparr>, snd (sys_open L (mt_devmem_path t) [O_RDWR, O_SYNC] w))" for t w
    using assms(4) [of "[O_RDWR, O_SYNC]" "mt_devmem_path t" w]
    by (simp add: allocateDevmemSharedRegion_def assms(1-3) Let_def case_prod_beta)
  have shm: "allocateShmSharedRegion L (t, w) = (True, t\<lparr>mt_shared_fd := fst (sys_open L (mt_shared_region_path t) [O_RDWR, O_CREAT] w)\<rparr>,
      snd (sys_open L (mt_shared_region_path t) [O_RDWR, O_CREAT] w))" for t w
    using assms(4) [of "[O_RDWR, O_CREAT]" "mt_shared_region_path t" w]
    by (simp add: allocateShmSharedRegion_def Let_def case_prod_beta)
  show ?thesis
    by (cases x) (simp add: openSharedRegion_def allocateSharedRegion_def assms(1) Let_def ion dev shm
      initializeSharedRegion_def region_get_def flushSharedRegion_def region_valid_def fresh_region_def)
qed

lemma open_private:
  assumes "getenv L ''AMP_CMD_REGION_PHYS'' = Some e" "strtoull e = p" "p \<noteq> 0" "p \<le> 0xFFFFFFFF"
    "\<And>q fl v. fst (sys_open L q fl v) < 0 \<longleftrightarrow> fl \<noteq> [O_RDWR]" "\<And>n v. fst (ion_allocate L n v) = None"
    "\<And>fd r c v. \<not> fst (sys_ioctl L fd r c v) < 0" "open_transport L x = (ok, t, w)"
  shows "ok \<and> mt_phys_addr t = p \<and> private_live t"
proof -
  obtain b t1 w1 where o: "openSharedRegion L (close_transport L x) = (b, t1, w1)"
    by (cases "openSharedRegion L (close_transport L x)") auto
  have r: "b" "mt_phys_addr t1 = p" "mt_shared_region t1 = OwnRegion" "mt_backend t1 = Fallback"
    "mt_fallback_region t1 = fresh_region"
    using open_without_region [of L e p, OF assms(1-3) _ assms(6), of "close_transport L x"] assms(5) by (simp_all add: o)
  obtain fd v where d: "sys_open L (mt_device_path t1) [O_RDWR] w1 = (fd, v)"
    by (cases "sys_open L (mt_device_path t1) [O_RDWR] w1")
  have fd: "\<not> fd < 0" using assms(5) [of "mt_device_path t1" "[O_RDWR]" w1] by (simp add: d)
  let ?t = "t1\<lparr>mt_fd := fd, mt_fallback_mode := False\<rparr>"
  have n: "fst (notifySharedRegion L (?t, v))" "fst (snd (notifySharedRegion L (?t, v))) = ?t"
    using r fd assms(3,4,7) by (simp_all add: notifySharedRegion_def sendCommand_def Let_def case_prod_beta not_less)
  have e: "open_transport L x = (True, ?t, snd (snd (notifySharedRegion L (?t, v))))"
    using r(1) fd n by (simp add: open_transport_def o d Let_def case_prod_beta prod_eq_iff)
  then have "ok" "t = ?t" using assms(8) by simp_all
  then show ?thesis using r fd by (simp add: private_live_def isLive_def region_valid_def fresh_region_def)
qed

text \<open>C31: When the environment names a physical address of at most 32 bits but no descriptor for the region can be had
  (no ION region, neither \<open>/dev/mem\<close> nor the file can be opened) and the mailbox device does open, then, if the mailbox
  acknowledges what it is sent, opening succeeds, live, having announced that address; and after any sequence of sends,
  whichever is sent next, setpoint, arming, heartbeat, emergency stop or configuration, reports success while every memory
  that neither the mailbox call nor the clock changes, the announced one included, is still as it was when opening ended:
  everything is written to a private copy.\<close>

theorem announced_but_private:
  assumes "getenv L ''AMP_CMD_REGION_PHYS'' = Some e" "strtoull e = p" "p \<noteq> 0" "p \<le> 0xFFFFFFFF"
    "\<And>q fl v. fst (sys_open L q fl v) < 0 \<longleftrightarrow> fl \<noteq> [O_RDWR]" "\<And>n v. fst (ion_allocate L n v) = None"
    "\<And>fd r c v. \<not> fst (sys_ioctl L fd r c v) < 0" "\<And>fd r c v. mem (snd (sys_ioctl L fd r c v)) = mem v"
    "\<And>v. mem (snd (steady_clock_ns L v)) = mem v"
    "open_transport L x = (ok, t, w)" "sends L (t, w) y" "sent_one L y (sent, z)"
  shows "ok \<and> isLive t \<and>
    (\<exists>v ret. sys_ioctl L (mt_fd t) kRtosCmdquSendWait (announcement p) v = (ret, w) \<and> \<not> ret < 0) \<and>
    sent \<and> mem (snd z) = mem w"
proof -
  have o: "ok" "mt_phys_addr t = p" "private_live t"
    using open_private [of L e p, OF assms(1-7) assms(10)] by simp_all
  have y: "private_live (fst y)" "mem (snd y) = mem w"
    using private_sends [OF assms(7-9) _ assms(11)] o(3) by simp_all
  have "isLive t" using o(3) by (simp add: private_live_def)
  with opened_announced [of L x t w] assms(10) o(1,2)
  have "\<exists>v ret. sys_ioctl L (mt_fd t) kRtosCmdquSendWait (announcement p) v = (ret, w) \<and> \<not> ret < 0" by auto
  then show ?thesis
    using o(1) \<open>isLive t\<close> private_send [OF assms(7-9) y(1) assms(12)] y(2) by simp
qed

theorem announced_but_private_witness:
  "isLive (fst (snd (open_transport (linux_bench_os phys_env (\<lambda>fl. fl \<noteq> [O_RDWR])) (new_mailbox ''/dev/cvi'', linux_bench0)))) \<and>
   lb_region (snd (snd (sendEmergencyStop (linux_bench_os phys_env (\<lambda>fl. fl \<noteq> [O_RDWR])) 1
     (snd (sendArm (linux_bench_os phys_env (\<lambda>fl. fl \<noteq> [O_RDWR])) Armed
       (snd (open_transport (linux_bench_os phys_env (\<lambda>fl. fl \<noteq> [O_RDWR])) (new_mailbox ''/dev/cvi'', linux_bench0)))))))) =
   lb_region (snd (snd (open_transport (linux_bench_os phys_env (\<lambda>fl. fl \<noteq> [O_RDWR])) (new_mailbox ''/dev/cvi'', linux_bench0))))"
proof -
  let ?L = "linux_bench_os phys_env (\<lambda>fl. fl \<noteq> [O_RDWR])" let ?x = "(new_mailbox ''/dev/cvi'', linux_bench0)"
  have o: "fst (sys_open ?L q fl v) < 0 \<longleftrightarrow> fl \<noteq> [O_RDWR]" for q fl v
    using next_fd_positive [of "lb_fds v"] by (simp add: linux_bench_os_def)
  have p: "getenv ?L ''AMP_CMD_REGION_PHYS'' = Some ''0x83F00000''" "fst (ion_allocate ?L n v) = None"
    "\<not> fst (sys_ioctl ?L fd r c v) < 0" "lb_region (snd (sys_ioctl ?L fd r c v)) = lb_region v"
    "lb_region (snd (steady_clock_ns ?L v)) = lb_region v" for n v fd r c
    by (simp_all add: linux_bench_os_def phys_env_def amp_fc_allocate_ion_region_def)
  obtain ok t w where x: "open_transport ?L ?x = (ok, t, w)" by (cases "open_transport ?L ?x") auto
  obtain a y where a: "sendArm ?L Armed (t, w) = (a, y)" by (cases "sendArm ?L Armed (t, w)")
  obtain sent z where z: "sendEmergencyStop ?L 1 y = (sent, z)" by (cases "sendEmergencyStop ?L 1 y")
  have "sends ?L (t, w) y" using sent_more [OF sent_none] sent_one.one_arm [of ?L "(t, w)" Armed] by (simp add: a)
  moreover have "sent_one ?L y (sent, z)" using sent_one.one_emergency [of ?L y 1] by (simp add: z)
  ultimately show ?thesis
    using announced_but_private [OF p(1) phys_parsed _ _ o p(2-5) x] by (simp add: x a z)
qed

end
