(* ===== verification/Estimator.thy ===== *)
theory Estimator
  imports Sensors
begin

text \<open>
  \<open>rt_core/Estimator.cpp\<close>: the axis filters, the attitude update, the magnetic heading correction
  and the angle wrap. The transcendental functions of the C library are arguments, a record
  \<open>libm\<close>; the square root is correctly rounded by IEEE-754 and defined. The two \<open>while\<close> loops of
  \<open>wrapAngleDeg\<close> need not end in binary32, so they are partial functions and so is what calls them.
\<close>

section \<open>Library functions\<close>

record libm =
  lm_sin :: "f32 \<Rightarrow> f32"
  lm_cos :: "f32 \<Rightarrow> f32"
  lm_atan2 :: "f32 \<Rightarrow> f32 \<Rightarrow> f32"

text \<open>The integer square root, and the rounded one: the last bit marks an inexact root.\<close>

fun isqrt :: "nat \<Rightarrow> nat" where
  "isqrt n = (if n = 0 then 0
     else (let r = 2 * isqrt (n div 4) in if (r + 1) * (r + 1) \<le> n then r + 1 else r))"

declare isqrt.simps [simp del]

definition fsqrt :: "f32 \<Rightarrow> f32" where
  "fsqrt x =
    (if fis_nan x then fnan
     else if fzero x then x
     else if fsign x then fnan
     else if fis_inf x then x
     else (let N = nat (fval x) * 2 ^ 149; r = isqrt N
           in fround False (int (2 * r + (if r * r = N then 0 else 1))) 2))"

lemma isqrt_bounds: "isqrt n * isqrt n \<le> n \<and> n < (isqrt n + 1) * (isqrt n + 1)"
proof (induction n rule: isqrt.induct)
  case (1 n)
  show ?case
  proof (cases "n = 0")
    case True
    then show ?thesis by (simp add: isqrt.simps)
  next
    case False
    define s where "s = isqrt (n div 4)"
    have s: "s * s \<le> n div 4" "n div 4 < (s + 1) * (s + 1)" using 1 False by (auto simp: s_def)
    have lo: "(2 * s) * (2 * s) \<le> n" using s(1) by simp
    have "n div 4 + 1 \<le> (s + 1) * (s + 1)" using s(2) by simp
    then have hi: "n < (2 * s + 2) * (2 * s + 2)" by simp
    have "isqrt n = (if (2 * s + 1) * (2 * s + 1) \<le> n then 2 * s + 1 else 2 * s)"
      using False by (subst isqrt.simps) (simp add: s_def Let_def)
    then show ?thesis using lo hi by auto
  qed
qed

section \<open>One axis\<close>

record attitude_state =
  at_roll_deg :: f32
  at_pitch_deg :: f32
  at_yaw_deg :: f32
  at_roll_rate_dps :: f32
  at_pitch_rate_dps :: f32
  at_yaw_rate_dps :: f32

record axis_kalman =
  ak_angle_deg :: f32
  ak_bias_dps :: f32
  ak_p00 :: f32
  ak_p01 :: f32
  ak_p10 :: f32
  ak_p11 :: f32
  ak_q_angle :: f32
  ak_q_bias :: f32
  ak_r_measure :: f32

definition new_axis_kalman :: axis_kalman where
  "new_axis_kalman = \<lparr>ak_angle_deg = F32 0, ak_bias_dps = F32 0, ak_p00 = f32_of_int 1, ak_p01 = F32 0,
     ak_p10 = F32 0, ak_p11 = f32_of_int 1, ak_q_angle = flit 1 1000, ak_q_bias = flit 3 1000,
     ak_r_measure = flit 3 100\<rparr>"

definition kalman_update :: "axis_kalman \<Rightarrow> f32 \<Rightarrow> f32 \<Rightarrow> f32 \<Rightarrow> f32 \<times> axis_kalman" where
  "kalman_update k measured_angle_deg measured_rate_dps dt_s =
    (let rate = fsub measured_rate_dps (ak_bias_dps k);
         k = k\<lparr>ak_angle_deg := fadd (ak_angle_deg k) (fmul dt_s rate)\<rparr>;
         k = k\<lparr>ak_p00 := fadd (ak_p00 k) (fmul dt_s
                 (fadd (fsub (fsub (fmul dt_s (ak_p11 k)) (ak_p01 k)) (ak_p10 k)) (ak_q_angle k)))\<rparr>;
         k = k\<lparr>ak_p01 := fsub (ak_p01 k) (fmul dt_s (ak_p11 k))\<rparr>;
         k = k\<lparr>ak_p10 := fsub (ak_p10 k) (fmul dt_s (ak_p11 k))\<rparr>;
         k = k\<lparr>ak_p11 := fadd (ak_p11 k) (fmul (ak_q_bias k) dt_s)\<rparr>;
         innovation = fsub measured_angle_deg (ak_angle_deg k);
         innovation_cov = fadd (ak_p00 k) (ak_r_measure k);
         k0 = fdiv (ak_p00 k) innovation_cov;
         k1 = fdiv (ak_p10 k) innovation_cov;
         k = k\<lparr>ak_angle_deg := fadd (ak_angle_deg k) (fmul k0 innovation)\<rparr>;
         k = k\<lparr>ak_bias_dps := fadd (ak_bias_dps k) (fmul k1 innovation)\<rparr>;
         p00_temp = ak_p00 k;
         p01_temp = ak_p01 k;
         k = k\<lparr>ak_p00 := fsub (ak_p00 k) (fmul k0 p00_temp)\<rparr>;
         k = k\<lparr>ak_p01 := fsub (ak_p01 k) (fmul k0 p01_temp)\<rparr>;
         k = k\<lparr>ak_p10 := fsub (ak_p10 k) (fmul k1 p00_temp)\<rparr>;
         k = k\<lparr>ak_p11 := fsub (ak_p11 k) (fmul k1 p01_temp)\<rparr>
     in (ak_angle_deg k, k))"

section \<open>The angle wrap\<close>

partial_function (option) wrap_down :: "f32 \<Rightarrow> f32 option" where
  "wrap_down a = (if flt (f32_of_int 180) a then wrap_down (fsub a (f32_of_int 360)) else Some a)"

partial_function (option) wrap_up :: "f32 \<Rightarrow> f32 option" where
  "wrap_up a = (if flt a (f32_of_int (- 180)) then wrap_up (fadd a (f32_of_int 360)) else Some a)"

definition wrapAngleDeg :: "f32 \<Rightarrow> f32 option" where
  "wrapAngleDeg angle_deg = (case wrap_down angle_deg of None \<Rightarrow> None | Some a \<Rightarrow> wrap_up a)"

section \<open>The estimator\<close>

record estimator =
  es_gyro_bias :: vec3
  es_roll_filter :: axis_kalman
  es_pitch_filter :: axis_kalman
  es_last_state :: attitude_state

definition new_estimator :: estimator where
  "new_estimator = \<lparr>es_gyro_bias = (F32 0, F32 0, F32 0), es_roll_filter = new_axis_kalman,
     es_pitch_filter = new_axis_kalman,
     es_last_state = \<lparr>at_roll_deg = F32 0, at_pitch_deg = F32 0, at_yaw_deg = F32 0,
       at_roll_rate_dps = F32 0, at_pitch_rate_dps = F32 0, at_yaw_rate_dps = F32 0\<rparr>\<rparr>"

definition setGyroBias :: "estimator \<Rightarrow> vec3 \<Rightarrow> estimator" where
  "setGyroBias e bias_dps = e\<lparr>es_gyro_bias := bias_dps\<rparr>"

definition kRadToDeg :: f32 where "kRadToDeg = flit 572957795 10000000"
definition kDegToRad :: f32 where "kDegToRad = flit 174532925 10000000000"

definition estimator_update :: "libm \<Rightarrow> estimator \<Rightarrow> raw_imu_sample \<Rightarrow> f32 \<Rightarrow> attitude_state \<times> estimator" where
  "estimator_update M e sample dt_s =
    (let roll_acc_deg = fmul (lm_atan2 M (im_acc_y sample) (im_acc_z sample)) kRadToDeg;
         pitch_acc_deg = fmul (lm_atan2 M (fneg (im_acc_x sample))
           (fsqrt (fadd (fmul (im_acc_y sample) (im_acc_y sample))
                        (fmul (im_acc_z sample) (im_acc_z sample))))) kRadToDeg;
         (bx, by, bz) = es_gyro_bias e;
         roll_rate = fsub (im_gyro_x_dps sample) bx;
         pitch_rate = fsub (im_gyro_y_dps sample) by;
         yaw_rate = fsub (im_gyro_z_dps sample) bz;
         (roll, roll_filter) = kalman_update (es_roll_filter e) roll_acc_deg roll_rate dt_s;
         (pitch, pitch_filter) = kalman_update (es_pitch_filter e) pitch_acc_deg pitch_rate dt_s;
         last = \<lparr>at_roll_deg = roll, at_pitch_deg = pitch,
           at_yaw_deg = fadd (at_yaw_deg (es_last_state e)) (fmul yaw_rate dt_s),
           at_roll_rate_dps = roll_rate, at_pitch_rate_dps = pitch_rate, at_yaw_rate_dps = yaw_rate\<rparr>
     in (last, e\<lparr>es_roll_filter := roll_filter, es_pitch_filter := pitch_filter, es_last_state := last\<rparr>))"

definition mag_heading :: "libm \<Rightarrow> attitude_state \<Rightarrow> raw_mag_sample \<Rightarrow> f32" where
  "mag_heading M s sample =
    (let roll_rad = fmul (at_roll_deg s) kDegToRad;
         pitch_rad = fmul (at_pitch_deg s) kDegToRad;
         cos_roll = lm_cos M roll_rad;
         sin_roll = lm_sin M roll_rad;
         cos_pitch = lm_cos M pitch_rad;
         sin_pitch = lm_sin M pitch_rad;
         xh = fadd (fmul (mg_x sample) cos_pitch) (fmul (mg_z sample) sin_pitch);
         yh = fsub (fadd (fmul (fmul (mg_x sample) sin_roll) sin_pitch) (fmul (mg_y sample) cos_roll))
                   (fmul (fmul (mg_z sample) sin_roll) cos_pitch)
     in fmul (lm_atan2 M (fneg yh) xh) kRadToDeg)"

definition correctYawFromMag ::
  "libm \<Rightarrow> estimator \<Rightarrow> raw_mag_sample \<Rightarrow> f32 \<Rightarrow> (attitude_state \<times> estimator) option" where
  "correctYawFromMag M e sample dt_s =
    (if fle dt_s (f32_of_int 0) then Some (es_last_state e, e)
     else
       (case wrapAngleDeg (mag_heading M (es_last_state e) sample) of
          None \<Rightarrow> None
        | Some heading_deg \<Rightarrow>
            (case wrapAngleDeg (fsub heading_deg (at_yaw_deg (es_last_state e))) of
               None \<Rightarrow> None
             | Some error \<Rightarrow>
                 (let correction_alpha = fclamp (fmul dt_s (flit 15 10)) (flit 1 1000) (flit 3 100)
                  in case wrapAngleDeg (fadd (at_yaw_deg (es_last_state e)) (fmul error correction_alpha)) of
                       None \<Rightarrow> None
                     | Some yaw \<Rightarrow>
                         (let last = (es_last_state e)\<lparr>at_yaw_deg := yaw\<rparr>
                          in Some (last, e\<lparr>es_last_state := last\<rparr>))))))"

section \<open>Termination and range of the wrap\<close>

lemma angle_consts:
  "fval (f32_of_int 180) = funits 180" "fval (f32_of_int (- 180)) = funits (- 180)"
  "fval (f32_of_int 360) = funits 360" "fis_fin (f32_of_int 360)"
  by (simp_all add: fval_of_int fin_of_int)

lemma wrap_down_ends:
  assumes "\<not> fis_nan a" "fval a \<le> funits n" "n < 2 ^ 24"
  shows "\<exists>r. wrap_down a = Some r \<and> \<not> fis_nan r \<and> fval r \<le> funits 180 \<and>
    (r = a \<or> funits (- 180) \<le> fval r)"
  using assms
proof (induction "nat n" arbitrary: a n rule: less_induct)
  case less
  show ?case
  proof (cases "flt (f32_of_int 180) a")
    case False
    then have "fval a \<le> funits 180" using less.prems(1) by (auto simp: flt_def angle_consts)
    then show ?thesis using False less.prems(1) by (subst wrap_down.simps) simp
  next
    case True
    let ?b = "fsub a (f32_of_int 360)"
    have a: "funits 180 < fval a" using True by (auto simp: flt_def angle_consts)
    then have n: "180 < n" using less.prems(2) by (simp add: mult_less_cancel_right)
    have "frange (- (2 ^ 173)) (2 ^ 173) a"
      using a less.prems by (auto simp: frange_def)
    then have fa: "fis_fin a" by (rule frange_fin) simp_all
    have rep: "frepr (funits (- 180))" "frepr (funits (n - 360))"
      by (rule frepr_funits; use less.prems(3) n in simp)+
    have b: "frange (funits (- 180)) (funits (n - 360)) ?b"
      using a less.prems(2) by (intro frange_sub fa rep) (auto simp: angle_consts algebra_simps)
    have "\<exists>r. wrap_down ?b = Some r \<and> \<not> fis_nan r \<and> fval r \<le> funits 180 \<and>
        (r = ?b \<or> funits (- 180) \<le> fval r)"
      using b n less.prems(3) by (intro less.hyps [of "n - 360"]) (auto simp: frange_def)
    then obtain r where r: "wrap_down ?b = Some r" "\<not> fis_nan r" "fval r \<le> funits 180"
      "r = ?b \<or> funits (- 180) \<le> fval r" by blast
    then have "funits (- 180) \<le> fval r" using b by (auto simp: frange_def)
    then show ?thesis using r True by (subst wrap_down.simps) simp
  qed
qed

lemma wrap_up_ends:
  assumes "\<not> fis_nan a" "funits (- n) \<le> fval a" "fval a \<le> funits 180" "n < 2 ^ 24"
  shows "\<exists>r. wrap_up a = Some r \<and> frange (funits (- 180)) (funits 180) r"
  using assms
proof (induction "nat n" arbitrary: a n rule: less_induct)
  case less
  show ?case
  proof (cases "flt a (f32_of_int (- 180))")
    case False
    then have "funits (- 180) \<le> fval a" using less.prems(1) by (auto simp: flt_def angle_consts)
    then show ?thesis using False less.prems(1,3) by (subst wrap_up.simps) (simp add: frange_def)
  next
    case True
    let ?b = "fadd a (f32_of_int 360)"
    have a: "fval a < funits (- 180)" using True by (auto simp: flt_def angle_consts)
    have "funits (- n) < funits (- 180)" using less.prems(2) a by (rule order_le_less_trans)
    then have n: "180 < n" by (simp only: mult_less_cancel_right) simp
    have "frange (- (2 ^ 173)) (2 ^ 173) a"
      using a less.prems by (auto simp: frange_def)
    then have fa: "fis_fin a" by (rule frange_fin) simp_all
    have rep: "frepr (funits (- (n - 360)))" "frepr (funits 180)"
      by (rule frepr_funits; use less.prems(4) n in simp)+
    have b: "frange (funits (- (n - 360))) (funits 180) ?b"
      using a less.prems(2) by (intro frange_add fa rep) (auto simp: angle_consts algebra_simps)
    have "\<exists>r. wrap_up ?b = Some r \<and> frange (funits (- 180)) (funits 180) r"
      using b n less.prems(4) by (intro less.hyps [of "n - 360"]) (auto simp: frange_def)
    then show ?thesis using True by (subst wrap_up.simps) simp
  qed
qed

text \<open>When a step does not change the value, the loop never ends.\<close>

lemma wrap_down_not_stuck:
  assumes "wrap_down x = Some r" "flt (f32_of_int 180) a" "fsub a (f32_of_int 360) = a"
  shows "x \<noteq> a"
proof (rule wrap_down.raw_induct [where P = "\<lambda>x _. x \<noteq> a", OF _ assms(1)])
  fix f x y
  assume "\<And>z r. f z = Some r \<Longrightarrow> z \<noteq> a"
    "(if flt (f32_of_int 180) x then f (fsub x (f32_of_int 360)) else Some x) = Some y"
  then show "x \<noteq> a" using assms(2,3) by (auto split: if_splits)
qed

section \<open>Properties\<close>

text \<open>the angle wrap ends for every angle of at most eight million degrees, with a result
  between -180 and 180 degrees.\<close>

theorem wrapAngleDeg_ends:
  assumes "frange (funits (- 8000000)) (funits 8000000) a"
  shows "\<exists>r. wrapAngleDeg a = Some r \<and> frange (funits (- 180)) (funits 180) r"
proof -
  have a: "\<not> fis_nan a" "funits (- 8000000) \<le> fval a" "fval a \<le> funits 8000000"
    using assms by (auto simp: frange_def)
  obtain r where r: "wrap_down a = Some r" "\<not> fis_nan r" "fval r \<le> funits 180"
    "r = a \<or> funits (- 180) \<le> fval r"
    using wrap_down_ends [OF a(1,3)] by auto
  have "funits (- 8000000) \<le> fval r" using r(4) a(2) by auto
  then obtain r' where "wrap_up r = Some r'" "frange (funits (- 180)) (funits 180) r'"
    using wrap_up_ends [OF r(2) _ r(3), of 8000000] by auto
  then show ?thesis using r(1) by (simp add: wrapAngleDeg_def)
qed

text \<open>it does not end for an angle above 180 degrees that one subtraction of 360 leaves as it
  is: an infinity, and every value so large that 360 is below half its last place.\<close>

theorem wrapAngleDeg_diverges:
  assumes "flt (f32_of_int 180) a" "fsub a (f32_of_int 360) = a"
  shows "wrapAngleDeg a = None"
  using wrap_down_not_stuck [OF _ assms] by (cases "wrap_down a") (auto simp: wrapAngleDeg_def)

text \<open>Bounds of the library functions that the heading correction relies on.\<close>

definition libm_ok :: "libm \<Rightarrow> bool" where
  "libm_ok M \<longleftrightarrow>
     (\<forall>x. fis_fin x \<longrightarrow> fbound 149 (lm_sin M x) \<and> fbound 149 (lm_cos M x)) \<and>
     (\<forall>x y. \<not> fis_nan x \<and> \<not> fis_nan y \<longrightarrow> fbound 151 (lm_atan2 M x y))"

lemma rad_to_deg: "fbound 155 kRadToDeg" "fbound 149 kDegToRad"
proof -
  have "frange (funits 57) (funits 58) kRadToDeg"
    unfolding kRadToDeg_def by (rule frange_flit [OF _ frepr_funits frepr_funits]) simp_all
  then show "fbound 155 kRadToDeg" by (rule fbound_of_frange) simp_all
  have "frange (funits 0) (funits 1) kDegToRad"
    unfolding kDegToRad_def by (rule frange_flit [OF _ frepr_funits frepr_funits]) simp_all
  then show "fbound 149 kDegToRad" by (rule fbound_of_frange) simp_all
qed

lemma mag_heading_bound:
  assumes M: "libm_ok M" and s: "fbound 180 (at_roll_deg s)" "fbound 180 (at_pitch_deg s)"
    and m: "fbound 161 (mg_x sample)" "fbound 161 (mg_y sample)" "fbound 161 (mg_z sample)"
  shows "fbound 157 (mag_heading M s sample)"
proof -
  have rad: "fis_fin (fmul (at_roll_deg s) kDegToRad)" "fis_fin (fmul (at_pitch_deg s) kDegToRad)"
    using fbound_mul [OF s(1) rad_to_deg(2)] fbound_mul [OF s(2) rad_to_deg(2)]
    by (auto intro: fbound_fin)
  define cr sr cp sp where "cr = lm_cos M (fmul (at_roll_deg s) kDegToRad)"
    "sr = lm_sin M (fmul (at_roll_deg s) kDegToRad)" "cp = lm_cos M (fmul (at_pitch_deg s) kDegToRad)"
    "sp = lm_sin M (fmul (at_pitch_deg s) kDegToRad)"
  have t: "fbound 149 cr" "fbound 149 sr" "fbound 149 cp" "fbound 149 sp"
    using M rad by (auto simp: libm_ok_def cr_sr_cp_sp_def)
  have mul: "fbound 161 (fmul x y)" if "fbound 161 x" "fbound 149 y" for x y
    using fbound_mul [OF that] by simp
  let ?xh = "fadd (fmul (mg_x sample) cp) (fmul (mg_z sample) sp)"
  let ?yh = "fsub (fadd (fmul (fmul (mg_x sample) sr) sp) (fmul (mg_y sample) cr))
    (fmul (fmul (mg_z sample) sr) cp)"
  have "fbound 162 ?xh" using fbound_add [OF mul mul, OF m(1) t(3) m(3) t(4)] by simp
  moreover have "fbound 162 (fadd (fmul (fmul (mg_x sample) sr) sp) (fmul (mg_y sample) cr))"
    using fbound_add [OF mul [OF mul] mul, OF m(1) t(2) t(4) m(2) t(1)] by simp
  then have "fbound 163 ?yh"
    using fbound_sub [OF _ mul [OF mul], OF _ m(3) t(2) t(3), of 162] by simp
  then have "fbound 163 (fneg ?yh)" by (rule fbound_neg)
  ultimately have "fbound 151 (lm_atan2 M (fneg ?yh) ?xh)"
    using M by (auto simp: libm_ok_def fboundD)
  from fbound_mul [OF this rad_to_deg(1)] show ?thesis
    by (simp add: mag_heading_def Let_def cr_sr_cp_sp_def)
qed

lemma angle_of_fbound: "fbound 171 a \<Longrightarrow> frange (funits (- 8000000)) (funits 8000000) a"
  unfolding fbound_def by (rule frange_mono, assumption) (simp, simp)

text \<open>the heading correction returns for every bounded state and magnetometer sample: the new
  yaw is between -180 and 180 degrees and the rest of the state is unchanged. It relies on sine and
  cosine within 1 for finite arguments and on an arc tangent within 4.\<close>

theorem correctYaw_returns:
  assumes "libm_ok M" "fbound 180 (at_roll_deg (es_last_state e))" "fbound 180 (at_pitch_deg (es_last_state e))"
    "fbound 168 (at_yaw_deg (es_last_state e))" "fbound 161 (mg_x sample)" "fbound 161 (mg_y sample)"
    "fbound 161 (mg_z sample)" "flt (f32_of_int 0) dt_s" "fbound 200 dt_s"
  shows "\<exists>yaw. frange (funits (- 180)) (funits 180) yaw \<and>
    correctYawFromMag M e sample dt_s =
      Some ((es_last_state e)\<lparr>at_yaw_deg := yaw\<rparr>, e\<lparr>es_last_state := (es_last_state e)\<lparr>at_yaw_deg := yaw\<rparr>\<rparr>)"
proof -
  let ?yaw = "at_yaw_deg (es_last_state e)"
  have wrap: "\<exists>r. wrapAngleDeg a = Some r \<and> frange (funits (- 180)) (funits 180) r" if "fbound 171 a" for a
    using wrapAngleDeg_ends [OF angle_of_fbound [OF that]] .
  have b157: "fbound 157 r" if "frange (funits (- 180)) (funits 180) r" for r
    using that by (rule fbound_of_frange) simp_all
  obtain heading where h: "wrapAngleDeg (mag_heading M (es_last_state e) sample) = Some heading"
    "fbound 157 heading"
    using wrap [OF fbound_mono [OF mag_heading_bound [OF assms(1-3,5-7)]]] b157 by auto
  obtain error where er: "wrapAngleDeg (fsub heading ?yaw) = Some error" "fbound 157 error"
    using wrap [OF fbound_mono [OF fbound_sub [OF h(2) assms(4)]]] b157 by auto
  let ?alpha = "fclamp (fmul dt_s (flit 15 10)) (flit 1 1000) (flit 3 100)"
  have lits: "frange 0 (funits 1) (flit 1 1000)" "frange 0 (funits 1) (flit 3 100)"
    "frange 0 (funits 2) (flit 15 10)"
    using frepr_funits [of 1] frepr_funits [of 2] frepr_0 by (auto intro!: frange_flit)
  have "fbound 150 (flit 15 10)" by (rule fbound_of_frange [OF lits(3)]) simp_all
  from fbound_mul [OF assms(9) this] have d: "fbound 201 (fmul dt_s (flit 15 10))" by simp
  have "frange 0 (funits 1) ?alpha"
    using fboundD(1) [OF d] lits by (auto simp: std_clamp_def frange_def flt_def)
  then have "fbound 149 ?alpha" by (rule fbound_of_frange) simp_all
  from fbound_mul [OF er(2) this] have "fbound 157 (fmul error ?alpha)" by simp
  from fbound_add [OF assms(4) this] have "fbound 169 (fadd ?yaw (fmul error ?alpha))" by simp
  then have "fbound 171 (fadd ?yaw (fmul error ?alpha))" by (rule fbound_mono) simp
  from wrap [OF this] obtain yaw where y: "wrapAngleDeg (fadd ?yaw (fmul error ?alpha)) = Some yaw"
    "frange (funits (- 180)) (funits 180) yaw"
    by blast
  have "\<not> fle dt_s (f32_of_int 0)" using assms(8) by (auto simp: flt_def fle_def)
  then show ?thesis using h(1) er(1) y
    by (intro exI [of _ yaw]) (simp add: correctYawFromMag_def Let_def)
qed

text \<open>the body rates of every update are the gyro rates less the calibrated biases: within 2048
  degrees per second for a sample and a bias within the sensor's bounds, whatever the filters do.\<close>

theorem estimator_rates:
  assumes "estimator_update M e sample dt_s = (s, e')"
  shows "at_roll_rate_dps s = fsub (im_gyro_x_dps sample) (fst (es_gyro_bias e)) \<and>
    at_pitch_rate_dps s = fsub (im_gyro_y_dps sample) (fst (snd (es_gyro_bias e))) \<and>
    at_yaw_rate_dps s = fsub (im_gyro_z_dps sample) (snd (snd (es_gyro_bias e))) \<and>
    es_last_state e' = s \<and>
    (gyro_bounded 505 (imu_gyro sample) \<and> gyro_bounded 1010 (es_gyro_bias e) \<longrightarrow>
       fbound 160 (at_roll_rate_dps s) \<and> fbound 160 (at_pitch_rate_dps s) \<and> fbound 160 (at_yaw_rate_dps s))"
proof -
  obtain bx "by" bz where b: "es_gyro_bias e = (bx, by, bz)" by (metis prod.collapse)
  have *: "fbound 160 (fsub x y)" if "frange (funits (- 505)) (funits 505) x"
    "frange (funits (- 1010)) (funits 1010) y" for x y
  proof -
    have "fbound 158 x" "fbound 159 y" by (rule fbound_of_frange, rule that, simp_all)+
    from fbound_sub [OF this] show ?thesis by simp
  qed
  have s: "at_roll_rate_dps s = fsub (im_gyro_x_dps sample) bx"
    "at_pitch_rate_dps s = fsub (im_gyro_y_dps sample) by"
    "at_yaw_rate_dps s = fsub (im_gyro_z_dps sample) bz" "es_last_state e' = s"
    using assms by (auto simp: estimator_update_def Let_def b split: prod.splits)
  then show ?thesis by (auto simp: b gyro_bounded_def imu_gyro_def intro!: *)
qed

section \<open>Witnesses\<close>

lemma zero_value: "fval (F32 0) = 0" "\<not> fis_nan (F32 0)"
  by (simp_all add: fval_def fis_nan_def fmag_def)

lemma zero_bounds: "fbound n (F32 0)" "0 \<le> b \<Longrightarrow> frange (funits (- b)) (funits b) (F32 0)"
  by (simp_all add: fbound_def frange_def zero_value)

text \<open>A library whose functions are constantly zero is within the bounds.\<close>

definition zero_libm :: libm where
  "zero_libm = \<lparr>lm_sin = \<lambda>_. F32 0, lm_cos = \<lambda>_. F32 0, lm_atan2 = \<lambda>_ _. F32 0\<rparr>"

lemma zero_libm_ok: "libm_ok zero_libm"
  by (simp add: libm_ok_def zero_libm_def zero_bounds)

definition rest_imu :: raw_imu_sample where
  "rest_imu = \<lparr>im_acc_x = F32 0, im_acc_y = F32 0, im_acc_z = F32 0, im_gyro_x_dps = F32 0,
     im_gyro_y_dps = F32 0, im_gyro_z_dps = F32 0, im_timestamp_us = 0\<rparr>"

definition rest_mag :: raw_mag_sample where
  "rest_mag = \<lparr>mg_x = F32 0, mg_y = F32 0, mg_z = F32 0, mg_timestamp_us = 0\<rparr>"

theorem wrapAngleDeg_ends_witness:
  "\<exists>r. wrapAngleDeg (f32_of_int 725) = Some r \<and> frange (funits (- 180)) (funits 180) r"
  by (rule wrapAngleDeg_ends) (simp add: frange_def fval_of_int)

theorem wrapAngleDeg_diverges_witness: "wrapAngleDeg (finf False) = None"
proof (rule wrapAngleDeg_diverges)
  have inf: "fmag (finf False) = inf_mag" "fsign (finf False) = False"
    by (simp_all add: finf_def fmk_mag fmk_sign inf_mag_def)
  then have "fval (finf False) = 2 ^ 277" by (simp add: fval_def kmag_inf)
  then show "flt (f32_of_int 180) (finf False)"
    using inf by (simp add: flt_def angle_consts fis_nan_def [of "finf False"])
  have "fis_fin (fneg (f32_of_int 360))" by (simp add: fneg_class angle_consts)
  then show "fsub (finf False) (f32_of_int 360) = finf False"
    using inf by (simp add: fsub_def fadd_def fis_nan_def fis_inf_def fis_fin_def)
qed

theorem correctYaw_returns_witness:
  "\<exists>yaw. frange (funits (- 180)) (funits 180) yaw \<and>
    correctYawFromMag zero_libm new_estimator rest_mag (f32_of_int 1) =
      Some ((es_last_state new_estimator)\<lparr>at_yaw_deg := yaw\<rparr>,
        new_estimator\<lparr>es_last_state := (es_last_state new_estimator)\<lparr>at_yaw_deg := yaw\<rparr>\<rparr>)"
proof (rule correctYaw_returns [OF zero_libm_ok])
  show "fbound 180 (at_roll_deg (es_last_state new_estimator))"
    "fbound 180 (at_pitch_deg (es_last_state new_estimator))"
    "fbound 168 (at_yaw_deg (es_last_state new_estimator))"
    "fbound 161 (mg_x rest_mag)" "fbound 161 (mg_y rest_mag)" "fbound 161 (mg_z rest_mag)"
    by (simp_all add: new_estimator_def rest_mag_def zero_bounds)
  show "flt (f32_of_int 0) (f32_of_int 1)" by (simp add: flt_def fval_of_int)
  show "fbound 200 (f32_of_int 1)" by (rule fboundI) (simp_all add: fval_of_int)
qed

theorem estimator_rates_witness:
  "fbound 160 (at_yaw_rate_dps (fst (estimator_update zero_libm new_estimator rest_imu (f32_of_int 1))))"
proof -
  have "gyro_bounded 505 (imu_gyro rest_imu)" "gyro_bounded 1010 (es_gyro_bias new_estimator)"
    by (simp_all add: gyro_bounded_def imu_gyro_def rest_imu_def new_estimator_def frange_def zero_value)
  then show ?thesis
    using estimator_rates [OF surjective_pairing, of zero_libm new_estimator rest_imu "f32_of_int 1"]
    by blast
qed

end
