(* ===== verification/Telemetry.thy ===== *)
theory Telemetry
  imports LinuxMailbox Estimator
begin

text \<open>
  The Linux process (\<open>linux_core/TelemetryNode.cpp\<close>): sources of pilot input, configuration from a file and
  the console, and the loop that publishes setpoints, heartbeats, configurations and the failsafe.
\<close>

section \<open>Text\<close>

definition is_blank :: "char \<Rightarrow> bool" where
  "is_blank c \<longleftrightarrow> c = CHR '' '' \<or> of_char c = (9 :: int) \<or> of_char c = (13 :: int) \<or> of_char c = (10 :: int)"

definition trim :: "string \<Rightarrow> string" where
  "trim text =
    (let rest = dropWhile is_blank text
     in if rest = [] then [] else rev (dropWhile is_blank (rev rest)))"

definition to_lower :: "char \<Rightarrow> char" where
  "to_lower c = (let k = of_char c in if 65 \<le> k \<and> k \<le> (90 :: int) then char_of (k + 32) else c)"

definition toLower :: "string \<Rightarrow> string" where
  "toLower = map to_lower"

text \<open>\<open>std::stof\<close>: \<open>None\<close> is an exception, for no number at all and for one out of the range of \<open>float\<close>.\<close>

definition scan_exponent :: "char \<Rightarrow> string \<Rightarrow> int" where
  "scan_exponent e r =
    (case r of [] \<Rightarrow> 0 | c # q \<Rightarrow>
       if c = e then (case take_sign q of (neg, ds) \<Rightarrow> if neg then - number_in 10 ds else number_in 10 ds) else 0)"

text \<open>Digits with an optional point: the digits as a number, the exponent, the digits behind the point.\<close>

definition scan_float :: "int \<Rightarrow> char \<Rightarrow> string \<Rightarrow> (int \<times> int \<times> nat) option" where
  "scan_float base e cs =
    (let digit = (\<lambda>c. digit_value c < base);
         whole = takeWhile digit cs;
         r = dropWhile digit cs;
         point = (take 1 r = ''.'');
         part = (if point then takeWhile digit (tl r) else []);
         r = (if point then dropWhile digit (tl r) else r)
     in if whole @ part = [] then None else Some (number_in base (whole @ part), scan_exponent e r, length part))"

definition fmin_normal :: nat where "fmin_normal = 2 ^ 23"

text \<open>The nearest number, and whether the error indicator is set: overflow, or inexact below the normal range.\<close>

definition nearest :: "bool \<Rightarrow> int \<Rightarrow> int \<Rightarrow> f32 \<times> bool" where
  "nearest neg n d =
    (let x = fround neg (if neg then - (n * 2 ^ 149) else n * 2 ^ 149) (nat d)
     in (x, fis_inf x \<or> n \<noteq> 0 \<and> fmag x < fmin_normal \<and> \<bar>fval x\<bar> * d \<noteq> n * 2 ^ 149))"

definition scaled :: "bool \<Rightarrow> int \<Rightarrow> int \<Rightarrow> int \<times> int \<times> nat \<Rightarrow> f32 \<times> bool" where
  "scaled neg base eb = (\<lambda>(n, e, k).
    if e \<ge> 0 then nearest neg (n * eb ^ nat e) (base ^ k) else nearest neg n (base ^ k * eb ^ nat (- e)))"

definition strtof :: "string \<Rightarrow> (f32 \<times> bool) option" where
  "strtof s =
    (let (neg, cs) = take_sign (dropWhile c_space s);
         cs = toLower cs
     in if take 3 cs = ''inf'' then Some (finf neg, False)
        else if take 3 cs = ''nan'' then Some (fnan, False)
        else if take 2 cs = ''0x'' then
          (case scan_float 16 CHR ''p'' (drop 2 cs) of Some m \<Rightarrow> Some (scaled neg 16 2 m) | None \<Rightarrow> Some (nearest neg 0 1))
        else map_option (scaled neg 10 10) (scan_float 10 CHR ''e'' cs))"

definition stof :: "string \<Rightarrow> f32 option" where
  "stof s = (case strtof s of None \<Rightarrow> None | Some (x, range_error) \<Rightarrow> if range_error then None else Some x)"

definition stoi :: "string \<Rightarrow> int option" where
  "stoi s =
    (let (neg, cs) = take_sign (dropWhile c_space s);
         n = number_in 10 cs;
         v = (if neg then - n else n)
     in if cs = [] \<or> \<not> digit_value (hd cs) < 10 then None
        else if - (2 ^ 31) \<le> v \<and> v < 2 ^ 31 then Some v else None)"

section \<open>A configuration line\<close>

text \<open>The two words of a line \<open>set key value\<close>, as extracted from a stream.\<close>

definition next_word :: "string \<Rightarrow> string \<times> string" where
  "next_word s = (let r = dropWhile c_space s in (takeWhile (\<lambda>c. \<not> c_space c) r, dropWhile (\<lambda>c. \<not> c_space c) r))"

definition line_text :: "string \<Rightarrow> string" where
  "line_text line = trim (takeWhile (\<lambda>c. c \<noteq> CHR ''#'' \<and> c \<noteq> CHR '';'') line)"

definition key_and_value :: "string \<Rightarrow> (string \<times> string) option" where
  "key_and_value working =
    (if take 4 working = ''set '' then
       (let (key, rest) = next_word (drop 4 working);
            (value, _) = next_word rest
        in if key = [] \<or> value = [] then None else Some (key, value))
     else if CHR ''='' \<notin> set working then None
     else (let key = takeWhile (\<lambda>c. c \<noteq> CHR ''='') working
           in Some (trim key, trim (drop (length key + 1) working))))"

definition set_number :: "(f32 \<Rightarrow> flight_config) \<Rightarrow> string \<Rightarrow> flight_config \<Rightarrow> bool \<times> flight_config" where
  "set_number put value config = (case stof value of None \<Rightarrow> (False, config) | Some x \<Rightarrow> (True, put x))"

definition set_key :: "string \<Rightarrow> string \<Rightarrow> flight_config \<Rightarrow> bool \<times> flight_config" where
  "set_key key value config =
    (if key = ''angle_p'' \<or> key = ''anglep'' then set_number (\<lambda>x. config\<lparr>fc_angle_p := x\<rparr>) value config
     else if key = ''rate_p'' \<or> key = ''ratep'' then set_number (\<lambda>x. config\<lparr>fc_rate_p := x\<rparr>) value config
     else if key = ''rate_i'' \<or> key = ''ratei'' then set_number (\<lambda>x. config\<lparr>fc_rate_i := x\<rparr>) value config
     else if key = ''rate_d'' \<or> key = ''rated'' then set_number (\<lambda>x. config\<lparr>fc_rate_d := x\<rparr>) value config
     else if key = ''throttle_expo'' \<or> key = ''throttleexpo'' \<or> key = ''expo'' then
       set_number (\<lambda>x. config\<lparr>fc_throttle_expo := x\<rparr>) value config
     else if key = ''deadzone'' \<or> key = ''deadzone_us'' then
       (case stoi value of
          None \<Rightarrow> (False, config)
        | Some parsed \<Rightarrow> (True, config\<lparr>fc_deadzone_us := word_of_int (max 0 (min 500 parsed))\<rparr>))
     else (False, config))"

definition parseConfigLine :: "string \<Rightarrow> flight_config \<Rightarrow> bool \<times> flight_config" where
  "parseConfigLine line config =
    (let working = line_text line
     in if working = [] \<or> hd working = CHR ''['' then (False, config)
        else
         (case key_and_value working of
            None \<Rightarrow> (False, config)
          | Some (key, value) \<Rightarrow>
             (let key = toLower (trim key);
                  value = trim value
              in if key = [] \<or> value = [] then (False, config) else set_key key value config)))"

text \<open>\<open>std::getline\<close> over a text: a last line without its newline counts when it is not empty.\<close>

fun text_lines :: "string \<Rightarrow> string \<Rightarrow> string list" where
  "text_lines line [] = (if line = [] then [] else [line])"
| "text_lines line (c # cs) = (if c = CHR ''\<newline>'' then line # text_lines [] cs else text_lines (line @ [c]) cs)"

definition parse_lines :: "string list \<Rightarrow> flight_config \<Rightarrow> bool \<times> flight_config" where
  "parse_lines ls config =
    foldl (\<lambda>(updated, config) line. (case parseConfigLine line config of (b, config) \<Rightarrow> (b \<or> updated, config)))
      (False, config) ls"

section \<open>Pilot input\<close>

record rc_snapshot =
  rs_link_ok :: bool
  rs_setpoint :: command_setpoint

record 'r rc_source =
  rc_init :: "'r \<Rightarrow> bool \<times> 'r"
  rc_read :: "'r \<Rightarrow> rc_snapshot \<times> 'r"

definition sim_read :: "libm \<Rightarrow> u32 \<Rightarrow> rc_snapshot \<times> u32" where
  "sim_read M tick =
    (let tick = tick + 1;
         wave = (\<lambda>amp step. fmul (f32_of_int amp) (lm_sin M (fmul (f32_of_int (uint tick)) step)))
     in (\<lparr>rs_link_ok = (\<not> (tick > 140 \<and> tick < 180)),
          rs_setpoint = \<lparr>sp_throttle = flit 33 100, sp_roll_deg = wave 8 (flit 3 100), sp_pitch_deg = wave 7 (flit 22 1000),
            sp_yaw_rate_dps = wave 25 (flit 18 1000), sp_seq = tick\<rparr>\<rparr>, tick))"

definition SimulatedRcSource :: "libm \<Rightarrow> u32 rc_source" where
  "SimulatedRcSource M = \<lparr>rc_init = (\<lambda>_. (True, 0)), rc_read = sim_read M\<rparr>"

definition NullRcSource :: "unit rc_source" where
  "NullRcSource = \<lparr>rc_init = (\<lambda>u. (True, u)), rc_read = (\<lambda>u. (\<lparr>rs_link_ok = False, rs_setpoint = zero_setpoint\<rparr>, u))\<rparr>"

section \<open>The node\<close>

text \<open>The console, the file system, the stop flag and the wait of the loop, beside Linux and the pilot's input.\<close>

record ('w, 'r) telemetry_env =
  te_os :: "'w linux_os"
  te_rc :: "'r rc_source"
  cin_good :: "'w \<Rightarrow> bool"
  cin_in_avail :: "'w \<Rightarrow> int"
  cin_getline :: "'w \<Rightarrow> string option \<times> 'w"
  read_file :: "string \<Rightarrow> 'w \<Rightarrow> string option \<times> 'w"
  stop_requested :: "'w \<Rightarrow> bool"
  sleep_until :: "u64 \<Rightarrow> 'w \<Rightarrow> 'w"

record 'r telemetry =
  tn_mailbox :: mailbox_transport
  tn_rc_source :: 'r
  tn_heartbeat_seq :: u32
  tn_active_config :: flight_config
  tn_config_sent :: bool
  tn_ini_path :: string
  tn_ini_cache :: string

definition TelemetryNode :: "('w, 'r) telemetry_env \<Rightarrow> 'r \<Rightarrow> string \<Rightarrow> 'r telemetry" where
  "TelemetryNode E rc ini_path =
    \<lparr>tn_mailbox = new_mailbox ''/dev/cvi-rtos-cmdqu'', tn_rc_source = rc, tn_heartbeat_seq = 0,
     tn_active_config = default_flight_config, tn_config_sent = False,
     tn_ini_path = (if ini_path = [] then (case getenv (te_os E) ''AMP_FLIGHT_CONFIG_INI'' of Some p \<Rightarrow> p | None \<Rightarrow> []) else ini_path),
     tn_ini_cache = []\<rparr>"

type_synonym ('w, 'r) tn = "'r telemetry \<times> 'w"

definition with_mailbox :: "('w mt \<Rightarrow> 'a \<times> 'w mt) \<Rightarrow> ('w, 'r) tn \<Rightarrow> 'a \<times> ('w, 'r) tn" where
  "with_mailbox f = (\<lambda>(n, w). case f (tn_mailbox n, w) of (a, m, w) \<Rightarrow> (a, n\<lparr>tn_mailbox := m\<rparr>, w))"

definition almostEqual :: "f32 \<Rightarrow> f32 \<Rightarrow> bool" where
  "almostEqual left right = fle (fabs (fsub left right)) (flit 1 1000000)"

definition push_candidate :: "flight_config \<Rightarrow> flight_config" where
  "push_candidate config =
    config\<lparr>fc_angle_p := fclamp (fc_angle_p config) (flit 5 10) (f32_of_int 20),
      fc_rate_p := fclamp (fc_rate_p config) (flit 1 100) (f32_of_int 1),
      fc_rate_i := fclamp (fc_rate_i config) (f32_of_int 0) (f32_of_int 1),
      fc_rate_d := fclamp (fc_rate_d config) (f32_of_int 0) (flit 1 10),
      fc_throttle_expo := fclamp (fc_throttle_expo config) (f32_of_int 0) (flit 95 100),
      fc_deadzone_us := std_clamp (<) (fc_deadzone_us config) 0 100\<rparr>"

definition config_unchanged :: "flight_config \<Rightarrow> flight_config \<Rightarrow> bool" where
  "config_unchanged candidate active \<longleftrightarrow>
     almostEqual (fc_angle_p candidate) (fc_angle_p active) \<and> almostEqual (fc_rate_p candidate) (fc_rate_p active) \<and>
     almostEqual (fc_rate_i candidate) (fc_rate_i active) \<and> almostEqual (fc_rate_d candidate) (fc_rate_d active) \<and>
     almostEqual (fc_throttle_expo candidate) (fc_throttle_expo active) \<and>
     fc_deadzone_us candidate = fc_deadzone_us active"

definition pushConfig :: "('w, 'r) telemetry_env \<Rightarrow> flight_config \<Rightarrow> ('w, 'r) tn \<Rightarrow> bool \<times> ('w, 'r) tn" where
  "pushConfig E config = (\<lambda>(n, w).
    (let candidate = push_candidate config
     in if config_unchanged candidate (tn_active_config n) \<and> tn_config_sent n then (False, n, w)
        else
         (let candidate =
               (if tn_config_sent n then candidate\<lparr>fc_update_seq := fc_update_seq (tn_active_config n) + 1\<rparr>
                else if fc_update_seq candidate = 0 then candidate\<lparr>fc_update_seq := 1\<rparr> else candidate);
              (sent, n, w) = with_mailbox (sendConfig (te_os E) candidate) (n, w)
          in if \<not> sent then (False, n, w)
             else (True, n\<lparr>tn_active_config := candidate, tn_config_sent := True\<rparr>, w))))"

definition maybeLoadIniConfig :: "('w, 'r) telemetry_env \<Rightarrow> flight_config \<Rightarrow> ('w, 'r) tn \<Rightarrow> (bool \<times> flight_config) \<times> ('w, 'r) tn" where
  "maybeLoadIniConfig E config = (\<lambda>(n, w).
    if tn_ini_path n = [] then ((False, config), n, w)
    else
     (case read_file E (tn_ini_path n) w of
        (None, w) \<Rightarrow> ((False, config), n, w)
      | (Some text, w) \<Rightarrow>
         (if text = tn_ini_cache n then ((False, config), n, w)
          else (parse_lines (text_lines [] text) config, n\<lparr>tn_ini_cache := text\<rparr>, w))))"

definition maybeReadCliConfig :: "('w, 'r) telemetry_env \<Rightarrow> flight_config \<Rightarrow> 'w \<Rightarrow> (bool \<times> flight_config) \<times> 'w" where
  "maybeReadCliConfig E config w =
    (if \<not> cin_good E w then ((False, config), w)
     else if cin_in_avail E w \<le> 0 then ((False, config), w)
     else
      (case cin_getline E w of
         (None, w) \<Rightarrow> ((False, config), w)
       | (Some line, w) \<Rightarrow>
          (let line = trim line
           in if line = [] then ((False, config), w)
              else if toLower line = ''help'' then ((False, config), w)
              else if toLower line = ''show'' then ((False, config), w)
              else (parseConfigLine line config, w))))"

section \<open>The loop\<close>

definition kTickUs :: u64 where "kTickUs = 10000"
definition kSetpointIntervalUs :: u64 where "kSetpointIntervalUs = 10000"
definition kHeartbeatIntervalUs :: u64 where "kHeartbeatIntervalUs = 50000"
definition kRcTimeoutUs :: u64 where "kRcTimeoutUs = 200000"

text \<open>The variables of \<open>run\<close>; the time to wake is in nanoseconds.\<close>

record telemetry_loop =
  tl_last_rc_ok_us :: u64
  tl_rc_seen :: bool
  tl_failsafe_sent :: bool
  tl_setpoint_budget_us :: u64
  tl_heartbeat_budget_us :: u64
  tl_wake :: u64

type_synonym ('w, 'r) tl = "telemetry_loop \<times> ('w, 'r) tn"

definition rc_phase :: "('w, 'r) telemetry_env \<Rightarrow> u64 \<Rightarrow> ('w, 'r) tl \<Rightarrow> ('w, 'r) tl" where
  "rc_phase E now_us = (\<lambda>(v, n, w).
    if tl_setpoint_budget_us v \<ge> kSetpointIntervalUs then
      (let v = v\<lparr>tl_setpoint_budget_us := 0\<rparr>;
           (snapshot, rc) = rc_read (te_rc E) (tn_rc_source n);
           n = n\<lparr>tn_rc_source := rc\<rparr>
       in if rs_link_ok snapshot then
            (v\<lparr>tl_rc_seen := True, tl_last_rc_ok_us := now_us, tl_failsafe_sent := False\<rparr>,
             snd (with_mailbox (sendSetpoint (te_os E) (rs_setpoint snapshot)) (n, w)))
          else (v, n, w))
    else (v, n, w))"

definition config_phase :: "('w, 'r) telemetry_env \<Rightarrow> ('w, 'r) tn \<Rightarrow> ('w, 'r) tn" where
  "config_phase E = (\<lambda>(n, w).
    (let ((cli, incoming), w) = maybeReadCliConfig E (tn_active_config n) w;
         (n, w) = (if cli then snd (pushConfig E incoming (n, w)) else (n, w));
         ((ini, incoming), n, w) = maybeLoadIniConfig E (tn_active_config n) (n, w)
     in if ini then snd (pushConfig E incoming (n, w)) else (n, w)))"

definition failsafe_phase :: "('w, 'r) telemetry_env \<Rightarrow> u64 \<Rightarrow> ('w, 'r) tl \<Rightarrow> ('w, 'r) tl" where
  "failsafe_phase E now_us = (\<lambda>(v, x).
    if tl_rc_seen v \<and> now_us - tl_last_rc_ok_us v > kRcTimeoutUs \<and> \<not> tl_failsafe_sent v then
      (let x = snd (with_mailbox (sendEmergencyStop (te_os E) 1) x);
           x = snd (with_mailbox (sendArm (te_os E) Failsafe) x)
       in (v\<lparr>tl_failsafe_sent := True\<rparr>, x))
    else (v, x))"

definition heartbeat_phase :: "('w, 'r) telemetry_env \<Rightarrow> ('w, 'r) tl \<Rightarrow> ('w, 'r) tl" where
  "heartbeat_phase E = (\<lambda>(v, n, w).
    if tl_heartbeat_budget_us v \<ge> kHeartbeatIntervalUs then
      (let n = n\<lparr>tn_heartbeat_seq := tn_heartbeat_seq n + 1\<rparr>
       in (v\<lparr>tl_heartbeat_budget_us := 0\<rparr>, snd (with_mailbox (sendHeartbeat (te_os E) (tn_heartbeat_seq n)) (n, w))))
    else (v, n, w))"

definition telemetry_cycle :: "('w, 'r) telemetry_env \<Rightarrow> ('w, 'r) tl \<Rightarrow> ('w, 'r) tl" where
  "telemetry_cycle E = (\<lambda>(v, n, w).
    (let v = v\<lparr>tl_wake := tl_wake v + kTickUs * 1000\<rparr>;
         (now_us, w) = monotonicNowUs_linux (te_os E) w;
         v = v\<lparr>tl_setpoint_budget_us := tl_setpoint_budget_us v + kTickUs,
               tl_heartbeat_budget_us := tl_heartbeat_budget_us v + kTickUs\<rparr>;
         (v, x) = rc_phase E now_us (v, n, w);
         x = config_phase E x;
         (v, n, w) = heartbeat_phase E (failsafe_phase E now_us (v, x))
     in (v, n, sleep_until E (tl_wake v) w)))"

partial_function (option) telemetry_loop_run ::
  "('w, 'r) telemetry_env \<Rightarrow> nat \<Rightarrow> nat \<Rightarrow> ('w, 'r) tl \<Rightarrow> ('w, 'r) tl option" where
  "telemetry_loop_run E max_cycles cycle x =
    (if (max_cycles = 0 \<or> cycle < max_cycles) \<and> \<not> stop_requested E (snd (snd x))
     then telemetry_loop_run E max_cycles (Suc cycle) (telemetry_cycle E x)
     else Some x)"

definition telemetry_start :: "('w, 'r) telemetry_env \<Rightarrow> ('w, 'r) tn \<Rightarrow> bool \<times> ('w, 'r) tl" where
  "telemetry_start E = (\<lambda>(n, w).
    (let v0 = \<lparr>tl_last_rc_ok_us = 0, tl_rc_seen = False, tl_failsafe_sent = False, tl_setpoint_budget_us = 0,
           tl_heartbeat_budget_us = 0, tl_wake = 0\<rparr>;
         (ready, rc) = rc_init (te_rc E) (tn_rc_source n);
         n = n\<lparr>tn_rc_source := rc\<rparr>
     in if \<not> ready then (False, v0, n, w)
        else
         (let (opened, n, w) = with_mailbox (open_transport (te_os E)) (n, w)
          in if \<not> opened then (False, v0, n, w)
             else
              (let (n, w) = snd (pushConfig E (tn_active_config n) (n, w));
                   (now, w) = monotonicNowUs_linux (te_os E) w;
                   (wake, w) = steady_clock_ns (te_os E) w
               in (True, v0\<lparr>tl_last_rc_ok_us := now, tl_wake := wake\<rparr>, n, w)))))"

definition telemetry_run :: "('w, 'r) telemetry_env \<Rightarrow> nat \<Rightarrow> ('w, 'r) tn \<Rightarrow> (bool \<times> ('w, 'r) tn) option" where
  "telemetry_run E max_cycles x =
    (case telemetry_start E x of
       (False, _, x) \<Rightarrow> Some (False, x)
     | (True, y) \<Rightarrow>
        (case telemetry_loop_run E max_cycles 0 y of
           None \<Rightarrow> None
         | Some (_, x) \<Rightarrow> Some (True, snd (with_mailbox (\<lambda>m. ((), close_transport (te_os E) m)) x))))"

section \<open>Trimming\<close>

lemma dropWhile_all: "list_all P a \<Longrightarrow> t \<noteq> [] \<Longrightarrow> \<not> P (hd t) \<Longrightarrow> dropWhile P (a @ t @ d) = t @ d"
  by (induction a) (cases t; simp)+

lemma trim_middle:
  assumes "list_all is_blank a" "list_all is_blank d" "t \<noteq> []" "\<not> is_blank (hd t)" "\<not> is_blank (last t)"
  shows "trim (a @ t @ d) = t"
proof -
  have "list_all is_blank (rev d)" "rev t \<noteq> []" "\<not> is_blank (hd (rev t))"
    using assms by (simp_all add: hd_rev)
  from dropWhile_all [OF this, of "[]"] dropWhile_all [OF assms(1,3,4), of d] show ?thesis
    using assms(3) by (simp add: trim_def Let_def)
qed

text \<open>A key or a value as it is written between blanks.\<close>

definition plain_text :: "string \<Rightarrow> bool" where
  "plain_text t \<longleftrightarrow> t \<noteq> [] \<and> \<not> is_blank (hd t) \<and> \<not> is_blank (last t) \<and>
     list_all (\<lambda>c. c \<noteq> CHR ''#'' \<and> c \<noteq> CHR '';'' \<and> c \<noteq> CHR ''='') t"

lemma plain_trim: "plain_text t \<Longrightarrow> trim t = t"
  using trim_middle [of "[]" "[]" t] by (simp add: plain_text_def)

lemma not_blank: "\<not> is_blank CHR ''#''" "\<not> is_blank CHR '';''" "\<not> is_blank CHR ''=''"
  by code_simp+

lemma blank_plain: "list_all is_blank a \<Longrightarrow> list_all (\<lambda>c. c \<noteq> CHR ''#'' \<and> c \<noteq> CHR '';'' \<and> c \<noteq> CHR ''='') a"
  using not_blank unfolding list_all_iff by blast

lemma takeWhile_stop: "list_all P a \<Longrightarrow> e = [] \<or> \<not> P (hd e) \<Longrightarrow> takeWhile P (a @ e) = a"
  by (induction a) (cases e; simp)+

lemma comment_free:
  "plain_text t \<Longrightarrow> list_all (\<lambda>x. x \<noteq> CHR ''#'' \<and> x \<noteq> CHR '';'') t"
  "list_all is_blank u \<Longrightarrow> list_all (\<lambda>x. x \<noteq> CHR ''#'' \<and> x \<noteq> CHR '';'') u"
  using blank_plain [of u] unfolding plain_text_def list_all_iff by blast+

lemma line_text_comment:
  assumes "list_all is_blank a" "list_all is_blank d" "list_all (\<lambda>x. x \<noteq> CHR ''#'' \<and> x \<noteq> CHR '';'') t"
    "t \<noteq> []" "\<not> is_blank (hd t)" "\<not> is_blank (last t)" "e = [] \<or> hd e = CHR ''#'' \<or> hd e = CHR '';''"
  shows "line_text (a @ t @ d @ e) = t"
proof -
  let ?p = "\<lambda>x. x \<noteq> CHR ''#'' \<and> x \<noteq> CHR '';''"
  have "list_all ?p a" "list_all ?p d"
    using blank_plain [OF assms(1)] blank_plain [OF assms(2)] unfolding list_all_iff by blast+
  then have p: "list_all ?p (a @ t @ d)" using assms(3) by simp
  have "e = [] \<or> \<not> ?p (hd e)" using assms(7) by blast
  from takeWhile_stop [OF p this] have "takeWhile ?p (a @ t @ d @ e) = a @ t @ d" by simp
  then show ?thesis using trim_middle [OF assms(1,2,4-6)] by (simp only: line_text_def)
qed

lemma take_prefix: "k \<le> length xs \<Longrightarrow> take k (xs @ ys) = take k xs"
  by simp

lemma set_prefix:
  assumes "take 4 xs \<noteq> ''set ''"
  shows "take 4 (xs @ ''='' @ ys) \<noteq> ''set ''"
proof (cases "4 \<le> length xs")
  case True
  then show ?thesis using assms by (simp only: take_prefix not_False_eq_True)
next
  case False
  define zs where "zs = take 4 (xs @ ''='' @ ys)"
  have "zs ! length xs = CHR ''=''" "length xs < length zs" using False by (simp_all add: zs_def nth_append)
  then have "CHR ''='' \<in> set zs" by (metis nth_mem)
  then show ?thesis unfolding zs_def [symmetric] by auto
qed

lemma assignment_split:
  assumes "list_all is_blank b" "list_all is_blank c" "plain_text key" "plain_text val" "take 4 (key @ b) \<noteq> ''set ''"
  shows "key_and_value (key @ b @ ''='' @ c @ val) = Some (key, val)"
proof -
  have "list_all (\<lambda>x. x \<noteq> CHR ''='') key" "list_all (\<lambda>x. x \<noteq> CHR ''='') b"
    using assms(3) blank_plain [OF assms(1)] unfolding plain_text_def list_all_iff by blast+
  then have "list_all (\<lambda>x. x \<noteq> CHR ''='') (key @ b)" by simp
  from takeWhile_stop [OF this, of "''='' @ c @ val"]
  have k: "takeWhile (\<lambda>x. x \<noteq> CHR ''='') (key @ b @ ''='' @ c @ val) = key @ b" by simp
  have t: "trim (key @ b) = key" "trim (c @ val) = val"
    using trim_middle [OF _ assms(1), of "[]" key] trim_middle [OF assms(2), of "[]" val] assms(3,4)
    by (simp_all add: plain_text_def)
  have s: "take 4 (key @ b @ ''='' @ c @ val) \<noteq> ''set ''"
    using set_prefix [OF assms(5), of "c @ val"] by simp
  have "CHR ''='' \<in> set (key @ b @ ''='' @ c @ val)" by simp
  then show ?thesis unfolding key_and_value_def if_not_P [OF s] k Let_def by (simp add: t)
qed

text \<open>C36: A line that assigns a value to a key, with any blanks around both, any case of the key and any comment
  behind, sets exactly that key: what the parser does with it depends on the key and the value alone.\<close>

theorem assignment_parsed:
  assumes "list_all (list_all is_blank) [a, b, c, d]" "plain_text key" "plain_text val"
    "hd key \<noteq> CHR ''[''" "take 4 (key @ b) \<noteq> ''set ''" "e = [] \<or> hd e = CHR ''#'' \<or> hd e = CHR '';''"
  shows "parseConfigLine (a @ key @ b @ ''='' @ c @ val @ d @ e) config = set_key (toLower key) val config"
proof -
  let ?w = "key @ b @ ''='' @ c @ val"
  have bl: "list_all is_blank a" "list_all is_blank b" "list_all is_blank c" "list_all is_blank d" using assms(1) by simp_all
  have ne: "key \<noteq> []" "val \<noteq> []" "\<not> is_blank (hd key)" "\<not> is_blank (last val)"
    using assms(2,3) by (simp_all add: plain_text_def)
  have "list_all (\<lambda>x. x \<noteq> CHR ''#'' \<and> x \<noteq> CHR '';'') ''=''" by simp
  with comment_free(1) [OF assms(2)] comment_free(1) [OF assms(3)] comment_free(2) [OF bl(2)] comment_free(2) [OF bl(3)]
  have "list_all (\<lambda>x. x \<noteq> CHR ''#'' \<and> x \<noteq> CHR '';'') ?w" by (simp only: list_all_append)
  note free = this
  have w: "?w \<noteq> []" "\<not> is_blank (hd ?w)" "\<not> is_blank (last ?w)" "hd ?w \<noteq> CHR ''[''" using ne assms(4) by simp_all
  have l: "line_text (a @ key @ b @ ''='' @ c @ val @ d @ e) = ?w"
    using line_text_comment [OF bl(1,4) free w(1-3) assms(6)] by (simp only: append.assoc)
  have n: "toLower key \<noteq> []" using ne by (simp add: toLower_def)
  show ?thesis
    unfolding parseConfigLine_def l Let_def assignment_split [OF bl(2,3) assms(2,3,5)]
    using w(1,4) n ne(2) by (simp only: if_False option.case prod.case de_Morgan_disj not_False_eq_True simp_thms
        plain_trim [OF assms(2)] plain_trim [OF assms(3)])
qed

lemma plain_examples: "plain_text ''Rate_P''" "plain_text ''0.2''" "toLower ''Rate_P'' = ''rate_p''"
  by code_simp+

lemma scan_example: "scan_float 10 CHR ''e'' ''0.2'' = Some (2, 0, 1)"
  by code_simp

theorem assignment_parsed_witness:
  "parseConfigLine ''  Rate_P = 0.2 # slower'' default_flight_config =
     set_number (\<lambda>x. default_flight_config\<lparr>fc_rate_p := x\<rparr>) ''0.2'' default_flight_config"
proof -
  have b: "is_blank CHR '' ''" by code_simp
  have "parseConfigLine (''  '' @ ''Rate_P'' @ '' '' @ ''='' @ '' '' @ ''0.2'' @ '' '' @ ''# slower'') default_flight_config =
      set_key (toLower ''Rate_P'') ''0.2'' default_flight_config"
    by (rule assignment_parsed) (simp_all add: b plain_examples)
  then show ?thesis by (simp add: plain_examples(3)) (simp add: set_key_def)
qed

section \<open>The loop's cadence\<close>

lemma with_mailbox_frame:
  "tn_heartbeat_seq (fst (snd (with_mailbox f x))) = tn_heartbeat_seq (fst x)"
  by (cases x) (simp add: with_mailbox_def case_prod_beta)

lemma push_frame: "tn_heartbeat_seq (fst (snd (pushConfig E c x))) = tn_heartbeat_seq (fst x)"
  by (cases x) (simp add: pushConfig_def Let_def case_prod_beta with_mailbox_frame)

lemma config_phase_frame: "tn_heartbeat_seq (fst (config_phase E x)) = tn_heartbeat_seq (fst x)"
proof -
  have ini: "tn_heartbeat_seq (fst (snd (maybeLoadIniConfig E c y))) = tn_heartbeat_seq (fst y)" for c y
    by (cases y) (simp add: maybeLoadIniConfig_def case_prod_beta split: option.split)
  show ?thesis
    by (cases x) (simp add: config_phase_def Let_def case_prod_beta push_frame ini)
qed

lemma rc_phase_frame:
  "tl_heartbeat_budget_us (fst (rc_phase E now x)) = tl_heartbeat_budget_us (fst x)"
  "tn_heartbeat_seq (fst (snd (rc_phase E now x))) = tn_heartbeat_seq (fst (snd x))"
  "tl_setpoint_budget_us (fst x) = 10000 \<Longrightarrow> tl_setpoint_budget_us (fst (rc_phase E now x)) = 0"
  by (cases x; simp add: rc_phase_def Let_def case_prod_beta with_mailbox_frame kSetpointIntervalUs_def)+

lemma failsafe_phase_frame:
  "tl_heartbeat_budget_us (fst (failsafe_phase E now x)) = tl_heartbeat_budget_us (fst x)"
  "tl_setpoint_budget_us (fst (failsafe_phase E now x)) = tl_setpoint_budget_us (fst x)"
  "tn_heartbeat_seq (fst (snd (failsafe_phase E now x))) = tn_heartbeat_seq (fst (snd x))"
  by (cases x; simp add: failsafe_phase_def Let_def case_prod_beta with_mailbox_frame)+

lemma heartbeat_phase_step:
  "tl_setpoint_budget_us (fst (heartbeat_phase E x)) = tl_setpoint_budget_us (fst x)"
  "tl_heartbeat_budget_us (fst (heartbeat_phase E x)) =
     (if tl_heartbeat_budget_us (fst x) \<ge> 50000 then 0 else tl_heartbeat_budget_us (fst x))"
  "tn_heartbeat_seq (fst (snd (heartbeat_phase E x))) =
     (if tl_heartbeat_budget_us (fst x) \<ge> 50000 then tn_heartbeat_seq (fst (snd x)) + 1 else tn_heartbeat_seq (fst (snd x)))"
  by (cases x; simp add: heartbeat_phase_def Let_def case_prod_beta with_mailbox_frame kHeartbeatIntervalUs_def)+

lemma cycle_step:
  assumes "tl_setpoint_budget_us (fst x) = 0"
  shows "tl_setpoint_budget_us (fst (telemetry_cycle E x)) = 0"
    "tl_heartbeat_budget_us (fst (telemetry_cycle E x)) =
       (if tl_heartbeat_budget_us (fst x) + 10000 \<ge> 50000 then 0 else tl_heartbeat_budget_us (fst x) + 10000)"
    "tn_heartbeat_seq (fst (snd (telemetry_cycle E x))) =
       (if tl_heartbeat_budget_us (fst x) + 10000 \<ge> 50000 then tn_heartbeat_seq (fst (snd x)) + 1
        else tn_heartbeat_seq (fst (snd x)))"
  using assms
  by (cases x; simp add: telemetry_cycle_def Let_def case_prod_beta heartbeat_phase_step failsafe_phase_frame rc_phase_frame
      config_phase_frame kTickUs_def)+

text \<open>From the start of the loop on, pilot input is read in every cycle and a heartbeat is sent in every fifth,
  with the next number: after \<open>k\<close> cycles of 10 ms, \<open>k div 5\<close> heartbeats have been sent.\<close>

theorem heartbeat_cadence:
  assumes "tl_setpoint_budget_us v = 0" "tl_heartbeat_budget_us v = 0" "(telemetry_cycle E ^^ k) (v, n, w) = (v', n', w')"
  shows "tn_heartbeat_seq n' = tn_heartbeat_seq n + word_of_nat (k div 5) \<and> tl_setpoint_budget_us v' = 0 \<and>
    tl_heartbeat_budget_us v' = word_of_nat (10000 * (k mod 5))"
  using assms(3)
proof (induction k arbitrary: v' n' w')
  case 0
  then show ?case using assms by simp
next
  case (Suc k)
  obtain u m z where k: "(telemetry_cycle E ^^ k) (v, n, w) = (u, m, z)" by (cases "(telemetry_cycle E ^^ k) (v, n, w)") auto
  note IH = Suc.IH [OF k]
  have e: "(v', n', w') = telemetry_cycle E (u, m, z)" using Suc.prems k by simp
  note c = cycle_step [of "(u, m, z)" E, folded e, unfolded fst_conv snd_conv]
  have "k mod 5 < 5" by simp
  then consider "k mod 5 = 0" | "k mod 5 = 1" | "k mod 5 = 2" | "k mod 5 = 3" | "k mod 5 = 4" by linarith
  then show ?case
    using c IH by cases (simp_all add: mod_Suc div_Suc)
qed

section \<open>The end of a run\<close>

lemma loop_returns:
  "k \<le> max_cycles \<Longrightarrow> max_cycles \<noteq> 0 \<Longrightarrow> \<exists>y. telemetry_loop_run E max_cycles k x = Some y"
proof (induction "max_cycles - k" arbitrary: k x)
  case 0
  then show ?case by (subst telemetry_loop_run.simps) (cases x; simp)
next
  case (Suc d)
  then have "d = max_cycles - Suc k" "Suc k \<le> max_cycles" by simp_all
  from Suc.hyps(1) [OF this(1) this(2) Suc.prems(2)] show ?case
    by (subst telemetry_loop_run.simps) (cases x; simp)
qed

lemma closed_pointers:
  "mt_fd (fst (close_transport L x)) < 0" "mt_shared_region (fst (close_transport L x)) = NoRegion"
proof -
  have "mt_fd (fst (closeSharedRegion L y)) = mt_fd (fst y)" for y
    by (cases y) (simp add: closeSharedRegion_def close_shm_def close_devmem_def release_mapping_def Let_def)
  then show "mt_fd (fst (close_transport L x)) < 0"
    by (cases x) (simp add: close_transport_def close_device_def)
  show "mt_shared_region (fst (close_transport L x)) = NoRegion"
    by (simp add: close_transport_def closeSharedRegion_def case_prod_beta Let_def)
qed

text \<open>A run limited to some number of cycles always returns; after one that started, the mailbox is closed and the
  region given back.\<close>

theorem telemetry_run_returns:
  assumes "max_cycles \<noteq> 0"
  shows "case telemetry_run E max_cycles x of
      None \<Rightarrow> False
    | Some (ok, n, w) \<Rightarrow>
        ok = fst (telemetry_start E x) \<and> (if ok then \<not> isLive (tn_mailbox n) \<and> mt_shared_region (tn_mailbox n) = NoRegion
        else (n, w) = snd (snd (telemetry_start E x)))"
proof -
  obtain b v y where st: "telemetry_start E x = (b, v, y)" by (cases "telemetry_start E x") auto
  show ?thesis
  proof (cases b)
    case False
    then show ?thesis by (cases y) (simp add: telemetry_run_def st)
  next
    case True
    obtain u n w where l: "telemetry_loop_run E max_cycles 0 (v, y) = Some (u, n, w)"
      using loop_returns [OF _ assms, of 0 E "(v, y)"] by auto
    then show ?thesis
      using True closed_pointers [of "te_os E" "(tn_mailbox n, w)"]
      by (simp add: telemetry_run_def st with_mailbox_def case_prod_beta isLive_def)
  qed
qed

text \<open>A node with no pilot input, no file and a silent console.\<close>

definition telemetry_bench :: "(linux_bench, unit) telemetry_env" where
  "telemetry_bench = \<lparr>te_os = linux_bench_os phys_env (\<lambda>_. False), te_rc = NullRcSource, cin_good = (\<lambda>_. True),
     cin_in_avail = (\<lambda>_. 0), cin_getline = (\<lambda>w. (None, w)), read_file = (\<lambda>_ w. (None, w)),
     stop_requested = (\<lambda>_. False), sleep_until = (\<lambda>_ w. w)\<rparr>"

definition telemetry_vars :: telemetry_loop where
  "telemetry_vars = \<lparr>tl_last_rc_ok_us = 0, tl_rc_seen = False, tl_failsafe_sent = False, tl_setpoint_budget_us = 0,
     tl_heartbeat_budget_us = 0, tl_wake = 0\<rparr>"

theorem heartbeat_cadence_witness:
  "tn_heartbeat_seq (fst (snd ((telemetry_cycle telemetry_bench ^^ 12)
     (telemetry_vars, TelemetryNode telemetry_bench () [], linux_bench0)))) = 2"
proof -
  obtain v n w where c: "(telemetry_cycle telemetry_bench ^^ 12) (telemetry_vars, TelemetryNode telemetry_bench () [], linux_bench0) = (v, n, w)"
    by (cases "(telemetry_cycle telemetry_bench ^^ 12) (telemetry_vars, TelemetryNode telemetry_bench () [], linux_bench0)") auto
  from heartbeat_cadence [OF _ _ c] show ?thesis unfolding c by (simp add: telemetry_vars_def TelemetryNode_def)
qed

theorem telemetry_run_returns_witness:
  "telemetry_run telemetry_bench 3 (TelemetryNode telemetry_bench () [], linux_bench0) \<noteq> None"
  using telemetry_run_returns [of 3 telemetry_bench "(TelemetryNode telemetry_bench () [], linux_bench0)"]
  by (auto split: option.splits)

end
