(* ===== verification/FwShared.thy ===== *)
theory FwShared
  imports FwSafety
begin

text \<open>
  The firmware and the shared region: what an emergency slot does to the motors and what clearing it
  does, that the firmware acts on slots without looking at their checksums, and the report it leaves.
\<close>

section \<open>A region that does not change during a run\<close>

definition shm_shows :: "'w fw_hw \<Rightarrow> u32 \<Rightarrow> shared_region \<Rightarrow> bool" where
  "shm_shows H p r \<longleftrightarrow> (\<forall>w. fst (hw_shm_load H p w) = r)"

definition shm_attached :: "u32 \<Rightarrow> fw \<Rightarrow> bool" where
  "shm_attached p s \<longleftrightarrow> g_amp_shm_ready s \<and> g_amp_shm_phys s = p \<and> p \<noteq> 0"

lemma shows_get: "shm_shows H p r \<Longrightarrow> fst (shm_get H p sel w) = sel r"
  by (simp add: shm_shows_def shm_get_def case_prod_beta)

lemma shows_valid: "shm_shows H p r \<Longrightarrow> region_valid r \<Longrightarrow> fst (shm_valid H p w)"
  by (simp add: shm_valid_def Let_def case_prod_beta shows_get region_valid_def)

text \<open>The emergency flag that the region's slot leaves the firmware with.\<close>

definition emergency_view :: "shared_region \<Rightarrow> fw \<Rightarrow> bool" where
  "emergency_view r s =
    (if slot_seq (sr_emergency r) \<noteq> g_amp_last_emergency_seq s then ce_reason (slot_payload (sr_emergency r)) \<noteq> 0
     else g_amp_emergency_stop_latched s)"

lemma shows_emergency:
  assumes "shm_shows H p r"
  shows "g_amp_emergency_stop_latched (fst (amp_poll_emergency H p (s, w))) = emergency_view r s"
    "g_amp_last_emergency_seq (fst (amp_poll_emergency H p (s, w))) = slot_seq (sr_emergency r)"
  by (simp_all add: amp_poll_emergency_def Let_def case_prod_beta shows_get [OF assms] emergency_view_def)

lemma later_parts_emergency:
  "g_amp_emergency_stop_latched (fst (amp_poll_seqs H p (amp_poll_config H p x))) = g_amp_emergency_stop_latched (fst x)"
  by (cases x) (simp add: amp_poll_config_def amp_poll_seqs_def Let_def case_prod_beta)

lemma later_parts_seq:
  "g_amp_last_emergency_seq (fst (amp_poll_seqs H p (amp_poll_config H p x))) = g_amp_last_emergency_seq (fst x)"
  by (cases x) (simp add: amp_poll_config_def amp_poll_seqs_def Let_def case_prod_beta)

lemma shows_poll:
  assumes "shm_shows H p r" "region_valid r" "shm_attached p s"
  shows "g_amp_emergency_stop_latched (fst (amp_shared_region_poll_once H (s, w))) = emergency_view r s"
proof -
  have g: "amp_shared_region_get s = Some p" using assms(3) by (simp add: amp_shared_region_get_def shm_attached_def)
  have v: "emergency_view r (s\<lparr>g_amp_shm_poll_count := c\<rparr>) = emergency_view r s" for c
    by (simp add: emergency_view_def)
  show ?thesis
    by (simp add: amp_shared_region_poll_once_def g Let_def case_prod_beta shows_valid [OF assms(1,2)]
        later_parts_emergency shows_emergency [OF assms(1)] v)
qed

lemma input_blind_comp: "input_blind F \<Longrightarrow> input_blind (\<lambda>s. h (F s))"
  by (simp add: input_blind_def sensing_blind_def)

lemma view_blind:
  "input_blind (emergency_view r)" "input_blind (shm_attached p)"
proof -
  let ?F = "\<lambda>s :: fw. (g_amp_last_emergency_seq s, g_amp_emergency_stop_latched s)"
  let ?G = "\<lambda>s :: fw. (g_amp_shm_ready s, g_amp_shm_phys s)"
  have b: "input_blind ?F" "input_blind ?G" by (simp_all add: input_blind_def sensing_blind_def)
  have e: "emergency_view r = (\<lambda>s. (\<lambda>(q, l). if slot_seq (sr_emergency r) \<noteq> q
      then ce_reason (slot_payload (sr_emergency r)) \<noteq> 0 else l) (?F s))"
    by (rule ext) (simp add: emergency_view_def)
  have g: "shm_attached p = (\<lambda>s. (\<lambda>(k, q). k \<and> q = p \<and> p \<noteq> 0) (?G s))"
    by (rule ext) (simp add: shm_attached_def)
  show "input_blind (emergency_view r)" unfolding e by (rule input_blind_comp [OF b(1)])
  show "input_blind (shm_attached p)" unfolding g by (rule input_blind_comp [OF b(2)])
qed

section \<open>Emergency stop\<close>

lemma decide_emergency:
  assumes "shm_shows H p r" "region_valid r" "shm_attached p s1" "ibus_decide H fs (s1, w1) = (s2, w2)"
  shows "g_amp_emergency_stop_latched s2 = emergency_view r s1"
    "emergency_view r s1 \<Longrightarrow> \<not> g_motor_armed s2 \<and> \<not> g_motor_output_enabled s2 \<and> g_motor_safety_reason s2 = 1 \<and>
       g_motor_pwm_us s2 = Motors 1000 1000 1000 1000"
proof -
  from assms(4) obtain u v where u: "fst (rc_update_freshness_once H
      ((control_update_setpoint_once (fst (amp_shared_region_poll_once H (rc_take_channels fs s1, w1))))
        \<lparr>g_rc_arm_allowed := False\<rparr>, v)) = u" and s2: "s2 = motor_decide fs (arm_gate u)"
    by (rule decide_parts)
  have tk: "shm_attached p (rc_take_channels fs s1)" "emergency_view r (rc_take_channels fs s1) = emergency_view r s1"
    using assms(3) by (simp_all add: rc_take_channels_def shm_attached_def emergency_view_def)
  have "control_blind g_amp_emergency_stop_latched" by (simp add: control_blind_def)
  note sp = control_steps(2) [OF this]
  have fr: "g_amp_emergency_stop_latched (fst (rc_update_freshness_once H (t, v))) =
      g_amp_emergency_stop_latched t" for t
    by (simp add: rc_update_freshness_once_def Let_def case_prod_beta)
  have gate: "g_amp_emergency_stop_latched (arm_gate t) = g_amp_emergency_stop_latched t" for t
    by (simp add: arm_gate_def Let_def)
  have "g_amp_emergency_stop_latched u = emergency_view r s1"
    unfolding u [symmetric] fr by (simp add: sp shows_poll [OF assms(1,2) tk(1)] tk(2))
  then have l: "g_amp_emergency_stop_latched (arm_gate u) = emergency_view r s1" by (simp only: gate)
  then show "g_amp_emergency_stop_latched s2 = emergency_view r s1" by (simp add: s2 decide_same)
  show "emergency_view r s1 \<Longrightarrow> \<not> g_motor_armed s2 \<and> \<not> g_motor_output_enabled s2 \<and> g_motor_safety_reason s2 = 1 \<and>
       g_motor_pwm_us s2 = Motors 1000 1000 1000 1000"
    using l by (simp add: s2 motor_decide_def force_safe_off safe_codes)
qed

lemma poll_emergency_verdict:
  assumes "shm_shows H p r" "region_valid r" "shm_attached p s" "s' = fst (ibus_probe_poll_once H (s, w))"
  shows "g_amp_emergency_stop_latched s' = emergency_view r s"
    "emergency_view r s \<Longrightarrow> \<not> g_motor_armed s' \<and> \<not> g_motor_output_enabled s' \<and> g_motor_safety_reason s' = 1 \<and>
       g_motor_pwm_us s' = Motors 1000 1000 1000 1000"
proof -
  obtain now w0 where t: "xTaskGetTickCount H w = (now, w0)" by (cases "xTaskGetTickCount H w")
  obtain s1 w1 where i: "ibus_inputs H now (s, w0) = (s1, w1)" by (cases "ibus_inputs H now (s, w0)")
  obtain s2 w2 where d: "ibus_decide H (rc_failsafe H now s1) (s1, w1) = (s2, w2)"
    by (cases "ibus_decide H (rc_failsafe H now s1) (s1, w1)")
  have "verdict s' = verdict s2" using poll_core [OF verdict_tail t i] d assms(4) by simp
  moreover have "shm_attached p s1" "emergency_view r s1 = emergency_view r s"
    using inputs_blind [OF view_blind(2), of p H now "(s, w0)"] inputs_blind [OF view_blind(1), of r H now "(s, w0)"]
      i assms(3) by simp_all
  ultimately show "g_amp_emergency_stop_latched s' = emergency_view r s"
    "emergency_view r s \<Longrightarrow> \<not> g_motor_armed s' \<and> \<not> g_motor_output_enabled s' \<and> g_motor_safety_reason s' = 1 \<and>
       g_motor_pwm_us s' = Motors 1000 1000 1000 1000"
    using decide_emergency [OF assms(1,2) _ d] by (simp_all add: verdict_def)
qed

section \<open>Checksums\<close>

text \<open>A region with other checksums in the five command slots.\<close>

definition with_crcs :: "(nat \<Rightarrow> u32) \<Rightarrow> shared_region \<Rightarrow> shared_region" where
  "with_crcs c r = r\<lparr>sr_setpoint := (sr_setpoint r)\<lparr>slot_crc := c 0\<rparr>, sr_arm := (sr_arm r)\<lparr>slot_crc := c 1\<rparr>,
     sr_heartbeat := (sr_heartbeat r)\<lparr>slot_crc := c 2\<rparr>, sr_emergency := (sr_emergency r)\<lparr>slot_crc := c 3\<rparr>,
     sr_config := (sr_config r)\<lparr>slot_crc := c 4\<rparr>\<rparr>"

definition corrupting :: "(nat \<Rightarrow> u32) \<Rightarrow> 'w fw_hw \<Rightarrow> 'w fw_hw" where
  "corrupting c H = H\<lparr>hw_shm_load := (\<lambda>p w. (with_crcs c (fst (hw_shm_load H p w)), snd (hw_shm_load H p w)))\<rparr>"

lemma corrupting_get:
  "(\<And>r. sel (with_crcs c r) = sel r) \<Longrightarrow> shm_get (corrupting c H) p sel = shm_get H p sel"
  by (rule ext) (simp add: shm_get_def corrupting_def case_prod_beta)

lemma corrupting_poll: "amp_shared_region_poll_once (corrupting c H) sw = amp_shared_region_poll_once H sw"
proof -
  have g: "shm_get (corrupting c H) p sr_magic = shm_get H p sr_magic"
    "shm_get (corrupting c H) p sr_version = shm_get H p sr_version"
    "shm_get (corrupting c H) p (\<lambda>r. slot_seq (sr_emergency r)) = shm_get H p (\<lambda>r. slot_seq (sr_emergency r))"
    "shm_get (corrupting c H) p (\<lambda>r. ce_reason (slot_payload (sr_emergency r))) =
       shm_get H p (\<lambda>r. ce_reason (slot_payload (sr_emergency r)))"
    "shm_get (corrupting c H) p (\<lambda>r. slot_seq (sr_config r)) = shm_get H p (\<lambda>r. slot_seq (sr_config r))"
    "shm_get (corrupting c H) p (\<lambda>r. fc_update_seq (slot_payload (sr_config r))) =
       shm_get H p (\<lambda>r. fc_update_seq (slot_payload (sr_config r)))"
    "shm_get (corrupting c H) p (\<lambda>r. ucast (fc_deadzone_us (slot_payload (sr_config r))) :: u32) =
       shm_get H p (\<lambda>r. ucast (fc_deadzone_us (slot_payload (sr_config r))))"
    "shm_get (corrupting c H) p (\<lambda>r. fc_rate_p (slot_payload (sr_config r))) =
       shm_get H p (\<lambda>r. fc_rate_p (slot_payload (sr_config r)))"
    "shm_get (corrupting c H) p (\<lambda>r. fc_angle_p (slot_payload (sr_config r))) =
       shm_get H p (\<lambda>r. fc_angle_p (slot_payload (sr_config r)))"
    "shm_get (corrupting c H) p (\<lambda>r. slot_seq (sr_arm r)) = shm_get H p (\<lambda>r. slot_seq (sr_arm r))"
    "shm_get (corrupting c H) p (\<lambda>r. slot_seq (sr_setpoint r)) = shm_get H p (\<lambda>r. slot_seq (sr_setpoint r))"
    for p by (rule corrupting_get, simp add: with_crcs_def)+
  have d: "amp_config_float_to_div (corrupting c H) = amp_config_float_to_div H"
    by (intro ext) (simp add: amp_config_float_to_div_def cvt_u32_def corrupting_def)
  have parts: "shm_valid (corrupting c H) = shm_valid H" "amp_poll_emergency (corrupting c H) = amp_poll_emergency H"
    "amp_poll_config (corrupting c H) = amp_poll_config H" "amp_poll_seqs (corrupting c H) = amp_poll_seqs H"
    unfolding shm_valid_def amp_poll_emergency_def amp_poll_config_def amp_poll_seqs_def g d by (rule refl)+
  show ?thesis unfolding amp_shared_region_poll_once_def parts by (rule refl)
qed

section \<open>The region as memory\<close>

text \<open>The region behind the loads and stores, when only they touch it.\<close>

definition shm_memory :: "'w fw_hw \<Rightarrow> ('w \<Rightarrow> shared_region) \<Rightarrow> bool" where
  "shm_memory H reg \<longleftrightarrow>
     (\<forall>p w. fst (hw_shm_load H p w) = reg w \<and> reg (snd (hw_shm_load H p w)) = reg w) \<and>
     (\<forall>p f w. reg (hw_shm_store H p f w) = f (reg w)) \<and>
     (\<forall>w. reg (snd (xTaskGetTickCount H w)) = reg w) \<and> (\<forall>a n w. reg (flush_dcache_range H a n w) = reg w)"

lemma memory_get:
  assumes "shm_memory H reg"
  shows "fst (shm_get H p sel w) = sel (reg w)" "reg (snd (shm_get H p sel w)) = reg w"
    "fst (shm_valid H p w) = region_valid (reg w)" "reg (snd (shm_valid H p w)) = reg w"
  using assms by (simp_all add: shm_memory_def shm_valid_def shm_get_def Let_def case_prod_beta region_valid_def)

lemma bench_memory: "shm_memory bench_hw bn_region"
  by (simp add: shm_memory_def bench_hw_def)

section \<open>Clearing an emergency stop\<close>

text \<open>What a run needs to find the link alive and to take the channels over.\<close>

definition link_alive :: "'w fw_hw \<Rightarrow> fw \<Rightarrow> bool" where
  "link_alive H s \<longleftrightarrow> ib_good_frames s > 0 \<and> g_rc_last_frame_tick s \<noteq> 0 \<and>
     (\<forall>w. (fst (xTaskGetTickCount H w) - g_rc_last_frame_tick s) * portTICK_PERIOD_MS H \<le> 300)"

definition stick_and_switch :: "fw \<Rightarrow> bool" where
  "stick_and_switch s \<longleftrightarrow> ib_ch s ! 2 \<le> 1350 \<and> ib_ch s ! 5 > 1500"

lemma ucast_1350: "(ucast (x :: u16) :: u32) \<le> 1350 \<longleftrightarrow> x \<le> 1350" "(ucast (x :: u16) :: u32) > 1500 \<longleftrightarrow> x > 1500"
  by (simp_all add: word_le_nat_alt word_less_nat_alt unat_ucast_up)

lemma gate_latched:
  "\<lbrakk>g_rc_valid s; g_sensor_ready s; g_rc_throttle_us s \<le> 1350; g_rc_arm_switch s; g_rc_arm_latched s\<rbrakk> \<Longrightarrow>
     g_motor_armed (arm_gate s) \<and> g_sensor_ready (arm_gate s) \<and> g_rc_arm_latched (arm_gate s)"
  by (simp add: arm_gate_def Let_def rc_consts not_less)

definition gate_inputs :: "fw \<Rightarrow> bool list \<times> u32 list" where
  "gate_inputs s = ([g_rc_valid s, g_sensor_ready s, g_rc_arm_switch s, g_rc_arm_latched s],
     [g_rc_throttle_us s, g_rc_last_frame_tick s])"

lemma gate_inputs_blind: "shm_blind gate_inputs" "control_blind gate_inputs"
  by (simp_all add: gate_inputs_def shm_blind_def control_blind_def)

lemma fresh_link:
  "\<lbrakk>g_rc_last_frame_tick s \<noteq> 0; \<forall>w. (fst (xTaskGetTickCount H w) - g_rc_last_frame_tick s) * portTICK_PERIOD_MS H \<le> 300\<rbrakk> \<Longrightarrow>
     fst (rc_update_freshness_once H (s, v)) = s\<lparr>g_rc_frame_age_ms :=
       (fst (xTaskGetTickCount H v) - g_rc_last_frame_tick s) * portTICK_PERIOD_MS H\<rparr>"
  by (drule spec [of _ v]) (simp add: rc_update_freshness_once_def Let_def case_prod_beta rc_consts not_less)

text \<open>A latched state with link, sensors, switch and throttle passes the gate, whatever the region says.\<close>

lemma latched_passes:
  assumes "ibus_decide H False (s1, w1) = (s2, w2)" "link_alive H s1" "stick_and_switch s1" "g_sensor_ready s1"
    "g_rc_arm_latched s1"
  obtains u where "s2 = motor_decide False u" "g_motor_armed u" "g_sensor_ready u" "g_rc_arm_latched u"
proof -
  let ?t = "control_update_setpoint_once (fst (amp_shared_region_poll_once H (rc_take_channels False s1, w1)))"
  from assms(1) obtain u v where u: "fst (rc_update_freshness_once H (?t\<lparr>g_rc_arm_allowed := False\<rparr>, v)) = u"
    and s2: "s2 = motor_decide False (arm_gate u)" by (rule decide_parts)
  have "gate_inputs ?t = gate_inputs (rc_take_channels False s1)"
    by (simp add: control_steps(2) [OF gate_inputs_blind(2)] shm_poll_blind [OF gate_inputs_blind(1)])
  then have t: "g_rc_valid ?t" "g_sensor_ready ?t" "g_rc_arm_switch ?t" "g_rc_arm_latched ?t"
    "g_rc_throttle_us ?t \<le> 1350" "g_rc_last_frame_tick ?t = g_rc_last_frame_tick s1"
    using assms(2-5) by (simp_all add: gate_inputs_def rc_take_channels_def link_alive_def stick_and_switch_def
        ucast_1350 rc_consts)
  have "\<exists>age. u = ?t\<lparr>g_rc_arm_allowed := False, g_rc_frame_age_ms := age\<rparr>"
    unfolding u [symmetric] using assms(2) t(6)
    by (subst fresh_link) (simp_all add: link_alive_def, blast)
  then obtain age where a: "u = ?t\<lparr>g_rc_arm_allowed := False, g_rc_frame_age_ms := age\<rparr>" ..
  have "g_motor_armed (arm_gate u) \<and> g_sensor_ready (arm_gate u) \<and> g_rc_arm_latched (arm_gate u)"
    by (rule gate_latched) (use t in \<open>simp_all add: a\<close>)
  with s2 that show thesis by blast
qed

lemma decide_latched:
  assumes "ibus_decide H False (s1, w1) = (s2, w2)" "link_alive H s1" "stick_and_switch s1" "g_sensor_ready s1"
    "g_rc_arm_latched s1" "\<not> g_amp_emergency_stop_latched s2"
  shows "g_motor_armed s2 \<and> g_motor_output_enabled s2"
proof -
  obtain u where u: "s2 = motor_decide False u" "g_motor_armed u" "g_sensor_ready u"
    using latched_passes [OF assms(1-5)] .
  moreover have "\<not> g_amp_emergency_stop_latched u" using assms(6) by (simp add: u(1) decide_same)
  ultimately show ?thesis by (simp add: motor_decide_def control_steps(6) control_blind_def)
qed

lemma decide_keeps_latch:
  assumes "ibus_decide H False (s1, w1) = (s2, w2)" "link_alive H s1" "stick_and_switch s1" "g_sensor_ready s1"
    "g_rc_arm_latched s1"
  shows "g_rc_arm_latched s2"
proof -
  obtain u where "s2 = motor_decide False u" "g_rc_arm_latched u" using latched_passes [OF assms] .
  then show ?thesis by (simp add: decide_same)
qed

text \<open>What no decision changes.\<close>

definition lasting :: "fw \<Rightarrow> u16 list \<times> u32 list \<times> bool list" where
  "lasting s = (ib_ch s, [ib_good_frames s, g_rc_last_frame_tick s, g_amp_shm_phys s], [g_sensor_ready s, g_amp_shm_ready s])"

lemma decide_lasting:
  assumes "ibus_decide H fs (s1, w1) = (s2, w2)"
  shows "lasting s2 = lasting s1"
proof -
  from assms obtain u v where u: "fst (rc_update_freshness_once H
      ((control_update_setpoint_once (fst (amp_shared_region_poll_once H (rc_take_channels fs s1, w1))))
        \<lparr>g_rc_arm_allowed := False\<rparr>, v)) = u" and s2: "s2 = motor_decide fs (arm_gate u)"
    by (rule decide_parts)
  have b: "shm_blind lasting" "control_blind lasting"
    by (simp_all add: shm_blind_def control_blind_def lasting_def motor_force_safe_def motor_set_all_def Let_def)
  have "lasting (arm_gate t) = lasting t" "lasting (rc_take_channels fs t) = lasting t"
    "lasting (t\<lparr>g_rc_arm_allowed := False\<rparr>) = lasting t" for t
    by (simp_all add: lasting_def arm_gate_def rc_take_channels_def Let_def)
  moreover have "lasting (fst (rc_update_freshness_once H (t, v))) = lasting t" for t
    by (simp add: lasting_def rc_update_freshness_once_def Let_def case_prod_beta)
  moreover have "lasting (motor_decide fs t) = lasting t" for t
    by (rule decide_frame [OF b(2)]) (use b(1) in \<open>simp_all add: shm_blind_def lasting_def\<close>)
  ultimately show ?thesis
    by (simp add: s2 u [symmetric] control_steps(2) [OF b(2)] shm_poll_blind [OF b(1)])
qed

lemma decide_emergency_seq:
  assumes "shm_shows H p r" "region_valid r" "shm_attached p s1" "ibus_decide H fs (s1, w1) = (s2, w2)"
  shows "g_amp_last_emergency_seq s2 = slot_seq (sr_emergency r)"
proof -
  from assms(4) obtain u v where u: "fst (rc_update_freshness_once H
      ((control_update_setpoint_once (fst (amp_shared_region_poll_once H (rc_take_channels fs s1, w1))))
        \<lparr>g_rc_arm_allowed := False\<rparr>, v)) = u" and s2: "s2 = motor_decide fs (arm_gate u)"
    by (rule decide_parts)
  let ?q = g_amp_last_emergency_seq
  have g: "amp_shared_region_get (rc_take_channels fs s1) = Some p"
    using assms(3) by (simp add: amp_shared_region_get_def shm_attached_def rc_take_channels_def)
  have poll: "?q (fst (amp_shared_region_poll_once H (rc_take_channels fs s1, w1))) = slot_seq (sr_emergency r)"
    by (simp add: amp_shared_region_poll_once_def g Let_def case_prod_beta shows_valid [OF assms(1,2)]
        later_parts_seq shows_emergency [OF assms(1)] motor_force_safe_def motor_set_all_def)
  have b: "control_blind ?q" by (simp add: control_blind_def)
  have "?q (arm_gate t) = ?q t" "?q (fst (rc_update_freshness_once H (t, v))) = ?q t" for t
    by (simp_all add: arm_gate_def rc_update_freshness_once_def Let_def case_prod_beta)
  moreover have "?q (motor_decide fs t) = ?q t" for t
    by (rule decide_frame [OF b]) (simp_all add: motor_force_safe_def motor_set_all_def Let_def)
  ultimately show ?thesis by (simp add: s2 u [symmetric] control_steps(2) [OF b] poll)
qed

section \<open>The properties\<close>

text \<open>C18: With the region attached and holding still during a run, an emergency slot not seen before decides
  alone whether the stop is latched at the end of the run, an old one leaves the latch; and if it is
  latched the run ends disarmed, disabled, with safety reason 1 and all motors at 1000.
\<close>

theorem emergency_stop_holds:
  assumes "shm_shows H p r" "region_valid r" "shm_attached p s" "s' = fst (ibus_probe_poll_once H (s, w))"
  shows "g_amp_emergency_stop_latched s' = emergency_view r s \<and>
    (if emergency_view r s
     then \<not> g_motor_armed s' \<and> \<not> g_motor_output_enabled s' \<and> g_motor_safety_reason s' = 1 \<and>
          g_motor_pwm_us s' = Motors 1000 1000 1000 1000
     else True)"
  using poll_emergency_verdict [OF assms] by simp

definition stop_region :: "u32 \<Rightarrow> u32 \<Rightarrow> shared_region" where
  "stop_region seq reason = fresh_region\<lparr>sr_emergency :=
     (sr_emergency fresh_region)\<lparr>slot_seq := seq, slot_payload :=
       (slot_payload (sr_emergency fresh_region))\<lparr>ce_reason := reason\<rparr>\<rparr>\<rparr>"

definition showing_hw :: "shared_region \<Rightarrow> bench fw_hw" where
  "showing_hw r = bench_hw\<lparr>xTaskGetTickCount := (\<lambda>w. (6, w)), hw_shm_load := (\<lambda>_ w. (r, w))\<rparr>"

lemma stop_region_shown:
  "shm_shows (showing_hw r) p r" "region_valid (stop_region q x)"
  "slot_seq (sr_emergency (stop_region q x)) = q" "ce_reason (slot_payload (sr_emergency (stop_region q x))) = x"
  by (simp_all add: shm_shows_def showing_hw_def stop_region_def fresh_region_def region_valid_def)

theorem emergency_stop_holds_witness:
  "g_motor_pwm_us (fst (ibus_probe_poll_once (showing_hw (stop_region 1 2))
     (fw_boot\<lparr>g_amp_shm_ready := True, g_amp_shm_phys := 0x8f000000\<rparr>, bench0 [] 5 fresh_region))) =
     Motors 1000 1000 1000 1000"
  using emergency_stop_holds [OF stop_region_shown(1,2), of "0x8f000000"
      "fw_boot\<lparr>g_amp_shm_ready := True, g_amp_shm_phys := 0x8f000000\<rparr>"
      "fst (ibus_probe_poll_once (showing_hw (stop_region 1 2))
        (fw_boot\<lparr>g_amp_shm_ready := True, g_amp_shm_phys := 0x8f000000\<rparr>, bench0 [] 5 fresh_region))"
      1 2 "bench0 [] 5 fresh_region"]
  by (simp add: shm_attached_def emergency_view_def stop_region_shown fw_boot_def)

text \<open>C24: Clearing the emergency stop restarts the motors: the stop neither releases the arm latch nor asks for
  the switch again. From a latched state, with the link alive, the sensors ready, the switch high and the throttle at
  most 1350, a decision that reads a stop not seen before ends disarmed, disabled and at 1000 on all motors,
  but still latched; and the next decision, with the link alive, the same inputs and a newer slot with reason 0, ends
  armed and enabled.
\<close>

theorem clear_restarts_motors:
  assumes "shm_attached p s" "stick_and_switch s" "g_sensor_ready s" "g_rc_arm_latched s"
    "shm_shows H1 p r1" "region_valid r1" "link_alive H1 s" "ibus_decide H1 False (s, w1) = (s1, v1)"
    "slot_seq (sr_emergency r1) \<noteq> g_amp_last_emergency_seq s" "ce_reason (slot_payload (sr_emergency r1)) \<noteq> 0"
    "shm_shows H2 p r2" "region_valid r2" "link_alive H2 s" "ibus_decide H2 False (s1, w2) = (s2, v2)"
    "slot_seq (sr_emergency r2) \<noteq> slot_seq (sr_emergency r1)" "ce_reason (slot_payload (sr_emergency r2)) = 0"
  shows "\<not> g_motor_armed s1 \<and> \<not> g_motor_output_enabled s1 \<and> g_motor_pwm_us s1 = Motors 1000 1000 1000 1000 \<and>
    g_rc_arm_latched s1 \<and> g_motor_armed s2 \<and> g_motor_output_enabled s2"
proof -
  have "emergency_view r1 s" using assms(9,10) by (simp add: emergency_view_def)
  then have stop: "\<not> g_motor_armed s1 \<and> \<not> g_motor_output_enabled s1 \<and> g_motor_pwm_us s1 = Motors 1000 1000 1000 1000"
    using decide_emergency(2) [OF assms(5,6,1,8)] by simp
  have latched: "g_rc_arm_latched s1" by (rule decide_keeps_latch [OF assms(8,7,2-4)])
  note keep = decide_lasting [OF assms(8)]
  have s1: "shm_attached p s1" "link_alive H2 s1" "stick_and_switch s1" "g_sensor_ready s1"
    using assms(1-3,13) keep by (simp_all add: lasting_def shm_attached_def link_alive_def stick_and_switch_def)
  have "\<not> emergency_view r2 s1" using assms(15,16) decide_emergency_seq [OF assms(5,6,1,8)] by (simp add: emergency_view_def)
  then have "\<not> g_amp_emergency_stop_latched s2" using decide_emergency(1) [OF assms(11,12) s1(1) assms(14)] by simp
  from decide_latched [OF assms(14) s1(2-4) latched this] stop latched show ?thesis by simp
qed

text \<open>Latched; slot 1 stops, slot 2 clears.\<close>

definition fw_latched :: fw where
  "fw_latched = fw_boot\<lparr>g_amp_shm_ready := True, g_amp_shm_phys := 0x8f000000, g_sensor_ready := True,
     ib_good_frames := 9, g_rc_last_frame_tick := 5, g_rc_arm_latched := True,
     ib_ch := [1500, 1500, 1300, 1500, 1500, 2000] @ replicate 8 1500\<rparr>"

lemma boot_emergency_seq: "g_amp_last_emergency_seq fw_boot = 0"
  by (simp add: fw_boot_def)

theorem clear_restarts_motors_witness:
  "\<not> g_motor_armed (fst (ibus_decide (showing_hw (stop_region 1 2)) False (fw_latched, bench0 [] 6 fresh_region))) \<and>
   g_motor_armed (fst (ibus_decide (showing_hw (stop_region 2 0)) False
     (fst (ibus_decide (showing_hw (stop_region 1 2)) False (fw_latched, bench0 [] 6 fresh_region)), bench0 [] 6 fresh_region)))"
proof -
  have f: "shm_attached 0x8f000000 fw_latched" "stick_and_switch fw_latched" "g_sensor_ready fw_latched" "g_rc_arm_latched fw_latched"
    "link_alive (showing_hw r) fw_latched" "g_amp_last_emergency_seq fw_latched = 0" for r
    by (simp_all add: fw_latched_def boot_fields boot_emergency_seq shm_attached_def link_alive_def
        stick_and_switch_def showing_hw_def bench_hw_def portTICK_PERIOD_MS_def)
  obtain s1 v1 where d: "ibus_decide (showing_hw (stop_region 1 2)) False (fw_latched, bench0 [] 6 fresh_region) = (s1, v1)"
    by (cases "ibus_decide (showing_hw (stop_region 1 2)) False (fw_latched, bench0 [] 6 fresh_region)")
  obtain s2 v2 where d2: "ibus_decide (showing_hw (stop_region 2 0)) False (s1, bench0 [] 6 fresh_region) = (s2, v2)"
    by (cases "ibus_decide (showing_hw (stop_region 2 0)) False (s1, bench0 [] 6 fresh_region)")
  show ?thesis
    using clear_restarts_motors [OF f(1-4) stop_region_shown(1,2) f(5) d _ _ stop_region_shown(1,2) f(5) d2]
    by (simp add: d d2 f(6) stop_region_shown)
qed

text \<open>The firmware acts on command slots whatever their checksums say: replacing the checksums of all five
  slots by anything changes nothing of what a poll of the region does.
\<close>

theorem checksums_ignored:
  "amp_shared_region_poll_once (corrupting c H) = amp_shared_region_poll_once H"
  by (rule ext) (rule corrupting_poll)

text \<open>The report a due call writes at tick \<open>now\<close>.\<close>

definition next_report :: "'w fw_hw \<Rightarrow> u32 \<Rightarrow> fw \<Rightarrow> rt_report" where
  "next_report H now s =
    (let s = s\<lparr>last_rt_report_tick := now, g_amp_rt_report_seq := g_amp_rt_report_seq s + 1\<rparr>
     in make_report_fw H now (s\<lparr>g_amp_status_flags := amp_build_status_flags s\<rparr>))"

lemma report_region:
  assumes "shm_memory H reg" "region_valid (reg w)" "shm_attached p s"
    "fst (xTaskGetTickCount H (snd (shm_valid H p w))) = now" "now - last_rt_report_tick s \<ge> pdMS_TO_TICKS H 20"
  shows "reg (snd (amp_shared_region_write_rt_report_once H (s, w))) =
    (reg w)\<lparr>sr_rt_report := \<lparr>slot_seq = g_amp_rt_report_seq s + 1, slot_payload = next_report H now s, slot_crc = 0\<rparr>\<rparr>"
proof -
  have g: "amp_shared_region_get s = Some p" using assms(3) by (simp add: amp_shared_region_get_def shm_attached_def)
  have st: "reg (hw_shm_store H p f w) = f (reg w)" "reg (flush_dcache_range H a n w) = reg w"
    "reg (snd (xTaskGetTickCount H w)) = reg w" for f w a n
    using assms(1) by (simp_all add: shm_memory_def)
  have "\<not> now - last_rt_report_tick s < pdMS_TO_TICKS H 20" using assms(5) by (simp add: not_less)
  then show ?thesis
    using assms(2)
    by (simp add: amp_shared_region_write_rt_report_once_def g Let_def case_prod_beta memory_get [OF assms(1)]
        assms(4) st next_report_def)
qed

text \<open>A report that is due writes exactly the report slot of the region: the next sequence number, the
  report of the firmware's state with that number, and checksum zero; so a reader that verifies slots
  accepts it only if the checksum of the payload happens to be zero.
\<close>

theorem report_written:
  assumes "shm_memory H reg" "region_valid (reg w)" "shm_attached p s"
    "fst (xTaskGetTickCount H (snd (shm_valid H p w))) = now" "now - last_rt_report_tick s \<ge> pdMS_TO_TICKS H 20"
    "w' = snd (amp_shared_region_write_rt_report_once H (s, w))"
  shows "reg w' = (reg w)\<lparr>sr_rt_report :=
      \<lparr>slot_seq = g_amp_rt_report_seq s + 1, slot_payload = next_report H now s, slot_crc = 0\<rparr>\<rparr> \<and>
    verify_slot report_bytes (sr_rt_report (reg w')) =
      (g_amp_rt_report_seq s + 1 \<noteq> 0 \<and> payload_crc report_bytes (next_report H now s) = 0)"
  unfolding assms(6) report_region [OF assms(1-5)] by (auto simp: verify_slot_def)

theorem report_written_witness:
  "slot_seq (sr_rt_report (bn_region (snd (amp_shared_region_write_rt_report_once bench_hw
     (fw_boot\<lparr>g_amp_shm_ready := True, g_amp_shm_phys := 0x8f000000\<rparr>, bench0 [] 5 fresh_region))))) = 1"
proof -
  let ?s = "fw_boot\<lparr>g_amp_shm_ready := True, g_amp_shm_phys := 0x8f000000\<rparr>"
  have h: "region_valid (bn_region (bench0 [] 5 fresh_region))" "shm_attached 0x8f000000 ?s"
    "fst (xTaskGetTickCount bench_hw (snd (shm_valid bench_hw 0x8f000000 (bench0 [] 5 fresh_region)))) = 5"
    "5 - last_rt_report_tick ?s \<ge> pdMS_TO_TICKS bench_hw 20" "g_amp_rt_report_seq ?s = 0"
    by (simp_all add: bench0_def fresh_region_def region_valid_def shm_attached_def bench_hw_def shm_valid_def
        shm_get_def Let_def case_prod_beta pdMS_TO_TICKS_def fw_boot_def)
  show ?thesis using report_written [OF bench_memory h(1-4) refl] h(5) by simp
qed

end
