(* ===== verification/FwMailbox.thy ===== *)
theory FwMailbox
  imports FwShared FwInvariant Cmdqu
begin

text \<open>
  The firmware's mailbox: the interrupt that takes commands from the slots into the task's queue, and one
  turn of the command task with its replies.
\<close>

section \<open>Commands\<close>

definition CMD_TEST_A :: u8 where "CMD_TEST_A = 0x10"
definition CMD_TEST_B :: u8 where "CMD_TEST_B = 0x11"
definition CMD_TEST_C :: u8 where "CMD_TEST_C = 0x12"
definition CMD_DUO_LED :: u8 where "CMD_DUO_LED = 0x13"
definition AMP_CMD_INIT_SHM :: u8 where "AMP_CMD_INIT_SHM = 0x20"
definition DUO_LED_ON :: u32 where "DUO_LED_ON = 2"
definition DUO_LED_DONE :: u32 where "DUO_LED_DONE = 4"
definition MAILBOX_MAX_NUM :: nat where "MAILBOX_MAX_NUM = 8"
definition RECEIVE_CPU :: nat where "RECEIVE_CPU = 2"
definition SEND_TO_CPU1 :: nat where "SEND_TO_CPU1 = 1"

lemmas cmd_defs = CMD_TEST_A_def CMD_TEST_B_def CMD_TEST_C_def CMD_DUO_LED_def AMP_CMD_INIT_SHM_def
  DUO_LED_ON_def DUO_LED_DONE_def

section \<open>The mailbox hardware and the queue\<close>

text \<open>
  The registers, the eight slots of two words each, the spin lock, FreeRTOS's queue and the LED as
  functions on the world. A slot is loaded and cleared as one 64-bit word and written word by word.
\<close>

record 'w mail_hw =
  mbox_int :: "'w \<Rightarrow> u8 \<times> 'w"
  mbox_int_clr :: "nat \<Rightarrow> u8 \<Rightarrow> 'w \<Rightarrow> 'w"
  mbox_info_get :: "nat \<Rightarrow> 'w \<Rightarrow> u8 \<times> 'w"
  mbox_info_put :: "nat \<Rightarrow> u8 \<Rightarrow> 'w \<Rightarrow> 'w"
  mbox_set_put :: "u8 \<Rightarrow> 'w \<Rightarrow> 'w"
  slot_load :: "nat \<Rightarrow> 'w \<Rightarrow> (u32 \<times> u32) \<times> 'w"
  slot_clear :: "nat \<Rightarrow> 'w \<Rightarrow> 'w"
  slot_put_head :: "nat \<Rightarrow> u32 \<Rightarrow> 'w \<Rightarrow> 'w"
  slot_put_param :: "nat \<Rightarrow> u32 \<Rightarrow> 'w \<Rightarrow> 'w"
  drv_spin_lock_irqsave :: "'w \<Rightarrow> bool \<times> 'w"
  drv_spin_unlock_irqrestore :: "'w \<Rightarrow> 'w"
  xQueueSendFromISR :: "cmdqu \<Rightarrow> 'w \<Rightarrow> 'w"
  xQueueReceive :: "'w \<Rightarrow> cmdqu option \<times> 'w"
  duo_led_control :: "bool \<Rightarrow> 'w \<Rightarrow> 'w"

section \<open>The interrupt\<close>

definition isr_slot :: "'w mail_hw \<Rightarrow> u8 \<Rightarrow> fw \<times> 'w \<Rightarrow> nat \<Rightarrow> fw \<times> 'w" where
  "isr_slot M set_val = (\<lambda>(s, w) i.
    (let valid_val = set_val AND push_bit i 1
     in if valid_val = 0 then (s, w)
        else
         (let w = mbox_int_clr M RECEIVE_CPU valid_val w;
              (info, w) = mbox_info_get M RECEIVE_CPU w;
              w = mbox_info_put M RECEIVE_CPU (info AND NOT valid_val) w;
              (words, w) = slot_load M i w;
              w = slot_clear M i w;
              c = cmdqu_of words
          in if cq_linux_valid c = 1 then
               (s\<lparr>g_mailbox_isr_count := g_mailbox_isr_count s + 1, g_last_cmd_id := ucast (cq_cmd_id c),
                  g_last_param_ptr := cq_param_ptr c\<rparr>, xQueueSendFromISR M c w)
             else (s, w))))"

definition prvQueueISR :: "'w mail_hw \<Rightarrow> fw \<times> 'w \<Rightarrow> fw \<times> 'w" where
  "prvQueueISR M = (\<lambda>(s, w).
    (let (set_val, w) = mbox_int M w
     in if set_val = 0 then (s, w) else foldl (isr_slot M set_val) (s, w) [0..<MAILBOX_MAX_NUM]))"

section \<open>The task\<close>

text \<open>The \<open>switch\<close>: the reply that goes to \<open>send_label\<close>, or none.\<close>

definition done_reply :: "cmdqu \<Rightarrow> u32 \<Rightarrow> cmdqu" where
  "done_reply c p = c\<lparr>cq_param_ptr := p, cq_rtos_valid := 1, cq_linux_valid := 0\<rparr>"

definition cmdqu_switch :: "'w mail_hw \<Rightarrow> cmdqu \<Rightarrow> fw \<times> 'w \<Rightarrow> cmdqu option \<times> fw \<times> 'w" where
  "cmdqu_switch M c = (\<lambda>(s, w).
    (if cq_cmd_id c = CMD_TEST_A then (Some (done_reply c 0x12345678), s, w)
     else if cq_cmd_id c = CMD_TEST_B then (None, s, w)
     else if cq_cmd_id c = CMD_TEST_C then (Some (done_reply c 0x55aa), s, w)
     else if cq_cmd_id c = CMD_DUO_LED then
       (Some (done_reply c DUO_LED_DONE), s, duo_led_control M (cq_param_ptr c = DUO_LED_ON) w)
     else if cq_cmd_id c = AMP_CMD_INIT_SHM then
       (Some (done_reply c DUO_LED_DONE), s\<lparr>g_amp_shm_phys := cq_param_ptr c, g_amp_shm_ready := True\<rparr>, w)
     else if cq_cmd_id c = 49 \<or> cq_cmd_id c = 51 \<or> cq_cmd_id c = 52 then (Some (done_reply c DUO_LED_DONE), s, w)
     else (None, s, w)))"

text \<open>The search for a free slot, from slot \<open>i\<close> with \<open>n\<close> left.\<close>

fun send_slots :: "'w mail_hw \<Rightarrow> cmdqu \<Rightarrow> nat \<Rightarrow> nat \<Rightarrow> 'w \<Rightarrow> 'w" where
  "send_slots M c i 0 w = w"
| "send_slots M c i (Suc n) w =
    (let (words, w) = slot_load M i w
     in if cq_linux_valid (cmdqu_of words) = 0 \<and> cq_rtos_valid (cmdqu_of words) = 0 then
          (let w = slot_put_head M i (cmdqu_head c) w;
               w = slot_put_param M i (cq_param_ptr c) w;
               w = mbox_int_clr M SEND_TO_CPU1 (push_bit i 1) w;
               (info, w) = mbox_info_get M SEND_TO_CPU1 w;
               w = mbox_info_put M SEND_TO_CPU1 (info OR push_bit i 1) w
           in mbox_set_put M (push_bit i 1) w)
        else send_slots M c (Suc i) n w)"

definition cmdqu_send :: "'w mail_hw \<Rightarrow> cmdqu \<Rightarrow> 'w \<Rightarrow> 'w" where
  "cmdqu_send M c w =
    (let c = c\<lparr>cq_linux_valid := 0, cq_rtos_valid := 1\<rparr>;
         (locked, w) = drv_spin_lock_irqsave M w
     in if \<not> locked then w
        else drv_spin_unlock_irqrestore M (send_slots M c 0 MAILBOX_MAX_NUM w))"

definition prvCmdQuRunTask_turn :: "'w mail_hw \<Rightarrow> 'w fw_hw \<Rightarrow> fw \<times> 'w \<Rightarrow> fw \<times> 'w" where
  "prvCmdQuRunTask_turn M H = (\<lambda>(s, w).
    (case xQueueReceive M w of
       (None, w) \<Rightarrow> ibus_probe_poll_once H (s, w)
     | (Some c, w) \<Rightarrow>
        (let s = s\<lparr>g_mailbox_task_count := g_mailbox_task_count s + 1, g_last_cmd_id := ucast (cq_cmd_id c),
                   g_last_param_ptr := cq_param_ptr c\<rparr>;
             (reply, s, w) = cmdqu_switch M c (ibus_probe_poll_once H (s, w))
         in (s, case reply of None \<Rightarrow> w | Some r \<Rightarrow> cmdqu_send M r w))))"

section \<open>Mailbox memory\<close>

text \<open>The slots \<open>sl\<close> and the queue \<open>qs\<close>, of 30 commands, behind the operations, when only they touch them.\<close>

definition mail_memory :: "'w mail_hw \<Rightarrow> ('w \<Rightarrow> nat \<Rightarrow> u32 \<times> u32) \<Rightarrow> ('w \<Rightarrow> cmdqu list) \<Rightarrow> bool" where
  "mail_memory M sl qs \<longleftrightarrow>
     (\<forall>w. sl (snd (mbox_int M w)) = sl w \<and> qs (snd (mbox_int M w)) = qs w) \<and>
     (\<forall>cpu v w. sl (mbox_int_clr M cpu v w) = sl w \<and> qs (mbox_int_clr M cpu v w) = qs w) \<and>
     (\<forall>cpu w. sl (snd (mbox_info_get M cpu w)) = sl w \<and> qs (snd (mbox_info_get M cpu w)) = qs w) \<and>
     (\<forall>cpu v w. sl (mbox_info_put M cpu v w) = sl w \<and> qs (mbox_info_put M cpu v w) = qs w) \<and>
     (\<forall>v w. sl (mbox_set_put M v w) = sl w \<and> qs (mbox_set_put M v w) = qs w) \<and>
     (\<forall>i w. fst (slot_load M i w) = sl w i \<and> sl (snd (slot_load M i w)) = sl w \<and> qs (snd (slot_load M i w)) = qs w) \<and>
     (\<forall>i w. sl (slot_clear M i w) = (sl w)(i := (0, 0)) \<and> qs (slot_clear M i w) = qs w) \<and>
     (\<forall>i h w. sl (slot_put_head M i h w) = (sl w)(i := (h, snd (sl w i))) \<and> qs (slot_put_head M i h w) = qs w) \<and>
     (\<forall>i p w. sl (slot_put_param M i p w) = (sl w)(i := (fst (sl w i), p)) \<and> qs (slot_put_param M i p w) = qs w) \<and>
     (\<forall>w. sl (snd (drv_spin_lock_irqsave M w)) = sl w \<and> qs (snd (drv_spin_lock_irqsave M w)) = qs w) \<and>
     (\<forall>w. sl (drv_spin_unlock_irqrestore M w) = sl w \<and> qs (drv_spin_unlock_irqrestore M w) = qs w) \<and>
     (\<forall>c w. sl (xQueueSendFromISR M c w) = sl w \<and> qs (xQueueSendFromISR M c w) = take 30 (qs w @ [c]))"

lemma mail_memoryD:
  assumes "mail_memory M sl qs"
  shows "sl (snd (mbox_int M w)) = sl w" "qs (snd (mbox_int M w)) = qs w"
    "sl (mbox_int_clr M cpu v w) = sl w" "qs (mbox_int_clr M cpu v w) = qs w"
    "sl (snd (mbox_info_get M cpu w)) = sl w" "qs (snd (mbox_info_get M cpu w)) = qs w"
    "sl (mbox_info_put M cpu v w) = sl w" "qs (mbox_info_put M cpu v w) = qs w"
    "sl (mbox_set_put M v w) = sl w" "qs (mbox_set_put M v w) = qs w"
    "fst (slot_load M i w) = sl w i" "sl (snd (slot_load M i w)) = sl w" "qs (snd (slot_load M i w)) = qs w"
    "sl (slot_clear M i w) = (sl w)(i := (0, 0))" "qs (slot_clear M i w) = qs w"
    "sl (slot_put_head M i h w) = (sl w)(i := (h, snd (sl w i)))" "qs (slot_put_head M i h w) = qs w"
    "sl (slot_put_param M i p w) = (sl w)(i := (fst (sl w i), p))" "qs (slot_put_param M i p w) = qs w"
    "sl (snd (drv_spin_lock_irqsave M w)) = sl w" "qs (snd (drv_spin_lock_irqsave M w)) = qs w"
    "sl (drv_spin_unlock_irqrestore M w) = sl w" "qs (drv_spin_unlock_irqrestore M w) = qs w"
    "sl (xQueueSendFromISR M c w) = sl w" "qs (xQueueSendFromISR M c w) = take 30 (qs w @ [c])"
  using assms unfolding mail_memory_def by simp_all

text \<open>The commands that an interrupt with the pending bits \<open>p\<close> finds in the slots below \<open>n\<close>, in order.\<close>

definition arrivals :: "u8 \<Rightarrow> (nat \<Rightarrow> u32 \<times> u32) \<Rightarrow> nat \<Rightarrow> cmdqu list" where
  "arrivals p slots n =
    filter (\<lambda>c. cq_linux_valid c = 1) (map (\<lambda>i. cmdqu_of (slots i)) (filter (bit p) [0..<n]))"

lemma pending_bit: "(p AND 2 ^ i = (0 :: u8)) = (\<not> bit p i)"
proof
  assume "p AND 2 ^ i = 0"
  then have "\<not> bit (p AND 2 ^ i) i" by simp
  then show "\<not> bit p i"
    using bit_imp_le_length [of p i] by (auto simp: bit_and_iff bit_exp_iff possible_bit_word)
next
  assume "\<not> bit p i"
  then show "p AND 2 ^ i = 0"
    by (intro bit_word_eqI) (auto simp: bit_and_iff bit_exp_iff)
qed

lemma take_take_append: "take n (take n xs @ ys) = take n (xs @ ys)"
  by (cases "n \<le> length xs") simp_all

lemma isr_prefix:
  assumes "mail_memory M sl qs" "n \<le> 8"
  shows "sl (snd (foldl (isr_slot M p) (s, w) [0..<n])) = (\<lambda>i. if i < n \<and> bit p i then (0, 0) else sl w i) \<and>
    qs (snd (foldl (isr_slot M p) (s, w) [0..<n])) =
      (if arrivals p (sl w) n = [] then qs w else take 30 (qs w @ arrivals p (sl w) n)) \<and>
    g_mailbox_isr_count (fst (foldl (isr_slot M p) (s, w) [0..<n])) =
      g_mailbox_isr_count s + word_of_nat (length (arrivals p (sl w) n))"
  using assms(2)
proof (induction n)
  case (Suc n)
  define x where "x = foldl (isr_slot M p) (s, w) [0..<n]"
  obtain t v where tv: "x = (t, v)" by (cases x)
  have IH: "sl v = (\<lambda>i. if i < n \<and> bit p i then (0, 0) else sl w i)"
    "qs v = (if arrivals p (sl w) n = [] then qs w else take 30 (qs w @ arrivals p (sl w) n))"
    "g_mailbox_isr_count t = g_mailbox_isr_count s + word_of_nat (length (arrivals p (sl w) n))"
    using Suc by (simp_all add: tv flip: x_def)
  have st: "foldl (isr_slot M p) (s, w) [0..<Suc n] = isr_slot M p (t, v) n"
    by (simp add: tv [unfolded x_def])
  have slot: "sl v n = sl w n" by (simp add: IH(1))
  show ?case
  proof (cases "bit p n")
    case False
    then have "isr_slot M p (t, v) n = (t, v)" by (simp add: isr_slot_def pending_bit)
    moreover have "arrivals p (sl w) (Suc n) = arrivals p (sl w) n" using False by (simp add: arrivals_def)
    ultimately show ?thesis unfolding st using False by (auto simp: IH less_Suc_eq)
  next
    case True
    define c where "c = cmdqu_of (sl w n)"
    have ar: "arrivals p (sl w) (Suc n) = arrivals p (sl w) n @ (if cq_linux_valid c = 1 then [c] else [])"
      using True by (simp add: arrivals_def c_def)
    have step: "sl (snd (isr_slot M p (t, v) n)) = (sl v)(n := (0, 0)) \<and>
        qs (snd (isr_slot M p (t, v) n)) = (if cq_linux_valid c = 1 then take 30 (qs v @ [c]) else qs v) \<and>
        g_mailbox_isr_count (fst (isr_slot M p (t, v) n)) =
          (if cq_linux_valid c = 1 then g_mailbox_isr_count t + 1 else g_mailbox_isr_count t)"
      using True
      by (simp add: isr_slot_def pending_bit Let_def case_prod_beta mail_memoryD [OF assms(1)] c_def slot)
    show ?thesis
      unfolding st using step
      by (auto simp del: take_append simp: take_take_append IH ar True less_Suc_eq fun_eq_iff)
  qed
qed (simp add: arrivals_def)


section \<open>Replies\<close>

definition slot_free :: "u32 \<times> u32 \<Rightarrow> bool" where
  "slot_free words \<longleftrightarrow> cq_linux_valid (cmdqu_of words) = 0 \<and> cq_rtos_valid (cmdqu_of words) = 0"

lemma send_slots_posts:
  assumes "mail_memory M sl qs"
  shows "sl (send_slots M c i n w) =
      (case find (\<lambda>k. slot_free (sl w k)) [i..<i + n] of None \<Rightarrow> sl w
       | Some k \<Rightarrow> (sl w)(k := (cmdqu_head c, cq_param_ptr c))) \<and>
    qs (send_slots M c i n w) = qs w"
proof (induction n arbitrary: i w)
  case (Suc n)
  have up: "[i..<i + Suc n] = i # [Suc i..<Suc i + n]" by (simp add: upt_conv_Cons)
  show ?case
    unfolding up using Suc.IH [of "Suc i" "snd (slot_load M i w)"]
    by (auto simp: Let_def case_prod_beta mail_memoryD [OF assms] slot_free_def split: option.split)
qed simp

definition free_slot :: "(nat \<Rightarrow> u32 \<times> u32) \<Rightarrow> nat option" where
  "free_slot slots = find (\<lambda>k. slot_free (slots k)) [0..<8]"

lemma free_slotD: "free_slot slots = Some k \<Longrightarrow> k < 8 \<and> slot_free (slots k)"
  unfolding free_slot_def by (auto simp: find_Some_iff)

section \<open>What the mailbox does to the flight state\<close>

text \<open>Quantities that do not depend on the fields the mailbox code writes.\<close>

definition mail_blind :: "(fw \<Rightarrow> 'a) \<Rightarrow> bool" where
  "mail_blind F \<longleftrightarrow>
     (\<forall>s u. F (s\<lparr>g_mailbox_isr_count := u\<rparr>) = F s \<and> F (s\<lparr>g_mailbox_task_count := u\<rparr>) = F s \<and>
        F (s\<lparr>g_last_cmd_id := u\<rparr>) = F s \<and> F (s\<lparr>g_last_param_ptr := u\<rparr>) = F s \<and>
        F (s\<lparr>g_amp_shm_phys := u\<rparr>) = F s) \<and>
     (\<forall>s b. F (s\<lparr>g_amp_shm_ready := b\<rparr>) = F s)"

lemma isr_blind:
  assumes "mail_blind F"
  shows "F (fst (prvQueueISR M x)) = F (fst x)"
proof -
  note U = assms [unfolded mail_blind_def]
  have slot: "F (fst (isr_slot M p y i)) = F (fst y)" for p y i
    using U by (cases y) (simp add: isr_slot_def Let_def case_prod_beta)
  have "F (fst (foldl (isr_slot M p) y is)) = F (fst y)" for p y "is"
    by (induction "is" arbitrary: y) (simp_all add: slot)
  then show ?thesis by (cases x) (simp add: prvQueueISR_def Let_def case_prod_beta)
qed

lemma switch_blind:
  assumes "mail_blind F"
  shows "F (fst (snd (cmdqu_switch M c x))) = F (fst x)"
  using assms [unfolded mail_blind_def] by (cases x) (simp add: cmdqu_switch_def)

text \<open>The state in which a turn polls: with the command of the queue noted, if there is one.\<close>

definition noted :: "cmdqu option \<Rightarrow> fw \<Rightarrow> fw" where
  "noted m s = (case m of None \<Rightarrow> s | Some c \<Rightarrow>
     s\<lparr>g_mailbox_task_count := g_mailbox_task_count s + 1, g_last_cmd_id := ucast (cq_cmd_id c),
       g_last_param_ptr := cq_param_ptr c\<rparr>)"

definition attached :: "cmdqu option \<Rightarrow> fw \<Rightarrow> fw" where
  "attached m s = (case m of None \<Rightarrow> s | Some c \<Rightarrow>
     if cq_cmd_id c = AMP_CMD_INIT_SHM then s\<lparr>g_amp_shm_phys := cq_param_ptr c, g_amp_shm_ready := True\<rparr> else s)"

lemma turn_state:
  "fst (prvCmdQuRunTask_turn M H (s, w)) =
     attached (fst (xQueueReceive M w)) (fst (ibus_probe_poll_once H (noted (fst (xQueueReceive M w)) s, snd (xQueueReceive M w))))"
proof (cases "xQueueReceive M w")
  case (Pair m v)
  show ?thesis
  proof (cases m)
    case (Some c)
    have "fst (snd (cmdqu_switch M c x)) = attached m (fst x)" for x
      by (cases x) (simp add: cmdqu_switch_def attached_def Some cmd_defs)
    then show ?thesis by (simp add: prvCmdQuRunTask_turn_def Pair Some noted_def case_prod_beta Let_def)
  qed (simp add: prvCmdQuRunTask_turn_def Pair attached_def noted_def)
qed

lemma noted_blind: "mail_blind F \<Longrightarrow> F (noted m s) = F s"
  by (simp add: noted_def mail_blind_def split: option.split)

lemma attached_blind: "mail_blind F \<Longrightarrow> F (attached m s) = F s"
  by (simp add: attached_def mail_blind_def split: option.split)

text \<open>
  The states that the firmware reaches from power-on, by interrupts and turns of the task in any order;
  an interrupt comes between two turns.
\<close>

inductive task_reached :: "'w mail_hw \<Rightarrow> 'w fw_hw \<Rightarrow> 'w \<Rightarrow> fw \<times> 'w \<Rightarrow> bool" for M H w0 where
  boot: "task_reached M H w0 (fw_boot, w0)"
| interrupt: "task_reached M H w0 x \<Longrightarrow> task_reached M H w0 (prvQueueISR M x)"
| turn: "task_reached M H w0 x \<Longrightarrow> task_reached M H w0 (prvCmdQuRunTask_turn M H x)"

definition motors_consistent :: "fw \<Rightarrow> bool" where
  "motors_consistent s \<longleftrightarrow>
     (if motors_live s then motor_all us_in_range (g_motor_pwm_us s)
      else g_motor_pwm_us s = Motors 1000 1000 1000 1000 \<and> \<not> g_motor_armed s \<and> \<not> g_motor_output_enabled s)"

lemma mail_blind_facts: "mail_blind fw_inv" "mail_blind motors_consistent" "mail_blind (emergency_view r)"
proof -
  have "mail_blind motors_live" by (simp add: mail_blind_def motors_live_def)
  then show "mail_blind motors_consistent" by (simp add: mail_blind_def motors_consistent_def)
qed (simp_all add: mail_blind_def inv_defs emergency_view_def)

lemma poll_consistent: "motors_consistent (fst (ibus_probe_poll_once H x))"
proof -
  obtain fs u where "verdict (fst (ibus_probe_poll_once H (fst x, snd x))) = verdict (motor_decide fs (arm_gate u))"
    by (rule poll_verdict)
  then have "motors_consistent (fst (ibus_probe_poll_once H x)) = motors_consistent (motor_decide fs (arm_gate u))"
    by (simp add: verdict_def motors_consistent_def motors_live_def)
  also have "\<dots>" using decide_outputs [of fs u] by (simp add: motors_consistent_def split: if_splits)
  finally show ?thesis .
qed

lemma boot_consistent: "motors_consistent fw_boot"
  by (simp add: motors_consistent_def motors_live_def fw_boot_def all_motors_def)

text \<open>A poll without an attached region leaves what is remembered of emergency slots.\<close>

definition emergency_memory :: "fw \<Rightarrow> u32 \<times> bool \<times> bool" where
  "emergency_memory s = (g_amp_last_emergency_seq s, g_amp_emergency_stop_latched s, g_amp_shm_ready s)"

lemma detached_poll:
  assumes "\<not> g_amp_shm_ready s"
  shows "emergency_memory (fst (ibus_probe_poll_once H (s, w))) = emergency_memory s"
proof -
  have b: "input_blind emergency_memory" "control_blind emergency_memory" "tail_blind emergency_memory"
    by (simp_all add: emergency_memory_def input_blind_def sensing_blind_def control_blind_def tail_blind_def pwm_blind_def)
  obtain now w0 where t: "xTaskGetTickCount H w = (now, w0)" by (cases "xTaskGetTickCount H w")
  obtain s1 w1 where i: "ibus_inputs H now (s, w0) = (s1, w1)" by (cases "ibus_inputs H now (s, w0)")
  obtain s2 w2 where d: "ibus_decide H (rc_failsafe H now s1) (s1, w1) = (s2, w2)"
    by (cases "ibus_decide H (rc_failsafe H now s1) (s1, w1)")
  have s1: "emergency_memory s1 = emergency_memory s" using inputs_blind [OF b(1), of H now "(s, w0)"] i by simp
  let ?r = "rc_take_channels (rc_failsafe H now s1) s1"
  have "amp_shared_region_get ?r = None"
    using s1 assms by (simp add: amp_shared_region_get_def rc_take_channels_def emergency_memory_def)
  then have p: "amp_shared_region_poll_once H (?r, w1) = (?r, w1)" by (simp add: amp_shared_region_poll_once_def)
  from d obtain u v where e: "fst (rc_update_freshness_once H
      ((control_update_setpoint_once (fst (amp_shared_region_poll_once H (?r, w1))))\<lparr>g_rc_arm_allowed := False\<rparr>, v)) = u"
    "s2 = motor_decide (rc_failsafe H now s1) (arm_gate u)"
    by (rule decide_parts)
  note u = e [unfolded p fst_conv]
  have "emergency_memory s2 = emergency_memory (arm_gate u)"
    unfolding u(2)
    by (rule decide_frame [OF b(2)]) (simp_all add: emergency_memory_def motor_force_safe_def motor_set_all_def Let_def)
  also have "\<dots> = emergency_memory u" by (simp add: emergency_memory_def arm_gate_def Let_def)
  also have "\<dots> = emergency_memory ((control_update_setpoint_once ?r)\<lparr>g_rc_arm_allowed := False\<rparr>)"
    unfolding u(1) [symmetric] by (simp add: emergency_memory_def rc_update_freshness_once_def Let_def case_prod_beta)
  also have "\<dots> = emergency_memory (control_update_setpoint_once ?r)" by (simp add: emergency_memory_def)
  also have "\<dots> = emergency_memory ?r" by (rule control_steps(2) [OF b(2)])
  also have "\<dots> = emergency_memory s1" by (simp add: emergency_memory_def rc_take_channels_def)
  finally show ?thesis using poll_core [OF b(3) t i] d s1 by simp
qed

lemma attached_motors:
  "g_motor_armed (attached m s) = g_motor_armed s" "g_motor_output_enabled (attached m s) = g_motor_output_enabled s"
  "g_motor_pwm_us (attached m s) = g_motor_pwm_us s" "g_amp_last_emergency_seq (attached m s) = g_amp_last_emergency_seq s"
  by (simp_all add: attached_def split: option.split)

section \<open>A mailbox to evaluate\<close>

text \<open>Slots and a queue in memory; behind them a board with no bytes to read and one shared region.\<close>

record mail_bench =
  mb_slots :: "nat \<Rightarrow> u32 \<times> u32"
  mb_queue :: "cmdqu list"
  mb_int :: u8
  mb_region :: shared_region

definition mail_bench_hw :: "mail_bench mail_hw" where
  "mail_bench_hw = \<lparr>mbox_int = (\<lambda>w. (mb_int w, w)), mbox_int_clr = (\<lambda>_ v w. w\<lparr>mb_int := mb_int w AND NOT v\<rparr>),
     mbox_info_get = (\<lambda>_ w. (0, w)), mbox_info_put = (\<lambda>_ _ w. w), mbox_set_put = (\<lambda>_ w. w),
     slot_load = (\<lambda>i w. (mb_slots w i, w)), slot_clear = (\<lambda>i w. w\<lparr>mb_slots := (mb_slots w)(i := (0, 0))\<rparr>),
     slot_put_head = (\<lambda>i h w. w\<lparr>mb_slots := (mb_slots w)(i := (h, snd (mb_slots w i)))\<rparr>),
     slot_put_param = (\<lambda>i p w. w\<lparr>mb_slots := (mb_slots w)(i := (fst (mb_slots w i), p))\<rparr>),
     drv_spin_lock_irqsave = (\<lambda>w. (True, w)), drv_spin_unlock_irqrestore = (\<lambda>w. w),
     xQueueSendFromISR = (\<lambda>c w. w\<lparr>mb_queue := take 30 (mb_queue w @ [c])\<rparr>),
     xQueueReceive = (\<lambda>w. case mb_queue w of [] \<Rightarrow> (None, w) | c # cs \<Rightarrow> (Some c, w\<lparr>mb_queue := cs\<rparr>)),
     duo_led_control = (\<lambda>_ w. w)\<rparr>"

definition mail_board :: "mail_bench fw_hw" where
  "mail_board = \<lparr>configTICK_RATE_HZ = 200, xTaskGetTickCount = (\<lambda>w. (5, w)), hw_load32 = (\<lambda>_ w. (0, w)),
     hw_store32 = (\<lambda>_ _ w. w), hw_nop = (\<lambda>w. w), fw_hal_uart_init = (\<lambda>_ _ _ w. w), PWM_MAX_CH = 3,
     cvi_pwm_reg_base = (\<lambda>_. 0), hw_pwm_init = (\<lambda>_ w. w), hw_pwm_set_output_cfg = (\<lambda>_ w. w),
     hw_pwm_continuous_start = (\<lambda>_ w. w), cvi_pwm_get_period_ch = (\<lambda>_ _ w. (0, w)),
     cvi_pwm_get_high_period_ch = (\<lambda>_ _ w. (0, w)), PWM_PWMSTART = (\<lambda>_ w. (0, w)),
     PWM_PWM_OE = (\<lambda>_ w. (0, w)), cvi_pwm_get_polarity = (\<lambda>_ _ w. (1, w)),
     hw_shm_load = (\<lambda>_ w. (stop_region 1 2, w)), hw_shm_store = (\<lambda>_ _ w. w), flush_dcache_range = (\<lambda>_ _ w. w),
     undefined_u32 = (\<lambda>_. 0xFFFFFFFF)\<rparr>"

definition linux_cmd :: "u8 \<Rightarrow> u32 \<Rightarrow> cmdqu" where
  "linux_cmd k p = \<lparr>cq_ip_id = 0, cq_cmd_id = k, cq_block = True, cq_linux_valid = 1, cq_rtos_valid = 0, cq_param_ptr = p\<rparr>"

text \<open>Two commands, in the slots 1 and 3; slot 3 alone is pending, and slot 0 is pending without a command.\<close>

definition mail_bench0 :: "cmdqu list \<Rightarrow> mail_bench" where
  "mail_bench0 q = \<lparr>mb_slots = (\<lambda>i. if i = 1 \<or> i = 3 then (0x0001B300, 7) else (0, 0)), mb_queue = q, mb_int = 9,
     mb_region = fresh_region\<rparr>"

lemma mail_bench_memory: "mail_memory mail_bench_hw mb_slots mb_queue"
  by (simp add: mail_memory_def mail_bench_hw_def)

lemma upt_8: "[0..<8] = [0, 1, 2, 3, 4, 5, 6, 7 :: nat]"
  by (simp add: upt_conv_Cons)

lemma head_b300: "cmdqu_of (0x0001B300, 7) = linux_cmd 0x33 7" "cq_linux_valid (cmdqu_of (0, 0)) = 0"
  by (simp_all add: cmdqu_of_def linux_cmd_def)

section \<open>The properties\<close>

text \<open>C22: An interrupt with the pending bits \<open>p\<close> takes the commands marked valid out of the pending slots, in the
  order of the slots, into the queue, drops those beyond the queue's 30 without a trace, clears every pending
  slot, valid or not, leaves the others, and counts the valid ones.\<close>

theorem interrupt_delivers:
  assumes "mail_memory M sl qs" "length (qs w) \<le> 30" "fst (mbox_int M w) = p"
  shows "sl (snd (prvQueueISR M (s, w))) = (\<lambda>i. if i < 8 \<and> bit p i then (0, 0) else sl w i) \<and>
    qs (snd (prvQueueISR M (s, w))) = take 30 (qs w @ arrivals p (sl w) 8) \<and>
    g_mailbox_isr_count (fst (prvQueueISR M (s, w))) =
      g_mailbox_isr_count s + word_of_nat (length (arrivals p (sl w) 8))"
proof (cases "p = 0")
  case True
  then have "arrivals p (sl w) 8 = []" by (simp add: arrivals_def)
  then show ?thesis
    using True assms by (simp add: prvQueueISR_def case_prod_beta mail_memoryD [OF assms(1)])
next
  case False
  have e: "prvQueueISR M (s, w) = foldl (isr_slot M p) (s, snd (mbox_int M w)) [0..<8]"
    using False assms(3) by (simp add: prvQueueISR_def case_prod_beta MAILBOX_MAX_NUM_def)
  show ?thesis
    unfolding e using isr_prefix [OF assms(1), of 8 p s "snd (mbox_int M w)"] assms(2)
    by (simp add: mail_memoryD [OF assms(1)] del: upt.simps cong: if_cong)
qed

theorem interrupt_delivers_witness:
  "mb_queue (snd (prvQueueISR mail_bench_hw (fw_boot, mail_bench0 []))) = [linux_cmd 0x33 7] \<and>
   mb_slots (snd (prvQueueISR mail_bench_hw (fw_boot, mail_bench0 []))) 3 = (0, 0) \<and>
   mb_slots (snd (prvQueueISR mail_bench_hw (fw_boot, mail_bench0 []))) 1 = (0x0001B300, 7)"
proof -
  have "arrivals 9 (mb_slots (mail_bench0 [])) 8 = [linux_cmd 0x33 7]"
    by (simp add: arrivals_def mail_bench0_def head_b300 upt_8) (simp add: linux_cmd_def)
  then show ?thesis
    using interrupt_delivers [OF mail_bench_memory, of "mail_bench0 []" 9 fw_boot]
    by (simp add: mail_bench0_def mail_bench_hw_def)
qed

text \<open>C23: With the lock taken, a reply goes to the first free slot and is read back from there as it was, marked
  for Linux; when no slot is free, or the lock is not obtained, no slot changes and the reply is lost.\<close>

theorem reply_posted:
  assumes "mail_memory M sl qs" "cq_cmd_id c < 0x80"
  shows "case (if fst (drv_spin_lock_irqsave M w) then free_slot (sl w) else None) of
      None \<Rightarrow> sl (cmdqu_send M c w) = sl w
    | Some k \<Rightarrow> k < 8 \<and> slot_free (sl w k) \<and>
        cmdqu_of (sl (cmdqu_send M c w) k) = c\<lparr>cq_linux_valid := 0, cq_rtos_valid := 1\<rparr> \<and>
        sl (cmdqu_send M c w) = (sl w)(k := sl (cmdqu_send M c w) k)"
proof -
  define d where "d = c\<lparr>cq_linux_valid := 0, cq_rtos_valid := 1\<rparr>"
  have d: "cq_cmd_id d < 0x80" using assms(2) by (simp add: d_def)
  define v where "v = snd (drv_spin_lock_irqsave M w)"
  have e: "cmdqu_send M c w = (if fst (drv_spin_lock_irqsave M w)
      then drv_spin_unlock_irqrestore M (send_slots M d 0 8 v) else v)"
    by (simp add: cmdqu_send_def d_def v_def case_prod_beta Let_def MAILBOX_MAX_NUM_def)
  have v: "sl v = sl w" by (simp add: v_def mail_memoryD [OF assms(1)])
  have p: "sl (send_slots M d 0 8 v) = (case free_slot (sl w) of None \<Rightarrow> sl w
       | Some k \<Rightarrow> (sl w)(k := (cmdqu_head d, cq_param_ptr d)))"
    using send_slots_posts [OF assms(1), of d 0 8 v] by (simp add: v free_slot_def split: option.split)
  show ?thesis
    using free_slotD [of "sl w"] cmdqu_roundtrip [OF d]
    by (auto simp: e p v mail_memoryD [OF assms(1)] simp flip: d_def split: option.split)
qed

theorem reply_posted_witness:
  "cmdqu_of (mb_slots (cmdqu_send mail_bench_hw (done_reply (linux_cmd 0x20 7) DUO_LED_DONE) (mail_bench0 [])) 0) =
     (linux_cmd 0x20 4)\<lparr>cq_linux_valid := 0, cq_rtos_valid := 1\<rparr>"
proof -
  have "free_slot (mb_slots (mail_bench0 [])) = Some 0" "fst (drv_spin_lock_irqsave mail_bench_hw (mail_bench0 []))"
    by (simp_all add: free_slot_def slot_free_def mail_bench0_def cmdqu_of_def mail_bench_hw_def upt_8)
  then show ?thesis
    using reply_posted [OF mail_bench_memory, of "done_reply (linux_cmd 0x20 7) DUO_LED_DONE" "mail_bench0 []"]
    by (simp add: done_reply_def linux_cmd_def DUO_LED_DONE_def)
qed

text \<open>A turn that takes any command but the attachment of the shared region from the queue, an emergency stop
  or an arm command among them, leaves the flight state exactly as a poll leaves it: the command is
  acknowledged, not obeyed.\<close>

theorem mailbox_commands_not_obeyed:
  assumes "xQueueReceive M w = (Some c, v)" "cq_cmd_id c \<noteq> AMP_CMD_INIT_SHM"
  shows "fst (prvCmdQuRunTask_turn M H (s, w)) = fst (ibus_probe_poll_once H (noted (Some c) s, v))"
  using assms by (simp add: turn_state attached_def)

theorem mailbox_commands_not_obeyed_witness:
  "fst (prvCmdQuRunTask_turn mail_bench_hw mail_board (fw_flying, mail_bench0 [linux_cmd 0x33 1])) =
   fst (ibus_probe_poll_once mail_board (noted (Some (linux_cmd 0x33 1)) fw_flying, mail_bench0 []))"
  by (rule mailbox_commands_not_obeyed) (simp_all add: mail_bench0_def mail_bench_hw_def linux_cmd_def AMP_CMD_INIT_SHM_def)

text \<open>C21: When Linux announces the region, a valid one at a non-zero address that holds still, by mailbox to a firmware
  without one, an emergency slot in it that the firmware has not seen and whose reason is not 0 (reason 0 is a clear)
  stops the motors in the very next turn, whatever command that turn finds in its queue.\<close>

theorem attach_then_stop:
  assumes "shm_shows H (cq_param_ptr c) r" "region_valid r" "cq_param_ptr c \<noteq> 0"
    "xQueueReceive M w = (Some c, v)" "cq_cmd_id c = AMP_CMD_INIT_SHM" "\<not> g_amp_shm_ready s"
    "slot_seq (sr_emergency r) \<noteq> g_amp_last_emergency_seq s" "ce_reason (slot_payload (sr_emergency r)) \<noteq> 0"
    "s1 = fst (prvCmdQuRunTask_turn M H (s, w))" "s2 = fst (prvCmdQuRunTask_turn M H (s1, w2))"
  shows "\<not> g_motor_armed s2 \<and> \<not> g_motor_output_enabled s2 \<and> g_motor_pwm_us s2 = Motors 1000 1000 1000 1000"
proof -
  let ?m = "fst (xQueueReceive M w2)" let ?v = "snd (xQueueReceive M w2)"
  have s1: "s1 = attached (Some c) (fst (ibus_probe_poll_once H (noted (Some c) s, v)))"
    using turn_state [of M H s w] assms(4,9) by simp
  then have "shm_attached (cq_param_ptr c) s1" using assms(3,5) by (simp add: attached_def shm_attached_def)
  then have a: "shm_attached (cq_param_ptr c) (noted ?m s1)"
    by (simp add: noted_def shm_attached_def split: option.split)
  have "g_amp_last_emergency_seq s1 = g_amp_last_emergency_seq s"
    using detached_poll [of "noted (Some c) s" H v] assms(6) by (simp add: s1 attached_motors emergency_memory_def noted_def)
  then have "emergency_view r (noted ?m s1)"
    using assms(7,8) unfolding noted_blind [OF mail_blind_facts(3)] by (simp add: emergency_view_def)
  note p = poll_emergency_verdict(2) [OF assms(1,2) a refl this, of ?v]
  have "s2 = attached ?m (fst (ibus_probe_poll_once H (noted ?m s1, ?v)))"
    using turn_state [of M H s1 w2] assms(10) by simp
  with p show ?thesis by (simp add: attached_motors)
qed

theorem attach_then_stop_witness:
  "g_motor_pwm_us (fst (prvCmdQuRunTask_turn mail_bench_hw mail_board
     (fst (prvCmdQuRunTask_turn mail_bench_hw mail_board (fw_boot, mail_bench0 [linux_cmd 0x20 0x8f000000])),
      mail_bench0 []))) = Motors 1000 1000 1000 1000"
proof -
  have "shm_shows mail_board (cq_param_ptr (linux_cmd 0x20 0x8f000000)) (stop_region 1 2)"
    by (simp add: shm_shows_def mail_board_def)
  from attach_then_stop [OF this stop_region_shown(2), of mail_bench_hw "mail_bench0 [linux_cmd 0x20 0x8f000000]"
      "mail_bench0 []" fw_boot _ _ "mail_bench0 []", OF _ _ _ _ _ _ refl refl]
  show ?thesis
    by (simp add: linux_cmd_def mail_bench0_def mail_bench_hw_def AMP_CMD_INIT_SHM_def fw_boot_def stop_region_shown)
qed

text \<open>C19: In every state that interrupts and turns of the task, in any order, reach from power-on, with any
  commands in the mailbox, the firmware's invariant holds, and the motors either are live with commands
  between 1000 and 1500 or are disarmed, disabled and at 1000.\<close>

theorem task_reached_safe:
  "task_reached M H w0 x \<Longrightarrow> fw_inv (fst x) \<and> motors_consistent (fst x)"
proof (induction rule: task_reached.induct)
  case boot
  then show ?case by (simp add: inv_boot boot_consistent)
next
  case (interrupt x)
  then show ?case by (simp add: isr_blind mail_blind_facts)
next
  case (turn x)
  let ?m = "fst (xQueueReceive M (snd x))" let ?v = "snd (xQueueReceive M (snd x))"
  have "fw_inv (noted ?m (fst x))" using turn by (simp add: noted_blind mail_blind_facts)
  from inv_poll [OF this, of H ?v] poll_consistent [of H "(noted ?m (fst x), ?v)"]
  show ?case by (cases x) (simp add: turn_state attached_blind mail_blind_facts)
qed

theorem task_reached_safe_witness:
  "fw_inv (fst (prvCmdQuRunTask_turn mail_bench_hw mail_board (prvQueueISR mail_bench_hw (fw_boot, mail_bench0 [])))) \<and>
   motors_consistent (fst (prvCmdQuRunTask_turn mail_bench_hw mail_board (prvQueueISR mail_bench_hw (fw_boot, mail_bench0 []))))"
  by (rule task_reached_safe [of mail_bench_hw mail_board "mail_bench0 []"]) (intro task_reached.intros)

end
