(* ===== verification/LinuxLink.thy ===== *)
theory LinuxLink
  imports Telemetry FwMailbox
begin

text \<open>
  Linux and the two programs of the small core across the shared region: what arrives of an emergency
  stop, of a lost pilot link and of a configuration.
\<close>

section \<open>A process with a mapped region\<close>

definition link_os :: "linux_bench linux_os" where
  "link_os = linux_bench_os phys_env (\<lambda>_. False)"

definition linked_bench :: linux_bench where
  "linked_bench = linux_bench0\<lparr>lb_region := fresh_region\<rparr>"

lemma link_maps: "maps link_os lb_region bench_mapped" "region_valid (lb_region linked_bench)"
  using linux_bench_memory by (auto simp: maps_def bench_mapped_def link_os_def linked_bench_def region_valid_def fresh_region_def)

definition link_env :: "(linux_bench, unit) telemetry_env" where
  "link_env = telemetry_bench\<lparr>te_os := link_os\<rparr>"

definition link_node :: "unit telemetry" where
  "link_node = (TelemetryNode telemetry_bench () [])\<lparr>tn_mailbox := bench_mapped\<lparr>mt_fd := 4\<rparr>\<rparr>"

lemma link_node_maps: "maps (te_os link_env) lb_region (tn_mailbox link_node)"
  using link_maps by (simp add: link_env_def link_node_def maps_def)

section \<open>Emergency stops\<close>

text \<open>C25: An emergency stop written into the mapped region reaches the flight node exactly when its number, one more
  than the last this process sent, is greater than the last the node has seen, and stops the firmware's
  motors in its next run whenever the number differs from the last the firmware has seen: after a restart
  of the Linux process, which counts from 0 again, the node ignores stops that the firmware obeys.\<close>

theorem emergency_reaches_both:
  assumes "maps L reg t" "region_valid (reg w)" "tq_attached q" "ring_ok (tq_ring q)" "reason \<noteq> 0"
    "w' = snd (snd (sendEmergencyStop L reason (t, w)))"
    "shm_shows H p (reg w')" "shm_attached p s" "s' = fst (ibus_probe_poll_once H (s, v))"
  shows "(\<exists>c q'. transport_poll (reg w') q = Some ((True, c), q') \<and>
      (ic_emergency_stop c \<longleftrightarrow> tq_last_emergency_seq q < mt_emergency_seq t + 1)) \<and>
    (g_amp_last_emergency_seq s = mt_emergency_seq t + 1 \<or>
     \<not> g_motor_armed s' \<and> \<not> g_motor_output_enabled s' \<and> g_motor_pwm_us s' = Motors 1000 1000 1000 1000)"
proof -
  let ?k = "mt_emergency_seq t + 1"
  have r: "reg w' = (reg w)\<lparr>sr_emergency := publishSlot emergency_bytes (sr_emergency (reg w)) ?k \<lparr>ce_reason = reason\<rparr>\<rparr>"
    unfolding assms(6) by (rule sent_emergency(2) [OF assms(1,2)])
  then have slot: "sr_emergency (reg w') = publishSlot emergency_bytes (sr_emergency (reg w)) ?k \<lparr>ce_reason = reason\<rparr>"
    and valid: "region_valid (reg w')" using assms(2) by (simp_all add: region_valid_def)
  have "emergency_new (reg w') q \<longleftrightarrow> tq_last_emergency_seq q < ?k"
    by (auto simp: emergency_new_def slot_new_def slot emergency_wire.verify_publish emergency_wire.publish_fields)
  then have node: "ic_emergency_stop (poll_command (reg w') q) \<longleftrightarrow> tq_last_emergency_seq q < ?k"
    by (simp add: poll_command_def empty_command_def)
  obtain q' where "transport_poll (reg w') q = Some ((True, poll_command (reg w') q), q')"
    using transport_poll_eq [OF assms(3,4)] by blast
  moreover have "emergency_view (reg w') s" if "g_amp_last_emergency_seq s \<noteq> ?k"
    using that assms(5) by (auto simp: emergency_view_def slot emergency_wire.publish_fields)
  ultimately show ?thesis
    using node poll_emergency_verdict(2) [OF assms(7) valid assms(8,9)] by blast
qed

text \<open>A restarted process sends its first stop to a node and a firmware that have seen three.\<close>

theorem emergency_reaches_both_witness:
  "(\<exists>c q'. transport_poll (lb_region (snd (snd (sendEmergencyStop link_os 2 (bench_mapped, linked_bench)))))
      (ready_transport\<lparr>tq_last_emergency_seq := 3\<rparr>) = Some ((True, c), q') \<and> \<not> ic_emergency_stop c) \<and>
   g_motor_pwm_us (fst (ibus_probe_poll_once
     (showing_hw (lb_region (snd (snd (sendEmergencyStop link_os 2 (bench_mapped, linked_bench))))))
     (fw_flying\<lparr>g_amp_shm_ready := True, g_amp_shm_phys := 0x83f00000, g_amp_last_emergency_seq := 3\<rparr>, bench0 [] 5 fresh_region))) =
     Motors 1000 1000 1000 1000"
proof -
  let ?q = "ready_transport\<lparr>tq_last_emergency_seq := 3\<rparr>"
  let ?s = "fw_flying\<lparr>g_amp_shm_ready := True, g_amp_shm_phys := 0x83f00000, g_amp_last_emergency_seq := 3\<rparr>"
  have q: "tq_attached ?q" "ring_ok (tq_ring ?q)" using ready_ok by simp_all
  have s: "shm_attached 0x83f00000 ?s" by (simp add: shm_attached_def)
  have "mt_emergency_seq bench_mapped = 0" by (simp add: bench_mapped_def new_mailbox_def)
  then show ?thesis
    using emergency_reaches_both [OF link_maps q _ refl stop_region_shown(1) s refl, of 2 "bench0 [] 5 fresh_region"] by auto
qed

section \<open>A lost pilot link\<close>

lemma with_mailbox_state:
  "with_mailbox f (n, w) = (fst (f (tn_mailbox n, w)), n\<lparr>tn_mailbox := fst (snd (f (tn_mailbox n, w)))\<rparr>,
     snd (snd (f (tn_mailbox n, w))))"
  by (simp add: with_mailbox_def case_prod_beta)

text \<open>What the failsafe of the loop leaves in the region, whatever the sends answer.\<close>

lemma failsafe_published:
  assumes "maps (te_os E) reg (tn_mailbox n)" "region_valid (reg w)" "tl_rc_seen v"
    "now - tl_last_rc_ok_us v > kRcTimeoutUs" "\<not> tl_failsafe_sent v"
    "failsafe_phase E now (v, n, w) = (v', n', w')"
  shows "v' = v\<lparr>tl_failsafe_sent := True\<rparr>"
    "reg w' = (reg w)\<lparr>sr_emergency := publishSlot emergency_bytes (sr_emergency (reg w)) (mt_emergency_seq (tn_mailbox n) + 1) \<lparr>ce_reason = 1\<rparr>,
       sr_arm := publishSlot arm_bytes (sr_arm (reg w)) (mt_arm_seq (tn_mailbox n) + 1) (zero_arm\<lparr>ca_state := 2\<rparr>)\<rparr>"
proof -
  let ?L = "te_os E" let ?m = "tn_mailbox n"
  obtain a m1 w1 where e: "sendEmergencyStop ?L 1 (?m, w) = (a, m1, w1)" by (cases "sendEmergencyStop ?L 1 (?m, w)") auto
  note s = sent_emergency [OF assms(1,2), of 1, unfolded e snd_conv fst_conv]
  have m1: "maps ?L reg m1" "region_valid (reg w1)" using assms(1,2) s by (simp_all add: region_valid_def)
  obtain b m2 w2 where r: "sendArm ?L Failsafe (m1, w1) = (b, m2, w2)" by (cases "sendArm ?L Failsafe (m1, w1)") auto
  note t = sent_arm [OF m1, of Failsafe, unfolded r snd_conv fst_conv]
  have "failsafe_phase E now (v, n, w) = (v\<lparr>tl_failsafe_sent := True\<rparr>, n\<lparr>tn_mailbox := m2\<rparr>, w2)"
    using assms(3-5) by (simp add: failsafe_phase_def with_mailbox_state e r)
  then show "v' = v\<lparr>tl_failsafe_sent := True\<rparr>"
    "reg w' = (reg w)\<lparr>sr_emergency := publishSlot emergency_bytes (sr_emergency (reg w)) (mt_emergency_seq (tn_mailbox n) + 1) \<lparr>ce_reason = 1\<rparr>,
       sr_arm := publishSlot arm_bytes (sr_arm (reg w)) (mt_arm_seq (tn_mailbox n) + 1) (zero_arm\<lparr>ca_state := 2\<rparr>)\<rparr>"
    using assms(6) t s by (simp_all add: Failsafe_def)
qed

text \<open>C26: When pilot input has been seen and then missing for more than 200 ms, and the loop has not yet acted on it, the
  loop writes an emergency stop and a failsafe command into the mapped region, if that is valid; the flight node's next
  poll reports the stop and the one after it delivers the failsafe state, when their numbers exceed those the node has
  seen. While no pilot input has ever been seen the loop sends no failsafe at all.\<close>

theorem link_loss_reaches_node:
  assumes "maps (te_os E) reg (tn_mailbox n)" "region_valid (reg w)" "tl_rc_seen v"
    "now - tl_last_rc_ok_us v > kRcTimeoutUs" "\<not> tl_failsafe_sent v"
    "failsafe_phase E now (v, n, w) = (v', n', w')" "tq_attached q" "ring_ok (tq_ring q)"
    "tq_last_emergency_seq q < mt_emergency_seq (tn_mailbox n) + 1" "tq_last_arm_seq q < mt_arm_seq (tn_mailbox n) + 1"
  shows "\<exists>c q' c' q''. transport_poll (reg w') q = Some ((True, c), q') \<and> ic_emergency_stop c \<and>
    transport_poll (reg w') q' = Some ((True, c'), q'') \<and> \<not> ic_emergency_stop c' \<and>
    ic_arm c' = Some (zero_arm\<lparr>ca_state := 2\<rparr>)"
proof -
  define r where "r = reg w'"
  have slots: "sr_emergency r = publishSlot emergency_bytes (sr_emergency (reg w)) (mt_emergency_seq (tn_mailbox n) + 1) \<lparr>ce_reason = 1\<rparr>"
    "sr_arm r = publishSlot arm_bytes (sr_arm (reg w)) (mt_arm_seq (tn_mailbox n) + 1) (zero_arm\<lparr>ca_state := 2\<rparr>)"
    using failsafe_published(2) [OF assms(1-6)] by (simp_all add: r_def)
  have new: "emergency_new r q" "slot_new arm_bytes (sr_arm r) (tq_last_arm_seq q)"
    using assms(9,10)
    by (auto simp: emergency_new_def slot_new_def slots emergency_wire.verify_publish emergency_wire.publish_fields
        arm_wire.verify_publish arm_wire.publish_fields)
  obtain ring where p: "transport_poll r q = Some ((True, poll_command r q), (poll_seqs r q)\<lparr>tq_ring := ring\<rparr>)" "ring_ok ring"
    using transport_poll_eq [OF assms(7,8)] by blast
  let ?q = "(poll_seqs r q)\<lparr>tq_ring := ring\<rparr>"
  have q: "tq_attached ?q" "ring_ok (tq_ring ?q)" using assms(7) new(1) p(2) by (simp_all add: poll_seqs_def)
  obtain q'' where p2: "transport_poll r ?q = Some ((True, poll_command r ?q), q'')"
    using transport_poll_eq [OF q] by blast
  have "\<not> emergency_new r ?q" using new(1) by (simp add: emergency_new_def slot_new_def poll_seqs_def)
  moreover have "tq_last_arm_seq ?q = tq_last_arm_seq q" using new(1) by (simp add: poll_seqs_def)
  ultimately have "\<not> ic_emergency_stop (poll_command r ?q) \<and> ic_arm (poll_command r ?q) = Some (zero_arm\<lparr>ca_state := 2\<rparr>)"
    using new(2) by (simp add: poll_command_def new_payload_def slots arm_wire.publish_fields)
  moreover have "ic_emergency_stop (poll_command r q)" using new(1) by (simp add: poll_command_def)
  ultimately show ?thesis using p(1) p2 unfolding r_def by blast
qed

theorem link_loss_reaches_node_witness:
  "\<exists>c q' c' q''. transport_poll (lb_region (snd (snd (failsafe_phase link_env 300000
      (telemetry_vars\<lparr>tl_rc_seen := True\<rparr>, link_node, linked_bench))))) ready_transport = Some ((True, c), q') \<and> ic_emergency_stop c \<and>
    transport_poll (lb_region (snd (snd (failsafe_phase link_env 300000
      (telemetry_vars\<lparr>tl_rc_seen := True\<rparr>, link_node, linked_bench))))) q' = Some ((True, c'), q'') \<and>
    ic_arm c' = Some (zero_arm\<lparr>ca_state := 2\<rparr>)"
proof -
  obtain v n w where f: "failsafe_phase link_env 300000 (telemetry_vars\<lparr>tl_rc_seen := True\<rparr>, link_node, linked_bench) = (v, n, w)"
    by (cases "failsafe_phase link_env 300000 (telemetry_vars\<lparr>tl_rc_seen := True\<rparr>, link_node, linked_bench)") auto
  have m: "mt_emergency_seq (tn_mailbox link_node) = 0" "mt_arm_seq (tn_mailbox link_node) = 0"
    "tq_last_emergency_seq ready_transport = 0" "tq_last_arm_seq ready_transport = 0"
    using ready_ok by (simp_all add: link_node_def bench_mapped_def new_mailbox_def)
  show ?thesis
    using link_loss_reaches_node [OF link_node_maps link_maps(2) _ _ _ f ready_ok(1,2)] m
    unfolding f by (auto simp: telemetry_vars_def kRcTimeoutUs_def)
qed

section \<open>Configurations\<close>

text \<open>A gain that no number but only a NaN can escape.\<close>

definition gain_between :: "f32 \<Rightarrow> f32 \<Rightarrow> f32 \<Rightarrow> bool" where
  "gain_between lo hi x \<longleftrightarrow> fis_nan x \<or> fle lo x \<and> fle x hi"

definition config_in_range :: "flight_config \<Rightarrow> bool" where
  "config_in_range c \<longleftrightarrow>
     gain_between (flit 5 10) (f32_of_int 20) (fc_angle_p c) \<and> gain_between (flit 1 100) (f32_of_int 1) (fc_rate_p c) \<and>
     gain_between (f32_of_int 0) (f32_of_int 1) (fc_rate_i c) \<and> gain_between (f32_of_int 0) (flit 1 10) (fc_rate_d c) \<and>
     gain_between (f32_of_int 0) (flit 95 100) (fc_throttle_expo c) \<and> fc_deadzone_us c \<le> 100"

lemma flit_below: "0 < d \<Longrightarrow> \<bar>k\<bar> < 2 ^ 24 \<Longrightarrow> n \<le> k * int d \<Longrightarrow> fle (flit n d) (f32_of_int k)"
proof -
  assume a: "0 < d" "\<bar>k\<bar> < 2 ^ 24" "n \<le> k * int d"
  then have "n * 2 ^ 149 \<le> fval (f32_of_int k) * int d"
    using mult_right_mono [OF a(3), of "2 ^ 149"] by (simp add: fval_of_int ac_simps)
  then show ?thesis using a(1) by (simp add: fle_def flit_def fround_le)
qed

lemma flit_above: "0 < d \<Longrightarrow> \<bar>k\<bar> < 2 ^ 24 \<Longrightarrow> k * int d \<le> n \<Longrightarrow> fle (f32_of_int k) (flit n d)"
proof -
  assume a: "0 < d" "\<bar>k\<bar> < 2 ^ 24" "k * int d \<le> n"
  then have "fval (f32_of_int k) * int d \<le> n * 2 ^ 149"
    using mult_right_mono [OF a(3), of "2 ^ 149"] by (simp add: fval_of_int ac_simps)
  then show ?thesis using a(1) by (simp add: fle_def flit_def fround_ge)
qed

lemma gain_literals:
  "fle (flit 5 10) (f32_of_int 20)" "fle (flit 1 100) (f32_of_int 1)" "fle (f32_of_int 0) (f32_of_int 1)"
  "fle (f32_of_int 0) (flit 1 10)" "fle (f32_of_int 0) (flit 95 100)" "flt (f32_of_int 20) (f32_of_int 100)"
  "flt (f32_of_int 1) (f32_of_int 8)"
  by (simp_all add: flit_below flit_above fle_def [of "f32_of_int 0" "f32_of_int 1"] flt_def fval_of_int)

lemma gain_clamped:
  assumes "fle lo hi"
  shows "gain_between lo hi (fclamp x lo hi)"
proof (cases "fis_nan x")
  case True
  then show ?thesis using float_clamp.clamp_unordered [of x lo hi] by (simp add: gain_between_def)
next
  case False
  moreover have "\<not> fis_nan lo" "\<not> fis_nan hi" using assms by (simp_all add: fle_def)
  ultimately show ?thesis
    using assms float_clamp.clamp_lower float_clamp.clamp_upper by (simp add: gain_between_def)
qed

lemma candidate_in_range: "config_in_range (push_candidate c)"
proof -
  have "std_clamp (<) (fc_deadzone_us c) 0 100 \<le> 100" by (rule word_clamp.clamp_upper) simp_all
  then show ?thesis by (simp add: config_in_range_def push_candidate_def gain_clamped gain_literals)
qed

lemma in_range_seq [simp]: "config_in_range (c\<lparr>fc_update_seq := k\<rparr>) = config_in_range c"
  by (simp add: config_in_range_def)

text \<open>The number of the configuration that is pushed.\<close>

definition push_number :: "'r telemetry \<Rightarrow> flight_config \<Rightarrow> u32" where
  "push_number n config =
    (if tn_config_sent n then fc_update_seq (tn_active_config n) + 1
     else if fc_update_seq config = 0 then 1 else fc_update_seq config)"

lemma pushed:
  assumes "maps (te_os E) reg (tn_mailbox n)" "region_valid (reg w)" "pushConfig E config (n, w) = (True, n', w')"
  shows "tn_active_config n' = (push_candidate config)\<lparr>fc_update_seq := push_number n config\<rparr>" "tn_config_sent n'"
    "push_number n config \<noteq> 0 \<Longrightarrow> sr_config (reg w') =
       publishSlot config_bytes (sr_config (reg w)) (push_number n config) (tn_active_config n')"
proof -
  define c where "c = (push_candidate config)\<lparr>fc_update_seq := push_number n config\<rparr>"
  have c: "c = (if tn_config_sent n then (push_candidate config)\<lparr>fc_update_seq := fc_update_seq (tn_active_config n) + 1\<rparr>
      else if fc_update_seq (push_candidate config) = 0 then (push_candidate config)\<lparr>fc_update_seq := 1\<rparr> else push_candidate config)"
    by (simp add: c_def push_number_def push_candidate_def)
  obtain b m v where r: "sendConfig (te_os E) c (tn_mailbox n, w) = (b, m, v)"
    by (cases "sendConfig (te_os E) c (tn_mailbox n, w)") auto
  note s = sent_config [OF assms(1,2), of c, unfolded r fst_conv snd_conv]
  have e: "pushConfig E config (n, w) =
      (if config_unchanged (push_candidate config) (tn_active_config n) \<and> tn_config_sent n then (False, n, w)
       else if \<not> b then (False, n\<lparr>tn_mailbox := m\<rparr>, v)
       else (True, n\<lparr>tn_mailbox := m, tn_active_config := c, tn_config_sent := True\<rparr>, v))"
    unfolding pushConfig_def by (simp add: Let_def with_mailbox_state r flip: c)
  then have n: "n' = n\<lparr>tn_mailbox := m, tn_active_config := c, tn_config_sent := True\<rparr>" "w' = v"
    using assms(3) by (simp_all split: if_splits)
  then show "tn_active_config n' = (push_candidate config)\<lparr>fc_update_seq := push_number n config\<rparr>" "tn_config_sent n'"
    by (simp_all add: c_def)
  assume "push_number n config \<noteq> 0"
  then show "sr_config (reg w') = publishSlot config_bytes (sr_config (reg w)) (push_number n config) (tn_active_config n')"
    using s(2) by (simp add: n sent_number_def c_def)
qed

text \<open>A configuration that is pushed with success has every gain in its range unless it is a NaN and a dead zone of
  at most 100, carries the number after the last one, and is what the flight node's poll delivers when
  that number is new to it and no emergency stop is pending.\<close>

theorem pushed_config_reaches_node:
  assumes "maps (te_os E) reg (tn_mailbox n)" "region_valid (reg w)" "pushConfig E config (n, w) = (True, n', w')"
    "tq_attached q" "ring_ok (tq_ring q)" "\<not> emergency_new (reg w') q" "tq_last_config_seq q < push_number n config"
  shows "config_in_range (tn_active_config n') \<and> fc_update_seq (tn_active_config n') = push_number n config \<and>
    (\<exists>c q'. transport_poll (reg w') q = Some ((True, c), q') \<and> ic_config c = Some (tn_active_config n'))"
proof -
  have k: "push_number n config \<noteq> 0" using assms(7) by auto
  note p = pushed [OF assms(1-3)]
  have "slot_new config_bytes (sr_config (reg w')) (tq_last_config_seq q)"
    using k assms(7) by (simp add: slot_new_def p(3) config_wire.verify_publish config_wire.publish_fields)
  then have "ic_config (poll_command (reg w') q) = Some (tn_active_config n')"
    using assms(6) k by (simp add: poll_command_def new_payload_def p(3) config_wire.publish_fields)
  moreover obtain q' where "transport_poll (reg w') q = Some ((True, poll_command (reg w') q), q')"
    using transport_poll_eq [OF assms(4,5)] by blast
  ultimately show ?thesis by (auto simp: p(1) candidate_in_range)
qed

lemma link_push:
  obtains n w where "pushConfig link_env default_flight_config (link_node, linked_bench) = (True, n, w)"
proof -
  have "fst (pushConfig link_env default_flight_config (link_node, linked_bench))"
    by (simp add: pushConfig_def with_mailbox_def sendConfig_def writeConfigCache_def region_get_def region_put_def
        flushSharedRegion_def sendCommand_def link_env_def link_node_def TelemetryNode_def telemetry_bench_def link_os_def
        linux_bench_os_def bench_mapped_def new_mailbox_def linked_bench_def linux_bench0_def region_valid_def fresh_region_def
        Let_def case_prod_beta)
  then show thesis using that by (metis prod.collapse)
qed

lemma link_number: "push_number link_node default_flight_config = 1"
  by (simp add: push_number_def link_node_def TelemetryNode_def default_flight_config_def)

theorem pushed_config_reaches_node_witness:
  "config_in_range (tn_active_config (fst (snd (pushConfig link_env default_flight_config (link_node, linked_bench))))) \<and>
   fc_update_seq (tn_active_config (fst (snd (pushConfig link_env default_flight_config (link_node, linked_bench))))) = 1"
proof -
  obtain n w where p: "pushConfig link_env default_flight_config (link_node, linked_bench) = (True, n, w)" by (rule link_push)
  have "\<not> emergency_new (lb_region w) (ready_transport\<lparr>tq_last_emergency_seq := - 1, tq_last_config_seq := 0\<rparr>)"
    by (simp add: emergency_new_def slot_new_def not_less)
  from pushed_config_reaches_node [OF link_node_maps link_maps(2) p _ _ this] ready_ok(1,2) show ?thesis
    by (simp add: link_number p)
qed

lemma gain_too_small:
  assumes "gain_between lo (f32_of_int k) x" "\<not> fis_nan x" "flt (f32_of_int k) (f32_of_int (uint m))"
  shows "amp_config_float_to_div H x fb m hi = fb"
  using assms by (auto simp: gain_between_def amp_config_float_to_div_def fle_def flt_def)

text \<open>The configuration fields of the firmware.\<close>

definition dividers :: "fw \<Rightarrow> u32 list" where
  "dividers s = [g_config_rate_roll_div s, g_config_rate_pitch_div s, g_config_rate_yaw_div s, g_config_angle_div s]"

lemma poll_config_fields:
  assumes "shm_shows H p r" "config_in_range (slot_payload (sr_config r))"
    "\<not> fis_nan (fc_rate_p (slot_payload (sr_config r)))" "\<not> fis_nan (fc_angle_p (slot_payload (sr_config r)))"
    "slot_seq (sr_config r) \<noteq> g_amp_last_config_slot_seq s" "slot_seq (sr_config r) \<noteq> 0"
  shows "dividers (fst (amp_poll_config H p (s, w))) =
      [g_config_rate_roll_div s, g_config_rate_roll_div s, g_config_rate_roll_div s, g_config_angle_div s]"
    "g_config_deadzone_us (fst (amp_poll_config H p (s, w))) =
      (if (ucast (fc_deadzone_us (slot_payload (sr_config r))) :: u32) = 0 then g_config_deadzone_us s
       else clamp_u32 (ucast (fc_deadzone_us (slot_payload (sr_config r)))) 5 80)"
proof -
  let ?c = "slot_payload (sr_config r)"
  have "amp_config_float_to_div H (fc_rate_p ?c) fb 8 80 = fb" "amp_config_float_to_div H (fc_angle_p ?c) fb 100 1200 = fb" for fb
    using assms(2-4) gain_literals(6,7)
    by (auto simp: config_in_range_def intro: gain_too_small)
  then show "dividers (fst (amp_poll_config H p (s, w))) =
      [g_config_rate_roll_div s, g_config_rate_roll_div s, g_config_rate_roll_div s, g_config_angle_div s]"
    "g_config_deadzone_us (fst (amp_poll_config H p (s, w))) =
      (if (ucast (fc_deadzone_us ?c) :: u32) = 0 then g_config_deadzone_us s else clamp_u32 (ucast (fc_deadzone_us ?c)) 5 80)"
    using assms(5,6) by (simp_all add: amp_poll_config_def Let_def case_prod_beta shows_get [OF assms(1)] dividers_def)
qed

text \<open>C27: Whatever gains Linux pushes, as long as the rate and angle gains are numbers (not NaN) and the pushed
  configuration's number is not 0 and new to the firmware, the firmware uses none of them: it reads them as dividers from
  8 and 100 upwards, Linux limits them to at most 1 and 20, so the roll and angle dividers stay. But the pitch and
  yaw dividers become the roll divider, so that the first configuration changes the yaw control from its
  initial divider 16 to 12 whatever it says. The dead zone takes effect, from 5 to 80, unless it is 0.\<close>

theorem pushed_gains_ignored:
  assumes "maps (te_os E) reg (tn_mailbox n)" "region_valid (reg w)" "pushConfig E config (n, w) = (True, n', w')"
    "push_number n config \<noteq> 0" "\<not> fis_nan (fc_rate_p config)" "\<not> fis_nan (fc_angle_p config)"
    "shm_shows H p (reg w')" "push_number n config \<noteq> g_amp_last_config_slot_seq s"
  shows "dividers (fst (amp_poll_config H p (s, v))) =
      [g_config_rate_roll_div s, g_config_rate_roll_div s, g_config_rate_roll_div s, g_config_angle_div s] \<and>
    g_config_deadzone_us (fst (amp_poll_config H p (s, v))) =
      (if (ucast (fc_deadzone_us (tn_active_config n')) :: u32) = 0 then g_config_deadzone_us s
       else clamp_u32 (ucast (fc_deadzone_us (tn_active_config n'))) 5 80)"
proof -
  note q = pushed [OF assms(1-3)]
  have c: "slot_payload (sr_config (reg w')) = tn_active_config n'" "slot_seq (sr_config (reg w')) = push_number n config"
    by (simp_all add: q(3) [OF assms(4)] config_wire.publish_fields)
  have "config_in_range (tn_active_config n')" by (simp add: q(1) candidate_in_range)
  moreover have "\<not> fis_nan (fc_rate_p (tn_active_config n'))" "\<not> fis_nan (fc_angle_p (tn_active_config n'))"
    using assms(5,6) by (auto simp: q(1) push_candidate_def std_clamp_def)
  ultimately show ?thesis
    using poll_config_fields [OF assms(7)] assms(4,8) by (simp add: c)
qed

lemma boot_dividers: "dividers fw_boot = [12, 12, 16, 180]"
  by (simp add: dividers_def fw_boot_def)

text \<open>The default configuration, pushed at the start, and a firmware that has just booted.\<close>

theorem pushed_gains_ignored_witness:
  "dividers (fst (amp_poll_config (showing_hw (lb_region (snd (snd (pushConfig link_env default_flight_config (link_node, linked_bench))))))
     0x83f00000 (fw_boot, bench0 [] 5 fresh_region))) = [12, 12, 12, 180] \<and> dividers fw_boot = [12, 12, 16, 180]"
proof -
  obtain n w where p: "pushConfig link_env default_flight_config (link_node, linked_bench) = (True, n, w)" by (rule link_push)
  have b: "g_config_rate_roll_div fw_boot = 12" "g_config_angle_div fw_boot = 180" "g_amp_last_config_slot_seq fw_boot = 0"
    by (simp_all add: fw_boot_def)
  have f: "\<not> fis_nan (fc_rate_p default_flight_config)" "\<not> fis_nan (fc_angle_p default_flight_config)"
    by (simp_all add: default_flight_config_def)
  show ?thesis
    using pushed_gains_ignored [OF link_node_maps link_maps(2) p _ f stop_region_shown(1), of fw_boot "0x83f00000" "bench0 [] 5 fresh_region"]
    by (simp add: p link_number b boot_dividers)
qed

end
