(* ===== verification/Controller.thy ===== *)
theory Controller
  imports Estimator
begin

text \<open>
  \<open>rt_core/Controller.cpp\<close>: the PID axis, the cascaded attitude controller and the mixer. The
  conversion of a pulse width to an integer is undefined for a NaN (theory \<open>Protocol\<close>), so the mixer
  and \<open>update\<close> are partial.
\<close>

section \<open>PidAxis\<close>

record pid_config =
  pd_kp :: f32
  pd_ki :: f32
  pd_kd :: f32
  pd_integrator_min :: f32
  pd_integrator_max :: f32
  pd_output_min :: f32
  pd_output_max :: f32

record pid_axis =
  px_config :: pid_config
  px_integrator :: f32
  px_previous_measurement :: f32
  px_first :: bool

definition new_pid :: "pid_config \<Rightarrow> pid_axis" where
  "new_pid c = \<lparr>px_config = c, px_integrator = F32 0, px_previous_measurement = F32 0, px_first = True\<rparr>"

definition pid_update :: "pid_axis \<Rightarrow> f32 \<Rightarrow> f32 \<Rightarrow> f32 \<Rightarrow> f32 \<times> pid_axis" where
  "pid_update p error dt_s measured_value =
    (if fle dt_s (F32 0) then (F32 0, p)
     else
       (let c = px_config p;
            p = p\<lparr>px_integrator := fadd (px_integrator p) (fmul (fmul error dt_s) (pd_ki c))\<rparr>;
            p = p\<lparr>px_integrator := fclamp (px_integrator p) (pd_integrator_min c) (pd_integrator_max c)\<rparr>;
            derivative = (if px_first p then F32 0
                          else fdiv (fsub (px_previous_measurement p) measured_value) dt_s);
            p = p\<lparr>px_first := False, px_previous_measurement := measured_value\<rparr>;
            output = fadd (fadd (fmul (pd_kp c) error) (px_integrator p)) (fmul (pd_kd c) derivative)
        in (fclamp output (pd_output_min c) (pd_output_max c), p)))"

definition pid_reset :: "pid_axis \<Rightarrow> pid_axis" where
  "pid_reset p = p\<lparr>px_integrator := F32 0, px_previous_measurement := F32 0, px_first := True\<rparr>"

definition setTunings :: "f32 \<Rightarrow> f32 \<Rightarrow> f32 \<Rightarrow> pid_axis \<Rightarrow> pid_axis" where
  "setTunings kp ki kd p =
    p\<lparr>px_config := (px_config p)\<lparr>pd_kp := kp, pd_ki := ki, pd_kd := kd\<rparr>\<rparr>"

section \<open>Controller\<close>

record control_setpoint =
  cs_throttle :: f32
  cs_roll_deg :: f32
  cs_pitch_deg :: f32
  cs_yaw_rate_dps :: f32

record controller =
  ct_setpoint :: control_setpoint
  ct_arm_state :: arm_state
  ct_roll_angle :: pid_axis
  ct_pitch_angle :: pid_axis
  ct_roll_rate :: pid_axis
  ct_pitch_rate :: pid_axis
  ct_yaw_rate :: pid_axis
  ct_active_config :: flight_config

definition resetIntegrators :: "controller \<Rightarrow> controller" where
  "resetIntegrators c =
    c\<lparr>ct_roll_angle := pid_reset (ct_roll_angle c), ct_pitch_angle := pid_reset (ct_pitch_angle c),
      ct_roll_rate := pid_reset (ct_roll_rate c), ct_pitch_rate := pid_reset (ct_pitch_rate c),
      ct_yaw_rate := pid_reset (ct_yaw_rate c)\<rparr>"

definition setSetpoint :: "control_setpoint \<Rightarrow> controller \<Rightarrow> controller" where
  "setSetpoint sp c =
    c\<lparr>ct_setpoint := \<lparr>cs_throttle = fclamp (cs_throttle sp) (f32_of_int 0) (f32_of_int 1),
        cs_roll_deg = fclamp (cs_roll_deg sp) (f32_of_int (- 35)) (f32_of_int 35),
        cs_pitch_deg = fclamp (cs_pitch_deg sp) (f32_of_int (- 35)) (f32_of_int 35),
        cs_yaw_rate_dps = fclamp (cs_yaw_rate_dps sp) (f32_of_int (- 180)) (f32_of_int 180)\<rparr>\<rparr>"

definition setArmState :: "arm_state \<Rightarrow> controller \<Rightarrow> controller" where
  "setArmState state c =
    (if state = ct_arm_state c then c else resetIntegrators (c\<lparr>ct_arm_state := state\<rparr>))"

definition clamp_config :: "flight_config \<Rightarrow> flight_config" where
  "clamp_config config =
    config\<lparr>fc_angle_p := fclamp (fc_angle_p config) (flit 1 2) (f32_of_int 20),
      fc_rate_p := fclamp (fc_rate_p config) (flit 1 100) (f32_of_int 1),
      fc_rate_i := fclamp (fc_rate_i config) (f32_of_int 0) (f32_of_int 1),
      fc_rate_d := fclamp (fc_rate_d config) (f32_of_int 0) (flit 1 10)\<rparr>"

definition controller_applyConfig :: "flight_config \<Rightarrow> controller \<Rightarrow> controller" where
  "controller_applyConfig config c =
    (let ac = clamp_config config;
         c = c\<lparr>ct_active_config := ac\<rparr>;
         angle = setTunings (fc_angle_p ac) (F32 0) (flit 5 100);
         rate = setTunings (fc_rate_p ac) (fc_rate_i ac) (fc_rate_d ac);
         c = c\<lparr>ct_roll_angle := angle (ct_roll_angle c), ct_pitch_angle := angle (ct_pitch_angle c),
               ct_roll_rate := rate (ct_roll_rate c), ct_pitch_rate := rate (ct_pitch_rate c),
               ct_yaw_rate := rate (ct_yaw_rate c)\<rparr>
     in resetIntegrators c)"

definition pid_config_of :: "f32 \<Rightarrow> f32 \<Rightarrow> f32 \<Rightarrow> int \<Rightarrow> int \<Rightarrow> pid_config" where
  "pid_config_of kp ki kd integrator output =
    \<lparr>pd_kp = kp, pd_ki = ki, pd_kd = kd, pd_integrator_min = f32_of_int (- integrator),
     pd_integrator_max = f32_of_int integrator, pd_output_min = f32_of_int (- output),
     pd_output_max = f32_of_int output\<rparr>"

definition new_controller :: controller where
  "new_controller =
    (let angle = new_pid (pid_config_of (f32_of_int 4) (F32 0) (flit 5 100) 50 220);
         rate = new_pid (pid_config_of (flit 12 100) (flit 2 100) (flit 3 1000) 120 1);
         yaw = new_pid (pid_config_of (flit 12 100) (flit 2 100) (flit 3 1000) 100 1)
     in controller_applyConfig default_flight_config
          \<lparr>ct_setpoint = \<lparr>cs_throttle = F32 0, cs_roll_deg = F32 0, cs_pitch_deg = F32 0,
             cs_yaw_rate_dps = F32 0\<rparr>, ct_arm_state = Disarmed, ct_roll_angle = angle,
           ct_pitch_angle = angle, ct_roll_rate = rate, ct_pitch_rate = rate, ct_yaw_rate = yaw,
           ct_active_config = default_flight_config\<rparr>)"

definition mix_sum :: "f32 \<Rightarrow> f32 \<Rightarrow> f32" where
  "mix_sum base torque = fadd base (fmul torque (f32_of_int 320))"

definition mix :: "f32 \<Rightarrow> f32 \<Rightarrow> f32 \<Rightarrow> f32 \<Rightarrow> u16 motors option" where
  "mix throttle pitch_out roll_out yaw_out =
    (let base = fadd (f32_of_int (uint kPwmMinUs)) (fmul throttle (f32_of_int 1000));
         motor1 = mix_sum base (fsub (fsub pitch_out roll_out) yaw_out);
         motor2 = mix_sum base (fadd (fsub (fneg pitch_out) roll_out) yaw_out);
         motor3 = mix_sum base (fsub (fadd (fneg pitch_out) roll_out) yaw_out);
         motor4 = mix_sum base (fadd (fadd pitch_out roll_out) yaw_out)
     in case (clamp_pwm motor1, clamp_pwm motor2, clamp_pwm motor3, clamp_pwm motor4) of
          (Some a, Some b, Some c, Some d) \<Rightarrow> Some (Motors a b c d)
        | _ \<Rightarrow> None)"

definition controller_update ::
  "attitude_state \<Rightarrow> f32 \<Rightarrow> controller \<Rightarrow> (u16 motors \<times> controller) option" where
  "controller_update state dt_s c =
    (if ct_arm_state c \<noteq> Armed then Some (all_motors kPwmMinUs, c)
     else
       (let roll_angle_error = fsub (cs_roll_deg (ct_setpoint c)) (at_roll_deg state);
            pitch_angle_error = fsub (cs_pitch_deg (ct_setpoint c)) (at_pitch_deg state);
            (target_roll_rate, ra) = pid_update (ct_roll_angle c) roll_angle_error dt_s (at_roll_deg state);
            (target_pitch_rate, pa) = pid_update (ct_pitch_angle c) pitch_angle_error dt_s (at_pitch_deg state);
            roll_rate_error = fsub target_roll_rate (at_roll_rate_dps state);
            pitch_rate_error = fsub target_pitch_rate (at_pitch_rate_dps state);
            yaw_rate_error = fsub (cs_yaw_rate_dps (ct_setpoint c)) (at_yaw_rate_dps state);
            (roll_out, rr) = pid_update (ct_roll_rate c) roll_rate_error dt_s (at_roll_rate_dps state);
            (pitch_out, pr) = pid_update (ct_pitch_rate c) pitch_rate_error dt_s (at_pitch_rate_dps state);
            (yaw_out, yr) = pid_update (ct_yaw_rate c) yaw_rate_error dt_s (at_yaw_rate_dps state);
            c = c\<lparr>ct_roll_angle := ra, ct_pitch_angle := pa, ct_roll_rate := rr, ct_pitch_rate := pr,
                  ct_yaw_rate := yr\<rparr>
        in case mix (cs_throttle (ct_setpoint c)) pitch_out roll_out yaw_out of
             None \<Rightarrow> None
           | Some motors \<Rightarrow> Some (motors, c)))"

section \<open>Bounds of one axis\<close>

text \<open>
  \<open>axis_ok i o p\<close>: gains within their configured ranges, limits \<open>\<plusminus>i\<close> and \<open>\<plusminus>o\<close>, the integrator
  within its limits and the stored measurement bounded. Time steps lie between 2^-20 s and 2^45 s.
\<close>

definition axis_ok :: "int \<Rightarrow> int \<Rightarrow> pid_axis \<Rightarrow> bool" where
  "axis_ok i m p \<longleftrightarrow>
     fbound 154 (pd_kp (px_config p)) \<and> fbound 149 (pd_ki (px_config p)) \<and> fbound 149 (pd_kd (px_config p)) \<and>
     pd_integrator_min (px_config p) = f32_of_int (- i) \<and> pd_integrator_max (px_config p) = f32_of_int i \<and>
     pd_output_min (px_config p) = f32_of_int (- m) \<and> pd_output_max (px_config p) = f32_of_int m \<and>
     frange (funits (- i)) (funits i) (px_integrator p) \<and> fbound 170 (px_previous_measurement p)"

definition dt_ok :: "f32 \<Rightarrow> bool" where
  "dt_ok dt \<longleftrightarrow> fbound 194 dt \<and> 2 ^ 129 \<le> fval dt"

lemma fclamp_int:
  assumes "\<not> fis_nan v" "0 \<le> n" "n < 2 ^ 24"
  shows "frange (funits (- n)) (funits n) (fclamp v (f32_of_int (- n)) (f32_of_int n))"
  using fclamp_frange [OF assms(1), of "f32_of_int (- n)" "f32_of_int n"] assms(2,3)
  by (simp add: fval_of_int)

lemma pid_update_ok:
  assumes p: "axis_ok i m p" and i: "0 \<le> i" "i \<le> 120" and m: "0 \<le> m" "m \<le> 220"
    and e: "fbound 172 error" and dt: "dt_ok dt" and v: "fbound 170 v"
    and u: "pid_update p error dt v = (out, p')"
  shows "frange (funits (- m)) (funits m) out \<and> axis_ok i m p'"
proof -
  let ?c = "px_config p"
  have g: "fbound 154 (pd_kp ?c)" "fbound 149 (pd_ki ?c)" "fbound 149 (pd_kd ?c)"
    "fbound 170 (px_previous_measurement p)" "frange (funits (- i)) (funits i) (px_integrator p)"
    using p by (simp_all add: axis_ok_def)
  have dtb: "fbound 194 dt" "2 ^ 129 \<le> fval dt" "fis_fin dt" using dt by (auto simp: dt_ok_def fbound_fin)
  then have pos: "\<not> fle dt (F32 0)" by (simp add: fle_def zero_value)
  have I: "fbound 156 (px_integrator p)" by (rule fbound_of_frange [OF g(5)]) (use i in simp_all)
  have "fbound 217 (fmul (fmul error dt) (pd_ki ?c))"
    using fbound_mul [OF fbound_mul [OF e dtb(1)] g(2)] by simp
  from fbound_add [OF I this] have "\<not> fis_nan (fadd (px_integrator p) (fmul (fmul error dt) (pd_ki ?c)))"
    by (simp add: fboundD)
  note integ = fclamp_int [OF this i(1)]
  define I' where "I' = fclamp (fadd (px_integrator p) (fmul (fmul error dt) (pd_ki ?c)))
    (f32_of_int (- i)) (f32_of_int i)"
  have I': "frange (funits (- i)) (funits i) I'" using integ i by (simp add: I'_def)
  have Ib: "fbound 156 I'" by (rule fbound_of_frange [OF I']) (use i in simp_all)
  define d where "d = (if px_first p then F32 0 else fdiv (fsub (px_previous_measurement p) v) dt)"
  have "fbound 171 (fsub (px_previous_measurement p) v)" using fbound_sub [OF g(4) v] by simp
  from fbound_div [OF this dtb(3,2)] have d: "fbound 191 d" by (simp add: d_def zero_bounds)
  have "fbound 177 (fmul (pd_kp ?c) error)" using fbound_mul [OF g(1) e] by simp
  from fbound_add [OF this Ib] have s1: "fbound 178 (fadd (fmul (pd_kp ?c) error) I')" by simp
  have "fbound 191 (fmul (pd_kd ?c) d)" using fbound_mul [OF g(3) d] by simp
  from fbound_add [OF s1 this]
  have "\<not> fis_nan (fadd (fadd (fmul (pd_kp ?c) error) I') (fmul (pd_kd ?c) d))" by (simp add: fboundD)
  note out = fclamp_int [OF this m(1)]
  have "out = fclamp (fadd (fadd (fmul (pd_kp ?c) error) I') (fmul (pd_kd ?c) d)) (f32_of_int (- m)) (f32_of_int m)"
    "p' = p\<lparr>px_integrator := I', px_first := False, px_previous_measurement := v\<rparr>"
    using u p pos by (auto simp: pid_update_def Let_def axis_ok_def I'_def d_def)
  then show ?thesis using out m p v I' by (simp add: axis_ok_def)
qed

section \<open>Invariant of the controller\<close>

definition control_setpoint_ok :: "control_setpoint \<Rightarrow> bool" where
  "control_setpoint_ok sp \<longleftrightarrow> frange (funits 0) (funits 1) (cs_throttle sp) \<and>
     frange (funits (- 35)) (funits 35) (cs_roll_deg sp) \<and>
     frange (funits (- 35)) (funits 35) (cs_pitch_deg sp) \<and>
     frange (funits (- 180)) (funits 180) (cs_yaw_rate_dps sp)"

definition setpoint_number :: "control_setpoint \<Rightarrow> bool" where
  "setpoint_number sp \<longleftrightarrow> \<not> fis_nan (cs_throttle sp) \<and> \<not> fis_nan (cs_roll_deg sp) \<and>
     \<not> fis_nan (cs_pitch_deg sp) \<and> \<not> fis_nan (cs_yaw_rate_dps sp)"

definition config_number :: "flight_config \<Rightarrow> bool" where
  "config_number cfg \<longleftrightarrow> \<not> fis_nan (fc_angle_p cfg) \<and> \<not> fis_nan (fc_rate_p cfg) \<and>
     \<not> fis_nan (fc_rate_i cfg) \<and> \<not> fis_nan (fc_rate_d cfg)"

definition controller_ok :: "controller \<Rightarrow> bool" where
  "controller_ok c \<longleftrightarrow> control_setpoint_ok (ct_setpoint c) \<and>
     axis_ok 50 220 (ct_roll_angle c) \<and> axis_ok 50 220 (ct_pitch_angle c) \<and>
     axis_ok 120 1 (ct_roll_rate c) \<and> axis_ok 120 1 (ct_pitch_rate c) \<and> axis_ok 100 1 (ct_yaw_rate c)"

definition attitude_ok :: "attitude_state \<Rightarrow> bool" where
  "attitude_ok s \<longleftrightarrow> fbound 170 (at_roll_deg s) \<and> fbound 170 (at_pitch_deg s) \<and>
     fbound 170 (at_roll_rate_dps s) \<and> fbound 170 (at_pitch_rate_dps s) \<and> fbound 170 (at_yaw_rate_dps s)"

lemma axis_ok_reset: "\<lbrakk>axis_ok i m p; 0 \<le> i\<rbrakk> \<Longrightarrow> axis_ok i m (pid_reset p)"
  by (simp add: axis_ok_def pid_reset_def zero_bounds frange_def zero_value)

lemma axis_ok_tunings:
  "\<lbrakk>axis_ok i m p; fbound 154 kp; fbound 149 ki; fbound 149 kd\<rbrakk> \<Longrightarrow> axis_ok i m (setTunings kp ki kd p)"
  by (simp add: axis_ok_def setTunings_def)

lemma controller_ok_reset: "controller_ok c \<Longrightarrow> controller_ok (resetIntegrators c)"
  by (simp add: controller_ok_def resetIntegrators_def axis_ok_reset)

lemma reset_fields [simp]:
  "ct_arm_state (resetIntegrators c) = ct_arm_state c" "ct_setpoint (resetIntegrators c) = ct_setpoint c"
  "ct_active_config (resetIntegrators c) = ct_active_config c"
  by (simp_all add: resetIntegrators_def)

lemma controller_ok_arm: "controller_ok c \<Longrightarrow> controller_ok (setArmState st c)"
  using controller_ok_reset [of "c\<lparr>ct_arm_state := st\<rparr>"] by (simp add: setArmState_def controller_ok_def)

lemma arm_state_set [simp]: "ct_arm_state (setArmState st c) = st"
  by (simp add: setArmState_def)

lemma fclamp_ints:
  assumes "\<not> fis_nan v" "a \<le> b" "\<bar>a\<bar> < 2 ^ 24" "\<bar>b\<bar> < 2 ^ 24"
  shows "frange (funits a) (funits b) (fclamp v (f32_of_int a) (f32_of_int b))"
  using fclamp_frange [OF assms(1), of "f32_of_int a" "f32_of_int b"] assms(2-4)
  by (simp add: fval_of_int)

lemma setpoint_clamped: "setpoint_number sp \<Longrightarrow> control_setpoint_ok (ct_setpoint (setSetpoint sp c))"
  using fclamp_ints [of "cs_throttle sp" 0 1] fclamp_ints [of "cs_roll_deg sp" "- 35" 35]
    fclamp_ints [of "cs_pitch_deg sp" "- 35" 35] fclamp_ints [of "cs_yaw_rate_dps sp" "- 180" 180]
  by (simp add: setSetpoint_def control_setpoint_ok_def setpoint_number_def)

lemma controller_ok_setpoint:
  "\<lbrakk>controller_ok c; setpoint_number sp\<rbrakk> \<Longrightarrow> controller_ok (setSetpoint sp c)"
  using setpoint_clamped [of sp c] by (simp add: controller_ok_def) (simp add: setSetpoint_def)

text \<open>Gains are not negative: \<open>fgain e x\<close> says so and bounds them by a power of two.\<close>

definition fgain :: "nat \<Rightarrow> f32 \<Rightarrow> bool" where
  "fgain e x \<longleftrightarrow> frange 0 (2 ^ e) x"

lemma fgain_bound: "fgain e x \<Longrightarrow> fbound e x"
  unfolding fgain_def by (rule fbound_of_frange, assumption) simp_all

lemma fgain_flit: "\<lbrakk>0 < d; 0 \<le> n; funits n \<le> 2 ^ e * int d; e \<le> 253\<rbrakk> \<Longrightarrow> fgain e (flit n d)"
  unfolding fgain_def by (rule frange_flit) (simp_all add: frepr_0 fbound_repr)

lemma fgain_int: "\<lbrakk>0 \<le> n; n < 2 ^ 24; funits n \<le> 2 ^ e\<rbrakk> \<Longrightarrow> fgain e (f32_of_int n)"
  by (simp add: fgain_def frange_def fval_of_int)

lemma fgain_clamp: "\<lbrakk>\<not> fis_nan v; fgain e lo; fgain e hi\<rbrakk> \<Longrightarrow> fbound e (fclamp v lo hi)"
  by (rule fgain_bound) (auto simp: fgain_def std_clamp_def frange_def flt_def)

lemma clamped_gains:
  assumes "config_number cfg"
  shows "fbound 154 (fc_angle_p (clamp_config cfg))" "fbound 154 (fc_rate_p (clamp_config cfg))"
    "fbound 149 (fc_rate_i (clamp_config cfg))" "fbound 149 (fc_rate_d (clamp_config cfg))"
proof -
  have n: "\<not> fis_nan (fc_angle_p cfg)" "\<not> fis_nan (fc_rate_p cfg)" "\<not> fis_nan (fc_rate_i cfg)"
    "\<not> fis_nan (fc_rate_d cfg)" using assms by (simp_all add: config_number_def)
  have l: "fgain 154 (flit 1 2)" "fgain 154 (flit 1 100)" "fgain 149 (flit 1 10)"
    by (rule fgain_flit; simp)+
  have k: "fgain 154 (f32_of_int 20)" "fgain 154 (f32_of_int 1)" "fgain 149 (f32_of_int 0)"
    "fgain 149 (f32_of_int 1)" by (rule fgain_int; simp)+
  show "fbound 154 (fc_angle_p (clamp_config cfg))" "fbound 154 (fc_rate_p (clamp_config cfg))"
    "fbound 149 (fc_rate_i (clamp_config cfg))" "fbound 149 (fc_rate_d (clamp_config cfg))"
    using n l k by (simp_all add: clamp_config_def fgain_clamp)
qed

lemma default_gains:
  "fbound 154 (f32_of_int 4)" "fbound 154 (flit 12 100)" "fbound 149 (flit 2 100)" "fbound 149 (flit 3 1000)"
  "fbound 149 (flit 5 100)"
proof -
  have "fgain 154 (flit 12 100)" "fgain 149 (flit 2 100)" "fgain 149 (flit 3 1000)" "fgain 149 (flit 5 100)"
    by (rule fgain_flit; simp)+
  moreover have "fgain 154 (f32_of_int 4)" by (rule fgain_int; simp)
  ultimately show "fbound 154 (f32_of_int 4)" "fbound 154 (flit 12 100)" "fbound 149 (flit 2 100)"
    "fbound 149 (flit 3 1000)" "fbound 149 (flit 5 100)"
    by (auto dest: fgain_bound)
qed

lemma controller_ok_config:
  assumes "controller_ok c" "config_number cfg"
  shows "controller_ok (controller_applyConfig cfg c)"
  unfolding controller_applyConfig_def Let_def
  using assms(1) clamped_gains [OF assms(2)] default_gains(5) zero_bounds(1)
  by (intro controller_ok_reset) (simp add: controller_ok_def axis_ok_tunings)

lemma new_axis_ok:
  assumes "fbound 154 kp" "fbound 149 ki" "fbound 149 kd" "0 \<le> i"
  shows "axis_ok i m (new_pid (pid_config_of kp ki kd i m))"
  using assms by (simp add: axis_ok_def new_pid_def pid_config_of_def zero_bounds frange_def zero_value)

lemma default_config_number: "config_number default_flight_config"
  by (simp add: config_number_def default_flight_config_def)

lemma controller_ok_new: "controller_ok new_controller"
  unfolding new_controller_def Let_def
  by (intro controller_ok_config default_config_number)
    (simp add: controller_ok_def control_setpoint_ok_def new_axis_ok default_gains zero_bounds(1) frange_def zero_value)

section \<open>The mixer\<close>

lemma mix_sum_number:
  assumes "fbound 160 base" "fbound 152 torque"
  shows "\<not> fis_nan (mix_sum base torque)"
proof -
  have "fbound 158 (f32_of_int 320)" by (rule fboundI) (simp_all add: fval_of_int)
  from fbound_mul [OF assms(2) this] have "fbound 161 (fmul torque (f32_of_int 320))" by simp
  from fbound_add [OF assms(1) this] show ?thesis by (simp add: mix_sum_def fboundD)
qed

lemma mix_defined:
  assumes "frange (funits 0) (funits 1) t" "frange (funits (- 1)) (funits 1) p"
    "frange (funits (- 1)) (funits 1) r" "frange (funits (- 1)) (funits 1) y"
  shows "\<exists>ms. mix t p r y = Some ms \<and> (\<forall>w \<in> set (motor_list ms). pwm_ok w)"
proof -
  have b: "fbound 149 p" "fbound 149 r" "fbound 149 y"
    using assms(2-4) by (auto intro: fbound_of_frange)
  have tb: "fbound 149 t" by (rule fbound_of_frange [OF assms(1)]) simp_all
  have "fbound 159 (f32_of_int 1000)" by (rule fboundI) (simp_all add: fval_of_int)
  from fbound_mul [OF tb this] have tm: "fbound 159 (fmul t (f32_of_int 1000))" by simp
  have "fbound 159 (f32_of_int (uint kPwmMinUs))" by (rule fboundI) (simp_all add: fval_of_int kPwmMinUs_def)
  from fbound_add [OF this tm]
  have base: "fbound 160 (fadd (f32_of_int (uint kPwmMinUs)) (fmul t (f32_of_int 1000)))" by simp
  have two: "fbound 150 (fadd x z)" "fbound 150 (fsub x z)" if "fbound 149 x" "fbound 149 z" for x z
    using fbound_add [OF that] fbound_sub [OF that] by simp_all
  have three: "fbound 152 (fadd x z)" "fbound 152 (fsub x z)" if "fbound 150 x" "fbound 149 z" for x z
    using fbound_mono [OF fbound_add [OF that]] fbound_mono [OF fbound_sub [OF that]] by simp_all
  note num = mix_sum_number [OF base]
  show ?thesis
    using clamp_pwm_defined [OF num [OF three(2) [OF two(2) [OF b(1,2)] b(3)]]]
      clamp_pwm_defined [OF num [OF three(1) [OF two(2) [OF fbound_neg [OF b(1)] b(2)] b(3)]]]
      clamp_pwm_defined [OF num [OF three(2) [OF two(1) [OF fbound_neg [OF b(1)] b(2)] b(3)]]]
      clamp_pwm_defined [OF num [OF three(1) [OF two(1) [OF b(1,2)] b(3)]]]
    by (auto simp: mix_def Let_def)
qed

section \<open>Properties\<close>

text \<open>a controller that is not armed commands the minimum pulse to every motor, for any state,
  and its own state does not move.\<close>

theorem disarmed_commands_minimum:
  assumes "ct_arm_state c \<noteq> Armed"
  shows "controller_update s dt c = Some (all_motors kPwmMinUs, c)"
  using assms by (simp add: controller_update_def)

text \<open>C10: an update of a controller within its invariant (\<open>controller_ok\<close>: no NaN among its gains, setpoints and
  integrators, these within their limits), with an attitude within 2^21 degrees and degrees per second and a time step
  from 2^-20 to 2^45 seconds, armed or not, reaches no undefined
  conversion: all four pulses lie between 1000 and 2000 microseconds, and the controller stays within
  its invariant, the integrators within their anti-windup limits included.\<close>

theorem controller_update_in_range:
  assumes "controller_ok c" "attitude_ok s" "dt_ok dt"
  shows "\<exists>ms c'. controller_update s dt c = Some (ms, c') \<and> controller_ok c' \<and>
    ct_arm_state c' = ct_arm_state c \<and> (\<forall>w \<in> set (motor_list ms). 1000 \<le> w \<and> w \<le> 2000)"
proof (cases "ct_arm_state c = Armed")
  case False
  then show ?thesis using assms(1)
    by (simp add: controller_update_def all_motors_def kPwmMinUs_def)
next
  case True
  note ok = assms(1) [unfolded controller_ok_def control_setpoint_ok_def]
  have s: "fbound 170 (at_roll_deg s)" "fbound 170 (at_pitch_deg s)" "fbound 170 (at_roll_rate_dps s)"
    "fbound 170 (at_pitch_rate_dps s)" "fbound 170 (at_yaw_rate_dps s)"
    using assms(2) by (simp_all add: attitude_ok_def)
  have b157: "fbound 157 x" if "frange (funits (- n)) (funits n) x" "0 \<le> n" "n \<le> 220" for x n
    by (rule fbound_of_frange [OF that(1)]) (use that in simp_all)
  have err: "fbound 172 (fsub x y)" if "fbound 157 x" "fbound 170 y" for x y
    using fbound_mono [OF fbound_sub [OF that]] by simp
  let ?sp = "ct_setpoint c"
  have sp: "fbound 157 (cs_roll_deg ?sp)" "fbound 157 (cs_pitch_deg ?sp)" "fbound 157 (cs_yaw_rate_dps ?sp)"
    using ok b157 [of 35] b157 [of 180] by simp_all
  obtain tr ra where ra: "pid_update (ct_roll_angle c) (fsub (cs_roll_deg ?sp) (at_roll_deg s)) dt (at_roll_deg s) =
      (tr, ra)" by (metis prod.collapse)
  obtain tp pa where pa: "pid_update (ct_pitch_angle c) (fsub (cs_pitch_deg ?sp) (at_pitch_deg s)) dt
      (at_pitch_deg s) = (tp, pa)" by (metis prod.collapse)
  have RA: "frange (funits (- 220)) (funits 220) tr \<and> axis_ok 50 220 ra"
    by (rule pid_update_ok [OF _ _ _ _ _ err [OF sp(1) s(1)] assms(3) s(1) ra]) (use ok in simp_all)
  have PA: "frange (funits (- 220)) (funits 220) tp \<and> axis_ok 50 220 pa"
    by (rule pid_update_ok [OF _ _ _ _ _ err [OF sp(2) s(2)] assms(3) s(2) pa]) (use ok in simp_all)
  have tb: "fbound 157 tr" "fbound 157 tp" using RA PA b157 [of 220] by simp_all
  obtain ro rr where rr: "pid_update (ct_roll_rate c) (fsub tr (at_roll_rate_dps s)) dt (at_roll_rate_dps s) =
      (ro, rr)" by (metis prod.collapse)
  obtain po pr where pr: "pid_update (ct_pitch_rate c) (fsub tp (at_pitch_rate_dps s)) dt
      (at_pitch_rate_dps s) = (po, pr)" by (metis prod.collapse)
  obtain yo yr where yr: "pid_update (ct_yaw_rate c) (fsub (cs_yaw_rate_dps ?sp) (at_yaw_rate_dps s)) dt
      (at_yaw_rate_dps s) = (yo, yr)" by (metis prod.collapse)
  have RR: "frange (funits (- 1)) (funits 1) ro \<and> axis_ok 120 1 rr"
    by (rule pid_update_ok [OF _ _ _ _ _ err [OF tb(1) s(3)] assms(3) s(3) rr]) (use ok in simp_all)
  have PR: "frange (funits (- 1)) (funits 1) po \<and> axis_ok 120 1 pr"
    by (rule pid_update_ok [OF _ _ _ _ _ err [OF tb(2) s(4)] assms(3) s(4) pr]) (use ok in simp_all)
  have YR: "frange (funits (- 1)) (funits 1) yo \<and> axis_ok 100 1 yr"
    by (rule pid_update_ok [OF _ _ _ _ _ err [OF sp(3) s(5)] assms(3) s(5) yr]) (use ok in simp_all)
  obtain ms where "mix (cs_throttle ?sp) po ro yo = Some ms" "\<forall>w \<in> set (motor_list ms). pwm_ok w"
    using mix_defined [of "cs_throttle ?sp" po ro yo] ok RR PR YR by blast
  then show ?thesis using True ra pa rr pr yr RA PA RR PR YR assms(1)
    by (auto simp: controller_update_def Let_def controller_ok_def pwm_ok_def kPwmMinUs_def kPwmMaxUs_def)
qed

text \<open>a NaN in the configured angle gain survives the clamps of \<open>applyConfig\<close> and makes the
  next armed update convert a NaN to an integer, which is undefined.\<close>

theorem nan_gain_undefined:
  assumes "fis_nan (fc_angle_p cfg)" "ct_arm_state c = Armed" "\<not> fle dt (F32 0)"
  shows "controller_update s dt (controller_applyConfig cfg c) = None"
proof -
  let ?c = "controller_applyConfig cfg c"
  have arm: "ct_arm_state ?c = Armed" using assms(2) by (simp add: controller_applyConfig_def Let_def)
  have kp: "fis_nan (pd_kp (px_config (ct_roll_angle ?c)))"
    using nan_clamp [OF assms(1)]
    by (simp add: controller_applyConfig_def Let_def resetIntegrators_def pid_reset_def setTunings_def
        clamp_config_def)
  have nan1: "fis_nan (fst (pid_update p e dt v))" if "fis_nan (pd_kp (px_config p)) \<or> fis_nan e" for p e v
    using that assms(3) by (auto simp: pid_update_def Let_def intro!: nan_clamp nan_add nan_mul)
  obtain po pr yo yr pa tp where other:
    "pid_update (ct_pitch_angle ?c) (fsub (cs_pitch_deg (ct_setpoint ?c)) (at_pitch_deg s)) dt (at_pitch_deg s) = (tp, pa)"
    "pid_update (ct_pitch_rate ?c) (fsub tp (at_pitch_rate_dps s)) dt (at_pitch_rate_dps s) = (po, pr)"
    "pid_update (ct_yaw_rate ?c) (fsub (cs_yaw_rate_dps (ct_setpoint ?c)) (at_yaw_rate_dps s)) dt
      (at_yaw_rate_dps s) = (yo, yr)"
    by (metis prod.collapse)
  obtain tr ra where ra: "pid_update (ct_roll_angle ?c) (fsub (cs_roll_deg (ct_setpoint ?c)) (at_roll_deg s)) dt
      (at_roll_deg s) = (tr, ra)" by (metis prod.collapse)
  obtain ro rr where rr: "pid_update (ct_roll_rate ?c) (fsub tr (at_roll_rate_dps s)) dt (at_roll_rate_dps s) =
      (ro, rr)" by (metis prod.collapse)
  have "fis_nan tr" using nan1 [OF disjI1 [OF kp]] ra by (metis fst_conv)
  then have "fis_nan (fsub tr (at_roll_rate_dps s))" by (simp add: nan_sub)
  then have "fis_nan ro" using nan1 rr by (metis fst_conv)
  then have "fis_nan (mix_sum b (fsub (fsub po ro) yo))" for b
    by (simp add: mix_sum_def nan_add nan_mul nan_sub)
  then have "mix t po ro yo = None" for t
    by (simp add: mix_def Let_def clamp_pwm_nan)
  then show ?thesis using arm ra rr other by (simp add: controller_update_def Let_def)
qed

text \<open>C11: The invariant that excludes NaN gains, setpoints and integrators holds for a new controller
  and is kept by arming, by every setpoint
  and by every configuration without NaNs; a setpoint without NaNs ends up within its documented
  ranges, and a change of the arming state clears the integrators of all five PIDs and restarts their
  derivatives.\<close>

theorem controller_invariant:
  "controller_ok new_controller \<and>
   (controller_ok c \<longrightarrow> controller_ok (setArmState st c) \<and>
      (setpoint_number sp \<longrightarrow> controller_ok (setSetpoint sp c)) \<and>
      (config_number cfg \<longrightarrow> controller_ok (controller_applyConfig cfg c))) \<and>
   (setpoint_number sp \<longrightarrow> control_setpoint_ok (ct_setpoint (setSetpoint sp c))) \<and>
   (ct_arm_state c \<noteq> st \<longrightarrow>
      (\<forall>p \<in> {ct_roll_angle, ct_pitch_angle, ct_roll_rate, ct_pitch_rate, ct_yaw_rate}.
         px_integrator (p (setArmState st c)) = F32 0 \<and> px_first (p (setArmState st c))))"
  by (simp add: controller_ok_new controller_ok_arm controller_ok_setpoint controller_ok_config
      setpoint_clamped) (simp add: setArmState_def resetIntegrators_def pid_reset_def)

section \<open>Witnesses\<close>

definition level :: attitude_state where
  "level = \<lparr>at_roll_deg = F32 0, at_pitch_deg = F32 0, at_yaw_deg = F32 0, at_roll_rate_dps = F32 0,
     at_pitch_rate_dps = F32 0, at_yaw_rate_dps = F32 0\<rparr>"

lemma level_ok: "attitude_ok level"
  by (simp add: attitude_ok_def level_def zero_bounds)

lemma second_ok: "dt_ok (f32_of_int 1)"
  unfolding dt_ok_def by (intro conjI fboundI) (simp_all add: fval_of_int)

theorem disarmed_commands_minimum_witness:
  "controller_update level (f32_of_int 1) (setArmState Failsafe new_controller) =
    Some (all_motors kPwmMinUs, setArmState Failsafe new_controller)"
  by (rule disarmed_commands_minimum) simp

theorem controller_update_in_range_witness:
  "\<exists>a b d e c'. controller_update level (f32_of_int 1) (setArmState Armed new_controller) =
     Some (Motors a b d e, c') \<and> 1000 \<le> a \<and> a \<le> 2000 \<and> 1000 \<le> e \<and> e \<le> 2000"
proof -
  obtain ms c' where u: "controller_update level (f32_of_int 1) (setArmState Armed new_controller) = Some (ms, c')"
    "\<forall>w \<in> set (motor_list ms). 1000 \<le> w \<and> w \<le> 2000"
    using controller_update_in_range [OF controller_ok_arm [OF controller_ok_new] level_ok second_ok] by blast
  obtain a b d e where "ms = Motors a b d e" by (cases ms)
  with u show ?thesis by simp
qed

theorem nan_gain_undefined_witness:
  "controller_update level (f32_of_int 1)
     (controller_applyConfig (default_flight_config\<lparr>fc_angle_p := fnan\<rparr>) (setArmState Armed new_controller)) =
   None"
  by (rule nan_gain_undefined) (simp_all add: fnan_nan fle_def fval_of_int zero_value)

theorem controller_invariant_witness:
  "controller_ok (setArmState Armed new_controller) \<and>
    px_integrator (ct_roll_rate (setArmState Armed new_controller)) = F32 0 \<and>
    px_integrator (ct_yaw_rate (setArmState Armed new_controller)) = F32 0"
proof -
  have "ct_arm_state new_controller \<noteq> Armed"
    by (simp add: new_controller_def controller_applyConfig_def Let_def)
  then show ?thesis using controller_invariant [of new_controller Armed] by blast
qed

end
