(* ===== verification/Actuator.thy ===== *)
theory Actuator
  imports BoardPort
begin

text \<open>
  \<open>rt_core/Actuator.cpp\<close>, \<open>rt_core/RtosPwmBackend.cpp\<close>, \<open>rt_core/ActuatorDuoPwm.cpp\<close> and
  \<open>rt_core/FlightRtNodeStage3.cpp\<close>: the motor interface, the PWM backend over the HAL, the actuator
  with its last command, and the stage-3 actuator with its fixed motor map, trims and minimum spin.
\<close>

section \<open>Motor backends and the actuator\<close>

record 'w motor_backend =
  mb_init :: "'w \<Rightarrow> bool \<times> 'w"
  mb_write :: "u16 motors \<Rightarrow> 'w \<Rightarrow> bool \<times> 'w"

text \<open>The logging backend counts its calls; the count only decides what is printed.\<close>

definition logging_backend :: "u32 motor_backend" where
  "logging_backend = \<lparr>mb_init = \<lambda>count. (True, count), mb_write = \<lambda>_ count. (True, count + 1)\<rparr>"

record actuator =
  ac_last_pwm :: "u16 motors"

definition new_actuator :: actuator where
  "new_actuator = \<lparr>ac_last_pwm = all_motors kPwmMinUs\<rparr>"

definition actuator_output ::
  "'w motor_backend option \<Rightarrow> u16 motors \<Rightarrow> actuator \<Rightarrow> 'w \<Rightarrow> (bool \<times> actuator) \<times> 'w" where
  "actuator_output backend pwm_us a w =
    (case backend of
       None \<Rightarrow> ((False, a), w)
     | Some b \<Rightarrow> (let a = a\<lparr>ac_last_pwm := pwm_us\<rparr>; (ok, w) = mb_write b (ac_last_pwm a) w
                  in ((ok, a), w)))"

definition actuator_stop :: "'w motor_backend option \<Rightarrow> actuator \<Rightarrow> 'w \<Rightarrow> (bool \<times> actuator) \<times> 'w" where
  "actuator_stop backend a w = actuator_output backend (all_motors kPwmMinUs) a w"

definition actuator_init :: "'w motor_backend option \<Rightarrow> actuator \<Rightarrow> 'w \<Rightarrow> (bool \<times> actuator) \<times> 'w" where
  "actuator_init backend a w =
    (case backend of
       None \<Rightarrow> ((False, a), w)
     | Some b \<Rightarrow> (let (ok, w) = mb_init b w
                  in if \<not> ok then ((False, a), w) else actuator_stop backend a w))"

section \<open>PWM backend\<close>

record pwm_output_config =
  po_channels :: "int motors"
  po_period_ns :: u32

definition default_pwm_output_config :: pwm_output_config where
  "default_pwm_output_config = \<lparr>po_channels = Motors 0 1 2 3, po_period_ns = 2500000\<rparr>"

definition high_time_ns :: "u16 \<Rightarrow> u32" where
  "high_time_ns pwm_us = ucast (std_clamp (<) pwm_us kPwmMinUs kPwmMaxUs) * 1000"

definition setChannelPwm :: "'w board \<Rightarrow> int \<Rightarrow> u16 \<Rightarrow> 'w \<Rightarrow> bool \<times> 'w" where
  "setChannelPwm B channel pwm_us w =
    (if channel < 0 then (False, w)
     else (let (ret, w) = hal_pwm_set_duty B (word_of_int channel) (high_time_ns pwm_us) w in (ret = 0, w)))"

definition configureChannel :: "'w board \<Rightarrow> u32 \<Rightarrow> int \<Rightarrow> u16 \<Rightarrow> 'w \<Rightarrow> bool \<times> 'w" where
  "configureChannel B period_ns channel init_pwm_us w =
    (if channel < 0 then (False, w)
     else
       (let (ret, w) = hal_pwm_init B (word_of_int channel) period_ns w
        in if ret \<noteq> 0 then (False, w)
           else
             (let (ret, w) = hal_pwm_enable B (word_of_int channel) False w
              in if ret \<noteq> 0 then (False, w)
                 else
                   (let (ok, w) = setChannelPwm B channel init_pwm_us w
                    in if \<not> ok then (False, w)
                       else (let (ret, w) = hal_pwm_enable B (word_of_int channel) True w
                             in (ret = 0, w))))))"

definition hasDuplicateChannels :: "int motors \<Rightarrow> bool" where
  "hasDuplicateChannels ch \<longleftrightarrow> \<not> distinct (motor_list ch)"

text \<open>The loops over the four motors stop at the first failure.\<close>

fun for_motors :: "('a \<Rightarrow> 'w \<Rightarrow> bool \<times> 'w) \<Rightarrow> 'a list \<Rightarrow> 'w \<Rightarrow> bool \<times> 'w" where
  "for_motors f [] w = (True, w)"
| "for_motors f (x # xs) w = (let (ok, w) = f x w in if ok then for_motors f xs w else (False, w))"

definition rtos_pwm_init :: "'w board \<Rightarrow> pwm_output_config \<Rightarrow> 'w \<Rightarrow> bool \<times> 'w" where
  "rtos_pwm_init B c w =
    (if hasDuplicateChannels (po_channels c) then (False, w)
     else for_motors (\<lambda>ch. configureChannel B (po_period_ns c) ch kPwmMinUs) (motor_list (po_channels c)) w)"

definition rtos_pwm_write :: "'w board \<Rightarrow> pwm_output_config \<Rightarrow> u16 motors \<Rightarrow> 'w \<Rightarrow> bool \<times> 'w" where
  "rtos_pwm_write B c pwm_us w =
    for_motors (\<lambda>(ch, us). setChannelPwm B ch us) (zip (motor_list (po_channels c)) (motor_list pwm_us)) w"

definition rtos_pwm_backend :: "'w board \<Rightarrow> pwm_output_config \<Rightarrow> 'w motor_backend" where
  "rtos_pwm_backend B c = \<lparr>mb_init = rtos_pwm_init B c, mb_write = rtos_pwm_write B c\<rparr>"

section \<open>Stage 3\<close>

definition kPwmSafeUs :: u16 where "kPwmSafeUs = 1000"
definition kDuoPwmMaxUs :: u16 where "kDuoPwmMaxUs = 1500"
definition kPwmIdMap :: "u8 motors" where "kPwmIdMap = Motors 1 1 1 1"
definition kPwmChannelMap :: "u8 motors" where "kPwmChannelMap = Motors 3 1 0 2"
definition kMinSpinUs :: "u16 motors" where "kMinSpinUs = Motors 1220 1235 1220 1220"
definition kTrimUs :: "int motors" where "kTrimUs = Motors 10 0 0 10"

record motor_map_entry =
  mm_pwm_number :: u8
  mm_pwm_id :: u8
  mm_channel :: u8

definition kMotorMap :: "motor_map_entry motors" where
  "kMotorMap = Motors
     \<lparr>mm_pwm_number = 7, mm_pwm_id = 1, mm_channel = 3\<rparr>
     \<lparr>mm_pwm_number = 5, mm_pwm_id = 1, mm_channel = 1\<rparr>
     \<lparr>mm_pwm_number = 4, mm_pwm_id = 1, mm_channel = 0\<rparr>
     \<lparr>mm_pwm_number = 6, mm_pwm_id = 1, mm_channel = 2\<rparr>"

definition mapMatchesBringup :: bool where
  "mapMatchesBringup \<longleftrightarrow>
    map mm_pwm_id (motor_list kMotorMap) = motor_list kPwmIdMap \<and>
    map mm_channel (motor_list kMotorMap) = motor_list kPwmChannelMap \<and>
    m0 kPwmIdMap = 1 \<and> m0 kPwmChannelMap = 3 \<and> m1 kPwmIdMap = 1 \<and> m1 kPwmChannelMap = 1 \<and>
    m2 kPwmIdMap = 1 \<and> m2 kPwmChannelMap = 0 \<and> m3 kPwmIdMap = 1 \<and> m3 kPwmChannelMap = 2"

definition amp_stage3_duo_pwm_map_ok :: u32 where
  "amp_stage3_duo_pwm_map_ok = (if mapMatchesBringup then 1 else 0)"

definition clampPwm :: "int \<Rightarrow> u16" where
  "clampPwm us =
    (if us < uint kPwmSafeUs then kPwmSafeUs
     else if us > uint kDuoPwmMaxUs then kDuoPwmMaxUs
     else word_of_int us)"

definition applyTrimAndMinSpin :: "nat \<Rightarrow> u16 \<Rightarrow> u16" where
  "applyTrimAndMinSpin index mix_us =
    (if kMotorCount \<le> index then kPwmSafeUs
     else
       (let us = uint mix_us + motor_list kTrimUs ! index;
            us = (if mix_us > kPwmSafeUs \<and> us < uint (motor_list kMinSpinUs ! index)
                  then uint (motor_list kMinSpinUs ! index) else us)
        in clampPwm us))"

record duo_status =
  du_requested_us :: "u16 motors"
  du_output_us :: "u16 motors"
  du_safe_forced :: bool
  du_map_ok :: bool

definition new_duo_status :: duo_status where
  "new_duo_status = \<lparr>du_requested_us = all_motors 1000, du_output_us = all_motors 1000,
     du_safe_forced = True, du_map_ok = False\<rparr>"

definition duo_init :: "duo_status \<Rightarrow> bool \<times> duo_status" where
  "duo_init s = (let s = new_duo_status\<lparr>du_map_ok := mapMatchesBringup\<rparr> in (du_map_ok s, s))"

definition duo_update :: "u16 motors \<Rightarrow> bool \<Rightarrow> bool \<Rightarrow> bool \<Rightarrow> bool \<Rightarrow> duo_status \<Rightarrow> duo_status" where
  "duo_update mix_us output_allowed rc_valid sensor_ready emergency_latched s =
    (let s = s\<lparr>du_requested_us := mix_us, du_map_ok := mapMatchesBringup,
           du_safe_forced := \<not> output_allowed \<or> \<not> rc_valid \<or> \<not> sensor_ready \<or> emergency_latched\<rparr>
     in if du_safe_forced s then s\<lparr>du_output_us := all_motors kPwmSafeUs\<rparr>
        else s\<lparr>du_output_us := Motors (applyTrimAndMinSpin 0 (m0 mix_us)) (applyTrimAndMinSpin 1 (m1 mix_us))
                 (applyTrimAndMinSpin 2 (m2 mix_us)) (applyTrimAndMinSpin 3 (m3 mix_us))\<rparr>)"

record stage3_input =
  si3_mix_us :: "u16 motors"
  si3_rc_valid :: bool
  si3_sensor_ready :: bool
  si3_armed :: bool
  si3_output_enabled :: bool
  si3_emergency_latched :: bool

record stage3_output =
  so3_motor_us :: "u16 motors"
  so3_safe_forced :: bool
  so3_actuator_map_ok :: bool
  so3_step_count :: u32

record stage3_node =
  s3_actuator :: duo_status
  s3_last_output :: stage3_output
  s3_step_count :: u32

definition new_stage3_output :: stage3_output where
  "new_stage3_output = \<lparr>so3_motor_us = all_motors 1000, so3_safe_forced = True,
     so3_actuator_map_ok = False, so3_step_count = 0\<rparr>"

definition stage3_init :: "stage3_node \<Rightarrow> bool \<times> stage3_node" where
  "stage3_init n =
    (let n = n\<lparr>s3_step_count := 0, s3_last_output := new_stage3_output\<rparr>;
         (ok, a) = duo_init (s3_actuator n)
     in (ok, n\<lparr>s3_actuator := a\<rparr>))"

definition stage3_step :: "stage3_input \<Rightarrow> stage3_node \<Rightarrow> stage3_output \<times> stage3_node" where
  "stage3_step input n =
    (let n = n\<lparr>s3_step_count := s3_step_count n + 1\<rparr>;
         output_allowed = (si3_armed input \<and> si3_output_enabled input \<and> si3_rc_valid input \<and>
                           si3_sensor_ready input);
         status = duo_update (si3_mix_us input) output_allowed (si3_rc_valid input)
                    (si3_sensor_ready input) (si3_emergency_latched input) (s3_actuator n);
         out = \<lparr>so3_motor_us = du_output_us status, so3_safe_forced = du_safe_forced status,
                 so3_actuator_map_ok = du_map_ok status, so3_step_count = s3_step_count n\<rparr>
     in (out, n\<lparr>s3_actuator := status, s3_last_output := out\<rparr>))"

section \<open>Lemmas\<close>

lemma actuator_stop_pwm [arm_frame]:
  "backend \<noteq> None \<Longrightarrow> ac_last_pwm (snd (fst (actuator_stop backend a w))) = all_motors kPwmMinUs"
  by (auto simp: actuator_stop_def actuator_output_def Let_def split: prod.splits)

lemma clampPwm_range: "1000 \<le> clampPwm us \<and> clampPwm us \<le> 1500"
  by (auto simp: clampPwm_def kPwmSafeUs_def kDuoPwmMaxUs_def word_le_def uint_word_of_int)

lemma clampPwm_value: "\<lbrakk>1000 \<le> us; us \<le> 1500\<rbrakk> \<Longrightarrow> uint (clampPwm us) = us"
  by (auto simp: clampPwm_def kPwmSafeUs_def kDuoPwmMaxUs_def uint_word_of_int)

lemma trim_range: "1000 \<le> applyTrimAndMinSpin i us \<and> applyTrimAndMinSpin i us \<le> 1500"
  using clampPwm_range by (simp add: applyTrimAndMinSpin_def Let_def kPwmSafeUs_def)

lemma uint_clampPwm: "uint (clampPwm us) = max 1000 (min us 1500)"
  by (auto simp: clampPwm_def kPwmSafeUs_def kDuoPwmMaxUs_def uint_word_of_int)

lemma trim_min_spin:
  assumes "i < 4" "us > 1000"
  shows "motor_list kMinSpinUs ! i \<le> applyTrimAndMinSpin i us"
proof -
  have "i = 0 \<or> i = 1 \<or> i = 2 \<or> i = 3" using assms(1) by auto
  then show ?thesis using assms(2)
    by (auto simp: applyTrimAndMinSpin_def Let_def kMotorCount_def kMinSpinUs_def kTrimUs_def
        kPwmSafeUs_def word_le_def uint_clampPwm)
qed

lemma high_time_bounds: "1000000 \<le> unat (high_time_ns us)" "unat (high_time_ns us) \<le> 2000000"
  "unat (high_time_ns us) = unat (std_clamp (<) us kPwmMinUs kPwmMaxUs) * 1000"
proof -
  let ?b = "std_clamp (<) us kPwmMinUs kPwmMaxUs"
  have "kPwmMinUs \<le> ?b" "?b \<le> kPwmMaxUs"
    by (rule word_clamp.clamp_lower word_clamp.clamp_upper; simp add: kPwmMinUs_def kPwmMaxUs_def)+
  then have b: "1000 \<le> unat ?b" "unat ?b \<le> 2000"
    by (simp_all add: word_le_nat_alt kPwmMinUs_def kPwmMaxUs_def)
  show "unat (high_time_ns us) = unat ?b * 1000"
    using b by (simp add: high_time_ns_def unat_word_ariths unat_ucast_up)
  then show "1000000 \<le> unat (high_time_ns us)" "unat (high_time_ns us) \<le> 2000000"
    using b by simp_all
qed

section \<open>Properties\<close>

text \<open>every output of the stage-3 actuator lies between 1000 and 1500 microseconds for any
  requested mix, is the safe pulse exactly when a precondition is missing, and a motor that is asked to
  turn gets at least its minimum spin.\<close>

theorem duo_output_safe:
  assumes "duo_update mix_us allowed rc sensor emergency s = s'"
  shows "(\<forall>us \<in> set (motor_list (du_output_us s')). 1000 \<le> us \<and> us \<le> 1500) \<and>
    (du_safe_forced s' \<longleftrightarrow> \<not> (allowed \<and> rc \<and> sensor \<and> \<not> emergency)) \<and>
    (du_safe_forced s' \<longrightarrow> du_output_us s' = all_motors 1000) \<and>
    (\<not> du_safe_forced s' \<longrightarrow> (\<forall>i < 4. motor_list mix_us ! i > 1000 \<longrightarrow>
       motor_list kMinSpinUs ! i \<le> motor_list (du_output_us s') ! i))"
proof -
  obtain a b c d where m: "mix_us = Motors a b c d" by (cases mix_us)
  show ?thesis unfolding assms [symmetric]
    using trim_range trim_min_spin
    by (auto simp: duo_update_def Let_def all_motors_def kPwmSafeUs_def m all_less_4)
qed

text \<open>C12: a stage-3 step drives a motor above the safe pulse only when it is armed, output is enabled,
  the receiver and the sensors are valid and no emergency is latched; it then reports so, and counts
  its steps.\<close>

theorem stage3_step_safe:
  assumes "stage3_step input n = (out, n')"
  shows "(so3_motor_us out \<noteq> all_motors 1000 \<longrightarrow>
      si3_armed input \<and> si3_output_enabled input \<and> si3_rc_valid input \<and> si3_sensor_ready input \<and>
      \<not> si3_emergency_latched input \<and> \<not> so3_safe_forced out) \<and>
    s3_last_output n' = out \<and> so3_step_count out = s3_step_count n + 1 \<and> so3_actuator_map_ok out"
  using assms
  by (auto simp: stage3_step_def duo_update_def Let_def kPwmSafeUs_def mapMatchesBringup_def
      kMotorMap_def kPwmIdMap_def kPwmChannelMap_def split: if_splits)

text \<open>the motor map agrees with the board port: for each motor the PWM number of the map is
  driven by the bank and line that \<open>hal_board_pwm_set_duty\<close> derives from it.\<close>

theorem motor_map_matches_port:
  "\<forall>e \<in> set (motor_list kMotorMap).
     pc_pwm_id (pwm_cfg (ucast (mm_pwm_number e)) period pulse) = mm_pwm_id e \<and>
     pc_channel (pwm_cfg (ucast (mm_pwm_number e)) period pulse) = ucast (mm_channel e)"
  by (simp add: kMotorMap_def pwm_cfg_def kPwmChannelsPerBank_def)

definition pulse_cfg :: "'h port \<Rightarrow> u32 \<Rightarrow> u16 \<Rightarrow> pwm_configuration" where
  "pulse_cfg p ch us = pwm_cfg ch (nsToPwmTicks (pt_pwm_period_ns p ch)) (nsToPwmTicks (high_time_ns us))"

lemma pulse_ticks: "unat (pc_pulse (pulse_cfg p ch us)) = unat (std_clamp (<) us kPwmMinUs kPwmMaxUs) * 100"
proof -
  have "unat (nsToPwmTicks (high_time_ns us)) = (unat (std_clamp (<) us kPwmMinUs kPwmMaxUs) * 1000 + 9) div 10"
    using high_time_bounds(1) [of us]
    by (simp add: nsToPwmTicks_unat high_time_bounds(3) [symmetric])
  then show ?thesis by (simp add: pulse_cfg_def pwm_cfg_def)
qed

lemma port_set_duty:
  assumes "0 \<le> ch" "ch < 16" "pt_pwm_ready p (word_of_int ch)"
  shows "setChannelPwm (port_board S B) ch us p =
    (True, p\<lparr>pt_hw := sdk_pwm_set_output_cfg S (pulse_cfg p (word_of_int ch) us) (pt_hw p)\<rparr>)"
proof -
  have "unat (word_of_int ch :: u32) = nat ch" using assms(1,2) by (simp add: uint_word_of_int flip: nat_uint_eq)
  then show ?thesis using assms
    by (simp add: setChannelPwm_def hal_pwm_set_duty_def port_pwm_set_duty_def kMaxPwmChannel_def
        pulse_cfg_def Let_def)
qed

text \<open>on the SG2002 port a motor write programs the four configured channels in order; each
  pulse is the requested width clamped to 1000 to 2000 microseconds, in ticks of 10 ns, and the
  period is the initialised one.\<close>

theorem motor_write_programs_pulses:
  assumes "po_channels c = Motors a b d e"
    "\<forall>ch \<in> {a, b, d, e}. 0 \<le> ch \<and> ch < 16 \<and> pt_pwm_ready p (word_of_int ch)"
  shows "rtos_pwm_write (port_board S B) c (Motors u v x y) p =
      (True, p\<lparr>pt_hw := fold (\<lambda>(ch, us). sdk_pwm_set_output_cfg S (pulse_cfg p (word_of_int ch) us))
         [(a, u), (b, v), (d, x), (e, y)] (pt_hw p)\<rparr>) \<and>
    (\<forall>ch us. 100000 \<le> unat (pc_pulse (pulse_cfg p ch us)) \<and> unat (pc_pulse (pulse_cfg p ch us)) \<le> 200000 \<and>
       unat (pc_pulse (pulse_cfg p ch us)) = unat (std_clamp (<) us kPwmMinUs kPwmMaxUs) * 100)"
proof -
  have hw: "pulse_cfg (p\<lparr>pt_hw := h\<rparr>) ch us = pulse_cfg p ch us" for h ch us by (simp add: pulse_cfg_def)
  have step: "setChannelPwm (port_board S B) ch us (p\<lparr>pt_hw := h\<rparr>) =
      (True, p\<lparr>pt_hw := sdk_pwm_set_output_cfg S (pulse_cfg p (word_of_int ch) us) h\<rparr>)"
    if "ch \<in> {a, b, d, e}" for ch us h
    using port_set_duty [of ch "p\<lparr>pt_hw := h\<rparr>" S B us] that assms(2) hw by auto
  have first: "setChannelPwm (port_board S B) a us p =
      (True, p\<lparr>pt_hw := sdk_pwm_set_output_cfg S (pulse_cfg p (word_of_int a) us) (pt_hw p)\<rparr>)" for us
    using step [of a us "pt_hw p"] by simp
  have "rtos_pwm_write (port_board S B) c (Motors u v x y) p =
      (True, p\<lparr>pt_hw := fold (\<lambda>(ch, us). sdk_pwm_set_output_cfg S (pulse_cfg p (word_of_int ch) us))
         [(a, u), (b, v), (d, x), (e, y)] (pt_hw p)\<rparr>)"
    unfolding rtos_pwm_write_def assms(1) by (simp add: first step)
  moreover have "100000 \<le> unat (pc_pulse (pulse_cfg p ch us))" "unat (pc_pulse (pulse_cfg p ch us)) \<le> 200000"
    for ch us
    using high_time_bounds [of us] by (simp_all add: pulse_ticks)
  ultimately show ?thesis by (simp add: pulse_ticks)
qed

text \<open>the actuator remembers what it was asked for last, also when the backend fails, and a
  stop asks for the minimum pulse on every motor.\<close>

theorem actuator_remembers:
  assumes "actuator_output (Some b) pwm a w = ((ok, a'), w')"
  shows "ac_last_pwm a' = pwm \<and> (ok, w') = mb_write b pwm w \<and>
    ac_last_pwm (snd (fst (actuator_stop (Some b) a w))) = all_motors 1000"
  using assms actuator_stop_pwm [of "Some b" a w]
  by (auto simp: actuator_output_def Let_def kPwmMinUs_def split: prod.splits)

section \<open>Witnesses\<close>

theorem duo_output_safe_witness:
  "m3 (du_output_us (duo_update (Motors 1001 1200 1600 65535) True True True False new_duo_status)) \<le> 1500 \<and>
    \<not> du_safe_forced (duo_update (Motors 1001 1200 1600 65535) True True True False new_duo_status)"
  using duo_output_safe [of "Motors 1001 1200 1600 65535" True True True False new_duo_status, OF refl]
  by (cases "du_output_us (duo_update (Motors 1001 1200 1600 65535) True True True False new_duo_status)") simp

definition stage3_go :: stage3_input where
  "stage3_go = \<lparr>si3_mix_us = all_motors 1300, si3_rc_valid = True, si3_sensor_ready = True,
     si3_armed = True, si3_output_enabled = True, si3_emergency_latched = True\<rparr>"

definition new_stage3_node :: stage3_node where
  "new_stage3_node = \<lparr>s3_actuator = new_duo_status, s3_last_output = new_stage3_output, s3_step_count = 0\<rparr>"

theorem stage3_step_safe_witness:
  "so3_motor_us (fst (stage3_step stage3_go new_stage3_node)) = all_motors 1000 \<and>
    so3_step_count (fst (stage3_step stage3_go new_stage3_node)) = 1"
  using stage3_step_safe [OF surjective_pairing, of stage3_go new_stage3_node]
  by (auto simp: stage3_go_def new_stage3_node_def)

theorem motor_map_matches_port_witness:
  "pc_pwm_id (pwm_cfg (ucast (mm_pwm_number (m0 kMotorMap))) 250000 100000) = mm_pwm_id (m0 kMotorMap)"
  using motor_map_matches_port [of 250000 100000] by (simp add: kMotorMap_def)

definition bench_motors :: "u64 port" where
  "bench_motors = (new_port 0)\<lparr>pt_pwm_ready := (\<lambda>_. True), pt_pwm_period_ns := (\<lambda>_. 2500000)\<rparr>"

theorem motor_write_programs_pulses_witness:
  "fst (rtos_pwm_write (port_board bench_sdk stub_board) default_pwm_output_config
      (Motors 1000 1250 1500 9999) bench_motors) \<and>
    unat (pc_pulse (pulse_cfg bench_motors 3 9999)) \<le> 200000"
proof -
  have "\<forall>ch \<in> {0, 1, 2, 3 :: int}. 0 \<le> ch \<and> ch < 16 \<and> pt_pwm_ready bench_motors (word_of_int ch)"
    by (simp add: bench_motors_def)
  moreover have "po_channels default_pwm_output_config = Motors 0 1 2 3"
    by (simp add: default_pwm_output_config_def)
  ultimately show ?thesis
    using motor_write_programs_pulses [of default_pwm_output_config 0 1 2 3 bench_motors bench_sdk
        stub_board 1000 1250 1500 9999] by (metis fst_conv)
qed

theorem actuator_remembers_witness:
  "ac_last_pwm (snd (fst (actuator_output (Some logging_backend) (all_motors 1234) new_actuator 0))) =
    all_motors 1234"
proof -
  have "actuator_output (Some logging_backend) (all_motors 1234) new_actuator 0 =
      ((True, \<lparr>ac_last_pwm = all_motors 1234\<rparr>), 1)"
    by (simp add: actuator_output_def logging_backend_def new_actuator_def)
  from actuator_remembers [OF this] show ?thesis
    by (simp add: actuator_output_def logging_backend_def new_actuator_def)
qed

end
