(* ===== verification/FlightNode.thy ===== *)
theory FlightNode
  imports ReceiverLink Controller Transport Actuator
begin

text \<open>
  \<open>rt_core/FlightRtNode.cpp\<close>: the flight node. What the node is built from and never changes, the
  board, the backends, the transport and the C library, is the record \<open>node_env\<close>; what it changes is
  the record \<open>node\<close>, and the loop variables of \<open>run\<close> are the record \<open>loop_vars\<close>. One iteration of
  the loop is \<open>cycle\<close>, composed of its four phases in program order. A cycle is \<open>None\<close> when it does
  not return or reaches undefined behaviour: the poll loop, the angle wrap, the conversion of a NaN
  and the do-while loop of the schedule.
\<close>

section \<open>State\<close>

record 'w node_env =
  ne_board :: "'w board"
  ne_libm :: libm
  ne_bad :: "f32 \<Rightarrow> int"
  ne_rx :: "'w rx_backend option"
  ne_motor :: "'w motor_backend option"
  ne_transport :: "'w rt_transport option"

record 'w node =
  nd_sense :: "'w sense"
  nd_receiver :: receiver
  nd_estimator :: estimator
  nd_controller :: controller
  nd_actuator :: actuator
  nd_last_setpoint_us :: u64
  nd_last_heartbeat_us :: u64
  nd_report_seq :: u32

record loop_vars =
  lv_wake_tick :: u32
  lv_period_ticks :: u32
  lv_last_control_us :: u64
  lv_next_control_due_us :: u64

definition monotonicNowUs :: "'w node_env \<Rightarrow> 'w \<Rightarrow> u64 \<times> 'w" where
  "monotonicNowUs E w = hal_micros (ne_board E) w"

section \<open>Handlers\<close>

definition mapChannelUs :: "u16 \<Rightarrow> f32 \<Rightarrow> f32 \<Rightarrow> f32" where
  "mapChannelUs pulse_us output_min output_max =
    (let input = fclamp (f32_of_int (uint pulse_us)) (f32_of_int 1000) (f32_of_int 2000);
         ratio = fdiv (fsub input (f32_of_int 1000)) (f32_of_int 1000)
     in fadd output_min (fmul ratio (fsub output_max output_min)))"

definition stopMotors :: "'w node_env \<Rightarrow> 'w node \<times> 'w \<Rightarrow> 'w node \<times> 'w" where
  "stopMotors E = (\<lambda>(n, w).
    let ((_, a), w) = actuator_stop (ne_motor E) (nd_actuator n) w in (n\<lparr>nd_actuator := a\<rparr>, w))"

definition setArm :: "arm_state \<Rightarrow> 'w node \<Rightarrow> 'w node" where
  "setArm state n = n\<lparr>nd_controller := setArmState state (nd_controller n)\<rparr>"

definition armState :: "'w node \<Rightarrow> arm_state" where
  "armState n = ct_arm_state (nd_controller n)"

definition enterFailsafe :: "'w node_env \<Rightarrow> 'w node \<times> 'w \<Rightarrow> 'w node \<times> 'w" where
  "enterFailsafe E = (\<lambda>(n, w). stopMotors E (setArm Failsafe n, w))"

definition apply_arm_command :: "'w node_env \<Rightarrow> command_arm option \<Rightarrow> 'w node \<times> 'w \<Rightarrow> 'w node \<times> 'w" where
  "apply_arm_command E arm s =
    (case arm of
       None \<Rightarrow> s
     | Some arm \<Rightarrow>
         (let state = ArmCode (ca_state arm);
              s = (setArm state (fst s), snd s)
          in if state \<noteq> Armed then stopMotors E s else s))"

definition apply_data_commands :: "incoming_command \<Rightarrow> u64 \<Rightarrow> 'w node \<Rightarrow> 'w node" where
  "apply_data_commands command now_us n =
    (let n = (case ic_setpoint command of
                None \<Rightarrow> n
              | Some sp \<Rightarrow>
                  n\<lparr>nd_controller := setSetpoint \<lparr>cs_throttle = sp_throttle sp, cs_roll_deg = sp_roll_deg sp,
                        cs_pitch_deg = sp_pitch_deg sp, cs_yaw_rate_dps = sp_yaw_rate_dps sp\<rparr>
                      (nd_controller n), nd_last_setpoint_us := now_us\<rparr>);
         n = (case ic_heartbeat command of None \<Rightarrow> n | Some _ \<Rightarrow> n\<lparr>nd_last_heartbeat_us := now_us\<rparr>)
     in case ic_config command of
          None \<Rightarrow> n
        | Some cfg \<Rightarrow> n\<lparr>nd_controller := controller_applyConfig cfg (nd_controller n),
                        nd_receiver := receiver_applyConfig (nd_receiver n) cfg\<rparr>)"

definition applyCommand :: "'w node_env \<Rightarrow> incoming_command \<Rightarrow> u64 \<Rightarrow> 'w node \<times> 'w \<Rightarrow> 'w node \<times> 'w" where
  "applyCommand E command now_us s =
    (if ic_emergency_stop command then enterFailsafe E s
     else (let s = apply_arm_command E (ic_arm command) s
           in (apply_data_commands command now_us (fst s), snd s)))"

definition receiver_setpoint :: "receiver_sample \<Rightarrow> control_setpoint" where
  "receiver_setpoint sample =
    \<lparr>cs_throttle = mapChannelUs (rs_channels sample ! 2) (f32_of_int 0) (f32_of_int 1),
     cs_roll_deg = mapChannelUs (rs_channels sample ! 0) (f32_of_int (- 30)) (f32_of_int 30),
     cs_pitch_deg = mapChannelUs (rs_channels sample ! 1) (f32_of_int (- 30)) (f32_of_int 30),
     cs_yaw_rate_dps = mapChannelUs (rs_channels sample ! 3) (f32_of_int (- 150)) (f32_of_int 150)\<rparr>"

definition applyReceiver :: "'w node_env \<Rightarrow> receiver_sample \<Rightarrow> u64 \<Rightarrow> 'w node \<times> 'w \<Rightarrow> 'w node \<times> 'w" where
  "applyReceiver E sample now_us s =
    (if rs_failsafe_switch sample then enterFailsafe E s
     else if \<not> rs_link_ok sample then s
     else
       (let arm_switch_high = rs_channels sample ! 4 > 1500;
            throttle_low = rs_channels sample ! 2 \<le> 1100;
            s = (if arm_switch_high \<and> throttle_low \<and> armState (fst s) = Disarmed
                 then (setArm Armed (fst s), snd s) else s);
            s = (if \<not> arm_switch_high \<and> armState (fst s) = Armed
                 then stopMotors E (setArm Disarmed (fst s), snd s) else s)
        in ((fst s)\<lparr>nd_controller := setSetpoint (receiver_setpoint sample) (nd_controller (fst s)),
                    nd_last_setpoint_us := now_us\<rparr>, snd s)))"

section \<open>The phases of a cycle\<close>

definition command_phase :: "'w node_env \<Rightarrow> u64 \<Rightarrow> 'w node \<times> 'w \<Rightarrow> ('w node \<times> 'w) option" where
  "command_phase E now_us s =
    (case ne_transport E of
       None \<Rightarrow> None
     | Some T \<Rightarrow>
         (case rtt_poll T (snd s) of
            None \<Rightarrow> None
          | Some ((ok, command), w) \<Rightarrow>
              (let s = (fst s, w);
                   s = (if \<not> ok then enterFailsafe E s else s)
               in Some (applyCommand E command now_us s))))"

definition poll_receiver :: "'w node_env \<Rightarrow> 'w node \<Rightarrow> 'w \<Rightarrow> (bool \<times> receiver \<times> receiver_sample) \<times> 'w" where
  "poll_receiver E n w =
    receiver_poll (ne_bad E) (monotonicNowUs E) (ne_rx E) (nd_receiver n) empty_sample w"

definition receiver_phase :: "'w node_env \<Rightarrow> u64 \<Rightarrow> 'w node \<times> 'w \<Rightarrow> 'w node \<times> 'w" where
  "receiver_phase E now_us = (\<lambda>(n, w).
    let ((ok, r, sample), w) = poll_receiver E n w;
        n = n\<lparr>nd_receiver := r\<rparr>
    in if \<not> ok then enterFailsafe E (n, w) else applyReceiver E sample now_us (n, w))"

definition kSetpointTimeoutUs :: u64 where "kSetpointTimeoutUs = 300000"
definition kHeartbeatTimeoutUs :: u64 where "kHeartbeatTimeoutUs = 500000"
definition kReceiverTimeoutUs :: u64 where "kReceiverTimeoutUs = 120000"
definition kControlStepUs :: u64 where "kControlStepUs = 2500"
definition kLoopPeriodUs :: u32 where "kLoopPeriodUs = 1000"

definition safety_phase :: "'w node_env \<Rightarrow> 'w node \<times> 'w \<Rightarrow> 'w node \<times> 'w" where
  "safety_phase E = (\<lambda>(n, w).
    let (safety_now_us, w) = monotonicNowUs E w
    in if armState n \<noteq> Armed then (n, w)
       else
         (let s = (n, w);
              s = (if safety_now_us - nd_last_setpoint_us (fst s) > kSetpointTimeoutUs then enterFailsafe E s else s);
              s = (if nd_last_heartbeat_us (fst s) \<noteq> 0 \<and>
                      safety_now_us - nd_last_heartbeat_us (fst s) > kHeartbeatTimeoutUs
                   then enterFailsafe E s else s)
          in if \<not> hasLink (nd_receiver (fst s)) safety_now_us kReceiverTimeoutUs then enterFailsafe E s else s))"

text \<open>The do-while loop after its first, unconditional, addition.\<close>

partial_function (option) catch_up :: "u64 \<Rightarrow> u64 \<Rightarrow> u64 option" where
  "catch_up now due = (if due \<le> now then catch_up now (due + kControlStepUs) else Some due)"

definition delay_cycle :: "'w node_env \<Rightarrow> loop_vars \<Rightarrow> 'w \<Rightarrow> loop_vars \<times> 'w" where
  "delay_cycle E lv w =
    (case hal_rtos_delay_until (ne_board E) (Some (lv_wake_tick lv)) (lv_period_ticks lv) w of
       (None, w) \<Rightarrow> (lv, w)
     | (Some wake, w) \<Rightarrow> (lv\<lparr>lv_wake_tick := wake\<rparr>, w))"

definition status_flags :: "'w node \<Rightarrow> u32" where
  "status_flags n =
    (let flags = StatusImuHealthy;
         flags = (if armState n = Armed then flags OR StatusArmed OR StatusRcHealthy else flags)
     in if armState n = Failsafe then flags OR StatusFailsafe else flags)"

definition make_report :: "'w node \<Rightarrow> attitude_state \<Rightarrow> u16 motors \<Rightarrow> u64 \<Rightarrow> rt_report" where
  "make_report n state motor_pwm now =
    \<lparr>rr_monotonic_us = now, rr_roll_deg = at_roll_deg state, rr_pitch_deg = at_pitch_deg state,
     rr_yaw_deg = at_yaw_deg state, rr_roll_rate_dps = at_roll_rate_dps state,
     rr_pitch_rate_dps = at_pitch_rate_dps state, rr_yaw_rate_dps = at_yaw_rate_dps state,
     rr_motor_pwm_us = motor_pwm, rr_status_flags = status_flags n, rr_seq = nd_report_seq n\<rparr>"

definition publish_report :: "'w node_env \<Rightarrow> rt_report \<Rightarrow> 'w \<Rightarrow> 'w" where
  "publish_report E report w =
    (case ne_transport E of None \<Rightarrow> w | Some T \<Rightarrow> snd (rtt_publish T report w))"

text \<open>Estimation, control, output and report for one control step of length \<open>dt_s\<close>.\<close>

definition estimate ::
  "'w node_env \<Rightarrow> raw_imu_sample \<Rightarrow> f32 \<Rightarrow> 'w node \<times> 'w \<Rightarrow> (attitude_state \<times> 'w node \<times> 'w) option" where
  "estimate E sample dt_s = (\<lambda>(n, w).
    let (state, e) = estimator_update (ne_libm E) (nd_estimator n) sample dt_s;
        (mag, w) = sense_sampleMag (nd_sense n) w
    in case mag of
         None \<Rightarrow> Some (state, n\<lparr>nd_estimator := e\<rparr>, w)
       | Some mag_sample \<Rightarrow>
           (case correctYawFromMag (ne_libm E) e mag_sample dt_s of
              None \<Rightarrow> None
            | Some (state, e) \<Rightarrow> Some (state, n\<lparr>nd_estimator := e\<rparr>, w)))"

definition drive :: "'w node_env \<Rightarrow> attitude_state \<Rightarrow> f32 \<Rightarrow> 'w node \<times> 'w \<Rightarrow> ('w node \<times> 'w) option" where
  "drive E state dt_s = (\<lambda>(n, w).
    case controller_update state dt_s (nd_controller n) of
      None \<Rightarrow> None
    | Some (motor_pwm, c) \<Rightarrow>
        (let n = n\<lparr>nd_controller := c\<rparr>;
             ((_, a), w) = actuator_output (ne_motor E) motor_pwm (nd_actuator n) w;
             n = n\<lparr>nd_actuator := a\<rparr>;
             (now, w) = monotonicNowUs E w;
             n = n\<lparr>nd_report_seq := nd_report_seq n + 1\<rparr>
         in Some (n, publish_report E (make_report n state motor_pwm now) w)))"

definition control_phase ::
  "'w node_env \<Rightarrow> ('w node \<times> 'w) \<times> loop_vars \<Rightarrow> (('w node \<times> 'w) \<times> loop_vars) option" where
  "control_phase E = (\<lambda>((n, w), lv).
    let (control_now_us, w) = monotonicNowUs E w
    in if control_now_us < lv_next_control_due_us lv
       then (let (lv, w) = delay_cycle E lv w in Some ((n, w), lv))
       else
         (let control_elapsed_us = control_now_us - lv_last_control_us lv
          in case catch_up control_now_us (lv_next_control_due_us lv + kControlStepUs) of
               None \<Rightarrow> None
             | Some due \<Rightarrow>
                 (let lv = lv\<lparr>lv_last_control_us := control_now_us, lv_next_control_due_us := due\<rparr>;
                      dt_s = fdiv (f32_of_int (uint control_elapsed_us)) (f32_of_int 1000000);
                      (sample, w) = sense_sample (nd_sense n) w
                  in case sample of
                       None \<Rightarrow>
                         (let (n, w) = enterFailsafe E (n, w); (lv, w) = delay_cycle E lv w
                          in Some ((n, w), lv))
                     | Some imu \<Rightarrow>
                         (case estimate E imu dt_s (n, w) of
                            None \<Rightarrow> None
                          | Some (state, s) \<Rightarrow>
                              (case drive E state dt_s s of
                                 None \<Rightarrow> None
                               | Some (n, w) \<Rightarrow>
                                   (let (lv, w) = delay_cycle E lv w in Some ((n, w), lv)))))))"

definition cycle :: "'w node_env \<Rightarrow> ('w node \<times> 'w) \<times> loop_vars \<Rightarrow> (('w node \<times> 'w) \<times> loop_vars) option" where
  "cycle E = (\<lambda>((n, w), lv).
    let (now_us, w) = monotonicNowUs E w
    in case command_phase E now_us (n, w) of
         None \<Rightarrow> None
       | Some s \<Rightarrow>
           (let s = receiver_phase E now_us s;
                s = safety_phase E s
            in control_phase E (s, lv)))"

section \<open>Initialisation and the loop\<close>

definition node_init :: "'w node_env \<Rightarrow> 'w node \<times> 'w \<Rightarrow> bool \<times> 'w node \<times> 'w" where
  "node_init E = (\<lambda>(n, w).
    let ((ok, se), w) = sense_init (nd_sense n) w; n = n\<lparr>nd_sense := se\<rparr>
    in if \<not> ok then (False, n, w)
       else
         (let ((ok, r), w) = receiver_init (ne_rx E) (nd_receiver n) w; n = n\<lparr>nd_receiver := r\<rparr>
          in if \<not> ok then (False, n, w)
             else
               (let n = n\<lparr>nd_estimator := setGyroBias (nd_estimator n) (sense_gyro_bias_dps (nd_sense n) w)\<rparr>;
                    ((ok, a), w) = actuator_init (ne_motor E) (nd_actuator n) w; n = n\<lparr>nd_actuator := a\<rparr>
                in if \<not> ok then (False, n, w)
                   else
                     (case ne_transport E of
                        None \<Rightarrow> (False, n, w)
                      | Some T \<Rightarrow>
                          (let (ok, w) = rtt_init T w
                           in if \<not> ok then (False, n, w)
                              else
                                (let n = setArm Disarmed n;
                                     n = n\<lparr>nd_controller :=
                                           controller_applyConfig default_flight_config (nd_controller n),
                                         nd_receiver :=
                                           receiver_applyConfig (nd_receiver n) default_flight_config\<rparr>;
                                     (now, w) = monotonicNowUs E w
                                 in (True, n\<lparr>nd_last_setpoint_us := now, nd_last_heartbeat_us := 0,
                                           nd_report_seq := 0\<rparr>, w)))))))"

definition loop_start :: "'w node_env \<Rightarrow> 'w \<Rightarrow> loop_vars \<times> 'w" where
  "loop_start E w =
    (let (wake, w) = hal_rtos_tick_count (ne_board E) w;
         ticks = hal_rtos_us_to_ticks (ne_board E) kLoopPeriodUs;
         ticks = (if ticks = 0 then 1 else ticks);
         (boot_us, w) = monotonicNowUs E w
     in (\<lparr>lv_wake_tick = wake, lv_period_ticks = ticks, lv_last_control_us = boot_us,
          lv_next_control_due_us = boot_us + kControlStepUs\<rparr>, w))"

partial_function (option) run_loop ::
  "'w node_env \<Rightarrow> nat \<Rightarrow> nat \<Rightarrow> ('w node \<times> 'w) \<times> loop_vars \<Rightarrow> ('w node \<times> 'w) option" where
  "run_loop E max_cycles k s =
    (if max_cycles = 0 \<or> k < max_cycles then
       (case cycle E s of None \<Rightarrow> None | Some s \<Rightarrow> run_loop E max_cycles (Suc k) s)
     else Some (fst s))"

definition run :: "'w node_env \<Rightarrow> nat \<Rightarrow> 'w node \<times> 'w \<Rightarrow> (bool \<times> 'w node \<times> 'w) option" where
  "run E max_cycles s =
    (let (ok, s) = node_init E s
     in if \<not> ok then Some (False, s)
        else
          (let (lv, w) = loop_start E (snd s)
           in case run_loop E max_cycles 0 ((fst s, w), lv) of
                None \<Rightarrow> None
              | Some (n, w) \<Rightarrow> Some (True, stopMotors E (setArm Disarmed n, w))))"

section \<open>The handlers on the arming state and the motor command\<close>

abbreviation lastPwm :: "'w node \<Rightarrow> u16 motors" where
  "lastPwm n \<equiv> ac_last_pwm (nd_actuator n)"

lemma arm_frames [arm_frame]:
  "armState (n\<lparr>nd_receiver := r\<rparr>) = armState n" "armState (n\<lparr>nd_actuator := a\<rparr>) = armState n"
  "armState (n\<lparr>nd_estimator := e\<rparr>) = armState n" "armState (n\<lparr>nd_last_setpoint_us := t\<rparr>) = armState n"
  "armState (n\<lparr>nd_last_heartbeat_us := t\<rparr>) = armState n" "armState (n\<lparr>nd_report_seq := q\<rparr>) = armState n"
  "armState (n\<lparr>nd_controller := setSetpoint sp c\<rparr>) = ct_arm_state c"
  "armState (n\<lparr>nd_controller := controller_applyConfig cfg c\<rparr>) = ct_arm_state c"
  "armState (setArm st n) = st" "ct_arm_state (nd_controller n) = armState n"
  by (simp_all add: armState_def setArm_def setSetpoint_def controller_applyConfig_def Let_def)

lemma pwm_frames [arm_frame]: "lastPwm (setArm st n) = lastPwm n"
  by (simp add: setArm_def)

lemma stopMotors_eq:
  "stopMotors E s = ((fst s)\<lparr>nd_actuator := snd (fst (actuator_stop (ne_motor E) (nd_actuator (fst s)) (snd s)))\<rparr>,
     snd (actuator_stop (ne_motor E) (nd_actuator (fst s)) (snd s)))"
  by (simp add: stopMotors_def case_prod_beta Let_def)

lemma stopMotors_arm [arm_frame]: "armState (fst (stopMotors E s)) = armState (fst s)"
  by (simp add: stopMotors_eq arm_frame)

lemma stopMotors_pwm [arm_frame]:
  "ne_motor E \<noteq> None \<Longrightarrow> lastPwm (fst (stopMotors E s)) = all_motors kPwmMinUs"
  by (simp add: stopMotors_eq actuator_stop_pwm)

lemma stopMotors_frame [simp]:
  "nd_receiver (fst (stopMotors E s)) = nd_receiver (fst s)"
  "nd_sense (fst (stopMotors E s)) = nd_sense (fst s)"
  "nd_controller (fst (stopMotors E s)) = nd_controller (fst s)"
  "nd_estimator (fst (stopMotors E s)) = nd_estimator (fst s)"
  "nd_last_setpoint_us (fst (stopMotors E s)) = nd_last_setpoint_us (fst s)"
  "nd_last_heartbeat_us (fst (stopMotors E s)) = nd_last_heartbeat_us (fst s)"
  by (simp_all add: stopMotors_eq)

lemma enterFailsafe_eq: "enterFailsafe E s = stopMotors E (setArm Failsafe (fst s), snd s)"
  by (simp add: enterFailsafe_def case_prod_beta)

lemma enterFailsafe_arm [arm_frame]: "armState (fst (enterFailsafe E s)) = Failsafe"
  by (simp add: enterFailsafe_eq arm_frame)

lemma enterFailsafe_pwm [arm_frame]:
  "ne_motor E \<noteq> None \<Longrightarrow> lastPwm (fst (enterFailsafe E s)) = all_motors kPwmMinUs"
  by (simp add: enterFailsafe_eq arm_frame)

lemma enterFailsafe_frame [simp]:
  "nd_receiver (fst (enterFailsafe E s)) = nd_receiver (fst s)"
  "nd_last_setpoint_us (fst (enterFailsafe E s)) = nd_last_setpoint_us (fst s)"
  "nd_last_heartbeat_us (fst (enterFailsafe E s)) = nd_last_heartbeat_us (fst s)"
  by (simp_all add: enterFailsafe_eq setArm_def)

text \<open>
  The motor command is at its minimum whenever the state is not armed: \<open>quiet\<close>. Every handler
  keeps it, because each one that leaves the armed state stops the motors.
\<close>

definition quiet :: "'w node \<Rightarrow> bool" where
  "quiet n \<longleftrightarrow> armState n = Armed \<or> lastPwm n = all_motors kPwmMinUs"

lemma quiet_stop: "ne_motor E \<noteq> None \<Longrightarrow> quiet (fst (stopMotors E s))"
  "ne_motor E \<noteq> None \<Longrightarrow> quiet (fst (enterFailsafe E s))"
  by (simp_all add: quiet_def arm_frame)

lemma data_commands_frame [arm_frame]:
  "armState (apply_data_commands c now n) = armState n"
  "lastPwm (apply_data_commands c now n) = lastPwm n"
  "nd_sense (apply_data_commands c now n) = nd_sense n"
  by (simp_all add: apply_data_commands_def Let_def arm_frame split: option.splits)

text \<open>The arming state as an abstract machine: what each handler does to it.\<close>

definition command_arm_state :: "incoming_command \<Rightarrow> arm_state \<Rightarrow> arm_state" where
  "command_arm_state c st =
    (if ic_emergency_stop c then Failsafe
     else case ic_arm c of None \<Rightarrow> st | Some a \<Rightarrow> ArmCode (ca_state a))"

definition receiver_arm_state :: "receiver_sample \<Rightarrow> arm_state \<Rightarrow> arm_state" where
  "receiver_arm_state s st =
    (if rs_failsafe_switch s then Failsafe
     else if \<not> rs_link_ok s then st
     else if rs_channels s ! 4 > 1500 \<and> rs_channels s ! 2 \<le> 1100 \<and> st = Disarmed then Armed
     else if \<not> rs_channels s ! 4 > 1500 \<and> st = Armed then Disarmed
     else st)"

lemma applyCommand_arm:
  "armState (fst (applyCommand E c now s)) = command_arm_state c (armState (fst s))"
  by (simp add: applyCommand_def command_arm_state_def apply_arm_command_def arm_frame Let_def
      split: option.splits)

lemma applyCommand_quiet:
  "\<lbrakk>ne_motor E \<noteq> None; quiet (fst s)\<rbrakk> \<Longrightarrow> quiet (fst (applyCommand E c now s))"
  by (simp add: applyCommand_def quiet_def apply_arm_command_def arm_frame Let_def split: option.splits)

lemma applyReceiver_arm:
  "armState (fst (applyReceiver E sm now s)) = receiver_arm_state sm (armState (fst s))"
  by (simp add: applyReceiver_def receiver_arm_state_def arm_frame Let_def)

lemma applyReceiver_quiet:
  "\<lbrakk>ne_motor E \<noteq> None; quiet (fst s)\<rbrakk> \<Longrightarrow> quiet (fst (applyReceiver E sm now s))"
  by (auto simp: applyReceiver_def quiet_def arm_frame Let_def)

section \<open>The phases\<close>

text \<open>What the safety phase demands of an armed node at time \<open>t\<close>.\<close>

definition inputs_fresh :: "'w node \<Rightarrow> u64 \<Rightarrow> bool" where
  "inputs_fresh n t \<longleftrightarrow> t - nd_last_setpoint_us n \<le> kSetpointTimeoutUs \<and>
     (nd_last_heartbeat_us n = 0 \<or> t - nd_last_heartbeat_us n \<le> kHeartbeatTimeoutUs) \<and>
     hasLink (nd_receiver n) t kReceiverTimeoutUs"

definition same_inputs :: "'w node \<Rightarrow> 'w node \<Rightarrow> bool" where
  "same_inputs n n' \<longleftrightarrow> nd_receiver n' = nd_receiver n \<and>
     nd_last_setpoint_us n' = nd_last_setpoint_us n \<and> nd_last_heartbeat_us n' = nd_last_heartbeat_us n"

lemma inputs_fresh_same: "same_inputs n n' \<Longrightarrow> inputs_fresh n' t = inputs_fresh n t"
  by (simp add: inputs_fresh_def same_inputs_def)

lemma safety_phase_arm:
  "armState (fst (safety_phase E (n, w))) =
    (if armState n = Armed \<and> \<not> inputs_fresh n (fst (monotonicNowUs E w)) then Failsafe else armState n)"
  by (simp add: safety_phase_def inputs_fresh_def case_prod_beta Let_def arm_frame not_le)

lemma safety_phase_inputs: "same_inputs n (fst (safety_phase E (n, w)))"
  by (simp add: safety_phase_def same_inputs_def case_prod_beta Let_def)

lemma safety_phase_quiet:
  "\<lbrakk>ne_motor E \<noteq> None; quiet n\<rbrakk> \<Longrightarrow> quiet (fst (safety_phase E (n, w)))"
  by (auto simp: safety_phase_def case_prod_beta Let_def quiet_def arm_frame)

lemma receiver_phase_eq:
  assumes "poll_receiver E n w = ((ok, r, sample), w1)"
  shows "receiver_phase E now (n, w) =
    (if \<not> ok then enterFailsafe E (n\<lparr>nd_receiver := r\<rparr>, w1)
     else applyReceiver E sample now (n\<lparr>nd_receiver := r\<rparr>, w1))"
  using assms by (simp add: receiver_phase_def)

lemma quiet_receiver: "quiet (n\<lparr>nd_receiver := r\<rparr>) = quiet n"
  by (simp add: quiet_def arm_frame)

lemma receiver_phase_quiet:
  assumes "ne_motor E \<noteq> None" "quiet n"
  shows "quiet (fst (receiver_phase E now (n, w)))"
proof -
  obtain ok r sm w1 where "poll_receiver E n w = ((ok, r, sm), w1)" by (metis prod.collapse)
  then show ?thesis using assms quiet_stop(2) [OF assms(1)] applyReceiver_quiet [OF assms(1)]
    by (simp add: receiver_phase_eq quiet_receiver)
qed

text \<open>Only a minimum command is ever sent for a controller that is not armed.\<close>

lemma controller_update_arm:
  "controller_update st dt c = Some (m, c') \<Longrightarrow> ct_arm_state c' = ct_arm_state c \<and>
    (ct_arm_state c \<noteq> Armed \<longrightarrow> m = all_motors kPwmMinUs)"
  by (auto simp: controller_update_def Let_def split: if_splits prod.splits option.splits)

lemma actuator_output_pwm:
  "backend \<noteq> None \<Longrightarrow> ac_last_pwm (snd (fst (actuator_output backend m a w))) = m"
  by (auto simp: actuator_output_def Let_def split: prod.splits)

lemma drive_arm:
  assumes "drive E st dt (n, w) = Some (n', w')" "ne_motor E \<noteq> None"
  shows "armState n' = armState n \<and> same_inputs n n' \<and> quiet n'"
proof -
  obtain m c where u: "controller_update st dt (nd_controller n) = Some (m, c)"
    using assms(1) by (cases "controller_update st dt (nd_controller n)") (auto simp: drive_def)
  have p: "ac_last_pwm (snd (fst (actuator_output (ne_motor E) m (nd_actuator n) w))) = m"
    by (rule actuator_output_pwm [OF assms(2)])
  have "n' = n\<lparr>nd_controller := c,
      nd_actuator := snd (fst (actuator_output (ne_motor E) m (nd_actuator n) w)),
      nd_report_seq := nd_report_seq n + 1\<rparr>"
    using assms(1) u by (simp add: drive_def case_prod_beta Let_def)
  then show ?thesis using controller_update_arm [OF u] p
    by (auto simp: armState_def same_inputs_def quiet_def)
qed

lemma estimate_frame:
  "estimate E sm dt (n, w) = Some (st, n', w') \<Longrightarrow> \<exists>e. n' = n\<lparr>nd_estimator := e\<rparr>"
  by (auto simp: estimate_def Let_def split: prod.splits option.splits)

lemma control_phase_arm:
  assumes "control_phase E ((n, w), lv) = Some ((n', w'), lv')" "ne_motor E \<noteq> None" "quiet n"
  shows "(armState n' = armState n \<or> armState n' = Failsafe) \<and> same_inputs n n' \<and> quiet n'"
proof -
  obtain t w1 where t: "monotonicNowUs E w = (t, w1)" by (metis prod.collapse)
  show ?thesis
  proof (cases "t < lv_next_control_due_us lv")
    case True
    then show ?thesis using assms t by (auto simp: control_phase_def same_inputs_def split: prod.splits)
  next
    case False
    obtain due where due: "catch_up t (lv_next_control_due_us lv + kControlStepUs) = Some due"
      using assms(1) t False
      by (cases "catch_up t (lv_next_control_due_us lv + kControlStepUs)") (auto simp: control_phase_def)
    obtain imu w2 where imu: "sense_sample (nd_sense n) w1 = (imu, w2)" by (metis prod.collapse)
    show ?thesis
    proof (cases imu)
      case None
      then have "n' = fst (enterFailsafe E (n, w2))"
        using assms(1) t False due imu
        by (auto simp: control_phase_def Let_def split: prod.splits)
      then show ?thesis using assms(2) quiet_stop(2) [OF assms(2)]
        by (simp add: arm_frame same_inputs_def)
    next
      case (Some sm)
      let ?dt = "fdiv (f32_of_int (uint (t - lv_last_control_us lv))) (f32_of_int 1000000)"
      obtain st n1 w3 where e: "estimate E sm ?dt (n, w2) = Some (st, n1, w3)"
        using assms(1) t False due imu Some
        by (cases "estimate E sm ?dt (n, w2)") (auto simp: control_phase_def Let_def)
      obtain n2 w4 where d: "drive E st ?dt (n1, w3) = Some (n2, w4)"
        using assms(1) t False due imu Some e
        by (cases "drive E st ?dt (n1, w3)") (auto simp: control_phase_def Let_def)
      have "n' = n2" using assms(1) t False due imu Some e d
        by (auto simp: control_phase_def Let_def split: prod.splits)
      moreover obtain es where "n1 = n\<lparr>nd_estimator := es\<rparr>" using estimate_frame [OF e] by blast
      ultimately show ?thesis using drive_arm [OF d assms(2)]
        by (simp add: arm_frame same_inputs_def)
    qed
  qed
qed

text \<open>A cycle that returns, taken apart.\<close>

lemma cycle_phases:
  assumes "cycle E ((n, w), lv) = Some ((n', w'), lv')" "ne_transport E = Some T"
    "monotonicNowUs E w = (now, w0)" "rtt_poll T w0 = Some ((ok, c), w1)"
  shows "control_phase E (safety_phase E (receiver_phase E now
      (applyCommand E c now (if ok then (n, w1) else enterFailsafe E (n, w1)))), lv) = Some ((n', w'), lv')"
  using assms by (auto simp: cycle_def command_phase_def Let_def)

lemma cycle_polls:
  assumes "cycle E ((n, w), lv) = Some ((n', w'), lv')"
  obtains T now w0 ok c w1 where "ne_transport E = Some T" "monotonicNowUs E w = (now, w0)"
    "rtt_poll T w0 = Some ((ok, c), w1)"
  using assms
  by (auto simp: cycle_def command_phase_def Let_def split: prod.splits option.splits)

section \<open>A cycle on the arming state\<close>

lemma receiver_phase_arm:
  assumes "poll_receiver E n w = ((ok, r, sm), w1)"
  shows "armState (fst (receiver_phase E now (n, w))) =
    (if ok then receiver_arm_state sm (armState n) else Failsafe)"
  using assms by (simp add: receiver_phase_eq applyReceiver_arm arm_frame)

definition after_command :: "'w node_env \<Rightarrow> bool \<Rightarrow> incoming_command \<Rightarrow> u64 \<Rightarrow> 'w node \<Rightarrow> 'w \<Rightarrow> 'w node \<times> 'w" where
  "after_command E ok c now n w = applyCommand E c now (if ok then (n, w) else enterFailsafe E (n, w))"

lemma after_command_arm:
  "armState (fst (after_command E ok c now n w)) = command_arm_state c (if ok then armState n else Failsafe)"
  by (simp add: after_command_def applyCommand_arm arm_frame)

lemma after_command_quiet: "\<lbrakk>ne_motor E \<noteq> None; quiet n\<rbrakk> \<Longrightarrow> quiet (fst (after_command E ok c now n w))"
  unfolding after_command_def
  by (rule applyCommand_quiet) (simp_all add: quiet_stop)

lemma cycle_arm:
  assumes cy: "cycle E ((n, w), lv) = Some ((n', w'), lv')" and T: "ne_transport E = Some T"
    and now: "monotonicNowUs E w = (now, w0)" and poll: "rtt_poll T w0 = Some ((ok, c), w1)"
    and rx: "poll_receiver E (fst (after_command E ok c now n w1)) (snd (after_command E ok c now n w1)) =
      ((okr, r, sm), w2)"
    and E: "ne_motor E \<noteq> None" and q: "quiet n"
  defines "a \<equiv> (if okr then receiver_arm_state sm (command_arm_state c (if ok then armState n else Failsafe))
      else Failsafe)"
  shows "(armState n' = a \<or> armState n' = Failsafe) \<and> quiet n' \<and>
    (armState n' = Armed \<longrightarrow> (\<exists>n2 w2. receiver_phase E now (after_command E ok c now n w1) = (n2, w2) \<and>
       inputs_fresh n' (fst (monotonicNowUs E w2))))"
proof -
  obtain n1 v1 where s1: "after_command E ok c now n w1 = (n1, v1)" by (metis prod.collapse)
  obtain n2 v2 where s2: "receiver_phase E now (n1, v1) = (n2, v2)" by (metis prod.collapse)
  obtain n3 v3 where s3: "safety_phase E (n2, v2) = (n3, v3)" by (metis prod.collapse)
  have C: "control_phase E ((n3, v3), lv) = Some ((n', w'), lv')"
    using cycle_phases [OF cy T now poll] s1 s2 s3 by (simp add: after_command_def)
  have q1: "quiet n1" using after_command_quiet [OF E q, of ok c now w1] s1 by simp
  have q2: "quiet n2" using receiver_phase_quiet [OF E q1, of now v1] s2 by simp
  have q3: "quiet n3" using safety_phase_quiet [OF E q2, of v2] s3 by simp
  note K = control_phase_arm [OF C E q3]
  have a1: "armState n1 = command_arm_state c (if ok then armState n else Failsafe)"
    using after_command_arm [of E ok c now n w1] s1 by simp
  have a2: "armState n2 = a"
    using receiver_phase_arm [of E n1 v1 okr r sm w2 now] rx s1 s2 a1 by (simp add: a_def)
  have a3: "armState n3 = (if armState n2 = Armed \<and> \<not> inputs_fresh n2 (fst (monotonicNowUs E v2))
      then Failsafe else armState n2)" using safety_phase_arm [of E n2 v2] s3 by simp
  have in3: "same_inputs n2 n3" using safety_phase_inputs [of n2 E v2] s3 by simp
  have "same_inputs n2 n'" using in3 K by (simp add: same_inputs_def)
  then show ?thesis using K a2 a3 s1 s2 inputs_fresh_same by (auto split: if_splits)
qed

section \<open>Reachable nodes\<close>

definition new_node :: "'w sense \<Rightarrow> 'w node" where
  "new_node se = \<lparr>nd_sense = se, nd_receiver = new_receiver, nd_estimator = new_estimator,
     nd_controller = new_controller, nd_actuator = new_actuator, nd_last_setpoint_us = 0,
     nd_last_heartbeat_us = 0, nd_report_seq = 0\<rparr>"

inductive reached :: "'w node_env \<Rightarrow> ('w node \<times> 'w) \<times> loop_vars \<Rightarrow> bool" for E where
  boot: "\<lbrakk>node_init E (new_node se, w0) = (True, n, w); loop_start E w = (lv, w1)\<rbrakk> \<Longrightarrow>
    reached E ((n, w1), lv)"
| turn: "\<lbrakk>reached E s; cycle E s = Some s'\<rbrakk> \<Longrightarrow> reached E s'"

text \<open>Motor commands in range and an intact receiver, in every phase.\<close>

definition motors_ok :: "u16 motors \<Rightarrow> bool" where
  "motors_ok m \<longleftrightarrow> (\<forall>w \<in> set (motor_list m). pwm_ok w)"

lemma motors_ok_min: "motors_ok (all_motors kPwmMinUs)"
  by (simp add: motors_ok_def all_motors_def pwm_ok_def kPwmMinUs_def kPwmMaxUs_def)

lemma clamp_pwm_ok: "clamp_pwm x = Some w \<Longrightarrow> pwm_ok w"
  using clamp_pwm_defined [of x] clamp_pwm_nan [of x] by (cases "fis_nan x") auto

lemma mix_ok: "mix t p r y = Some m \<Longrightarrow> motors_ok m"
  by (auto simp: mix_def Let_def motors_ok_def dest: clamp_pwm_ok split: option.splits)

lemma controller_update_motors: "controller_update st dt c = Some (m, c') \<Longrightarrow> motors_ok m"
  by (auto simp: controller_update_def Let_def motors_ok_min dest: mix_ok
      split: if_splits prod.splits option.splits)

definition sound :: "'w node \<Rightarrow> bool" where
  "sound n \<longleftrightarrow> motors_ok (lastPwm n) \<and> receiver_inv (nd_receiver n)"

lemma sound_stop: "\<lbrakk>ne_motor E \<noteq> None; sound (fst s)\<rbrakk> \<Longrightarrow> sound (fst (stopMotors E s))"
  "\<lbrakk>ne_motor E \<noteq> None; sound (fst s)\<rbrakk> \<Longrightarrow> sound (fst (enterFailsafe E s))"
  by (simp_all add: sound_def arm_frame motors_ok_min)

lemma sound_set: "sound (setArm st n) = sound n"
  by (simp add: sound_def setArm_def)

lemma sound_command: "\<lbrakk>ne_motor E \<noteq> None; sound (fst s)\<rbrakk> \<Longrightarrow> sound (fst (applyCommand E c now s))"
proof -
  assume E: "ne_motor E \<noteq> None" and s: "sound (fst s)"
  have "sound (apply_data_commands c now n)" if "sound n" for n :: "'a node"
    using that receiver_inv_applyConfig
    by (auto simp: apply_data_commands_def sound_def Let_def split: option.splits)
  then show ?thesis using E s sound_stop [OF E]
    by (auto simp: applyCommand_def apply_arm_command_def Let_def sound_set split: option.splits)
qed

lemma sound_applyReceiver: "\<lbrakk>ne_motor E \<noteq> None; sound (fst s)\<rbrakk> \<Longrightarrow> sound (fst (applyReceiver E sm now s))"
  using sound_stop [of E] by (auto simp: applyReceiver_def Let_def sound_def arm_frame setArm_def motors_ok_min)

lemma sound_receiver:
  assumes "ne_motor E \<noteq> None" "sound n"
  shows "sound (fst (receiver_phase E now (n, w)))"
proof -
  obtain ok r sm w1 where p: "poll_receiver E n w = ((ok, r, sm), w1)" by (metis prod.collapse)
  have "receiver_inv r"
  proof (cases ok)
    case True
    then have "receiver_poll (ne_bad E) (monotonicNowUs E) (ne_rx E) (nd_receiver n) empty_sample w =
        ((True, r, sm), w1)" using p by (simp add: poll_receiver_def)
    from receiver_inv_poll [OF _ this] show ?thesis using assms(2) by (simp add: sound_def)
  next
    case False
    then have "r = nd_receiver n" using p
      by (auto simp: poll_receiver_def receiver_poll_def Let_def split: option.splits prod.splits if_splits)
    then show ?thesis using assms(2) by (simp add: sound_def)
  qed
  then have "sound (n\<lparr>nd_receiver := r\<rparr>)" using assms(2) by (simp add: sound_def)
  then show ?thesis using sound_stop(2) [OF assms(1)] sound_applyReceiver [OF assms(1)]
    by (simp add: receiver_phase_eq [OF p])
qed

lemma sound_safety: "\<lbrakk>ne_motor E \<noteq> None; sound n\<rbrakk> \<Longrightarrow> sound (fst (safety_phase E (n, w)))"
  by (auto simp: safety_phase_def case_prod_beta Let_def sound_stop)

lemma sound_drive:
  assumes "drive E st dt (n, w) = Some (n', w')" "ne_motor E \<noteq> None" "sound n"
  shows "sound n'"
proof -
  obtain m c where u: "controller_update st dt (nd_controller n) = Some (m, c)"
    using assms(1) by (cases "controller_update st dt (nd_controller n)") (auto simp: drive_def)
  have "n' = n\<lparr>nd_controller := c,
      nd_actuator := snd (fst (actuator_output (ne_motor E) m (nd_actuator n) w)),
      nd_report_seq := nd_report_seq n + 1\<rparr>"
    using assms(1) u by (simp add: drive_def case_prod_beta Let_def)
  then show ?thesis
    using controller_update_motors [OF u] actuator_output_pwm [OF assms(2), of m "nd_actuator n" w] assms(3)
    by (simp add: sound_def)
qed

lemma sound_control:
  assumes "control_phase E ((n, w), lv) = Some ((n', w'), lv')" "ne_motor E \<noteq> None" "sound n"
  shows "sound n'"
proof -
  have f: "sound (fst (enterFailsafe E (n, v)))" for v using sound_stop(2) [OF assms(2), of "(n, v)"] assms(3) by simp
  have e: "sound n2" if "estimate E im dt (n, v) = Some (st, n2, v2)" for im dt v st n2 v2
    using estimate_frame [OF that] assms(3) by (auto simp: sound_def)
  show ?thesis using assms f e sound_drive [OF _ assms(2)]
    by (auto simp: control_phase_def Let_def split: prod.splits if_splits option.splits) (metis fst_conv)+
qed

lemma actuator_init_pwm:
  "actuator_init backend a w = ((True, a'), w') \<Longrightarrow> backend \<noteq> None \<and> ac_last_pwm a' = all_motors kPwmMinUs"
  using actuator_stop_pwm [of backend a]
  by (auto simp: actuator_init_def Let_def split: option.splits prod.splits if_splits)
    (metis actuator_stop_pwm fst_conv snd_conv option.distinct(1))

lemma boot_inv:
  assumes "node_init E (new_node se, w0) = (True, n, w)"
  shows "ne_motor E \<noteq> None \<and> quiet n \<and> sound n \<and> armState n = Disarmed"
proof -
  obtain ok1 se1 w1 where 1: "sense_init se w0 = ((ok1, se1), w1)" by (metis prod.collapse)
  obtain ok2 r w2 where 2: "receiver_init (ne_rx E) new_receiver w1 = ((ok2, r), w2)" by (metis prod.collapse)
  obtain ok3 a w3 where 3: "actuator_init (ne_motor E) new_actuator w2 = ((ok3, a), w3)" by (metis prod.collapse)
  have b: "nd_receiver n = receiver_applyConfig r default_flight_config \<and> nd_actuator n = a \<and> ok3 \<and>
      armState n = Disarmed"
    using assms 1 2 3
    by (cases ok1; cases ok2; cases ok3; cases "ne_transport E")
      (auto simp: node_init_def new_node_def Let_def armState_def setArm_def controller_applyConfig_def
        case_prod_beta split: if_splits)
  then have "receiver_inv (nd_receiver n)"
    using receiver_inv_applyConfig [OF receiver_inv_init [OF receiver_inv_new 2]] by simp
  then show ?thesis using actuator_init_pwm [of "ne_motor E" new_actuator w2 a w3] b 3
    by (simp add: quiet_def sound_def motors_ok_min)
qed

lemma cycle_inv:
  assumes "cycle E ((n, w), lv) = Some ((n', w'), lv')" "ne_motor E \<noteq> None" "quiet n" "sound n"
  shows "quiet n' \<and> sound n'"
proof -
  obtain T now w0 ok c w1 where T: "ne_transport E = Some T" "monotonicNowUs E w = (now, w0)"
    "rtt_poll T w0 = Some ((ok, c), w1)" by (rule cycle_polls [OF assms(1)])
  obtain okr r sm w2 where
    "poll_receiver E (fst (after_command E ok c now n w1)) (snd (after_command E ok c now n w1)) = ((okr, r, sm), w2)"
    by (metis prod.collapse)
  note A = cycle_arm [OF assms(1) T this assms(2,3)]
  have "sound (fst (if ok then (n, w1) else enterFailsafe E (n, w1)))"
    using assms(2,4) sound_stop(2) [OF assms(2), of "(n, w1)"] by simp
  then have s1: "sound (fst (after_command E ok c now n w1))"
    unfolding after_command_def by (rule sound_command [OF assms(2)])
  obtain n1 v1 where s1': "after_command E ok c now n w1 = (n1, v1)" by (metis prod.collapse)
  obtain n2 v2 where s2': "receiver_phase E now (n1, v1) = (n2, v2)" by (metis prod.collapse)
  obtain n3 v3 where s3': "safety_phase E (n2, v2) = (n3, v3)" by (metis prod.collapse)
  have "sound n3"
    using sound_safety [OF assms(2), of n2 v2] sound_receiver [OF assms(2), of n1 now v1] s1 s1' s2' s3' by simp
  moreover have C: "control_phase E ((n3, v3), lv) = Some ((n', w'), lv')"
    using cycle_phases [OF assms(1) T] s1' s2' s3' by (simp add: after_command_def)
  ultimately have "sound n'" by (intro sound_control [OF C assms(2)])
  then show ?thesis using A by simp
qed

lemma reached_inv: "reached E s \<Longrightarrow> ne_motor E \<noteq> None \<and> quiet (fst (fst s)) \<and> sound (fst (fst s))"
proof (induction rule: reached.induct)
  case (boot se w0 n w lv w1)
  then show ?case using boot_inv [OF boot.hyps(1)] by simp
next
  case (turn s s')
  obtain n w lv n' w' lv' where "s = ((n, w), lv)" "s' = ((n', w'), lv')" by (metis prod.collapse)
  then show ?case using turn cycle_inv [of E n w lv n' w' lv'] by simp
qed

section \<open>Properties\<close>

text \<open>C1: in every state the node reaches, after any number of cycles with any commands, receiver
  bytes and clock, the last motor command lies between 1000 and 2000 microseconds on every motor, and is
  the minimum on all motors unless the node is armed.\<close>

theorem motors_minimum_unless_armed:
  assumes "reached E ((n, w), lv)"
  shows "(armState n \<noteq> Armed \<longrightarrow> lastPwm n = all_motors 1000) \<and>
    (\<forall>us \<in> set (motor_list (lastPwm n)). 1000 \<le> us \<and> us \<le> 2000)"
  using reached_inv [OF assms]
  by (auto simp: quiet_def sound_def motors_ok_def pwm_ok_def kPwmMinUs_def kPwmMaxUs_def)

text \<open>C3: a cycle whose poll delivers an emergency stop, or fails, ends in failsafe with all motors at
  the minimum, whatever the receiver says in that cycle, unless a failing poll brought an arm command.\<close>

theorem emergency_stops:
  assumes "reached E ((n, w), lv)" "cycle E ((n, w), lv) = Some ((n', w'), lv')"
    "ne_transport E = Some T" "monotonicNowUs E w = (now, w0)" "rtt_poll T w0 = Some ((ok, c), w1)"
    "ic_emergency_stop c \<or> (\<not> ok \<and> ic_arm c = None)"
  shows "armState n' = Failsafe \<and> lastPwm n' = all_motors 1000"
proof -
  have inv: "ne_motor E \<noteq> None" "quiet n" using reached_inv [OF assms(1)] by simp_all
  obtain okr r sm w2 where rx:
    "poll_receiver E (fst (after_command E ok c now n w1)) (snd (after_command E ok c now n w1)) = ((okr, r, sm), w2)"
    by (metis prod.collapse)
  have "command_arm_state c (if ok then armState n else Failsafe) = Failsafe"
    using assms(6) by (auto simp: command_arm_state_def)
  moreover have "receiver_arm_state sm Failsafe = Failsafe" by (simp add: receiver_arm_state_def)
  ultimately have "armState n' = Failsafe" "quiet n'"
    using cycle_arm [OF assms(2-5) rx inv] by auto
  then show ?thesis by (simp add: quiet_def kPwmMinUs_def)
qed

text \<open>C4: a cycle ends armed only if its receiver poll succeeded with the link up, the failsafe switch
  off and the arm switch high, and in one of two ways. Either the node entered the receiver phase armed, and then
  it was armed before the cycle or an arm command of this cycle, without an emergency stop, armed it; or it
  entered the receiver phase disarmed, from no other state, and the throttle is at most 1100.\<close>

theorem armed_needs_switch:
  assumes "reached E ((n, w), lv)" "cycle E ((n, w), lv) = Some ((n', w'), lv')"
    "ne_transport E = Some T" "monotonicNowUs E w = (now, w0)" "rtt_poll T w0 = Some ((ok, c), w1)"
    "poll_receiver E (fst (after_command E ok c now n w1)) (snd (after_command E ok c now n w1)) =
      ((okr, r, sm), w2)" "armState n' = Armed"
  shows "okr \<and> rs_link_ok sm \<and> \<not> rs_failsafe_switch sm \<and> rs_channels sm ! 4 > 1500 \<and>
    (armState (fst (after_command E ok c now n w1)) = Armed \<and>
       (armState n = Armed \<or> (\<exists>a. ic_arm c = Some a \<and> ca_state a = 1 \<and> \<not> ic_emergency_stop c)) \<or>
     armState (fst (after_command E ok c now n w1)) = Disarmed \<and> rs_channels sm ! 2 \<le> 1100)"
proof -
  have inv: "ne_motor E \<noteq> None" "quiet n" "sound n" using reached_inv [OF assms(1)] by simp_all
  have a: "Armed = (if okr then receiver_arm_state sm (command_arm_state c (if ok then armState n else Failsafe))
      else Failsafe)"
    using cycle_arm [OF assms(2-6) inv(1,2)] assms(7) by auto
  then have okr: "okr" by (auto split: if_splits)
  have "sound (fst (if ok then (n, w1) else enterFailsafe E (n, w1)))"
    using inv sound_stop(2) [OF inv(1), of "(n, w1)"] by simp
  then have "sound (fst (after_command E ok c now n w1))"
    unfolding after_command_def by (rule sound_command [OF inv(1)])
  then have rok: "receiver_ok (nd_receiver (fst (after_command E ok c now n w1)))"
    by (simp add: sound_def receiver_inv_def)
  have link: "rs_link_ok sm \<or> rs_failsafe_switch sm"
  proof (cases "ne_rx E")
    case None
    then show ?thesis using assms(6) okr by (simp add: poll_receiver_def receiver_poll_def)
  next
    case (Some b)
    obtain raw v where rd: "rxb_read b 96 (snd (after_command E ok c now n w1)) = (raw, v)" by (metis prod.collapse)
    have len: "length (rs_channels (rc_last_sample (nd_receiver (fst (after_command E ok c now n w1))))) = 14"
      using rok by (simp add: receiver_ok_def)
    show ?thesis
      using receiver_poll_cases [OF rok rd assms(6) [unfolded poll_receiver_def Some]]
        stale_lost(2) [OF _ len] stale_held(1)
      by (auto simp: accepted_fields split: if_splits)
  qed
  let ?st = "if ok then armState n else Failsafe"
  have rx: "receiver_arm_state sm (command_arm_state c ?st) = Armed" using a okr by simp
  have nf: "\<not> rs_failsafe_switch sm" using rx by (auto simp: receiver_arm_state_def)
  then have lk: "rs_link_ok sm" using link by simp
  have high: "rs_channels sm ! 4 > 1500"
    using rx nf lk by (auto simp: receiver_arm_state_def split: if_splits)
  have "command_arm_state c ?st = Armed \<or> command_arm_state c ?st = Disarmed \<and> rs_channels sm ! 2 \<le> 1100"
    using rx nf lk high by (auto simp: receiver_arm_state_def split: if_splits)
  moreover have "command_arm_state c ?st = Armed \<Longrightarrow>
      armState n = Armed \<or> (\<exists>a. ic_arm c = Some a \<and> ca_state a = 1 \<and> \<not> ic_emergency_stop c)"
    by (auto simp: command_arm_state_def arm_state_defs split: if_splits option.splits)
  moreover have "armState (fst (after_command E ok c now n w1)) = command_arm_state c ?st"
    by (rule after_command_arm)
  ultimately show ?thesis using okr lk nf high by auto
qed

text \<open>C5: a cycle that ends armed had fresh inputs at its safety check: a setpoint at most 300 ms old,
  no heartbeat older than 500 ms, and a receiver frame within 120 ms, on the clock value read there.\<close>

theorem armed_needs_fresh_inputs:
  assumes "reached E ((n, w), lv)" "cycle E ((n, w), lv) = Some ((n', w'), lv')"
    "ne_transport E = Some T" "monotonicNowUs E w = (now, w0)" "rtt_poll T w0 = Some ((ok, c), w1)"
    "armState n' = Armed"
  shows "\<exists>n2 w2. receiver_phase E now (after_command E ok c now n w1) = (n2, w2) \<and>
    (let t = fst (monotonicNowUs E w2)
     in t - nd_last_setpoint_us n' \<le> 300000 \<and>
        (nd_last_heartbeat_us n' = 0 \<or> t - nd_last_heartbeat_us n' \<le> 500000) \<and>
        hasLink (nd_receiver n') t 120000)"
proof -
  have inv: "ne_motor E \<noteq> None" "quiet n" using reached_inv [OF assms(1)] by simp_all
  obtain okr r sm w2 where rx:
    "poll_receiver E (fst (after_command E ok c now n w1)) (snd (after_command E ok c now n w1)) = ((okr, r, sm), w2)"
    by (metis prod.collapse)
  show ?thesis using cycle_arm [OF assms(2-5) rx inv] assms(6)
    by (simp add: inputs_fresh_def kSetpointTimeoutUs_def kHeartbeatTimeoutUs_def kReceiverTimeoutUs_def
        Let_def)
qed

text \<open>C40: failsafe is left only by an arm command: without one every cycle that starts in failsafe ends
  there, whatever the transmitter's switches do. As a receiver that has not seen a frame reports the
  failsafe switch, a node that polls once before the first frame cannot be armed by the transmitter.\<close>

theorem failsafe_is_sticky:
  assumes "reached E ((n, w), lv)" "cycle E ((n, w), lv) = Some ((n', w'), lv')"
    "ne_transport E = Some T" "monotonicNowUs E w = (now, w0)" "rtt_poll T w0 = Some ((ok, c), w1)"
    "ic_arm c = None" "armState n = Failsafe"
  shows "armState n' = Failsafe"
proof -
  have inv: "ne_motor E \<noteq> None" "quiet n" using reached_inv [OF assms(1)] by simp_all
  obtain okr r sm w2 where rx:
    "poll_receiver E (fst (after_command E ok c now n w1)) (snd (after_command E ok c now n w1)) = ((okr, r, sm), w2)"
    by (metis prod.collapse)
  have "command_arm_state c (if ok then armState n else Failsafe) = Failsafe"
    using assms(6,7) by (simp add: command_arm_state_def)
  moreover have "receiver_arm_state sm Failsafe = Failsafe" by (simp add: receiver_arm_state_def)
  ultimately show ?thesis using cycle_arm [OF assms(2-5) rx inv] by auto
qed

text \<open>a run that returns leaves the node disarmed with all motors at the minimum.\<close>

theorem run_ends_disarmed:
  assumes "run E max_cycles (new_node se, w) = Some (True, n, w')"
  shows "armState n = Disarmed \<and> lastPwm n = all_motors 1000"
proof -
  obtain n0 w0 where i: "node_init E (new_node se, w) = (True, n0, w0)"
    using assms by (auto simp: run_def Let_def split: prod.splits if_splits)
  have E: "ne_motor E \<noteq> None" using boot_inv [OF i] by simp
  obtain n1 w1 where "stopMotors E (setArm Disarmed n1, w1) = (n, w')"
    using assms i by (auto simp: run_def Let_def split: prod.splits option.splits)
  then show ?thesis
    using stopMotors_arm [of E "(setArm Disarmed n1, w1)"] stopMotors_pwm [OF E, of "(setArm Disarmed n1, w1)"]
    by (simp add: arm_frame kPwmMinUs_def)
qed

section \<open>Witnesses\<close>

text \<open>
  A bench: the clock stands still at five seconds, the line and the transport deliver the same
  bytes and the same command at every poll, and no control step is due.
\<close>

definition bench_env :: "incoming_command \<Rightarrow> u8 list \<Rightarrow> u64 node_env" where
  "bench_env c raw = \<lparr>ne_board = stub_board\<lparr>bd_micros := \<lambda>w. (w, w)\<rparr>, ne_libm = zero_libm,
     ne_bad = \<lambda>_. 0, ne_rx = Some (line_backend raw),
     ne_motor = Some \<lparr>mb_init = \<lambda>w. (True, w), mb_write = \<lambda>_ w. (True, w)\<rparr>,
     ne_transport = Some \<lparr>rtt_init = \<lambda>w. (True, w), rtt_poll = \<lambda>w. Some ((True, c), w),
       rtt_publish = \<lambda>_ w. (True, w)\<rparr>\<rparr>"

lemma bench_clock: "monotonicNowUs (bench_env c raw) w = (w, w)"
  by (simp add: monotonicNowUs_def bench_env_def hal_micros_def)

lemma bench_clock_fun: "monotonicNowUs (bench_env c raw) = still_clock"
  by (rule ext) (simp add: bench_clock still_clock_def)

lemma bench_stop: "snd (stopMotors (bench_env c raw) s) = snd s"
  by (simp add: stopMotors_eq actuator_stop_def actuator_output_def bench_env_def)

lemma bench_failsafe: "snd (enterFailsafe (bench_env c raw) s) = snd s"
  by (simp add: enterFailsafe_eq bench_stop)

lemma bench_command: "snd (applyCommand (bench_env c raw) cmd now s) = snd s"
  by (simp add: applyCommand_def apply_arm_command_def Let_def bench_stop bench_failsafe split: option.splits)

lemma bench_receiver: "snd (applyReceiver (bench_env c raw) sm now s) = snd s"
  by (simp add: applyReceiver_def Let_def bench_stop bench_failsafe)

definition bench_transport :: "incoming_command \<Rightarrow> u64 rt_transport" where
  "bench_transport c = \<lparr>rtt_init = \<lambda>w. (True, w), rtt_poll = \<lambda>w. Some ((True, c), w),
     rtt_publish = \<lambda>_ w. (True, w)\<rparr>"

lemma bench_transport: "ne_transport (bench_env c raw) = Some (bench_transport c)"
  by (simp add: bench_env_def bench_transport_def)

lemma bench_poll: "rtt_poll (bench_transport c) w = Some ((True, c), w)"
  by (simp add: bench_transport_def)

lemma bench_motor: "ne_motor (bench_env c raw) \<noteq> None"
  by (simp add: bench_env_def)

definition bench_boot :: "incoming_command \<Rightarrow> u8 list \<Rightarrow> u64 node" where
  "bench_boot c raw = fst (snd (node_init (bench_env c raw) (new_node sample_sense, 5000000)))"

definition bench_loop :: loop_vars where
  "bench_loop = \<lparr>lv_wake_tick = 0, lv_period_ticks = 1, lv_last_control_us = 5000000,
     lv_next_control_due_us = 5002500\<rparr>"

lemma bench_init:
  "node_init (bench_env c raw) (new_node sample_sense, 5000000) = (True, bench_boot c raw, 5000000)"
  unfolding bench_boot_def
  by (simp add: node_init_def new_node_def sense_init_def sample_sense_def receiver_init_def
      actuator_init_def actuator_stop_def actuator_output_def bench_env_def line_backend_def
      monotonicNowUs_def hal_micros_def Let_def)

lemma bench_loop_start: "loop_start (bench_env c raw) 5000000 = (bench_loop, 5000000)"
proof -
  have "usToTicksCeil (ne_board (bench_env c raw)) 1000 = 1"
    by (simp add: usToTicksCeil_def bench_env_def stub_board_def Let_def)
  then show ?thesis
    by (simp add: loop_start_def bench_clock hal_rtos_tick_count_def hal_rtos_us_to_ticks_def
        kLoopPeriodUs_def bench_loop_def kControlStepUs_def)
      (simp add: bench_env_def stub_board_def)
qed

lemma bench_reached: "reached (bench_env c raw) ((bench_boot c raw, 5000000), bench_loop)"
  by (rule reached.boot [OF bench_init bench_loop_start])

lemma bench_boot_receiver: "rc_frame_index (nd_receiver (bench_boot c raw)) = 0"
  "receiver_ok (nd_receiver (bench_boot c raw))" "armState (bench_boot c raw) = Disarmed"
proof -
  show "rc_frame_index (nd_receiver (bench_boot c raw)) = 0"
    unfolding bench_boot_def
    by (simp add: node_init_def new_node_def sense_init_def sample_sense_def receiver_init_def
        actuator_init_def actuator_stop_def actuator_output_def bench_env_def line_backend_def
        monotonicNowUs_def hal_micros_def receiver_applyConfig_def setArm_def Let_def)
  show "receiver_ok (nd_receiver (bench_boot c raw))" "armState (bench_boot c raw) = Disarmed"
    using boot_inv [OF bench_init] by (simp_all add: sound_def receiver_inv_def)
qed

lemma bench_poll_world:
  "snd (receiver_phase (bench_env c raw) now (n, w)) = w"
proof -
  obtain ok r sm w1 where p: "poll_receiver (bench_env c raw) n w = ((ok, r, sm), w1)" by (metis prod.collapse)
  obtain u r1 s1 w2 where pb: "poll_bytes (\<lambda>_. 0) still_clock raw False (nd_receiver n) empty_sample w =
      ((u, r1, s1), w2)" by (metis prod.collapse)
  have pw: "snd (poll_bytes (\<lambda>_. 0) still_clock bs f r s v) = v" for bs f r s v
    by (induction bs arbitrary: f r s v)
      (auto simp: pushByte_def still_clock_def Let_def split: prod.splits option.splits if_splits)
  have "w2 = w" using pw [of raw False "nd_receiver n" empty_sample w] pb by simp
  then have "w1 = w" using p pb
    by (simp add: poll_receiver_def receiver_poll_def bench_clock_fun)
      (simp add: bench_env_def line_backend_def still_clock_def Let_def split: if_splits)
  then show ?thesis by (simp add: receiver_phase_eq [OF p] bench_failsafe bench_receiver)
qed

lemma bench_safety: "snd (safety_phase (bench_env c raw) (n, w)) = w"
  by (simp add: safety_phase_def bench_clock Let_def bench_failsafe)

lemma bench_control:
  "w < lv_next_control_due_us lv \<Longrightarrow> \<exists>lv'. control_phase (bench_env c raw) ((n, w), lv) = Some ((n, w), lv') \<and>
    lv_next_control_due_us lv' = lv_next_control_due_us lv"
  by (simp add: control_phase_def bench_clock delay_cycle_def hal_rtos_delay_until_def)
    (simp add: bench_env_def stub_board_def split: if_splits)

definition bench_turn :: "incoming_command \<Rightarrow> u8 list \<Rightarrow> u64 node \<Rightarrow> u64 node" where
  "bench_turn c raw n = fst (safety_phase (bench_env c raw) (receiver_phase (bench_env c raw) 5000000
     (applyCommand (bench_env c raw) c 5000000 (n, 5000000))))"

lemma bench_cycle:
  assumes "lv_next_control_due_us lv = 5002500"
  shows "\<exists>lv'. cycle (bench_env c raw) ((n, 5000000), lv) = Some ((bench_turn c raw n, 5000000), lv') \<and>
    lv_next_control_due_us lv' = 5002500"
proof -
  let ?E = "bench_env c raw"
  obtain n1 v1 where 1: "applyCommand ?E c 5000000 (n, 5000000) = (n1, v1)" by (metis prod.collapse)
  then have v1: "v1 = 5000000" using bench_command [of c raw c 5000000 "(n, 5000000)"] by simp
  obtain n2 v2 where 2: "receiver_phase ?E 5000000 (n1, v1) = (n2, v2)" by (metis prod.collapse)
  then have v2: "v2 = 5000000" using bench_poll_world [of c raw 5000000 n1 v1] v1 by simp
  obtain n3 v3 where 3: "safety_phase ?E (n2, v2) = (n3, v3)" by (metis prod.collapse)
  then have v3: "v3 = 5000000" using bench_safety [of c raw n2 v2] v2 by simp
  have n3: "n3 = bench_turn c raw n" using 1 2 3 by (simp add: bench_turn_def)
  obtain lv' where "control_phase ?E ((n3, 5000000), lv) = Some ((n3, 5000000), lv')"
    "lv_next_control_due_us lv' = 5002500"
    using bench_control [of 5000000 lv c raw n3] assms by auto
  then show ?thesis using 1 2 3 v3 n3
    by (simp add: cycle_def command_phase_def bench_clock bench_transport bench_poll Let_def)
qed

lemma bench_loop_due: "lv_next_control_due_us bench_loop = 5002500"
  by (simp add: bench_loop_def)

theorem motors_minimum_unless_armed_witness:
  "lastPwm (bench_boot empty_command []) = all_motors 1000"
  using motors_minimum_unless_armed [OF bench_reached] bench_boot_receiver(3) by auto

theorem emergency_stops_witness:
  "armState (bench_turn (empty_command\<lparr>ic_emergency_stop := True\<rparr>) []
     (bench_boot (empty_command\<lparr>ic_emergency_stop := True\<rparr>) [])) = Failsafe"
proof -
  let ?c = "empty_command\<lparr>ic_emergency_stop := True\<rparr>"
  obtain lv' where cy: "cycle (bench_env ?c []) ((bench_boot ?c [], 5000000), bench_loop) =
      Some ((bench_turn ?c [] (bench_boot ?c []), 5000000), lv')"
    using bench_cycle [OF bench_loop_due] by blast
  show ?thesis
    using emergency_stops [OF bench_reached cy bench_transport bench_clock bench_poll] by simp
qed

text \<open>Without a frame the first cycle ends in failsafe, and the next one stays there.\<close>

lemma bench_no_frame: "armState (bench_turn empty_command [] (bench_boot empty_command [])) = Failsafe"
proof -
  let ?E = "bench_env empty_command []" and ?n = "bench_boot empty_command []"
  have a: "applyCommand ?E empty_command 5000000 (?n, 5000000) = (?n, 5000000)"
    by (simp add: applyCommand_def apply_arm_command_def apply_data_commands_def empty_command_def)
  obtain ok r sm w1 where p: "poll_receiver ?E ?n 5000000 = ((ok, r, sm), w1)" by (metis prod.collapse)
  have rx: "ne_rx ?E = Some (line_backend [])" by (simp add: bench_env_def)
  have "ok \<and> rs_failsafe_switch sm"
  proof -
    have none: "new_frames (nd_receiver ?n) [] = []" by (simp add: new_frames_def)
    have "rc_last_frame_us (nd_receiver ?n) = 0"
      unfolding bench_boot_def
      by (simp add: node_init_def new_node_def sense_init_def sample_sense_def receiver_init_def
          actuator_init_def actuator_stop_def actuator_output_def bench_env_def line_backend_def
          monotonicNowUs_def hal_micros_def receiver_applyConfig_def setArm_def Let_def)
    then have "\<not> hasLink (nd_receiver ?n) t 80000" for t by (simp add: hasLink_def)
    moreover have "length (rs_channels (rc_last_sample (nd_receiver ?n))) = 14"
      using bench_boot_receiver(2) [of empty_command "[]"] by (simp add: receiver_ok_def)
    ultimately show ?thesis
      using receiver_poll_cases [OF bench_boot_receiver(2) line_read p [unfolded poll_receiver_def rx]]
        none stale_lost(2) by simp
  qed
  then have "armState (fst (receiver_phase ?E 5000000 (?n, 5000000))) = Failsafe"
    using receiver_phase_arm [OF p] by (simp add: receiver_arm_state_def)
  then show ?thesis
    using safety_phase_arm [of ?E "fst (receiver_phase ?E 5000000 (?n, 5000000))"
        "snd (receiver_phase ?E 5000000 (?n, 5000000))"]
    by (simp add: bench_turn_def a)
qed

theorem failsafe_is_sticky_witness:
  "armState (bench_turn empty_command [] (bench_turn empty_command [] (bench_boot empty_command []))) = Failsafe"
proof -
  let ?n = "bench_turn empty_command [] (bench_boot empty_command [])"
  obtain lv where cy: "cycle (bench_env empty_command []) ((bench_boot empty_command [], 5000000), bench_loop) =
      Some ((?n, 5000000), lv)" "lv_next_control_due_us lv = 5002500"
    using bench_cycle [OF bench_loop_due] by blast
  obtain lv' where cy2: "cycle (bench_env empty_command []) ((?n, 5000000), lv) =
      Some ((bench_turn empty_command [] ?n, 5000000), lv')"
    using bench_cycle [OF cy(2)] by blast
  show ?thesis
    using failsafe_is_sticky [OF reached.turn [OF bench_reached cy(1)] cy2 bench_transport bench_clock bench_poll]
      bench_no_frame by (simp add: empty_command_def)
qed

text \<open>An arm command, and a frame with the arm switch high and the failsafe switch low.\<close>

definition bench_arm :: incoming_command where
  "bench_arm = empty_command\<lparr>ic_arm := Some arm_command\<rparr>"

definition armed_sticks :: "u16 list" where
  "armed_sticks = [1500, 1500, 1000, 1500, 2000] @ replicate 9 1000"

definition armed_frame :: "u8 list" where
  "armed_frame = encodeIbusFrame armed_sticks"

lemma bench_boot_fields:
  "nd_last_heartbeat_us (bench_boot c raw) = 0"
  "rc_arm_switch_threshold_us (nd_receiver (bench_boot c raw)) = 1500"
  unfolding bench_boot_def
  by (simp_all add: node_init_def new_node_def sense_init_def sample_sense_def receiver_init_def
      actuator_init_def actuator_stop_def actuator_output_def bench_env_def line_backend_def
      monotonicNowUs_def hal_micros_def receiver_applyConfig_def setArm_def new_receiver_def Let_def)

lemma bench_arm_step:
  "applyCommand (bench_env c raw) bench_arm now (n, w) = (setArm Armed n, w)"
  by (simp add: applyCommand_def apply_arm_command_def apply_data_commands_def bench_arm_def
      empty_command_def arm_command_def zero_arm_def Armed_def arm_state_defs Let_def)

lemma bench_arm_poll:
  assumes "poll_receiver (bench_env bench_arm armed_frame) (setArm Armed (bench_boot bench_arm armed_frame)) w =
    ((ok, r, sm), w1)"
  shows "ok \<and> rs_link_ok sm \<and> \<not> rs_failsafe_switch sm \<and> rs_channels sm ! 4 > 1500 \<and> rc_last_frame_us r = w"
proof -
  let ?n = "bench_boot bench_arm armed_frame" and ?E = "bench_env bench_arm armed_frame"
  have rx: "ne_rx ?E = Some (line_backend armed_frame)" by (simp add: bench_env_def)
  have n: "nd_receiver (setArm Armed ?n) = nd_receiver ?n" by (simp add: setArm_def)
  have len: "length armed_sticks = 14" by (simp add: armed_sticks_def)
  have nf: "new_frames (nd_receiver ?n) armed_frame = [armed_frame]"
    unfolding new_frames_def armed_frame_def
    by (simp only: rx_prefix_zero [OF bench_boot_receiver(1)] good_frames_encode [OF len])
  have P: "receiver_poll (ne_bad ?E) still_clock (Some (line_backend armed_frame)) (nd_receiver ?n)
      empty_sample w = ((ok, r, sm), w1)"
    using assms by (simp add: poll_receiver_def bench_clock_fun rx n)
  have "ok \<and> sm = accepted (ne_bad ?E) (nd_receiver ?n) armed_frame w \<and> rc_last_frame_us r = w"
    using receiver_poll_cases [OF bench_boot_receiver(2) line_read P] nf
    by (simp add: still_clock_def)
  moreover have "raw_channels armed_frame = armed_sticks"
    unfolding armed_frame_def by (rule raw_channels_encode [OF len])
  ultimately show ?thesis
    by (simp add: accepted_fields shape_channels_def bench_boot_fields channel_defs armed_sticks_def Let_def)
qed

lemma bench_armed: "armState (bench_turn bench_arm armed_frame (bench_boot bench_arm armed_frame)) = Armed"
proof -
  let ?E = "bench_env bench_arm armed_frame" and ?n = "bench_boot bench_arm armed_frame"
  obtain ok r sm w1 where p: "poll_receiver ?E (setArm Armed ?n) 5000000 = ((ok, r, sm), w1)"
    by (metis prod.collapse)
  note q = bench_arm_poll [OF p]
  obtain n2 w2 where s2: "receiver_phase ?E 5000000 (setArm Armed ?n, 5000000) = (n2, w2)"
    by (metis prod.collapse)
  have w2: "w2 = 5000000"
    using bench_poll_world [of bench_arm armed_frame 5000000 "setArm Armed ?n" 5000000] s2 by simp
  have n2: "n2 = (setArm Armed ?n)\<lparr>nd_receiver := r,
      nd_controller := setSetpoint (receiver_setpoint sm) (nd_controller (setArm Armed ?n)),
      nd_last_setpoint_us := 5000000\<rparr>"
    using s2 q by (simp add: receiver_phase_eq [OF p] applyReceiver_def arm_frame Let_def)
  have "inputs_fresh n2 5000000"
    using q by (simp add: n2 inputs_fresh_def hasLink_def setArm_def bench_boot_fields)
  moreover have "armState n2 = Armed"
    using receiver_phase_arm [OF p, of 5000000] s2 q by (simp add: receiver_arm_state_def arm_frame)
  ultimately have "armState (fst (safety_phase ?E (n2, w2))) = Armed"
    by (simp add: safety_phase_arm bench_clock w2)
  then show ?thesis by (simp add: bench_turn_def bench_arm_step s2)
qed

theorem armed_needs_switch_witness:
  "rs_channels (snd (snd (fst (poll_receiver (bench_env bench_arm armed_frame)
     (setArm Armed (bench_boot bench_arm armed_frame)) 5000000)))) ! 4 > 1500"
proof -
  let ?E = "bench_env bench_arm armed_frame" and ?n = "bench_boot bench_arm armed_frame"
  obtain lv' where cy: "cycle ?E ((?n, 5000000), bench_loop) =
      Some ((bench_turn bench_arm armed_frame ?n, 5000000), lv')"
    using bench_cycle [OF bench_loop_due] by blast
  obtain ok r sm w1 where p: "poll_receiver ?E (setArm Armed ?n) 5000000 = ((ok, r, sm), w1)"
    by (metis prod.collapse)
  then have p': "poll_receiver ?E (fst (after_command ?E True bench_arm 5000000 ?n 5000000))
      (snd (after_command ?E True bench_arm 5000000 ?n 5000000)) = ((ok, r, sm), w1)"
    by (simp add: after_command_def bench_arm_step)
  show ?thesis
    using armed_needs_switch [OF bench_reached cy bench_transport bench_clock bench_poll p' bench_armed] p
    by simp
qed

theorem armed_needs_fresh_inputs_witness:
  "hasLink (nd_receiver (bench_turn bench_arm armed_frame (bench_boot bench_arm armed_frame))) 5000000 120000"
proof -
  let ?E = "bench_env bench_arm armed_frame" and ?n = "bench_boot bench_arm armed_frame"
  obtain lv' where cy: "cycle ?E ((?n, 5000000), bench_loop) =
      Some ((bench_turn bench_arm armed_frame ?n, 5000000), lv')"
    using bench_cycle [OF bench_loop_due] by blast
  have w: "snd (receiver_phase ?E 5000000 (after_command ?E True bench_arm 5000000 ?n 5000000)) = 5000000"
    by (simp add: after_command_def bench_arm_step bench_poll_world)
  show ?thesis
    using armed_needs_fresh_inputs [OF bench_reached cy bench_transport bench_clock bench_poll bench_armed] w
    by (auto simp: bench_clock Let_def)
qed

theorem run_ends_disarmed_witness:
  "\<exists>n w. run (bench_env empty_command []) 1 (new_node sample_sense, 5000000) = Some (True, n, w) \<and>
    armState n = Disarmed \<and> lastPwm n = all_motors 1000"
proof -
  let ?E = "bench_env empty_command []"
  obtain n w lv where cy: "cycle ?E ((bench_boot empty_command [], 5000000), bench_loop) = Some ((n, w), lv)"
    using bench_cycle [OF bench_loop_due] by blast
  have "run_loop ?E 1 0 ((bench_boot empty_command [], 5000000), bench_loop) = Some (n, w)"
    by (subst run_loop.simps) (simp add: cy, subst run_loop.simps, simp)
  then have "run ?E 1 (new_node sample_sense, 5000000) = Some (True, stopMotors ?E (setArm Disarmed n, w))"
    by (simp add: run_def bench_init bench_loop_start)
  then obtain n' w' where r: "run ?E 1 (new_node sample_sense, 5000000) = Some (True, n', w')"
    by (metis prod.collapse)
  show ?thesis using run_ends_disarmed [OF r] r by blast
qed

end
