(* ===== verification/MotorLines.thy ===== *)
theory MotorLines
  imports FlightNode
begin

text \<open>
  What the flight node needs of the world below it so that the motor lines always show the last motor
  command: an interface as a locale. The operations other than the motor backend's leave the lines
  alone, a write shows the command, and an initialisation the minimum. Every phase of a cycle keeps the
  lines and the node's memory of them together. \<open>FlightTask\<close> interprets the locale.
\<close>

section \<open>Frames of the sensors\<close>

text \<open>What the drivers and the parser do to the world they do through the operations they are given.\<close>

definition keeps :: "('w \<Rightarrow> 'l) \<Rightarrow> ('w \<Rightarrow> 'a \<times> 'w) \<Rightarrow> bool" where
  "keeps lines f \<longleftrightarrow> (\<forall>w. lines (snd (f w)) = lines w)"

lemma keepsD: "keeps lines f \<Longrightarrow> f w = (x, w') \<Longrightarrow> lines w' = lines w"
  by (metis keeps_def snd_conv)

lemma poll_bytes_keeps:
  assumes "keeps lines micros"
  shows "keeps lines (poll_bytes bad micros bs f r s)"
  unfolding keeps_def
proof (induction bs arbitrary: f r s)
  case (Cons b bs)
  have "lines w' = lines w" if "pushByte bad micros r s b w = (x, w')" for r s b w x w'
    using that keepsD [OF assms]
    by (auto simp: pushByte_def Let_def split: prod.splits option.splits if_splits)
  then show ?case using Cons by (auto simp: Let_def split: prod.splits)
qed simp

section \<open>The interface\<close>

locale motor_lines =
  fixes E :: "'w node_env"
    and motor :: "'w motor_backend"
    and imu :: "'w imu_backend"
    and mag :: "'w mag_backend"
    and lines :: "'w \<Rightarrow> 'l"
    and display :: "u16 motors \<Rightarrow> 'l \<Rightarrow> bool"
  assumes motor: "ne_motor E = Some motor"
    and micros: "keeps lines (hal_micros (ne_board E))"
    and delay: "keeps lines (hal_rtos_delay_until (ne_board E) wake period)"
    and ticks: "keeps lines (hal_rtos_tick_count (ne_board E))"
    and rx: "ne_rx E = Some b \<Longrightarrow> keeps lines (rxb_init b) \<and> keeps lines (rxb_read b n)"
    and transport: "ne_transport E = Some T \<Longrightarrow> keeps lines (rtt_init T) \<and> keeps lines (rtt_publish T report)"
    and poll: "\<lbrakk>ne_transport E = Some T; rtt_poll T w = Some (x, w')\<rbrakk> \<Longrightarrow> lines w' = lines w"
    and imu: "keeps lines (imu_init imu)" "keeps lines (imu_calibrate imu k)" "keeps lines (imu_read imu)"
    and mag: "keeps lines (mag_init mag)" "keeps lines (mag_read mag)"
    and write_shows: "display m (lines w) \<Longrightarrow> display m' (lines (snd (mb_write motor m' w)))"
    and init: "mb_init motor w = (True, w') \<Longrightarrow> display (all_motors kPwmMinUs) (lines w')"
begin

text \<open>The lines show the command the node remembers, and the node has the sensors of the interface.\<close>

definition linked :: "'w node \<times> 'w \<Rightarrow> bool" where
  "linked = (\<lambda>(n, w). display (lastPwm n) (lines w) \<and>
     se_backend (nd_sense n) = Some imu \<and> se_mag_backend (nd_sense n) = Some mag)"

lemma linked_same:
  "\<lbrakk>linked (n, w); lines w' = lines w; lastPwm n' = lastPwm n; nd_sense n' = nd_sense n\<rbrakk> \<Longrightarrow> linked (n', w')"
  by (simp add: linked_def)

lemma linked_now: "monotonicNowUs E w = (t, w') \<Longrightarrow> lines w' = lines w"
  using keepsD [OF micros] by (simp add: monotonicNowUs_def)

lemma writeD: "\<lbrakk>mb_write motor m' w = (ok, w'); display m (lines w)\<rbrakk> \<Longrightarrow> display m' (lines w')"
  by (metis write_shows snd_conv)

lemma delayD: "hal_rtos_delay_until (ne_board E) wake period w = (x, w') \<Longrightarrow> lines w' = lines w"
  by (rule keepsD [OF delay])

lemma linked_stop: "linked s \<Longrightarrow> linked (stopMotors E s)"
  by (cases s) (auto dest: writeD simp: linked_def stopMotors_def actuator_stop_def actuator_output_def motor Let_def
      split: prod.splits)

lemma linked_setArm: "linked (setArm a n, w) = linked (n, w)"
  by (simp add: linked_def setArm_def)

lemma linked_failsafe: "linked s \<Longrightarrow> linked (enterFailsafe E s)"
  by (simp add: enterFailsafe_eq linked_stop linked_setArm)

lemma linked_command: "linked s \<Longrightarrow> linked (applyCommand E c now s)"
proof -
  assume s: "linked s"
  have "linked (apply_data_commands c now n, w)" if "linked (n, w)" for n w
    by (rule linked_same [OF that refl]) (simp_all add: arm_frame)
  moreover have "linked (apply_arm_command E a s)" for a
    using s by (cases s) (auto simp: apply_arm_command_def Let_def linked_setArm linked_stop split: option.split)
  ultimately show ?thesis using linked_failsafe [OF s] by (simp add: applyCommand_def Let_def)
qed

lemma linked_applyReceiver: "linked s \<Longrightarrow> linked (applyReceiver E sm now s)"
proof -
  assume s: "linked s"
  have set: "linked (n\<lparr>nd_controller := c, nd_last_setpoint_us := t\<rparr>, w)" if "linked (n, w)" for n c t w
    using that by (simp add: linked_def)
  have "linked (setArm a (fst s), snd s)" for a using s by (cases s) (simp add: linked_setArm)
  then show ?thesis using s linked_failsafe [OF s] linked_stop
    by (auto simp: applyReceiver_def Let_def intro!: set)
qed

lemma receiver_poll_lines:
  assumes "poll_receiver E n w = (x, w')"
  shows "lines w' = lines w"
proof (cases "ne_rx E")
  case (Some b)
  obtain raw w1 where rd: "rxb_read b 96 w = (raw, w1)" by (metis prod.collapse)
  obtain u r s w2 where pb: "poll_bytes (ne_bad E) (monotonicNowUs E) raw False (nd_receiver n) empty_sample w1 =
      ((u, r, s), w2)" by (metis prod.collapse)
  have m: "keeps lines (monotonicNowUs E)" using micros by (simp add: monotonicNowUs_def keeps_def)
  have "lines w1 = lines w" using keepsD [OF conjunct2 [OF rx [OF Some]] rd] .
  moreover have "lines w2 = lines w1" using keepsD [OF poll_bytes_keeps [OF m] pb] .
  moreover obtain t w3 where t: "monotonicNowUs E w2 = (t, w3)" by (metis prod.collapse)
  then have "lines w3 = lines w2" by (rule linked_now)
  moreover have "w' = w2 \<or> w' = w3"
    using assms rd pb Some t by (cases u) (simp_all add: poll_receiver_def receiver_poll_def Let_def)
  ultimately show ?thesis by auto
qed (use assms in \<open>simp add: poll_receiver_def receiver_poll_def\<close>)

lemma linked_receiver: "linked s \<Longrightarrow> linked (receiver_phase E now s)"
proof -
  assume s: "linked s"
  obtain n w where nw: "s = (n, w)" by (cases s)
  obtain ok r sm w1 where p: "poll_receiver E n w = ((ok, r, sm), w1)" by (metis prod.collapse)
  have "linked (n\<lparr>nd_receiver := r\<rparr>, w1)"
    using s receiver_poll_lines [OF p] unfolding nw by (rule linked_same) simp_all
  then show ?thesis unfolding nw receiver_phase_eq [OF p]
    by (simp add: linked_failsafe linked_applyReceiver)
qed

lemma linked_safety: "linked s \<Longrightarrow> linked (safety_phase E s)"
proof -
  assume s: "linked s"
  obtain n w where nw: "s = (n, w)" by (cases s)
  obtain t w1 where t: "monotonicNowUs E w = (t, w1)" by (metis prod.collapse)
  have "linked (n, w1)" using s linked_now [OF t] unfolding nw by (rule linked_same) simp_all
  then show ?thesis unfolding nw safety_phase_def by (simp add: t Let_def linked_failsafe)
qed

lemma linked_delay: "linked (n, w) \<Longrightarrow> delay_cycle E lv w = (lv', w') \<Longrightarrow> linked (n, w')"
  by (auto simp: delay_cycle_def linked_def dest!: delayD split: prod.splits option.splits)

lemma linked_estimate:
  assumes "linked (n, w)" "estimate E sm dt (n, w) = Some (st, n', w')"
  shows "linked (n', w')"
proof -
  obtain mg w1 where m: "sense_sampleMag (nd_sense n) w = (mg, w1)" by (metis prod.collapse)
  have "lines w1 = lines w"
    using m mag keepsD assms(1) by (fastforce simp: sense_sampleMag_def linked_def split: if_splits)
  then show ?thesis using assms m
    by (auto simp: estimate_def Let_def linked_def split: prod.splits option.splits)
qed

lemma linked_publish: "lines (publish_report E report w) = lines w"
  using transport by (auto simp: publish_report_def keeps_def split: option.split)

lemma linked_drive:
  assumes "linked (n, w)" "drive E st dt (n, w) = Some (n', w')"
  shows "linked (n', w')"
proof -
  obtain m c where u: "controller_update st dt (nd_controller n) = Some (m, c)"
    using assms(2) by (cases "controller_update st dt (nd_controller n)") (auto simp: drive_def)
  obtain ok w1 where o: "mb_write motor m w = (ok, w1)" by (metis prod.collapse)
  have "display m (lines w1)" using write_shows [of "lastPwm n" w m] assms(1) o by (simp add: linked_def)
  then show ?thesis using assms u o linked_now
    by (auto simp: drive_def actuator_output_def motor Let_def linked_def linked_publish split: prod.splits)
qed

lemma linked_control:
  assumes "linked (n, w)" "control_phase E ((n, w), lv) = Some (s', lv')"
  shows "linked s'"
proof -
  obtain t w1 where t: "monotonicNowUs E w = (t, w1)" by (metis prod.collapse)
  obtain sm w2 where sm: "sense_sample (nd_sense n) w1 = (sm, w2)" by (metis prod.collapse)
  have l1: "linked (n, w1)" using assms(1) linked_now [OF t] by (rule linked_same) simp_all
  have "lines w2 = lines w1"
    using sm imu(3) keepsD assms(1) by (fastforce simp: sense_sample_def linked_def)
  then have l2: "linked (n, w2)" using l1 by (simp add: linked_def)
  show ?thesis
  proof (cases "t < lv_next_control_due_us lv")
    case True
    then show ?thesis using assms(2) t linked_delay [OF l1] by (auto simp: control_phase_def split: prod.splits)
  next
    case False
    obtain due where due: "catch_up t (lv_next_control_due_us lv + kControlStepUs) = Some due"
      using assms(2) t False
      by (cases "catch_up t (lv_next_control_due_us lv + kControlStepUs)") (auto simp: control_phase_def)
    show ?thesis
    proof (cases sm)
      case None
      obtain n2 w3 where f: "enterFailsafe E (n, w2) = (n2, w3)" by (metis prod.collapse)
      then have "linked (n2, w3)" using linked_failsafe [OF l2] by simp
      then show ?thesis using assms(2) t False due sm None f linked_delay
        by (auto simp: control_phase_def Let_def split: prod.splits)
    next
      case (Some im)
      let ?dt = "fdiv (f32_of_int (uint (t - lv_last_control_us lv))) (f32_of_int 1000000)"
      obtain st n1 w3 where e: "estimate E im ?dt (n, w2) = Some (st, n1, w3)"
        using assms(2) t False due sm Some
        by (cases "estimate E im ?dt (n, w2)") (auto simp: control_phase_def Let_def)
      obtain n2 w4 where d: "drive E st ?dt (n1, w3) = Some (n2, w4)"
        using assms(2) t False due sm Some e
        by (cases "drive E st ?dt (n1, w3)") (auto simp: control_phase_def Let_def)
      have "linked (n2, w4)" using linked_drive [OF linked_estimate [OF l2 e] d] .
      then show ?thesis using assms(2) t False due sm Some e d linked_delay
        by (auto simp: control_phase_def Let_def split: prod.splits)
    qed
  qed
qed

lemma linked_cycle:
  assumes "linked (n, w)" "cycle E ((n, w), lv) = Some (s', lv')"
  shows "linked s'"
proof -
  obtain n' w' where s': "s' = (n', w')" by (cases s')
  have cy: "cycle E ((n, w), lv) = Some ((n', w'), lv')" using assms(2) s' by simp
  obtain T now w0 ok c w1 where T: "ne_transport E = Some T" "monotonicNowUs E w = (now, w0)"
    "rtt_poll T w0 = Some ((ok, c), w1)" by (rule cycle_polls [OF cy])
  have "linked (n, w1)" using assms(1) linked_now [OF T(2)] poll [OF T(1,3)] by (simp add: linked_def)
  then have "linked (safety_phase E (receiver_phase E now
      (applyCommand E c now (if ok then (n, w1) else enterFailsafe E (n, w1)))))"
    by (intro linked_safety linked_receiver linked_command) (simp add: linked_failsafe)
  moreover obtain n3 w3 where "safety_phase E (receiver_phase E now
      (applyCommand E c now (if ok then (n, w1) else enterFailsafe E (n, w1)))) = (n3, w3)" by (metis prod.collapse)
  ultimately show ?thesis using linked_control [of n3 w3 lv s' lv'] cycle_phases [OF cy T] s' by simp
qed

lemma linked_boot:
  assumes "node_init E (new_node se, w0) = (True, n, w)" "loop_start E w = (lv, w1)"
    "se_backend se = Some imu" "se_mag_backend se = Some mag"
  shows "linked (n, w1)"
proof -
  obtain ok1 se1 v1 where 1: "sense_init se w0 = ((ok1, se1), v1)" by (metis prod.collapse)
  obtain ok2 r v2 where 2: "receiver_init (ne_rx E) new_receiver v1 = ((ok2, r), v2)" by (metis prod.collapse)
  obtain ok3 a v3 where 3: "actuator_init (ne_motor E) new_actuator v2 = ((ok3, a), v3)" by (metis prod.collapse)
  obtain T where T: "ne_transport E = Some T" and ok: "ok1" "ok2" "ok3"
    using assms(1) 1 2 3
    by (cases ok1; cases ok2; cases ok3; cases "ne_transport E") (auto simp: node_init_def new_node_def Let_def)
  obtain ok4 v4 where 4: "rtt_init T v3 = (ok4, v4)" by (metis prod.collapse)
  obtain t v5 where 5: "monotonicNowUs E v4 = (t, v5)" by (metis prod.collapse)
  have n: "lastPwm n = ac_last_pwm a" "nd_sense n = se1" "w = v5"
    using assms(1) 1 2 3 4 5 T ok
    by (auto simp: node_init_def new_node_def setArm_def Let_def split: if_splits)
  have se1: "se_backend se1 = Some imu" "se_mag_backend se1 = Some mag"
    using 1 assms(3,4) by (auto simp: sense_init_def Let_def split: prod.splits if_splits option.splits)
  have a: "ac_last_pwm a = all_motors kPwmMinUs" "display (all_motors kPwmMinUs) (lines v3)"
    using 3 ok(3) motor
    by (auto dest: init writeD simp: actuator_init_def actuator_stop_def actuator_output_def Let_def split: prod.splits if_splits)
  have "lines v5 = lines v3" using keepsD [OF conjunct1 [OF transport [OF T]] 4] linked_now [OF 5] by simp
  moreover have "lines w1 = lines w"
    using assms(2) keepsD [OF ticks] linked_now
    by (auto simp: loop_start_def Let_def split: prod.splits)
  ultimately show ?thesis using n se1 a by (simp add: linked_def)
qed

end

end
