(* ===== verification/FlightTask.thy ===== *)
theory FlightTask
  imports MotorLines BoardPort
begin

text \<open>
  The program of the small core as \<open>flight_control_task\<close> (\<open>rt_core/hal_impl.cpp\<close>) and \<open>main\<close>
  (\<open>rt_core/main_rtos.cpp\<close>) put it together: the flight node on the SG2002 board port, with both I2C
  sensors, the UART receiver, four PWM channels and the shared region. The interface of \<open>MotorLines\<close> is
  interpreted here, for any SDK and any FreeRTOS.
\<close>

section \<open>Constants of the task\<close>

definition kI2cBusMpu6050 :: u8 where "kI2cBusMpu6050 = 0"
definition kMpu6050Address :: u8 where "kMpu6050Address = 0x68"
definition kMagnetometerAddress :: u8 where "kMagnetometerAddress = 0x1E"
definition kIbusUart :: u8 where "kIbusUart = 3"
definition kI2cSpeedHz :: u32 where "kI2cSpeedHz = 400000"
definition kIbusBaudRate :: u32 where "kIbusBaudRate = 115200"

lemmas task_consts = kI2cBusMpu6050_def kMpu6050Address_def kMagnetometerAddress_def kIbusUart_def
  kI2cSpeedHz_def kIbusBaudRate_def

definition task_i2c_config :: i2c_bus_config where
  "task_i2c_config = \<lparr>ic_bus_id = kI2cBusMpu6050, ic_bus_speed_hz = kI2cSpeedHz,
     ic_mpu_addr = kMpu6050Address, ic_mag_addr = kMagnetometerAddress, ic_use_magnetometer = True\<rparr>"

definition task_uart_config :: uart_rx_config where
  "task_uart_config = \<lparr>ur_uart_id = kIbusUart, ur_baud_rate = kIbusBaudRate\<rparr>"

definition task_mag_config :: hmc_config where
  "task_mag_config = \<lparr>hc_bus_id = kI2cBusMpu6050, hc_bus_speed_hz = kI2cSpeedHz,
     hc_address = kMagnetometerAddress\<rparr>"

definition task_pwm_config :: pwm_output_config where
  "task_pwm_config = default_pwm_output_config\<lparr>po_channels := Motors 7 6 10 11\<rparr>"

section \<open>The world\<close>

text \<open>
  FreeRTOS's clock on the hardware \<open>'h\<close>; the board port on both; and the world of the task: the port
  with the hardware, the transport's object, the shared region, and the gyroscope driver's bias.
\<close>

record 'h freertos =
  rt_tick_rate :: u32
  rt_tick_count :: "'h \<Rightarrow> u32 \<times> 'h"
  rt_delay_until :: "u32 \<Rightarrow> u32 \<Rightarrow> 'h \<Rightarrow> u32 \<times> 'h"

record 'h task_world =
  tw_port :: "'h port"
  tw_transport :: transport
  tw_region :: shared_region
  tw_bias :: vec3

definition on_hw :: "('h \<Rightarrow> 'a \<times> 'h) \<Rightarrow> 'h port \<Rightarrow> 'a \<times> 'h port" where
  "on_hw f p = (let (x, h) = f (pt_hw p) in (x, p\<lparr>pt_hw := h\<rparr>))"

definition on_port :: "('h port \<Rightarrow> 'a \<times> 'h port) \<Rightarrow> 'h task_world \<Rightarrow> 'a \<times> 'h task_world" where
  "on_port f w = (let (x, p) = f (tw_port w) in (x, w\<lparr>tw_port := p\<rparr>))"

definition sg2002 :: "'h sdk \<Rightarrow> 'h freertos \<Rightarrow> 'h port board" where
  "sg2002 S R = port_board S (stub_board\<lparr>bd_tick_rate := rt_tick_rate R,
     bd_tick_count := on_hw (rt_tick_count R),
     bd_delay_until := (\<lambda>wake period. on_hw (rt_delay_until R wake period))\<rparr>)"

lemma sg2002_sel [simp]:
  "bd_i2c_init (sg2002 S R) = port_i2c_init S" "bd_i2c_write (sg2002 S R) = port_i2c_write S"
  "bd_i2c_read (sg2002 S R) = port_i2c_read S" "bd_pwm_init (sg2002 S R) = port_pwm_init S"
  "bd_pwm_set_duty (sg2002 S R) = port_pwm_set_duty S" "bd_pwm_enable (sg2002 S R) = port_pwm_enable S"
  "bd_uart_init (sg2002 S R) = port_uart_init S" "bd_uart_read (sg2002 S R) = port_uart_read S"
  "bd_micros (sg2002 S R) = port_micros S" "bd_tick_count (sg2002 S R) = on_hw (rt_tick_count R)"
  "bd_delay_until (sg2002 S R) wake period = on_hw (rt_delay_until R wake period)"
  "bd_tick_rate (sg2002 S R) = rt_tick_rate R"
  by (simp_all add: sg2002_def) (simp_all add: port_board_def)

definition task_board :: "'h sdk \<Rightarrow> 'h freertos \<Rightarrow> 'h task_world board" where
  "task_board S R = (let B = sg2002 S R in \<lparr>
     bd_i2c_init = (\<lambda>b s. on_port (bd_i2c_init B b s)), bd_i2c_write = (\<lambda>b d x. on_port (bd_i2c_write B b d x)),
     bd_i2c_read = (\<lambda>b d n. on_port (bd_i2c_read B b d n)), bd_pwm_init = (\<lambda>c p. on_port (bd_pwm_init B c p)),
     bd_pwm_set_duty = (\<lambda>c t. on_port (bd_pwm_set_duty B c t)),
     bd_pwm_enable = (\<lambda>c e. on_port (bd_pwm_enable B c e)),
     bd_uart_init = (\<lambda>u b. on_port (bd_uart_init B u b)), bd_uart_read = (\<lambda>u n. on_port (bd_uart_read B u n)),
     bd_uart_write = (\<lambda>u x. on_port (bd_uart_write B u x)), bd_micros = on_port (bd_micros B),
     bd_tick_rate = bd_tick_rate B, bd_tick_count = on_port (bd_tick_count B),
     bd_delay_until = (\<lambda>k p. on_port (bd_delay_until B k p))\<rparr>)"

section \<open>The task\<close>

definition task_imu :: "'h sdk \<Rightarrow> 'h freertos \<Rightarrow> 'h task_world imu_backend" where
  "task_imu S R = mpu_backend (task_board S R) task_i2c_config tw_bias (\<lambda>b w. w\<lparr>tw_bias := b\<rparr>)"

definition task_mag :: "'h sdk \<Rightarrow> 'h freertos \<Rightarrow> 'h task_world mag_backend" where
  "task_mag S R = hmc_backend (task_board S R) task_mag_config"

definition task_sense :: "'h sdk \<Rightarrow> 'h freertos \<Rightarrow> 'h task_world sense" where
  "task_sense S R = \<lparr>se_backend = Some (task_imu S R), se_mag_backend = Some (task_mag S R),
     se_require_mag = False, se_mag_ready = False\<rparr>"

definition task_transport :: "'h task_world rt_transport" where
  "task_transport = cmdqu_transport True False (\<lambda>w. (tw_transport w, tw_region w))
     (\<lambda>(t, r) w. w\<lparr>tw_transport := t, tw_region := r\<rparr>)"

definition task_env :: "'h sdk \<Rightarrow> 'h freertos \<Rightarrow> libm \<Rightarrow> (f32 \<Rightarrow> int) \<Rightarrow> 'h task_world node_env" where
  "task_env S R m bad = \<lparr>ne_board = task_board S R, ne_libm = m, ne_bad = bad,
     ne_rx = Some (rtos_uart_backend (task_board S R) task_uart_config),
     ne_motor = Some (rtos_pwm_backend (task_board S R) task_pwm_config),
     ne_transport = Some task_transport\<rparr>"

lemma task_env_sel [simp]:
  "ne_board (task_env S R m bad) = task_board S R" "ne_bad (task_env S R m bad) = bad"
  "ne_rx (task_env S R m bad) = Some (rtos_uart_backend (task_board S R) task_uart_config)"
  "ne_motor (task_env S R m bad) = Some (rtos_pwm_backend (task_board S R) task_pwm_config)"
  "ne_transport (task_env S R m bad) = Some task_transport"
  by (simp_all add: task_env_def)

definition task_node :: "'h sdk \<Rightarrow> 'h freertos \<Rightarrow> 'h task_world node" where
  "task_node S R = new_node (task_sense S R)"

text \<open>
  \<open>run(0)\<close> is the loop without end; where it returns, the task idles for ever. \<open>main\<close> has the same
  objects and gives the result to its caller.
\<close>

definition flight_control_task ::
  "'h sdk \<Rightarrow> 'h freertos \<Rightarrow> libm \<Rightarrow> (f32 \<Rightarrow> int) \<Rightarrow> 'h task_world \<Rightarrow> (bool \<times> 'h task_world node \<times> 'h task_world) option" where
  "flight_control_task S R m bad w = run (task_env S R m bad) 0 (task_node S R, w)"

definition main_rtos ::
  "'h sdk \<Rightarrow> 'h freertos \<Rightarrow> libm \<Rightarrow> (f32 \<Rightarrow> int) \<Rightarrow> 'h task_world \<Rightarrow> (int \<times> 'h task_world) option" where
  "main_rtos S R m bad w =
    (case run (task_env S R m bad) 0 (task_node S R, w) of
       None \<Rightarrow> None
     | Some (ok, n, w) \<Rightarrow> Some (if ok then 0 else 1, w))"

text \<open>
  What the board's mailbox code calls: a command enters the transport's ring, and the interrupt entry of the
  transport does nothing.
\<close>

definition amp_fc_on_cmdqu_message :: "u8 \<Rightarrow> u32 \<Rightarrow> 'h task_world \<Rightarrow> 'h task_world" where
  "amp_fc_on_cmdqu_message cmd_id seq_hint w =
    w\<lparr>tw_transport := onCmdFromMailbox cmd_id seq_hint (tw_transport w)\<rparr>"

definition mailboxIsr :: "int \<Rightarrow> 'h task_world \<Rightarrow> int \<times> 'h task_world" where
  "mailboxIsr irq w = (0, w)"

definition amp_fc_mailbox_isr :: "int \<Rightarrow> 'h task_world \<Rightarrow> int \<times> 'h task_world" where
  "amp_fc_mailbox_isr irq w = mailboxIsr irq w"

text \<open>
  What happens around the task between two of its cycles: Linux writes the shared region, and the mailbox
  interrupt hands a command to the transport. The states reached from a successful start in any order of
  these.
\<close>

inductive flight_reached ::
  "'h sdk \<Rightarrow> 'h freertos \<Rightarrow> libm \<Rightarrow> (f32 \<Rightarrow> int) \<Rightarrow> ('h task_world node \<times> 'h task_world) \<times> loop_vars \<Rightarrow> bool"
  for S R m bad where
  start: "\<lbrakk>node_init (task_env S R m bad) (task_node S R, w0) = (True, n, w);
      loop_start (task_env S R m bad) w = (lv, w1)\<rbrakk> \<Longrightarrow> flight_reached S R m bad ((n, w1), lv)"
| turn: "\<lbrakk>flight_reached S R m bad s; cycle (task_env S R m bad) s = Some s'\<rbrakk> \<Longrightarrow> flight_reached S R m bad s'"
| linux: "flight_reached S R m bad ((n, w), lv) \<Longrightarrow> flight_reached S R m bad ((n, w\<lparr>tw_region := r\<rparr>), lv)"
| bell: "flight_reached S R m bad ((n, w), lv) \<Longrightarrow>
    flight_reached S R m bad ((n, amp_fc_on_cmdqu_message cmd_id seq_hint w), lv)"
| isr: "\<lbrakk>flight_reached S R m bad ((n, w), lv); amp_fc_mailbox_isr irq w = (x, w')\<rbrakk> \<Longrightarrow>
    flight_reached S R m bad ((n, w'), lv)"

section \<open>Drivers on a board that leaves the lines alone\<close>

definition quiet_board :: "('w \<Rightarrow> 'l) \<Rightarrow> 'w board \<Rightarrow> bool" where
  "quiet_board lines B \<longleftrightarrow> (\<forall>b s. keeps lines (bd_i2c_init B b s)) \<and> (\<forall>b d x. keeps lines (bd_i2c_write B b d x)) \<and>
     (\<forall>b d n. keeps lines (bd_i2c_read B b d n)) \<and> (\<forall>u b. keeps lines (bd_uart_init B u b)) \<and>
     (\<forall>u n. keeps lines (bd_uart_read B u n)) \<and> keeps lines (bd_micros B) \<and> keeps lines (bd_tick_count B) \<and>
     (\<forall>k p. keeps lines (bd_delay_until B k p))"

lemma quiet_hal:
  assumes "quiet_board lines B"
  shows "lines (snd (hal_i2c_init B b s w)) = lines w" "lines (snd (hal_i2c_write B b d bs w)) = lines w"
    "lines (snd (hal_i2c_read B b d hb n w)) = lines w" "lines (snd (amp_hal_uart_init B u br w)) = lines w"
    "lines (snd (amp_hal_uart_read_buffer B u hb n w)) = lines w" "lines (snd (hal_micros B w)) = lines w"
    "lines (snd (hal_rtos_tick_count B w)) = lines w" "lines (snd (hal_rtos_delay_until B wk p w)) = lines w"
    "lines (hal_delay_ms B ms w) = lines w"
  using assms
  by (simp_all add: quiet_board_def keeps_def hal_defs hal_rtos_delay_until_def hal_delay_ms_def case_prod_beta
      Let_def split: option.split)

lemma quiet_registers:
  assumes "quiet_board lines B"
  shows "lines (snd (writeRegister B b a r v w)) = lines w" "lines (snd (readRegisters B b a r n w)) = lines w"
  by (simp_all add: writeRegister_def readRegisters_def quiet_hal [OF assms] case_prod_beta Let_def)

lemma quiet_write_all:
  assumes "quiet_board lines B"
  shows "lines (snd (write_all B b a rs w)) = lines w"
  by (induction rs arbitrary: w)
    (auto simp: quiet_registers [OF assms] case_prod_beta Let_def)

lemmas quiet_driver = quiet_hal quiet_registers quiet_write_all

lemma quiet_mpu:
  assumes "quiet_board lines B"
  shows "lines (snd (mpu_init B c w)) = lines w" "lines (snd (mpu_read B c w)) = lines w"
  by (simp_all add: mpu_init_def mpu_read_def quiet_driver [OF assms] case_prod_beta Let_def split: option.split)

lemma quiet_hmc:
  assumes "quiet_board lines B"
  shows "lines (snd (hmc_init B c w)) = lines w" "lines (snd (hmc_read B c w)) = lines w"
  by (simp_all add: hmc_init_def hmc_read_def quiet_driver [OF assms] case_prod_beta Let_def split: option.split)

lemma quiet_calibrate_loop:
  assumes "quiet_board lines B"
  shows "lines (snd (calibrate_loop (mpu_read B c) (hal_delay_ms B 2) n acc k w)) = lines w"
proof (induction n arbitrary: acc k w)
  case (Suc n)
  obtain x y z where "acc = (x, y, z)" by (cases acc)
  then show ?case
    by (simp add: Suc.IH quiet_mpu(2) [OF assms] quiet_hal(9) [OF assms] case_prod_beta Let_def split: option.split)
qed simp

lemma quiet_calibrate:
  assumes "quiet_board lines B" "\<And>b w. lines (putb b w) = lines w"
  shows "lines (snd (mpu_calibrate B c putb n w)) = lines w"
  using quiet_calibrate_loop [OF assms(1)]
  by (simp add: mpu_calibrate_def assms(2) case_prod_beta Let_def)

lemma quiet_uart:
  assumes "quiet_board lines B"
  shows "lines (snd (rtos_uart_init B c w)) = lines w" "lines (snd (rtos_uart_read B c n w)) = lines w"
  by (simp_all add: rtos_uart_init_def rtos_uart_read_def quiet_hal [OF assms] case_prod_beta Let_def)

section \<open>The programmed pulses\<close>

text \<open>
  Any SDK with a record of what the PWM block was programmed with: for each bank and line the last
  configuration handed to the SDK. The record changes nothing the program sees.
\<close>

type_synonym pwm_log = "u8 \<Rightarrow> u32 \<Rightarrow> pwm_configuration option"

definition log_pwm :: "pwm_configuration \<Rightarrow> pwm_log \<Rightarrow> pwm_log" where
  "log_pwm cfg l = l(pc_pwm_id cfg := (l (pc_pwm_id cfg))(pc_channel cfg := Some cfg))"

definition on_fst :: "('h \<Rightarrow> 'a \<times> 'h) \<Rightarrow> 'h \<times> 'l \<Rightarrow> 'a \<times> 'h \<times> 'l" where
  "on_fst f = (\<lambda>(h, l). let (x, h) = f h in (x, h, l))"

definition recorded :: "'h sdk \<Rightarrow> ('h \<times> pwm_log) sdk" where
  "recorded S = \<lparr>sdk_i2c_init = (\<lambda>b (h, l). (sdk_i2c_init S b h, l)),
     sdk_i2c_write = (\<lambda>b d r k x n. on_fst (sdk_i2c_write S b d r k x n)),
     sdk_i2c_read = (\<lambda>b d r k n. on_fst (sdk_i2c_read S b d r k n)), sdk_coret = on_fst (sdk_coret S),
     sdk_pwm_init = (\<lambda>cfg (h, l). (sdk_pwm_init S cfg h, log_pwm cfg l)),
     sdk_pwm_set_output_cfg = (\<lambda>cfg (h, l). (sdk_pwm_set_output_cfg S cfg h, log_pwm cfg l)),
     sdk_hal_uart_init = (\<lambda>u b c (h, l). (sdk_hal_uart_init S u b c h, l)),
     mmioRead32 = (\<lambda>a. on_fst (mmioRead32 S a)), mmioWrite32 = (\<lambda>a v (h, l). (mmioWrite32 S a v h, l))\<rparr>"

definition recorded_os :: "'h freertos \<Rightarrow> ('h \<times> pwm_log) freertos" where
  "recorded_os R = \<lparr>rt_tick_rate = rt_tick_rate R, rt_tick_count = on_fst (rt_tick_count R),
     rt_delay_until = (\<lambda>k p. on_fst (rt_delay_until R k p))\<rparr>"

lemma on_fst_snd [simp]: "snd (snd (on_fst f hl)) = snd hl"
  by (simp add: on_fst_def case_prod_beta Let_def)

lemma recorded_snd [simp]:
  "snd (sdk_i2c_init (recorded S) b hl) = snd hl" "snd (snd (sdk_i2c_write (recorded S) b d r k x n hl)) = snd hl"
  "snd (snd (sdk_i2c_read (recorded S) b d r k n hl)) = snd hl" "snd (snd (sdk_coret (recorded S) hl)) = snd hl"
  "snd (sdk_pwm_init (recorded S) cfg hl) = log_pwm cfg (snd hl)"
  "snd (sdk_pwm_set_output_cfg (recorded S) cfg hl) = log_pwm cfg (snd hl)"
  "snd (sdk_hal_uart_init (recorded S) u br c hl) = snd hl"
  "snd (snd (mmioRead32 (recorded S) a hl)) = snd hl" "snd (mmioWrite32 (recorded S) a v hl) = snd hl"
  "snd (snd (rt_tick_count (recorded_os R) hl)) = snd hl"
  "snd (snd (rt_delay_until (recorded_os R) kk pp hl)) = snd hl"
  by (simp_all add: recorded_def recorded_os_def case_prod_beta)

text \<open>What the motor lines are: which channels are ready, their periods, and the record.\<close>

type_synonym line_state = "(u32 \<Rightarrow> bool) \<times> (u32 \<Rightarrow> u32) \<times> pwm_log"

definition port_lines :: "('h \<times> pwm_log) port \<Rightarrow> line_state" where
  "port_lines p = (pt_pwm_ready p, pt_pwm_period_ns p, snd (pt_hw p))"

definition task_lines :: "('h \<times> pwm_log) task_world \<Rightarrow> line_state" where
  "task_lines w = port_lines (tw_port w)"

definition task_channels :: "u32 list" where "task_channels = [7, 6, 10, 11]"

text \<open>A pulse of so many microseconds in the period of 2.5 ms, in ticks of 10 ns.\<close>

definition pulse_of :: "u32 \<Rightarrow> u16 \<Rightarrow> pwm_configuration" where
  "pulse_of ch us = pwm_cfg ch 250000 (nsToPwmTicks (high_time_ns us))"

definition lines_show :: "u16 motors \<Rightarrow> line_state \<Rightarrow> bool" where
  "lines_show m = (\<lambda>(ready, period, l). list_all (\<lambda>(ch, us). ready ch \<and> period ch = 2500000 \<and>
     l (ucast (ch div 4)) (ch mod 4) = Some (pulse_of ch us)) (zip task_channels (motor_list m)))"

lemma uart_read_keeps: "snd (snd (uart_read_loop (recorded S) base n h)) = snd h"
  by (induction n arbitrary: h)
    (simp_all add: uartReadLsr_def uartReadRbr_def case_prod_beta Let_def)

lemma port_quiet: "quiet_board port_lines (sg2002 (recorded S) (recorded_os R))"
  unfolding quiet_board_def keeps_def
  by (simp add: port_lines_def port_i2c_init_def port_i2c_write_def port_i2c_read_def port_uart_init_def
      port_uart_read_def port_micros_def rememberI2cRegister_def on_hw_def uart_read_keeps
      case_prod_beta Let_def split: option.split)

lemma task_quiet: "quiet_board task_lines (task_board (recorded S) (recorded_os R))"
  using port_quiet [of S R]
  by (simp add: quiet_board_def keeps_def task_board_def task_lines_def on_port_def case_prod_beta Let_def)

section \<open>Writes and the start of the PWM block\<close>

lemma ticks_2500us: "nsToPwmTicks 2500000 = 250000"
proof -
  have "unat (nsToPwmTicks 2500000) = unat (250000 :: u32)" by (simp add: nsToPwmTicks_unat)
  then show ?thesis by (simp only: word_unat_eq_iff)
qed

lemma task_pwm_ops:
  "hal_pwm_set_duty (task_board S R) c t w = on_port (port_pwm_set_duty S c t) w"
  "hal_pwm_init (task_board S R) c t w = on_port (port_pwm_init S c t) w"
  "hal_pwm_enable (task_board S R) c e w = on_port (port_pwm_enable S c e) w"
  by (simp_all add: hal_defs task_board_def)

lemma task_set_channel:
  assumes "task_lines w = (ready, period, l)" "0 \<le> ch" "ch < 16" "ready (word_of_int ch)"
    "period (word_of_int ch) = 2500000"
  shows "fst (setChannelPwm (task_board (recorded S) R) ch us w) \<and>
    task_lines (snd (setChannelPwm (task_board (recorded S) R) ch us w)) =
      (ready, period, log_pwm (pulse_of (word_of_int ch) us) l)"
proof -
  have "unat (word_of_int ch :: u32) = nat ch" using assms(2,3) by (simp add: uint_word_of_int flip: nat_uint_eq)
  then show ?thesis using assms
    by (simp add: setChannelPwm_def task_pwm_ops on_port_def port_pwm_set_duty_def kMaxPwmChannel_def task_lines_def
        port_lines_def pulse_of_def ticks_2500us)
qed

lemma pulse_of_sel [simp]:
  "pc_pwm_id (pulse_of ch us) = ucast (ch div 4)" "pc_channel (pulse_of ch us) = ch mod 4"
  by (simp_all add: pulse_of_def pwm_cfg_def kPwmChannelsPerBank_def)

lemma task_write_shows:
  assumes "lines_show m (task_lines w)"
  shows "fst (rtos_pwm_write (task_board (recorded S) R) task_pwm_config m' w) \<and>
    lines_show m' (task_lines (snd (rtos_pwm_write (task_board (recorded S) R) task_pwm_config m' w)))"
proof -
  obtain ready period l where w: "task_lines w = (ready, period, l)" by (cases "task_lines w")
  obtain u v x y where m': "m' = Motors u v x y" by (cases m')
  obtain u0 v0 x0 y0 where m: "m = Motors u0 v0 x0 y0" by (cases m)
  have r: "ready 7" "ready 6" "ready 10" "ready 11" "period 7 = 2500000" "period 6 = 2500000"
    "period 10 = 2500000" "period 11 = 2500000"
    using assms by (simp_all add: w lines_show_def task_channels_def m)
  let ?set = "setChannelPwm (task_board (recorded S) R)"
  obtain ok1 w1 where 1: "?set 7 u w = (ok1, w1)" by (metis prod.collapse)
  obtain ok2 w2 where 2: "?set 6 v w1 = (ok2, w2)" by (metis prod.collapse)
  obtain ok3 w3 where 3: "?set 10 x w2 = (ok3, w3)" by (metis prod.collapse)
  obtain ok4 w4 where 4: "?set 11 y w3 = (ok4, w4)" by (metis prod.collapse)
  note C = task_set_channel [where S = S and R = R]
  have l1: "ok1" "task_lines w1 = (ready, period, log_pwm (pulse_of 7 u) l)"
    using C [OF w, of 7 u] 1 r by simp_all
  have l2: "ok2" "task_lines w2 = (ready, period, log_pwm (pulse_of 6 v) (log_pwm (pulse_of 7 u) l))"
    using C [OF l1(2), of 6 v] 2 r by simp_all
  have l3: "ok3" "task_lines w3 = (ready, period, log_pwm (pulse_of 10 x) (log_pwm (pulse_of 6 v) (log_pwm (pulse_of 7 u) l)))"
    using C [OF l2(2), of 10 x] 3 r by simp_all
  have l4: "ok4" "task_lines w4 = (ready, period, log_pwm (pulse_of 11 y) (log_pwm (pulse_of 10 x)
      (log_pwm (pulse_of 6 v) (log_pwm (pulse_of 7 u) l))))"
    using C [OF l3(2), of 11 y] 4 r by simp_all
  have "rtos_pwm_write (task_board (recorded S) R) task_pwm_config m' w = (True, w4)"
    by (simp add: rtos_pwm_write_def task_pwm_config_def m' 1 2 3 4 l1 l2 l3 l4)
  then show ?thesis using r
    by (simp add: l4 lines_show_def task_channels_def m' log_pwm_def)
qed

lemma task_configure:
  assumes "task_lines w = (ready, period, l)" "0 \<le> ch" "ch < 16"
    "configureChannel (task_board (recorded S) R) 2500000 ch us w = (ok, w')"
  shows "ok \<and> (\<exists>l0. task_lines w' = (ready(word_of_int ch := True), period(word_of_int ch := 2500000),
      log_pwm (pulse_of (word_of_int ch) us) l0) \<and>
      (\<forall>a b. (a, b) \<noteq> (ucast (word_of_int ch div 4 :: u32), word_of_int ch mod 4) \<longrightarrow> l0 a b = l a b))"
proof -
  let ?c = "word_of_int ch :: u32" and ?B = "task_board (recorded S) R"
  have "unat ?c = nat ch" using assms(2,3) by (simp add: uint_word_of_int flip: nat_uint_eq)
  then have c: "\<not> 16 \<le> unat ?c" using assms(2,3) by simp
  define w1 where "w1 = snd (hal_pwm_init ?B ?c 2500000 w)"
  define w2 where "w2 = snd (hal_pwm_enable ?B ?c False w1)"
  have i: "hal_pwm_init ?B ?c 2500000 w = (0, w1)" and
    t1: "task_lines w1 = (ready(?c := True), period(?c := 2500000),
      log_pwm (pwm_cfg ?c 250000 (nsToPwmTicks 1000000)) l)"
    using assms(1) c
    by (simp_all add: w1_def task_pwm_ops on_port_def port_pwm_init_def kMaxPwmChannel_def task_lines_def
        port_lines_def ticks_2500us Let_def)
  have e: "hal_pwm_enable ?B ?c False w1 = (0, w2)" and
    t2: "task_lines w2 = (ready(?c := True), period(?c := 2500000),
      log_pwm (pwm_cfg ?c 250000 0) (log_pwm (pwm_cfg ?c 250000 (nsToPwmTicks 1000000)) l))"
    using t1 c
    by (simp_all add: w2_def task_pwm_ops on_port_def port_pwm_enable_def kMaxPwmChannel_def task_lines_def
        port_lines_def ticks_2500us Let_def)
  obtain ok3 w3 where s: "setChannelPwm ?B ch us w2 = (ok3, w3)" by (metis prod.collapse)
  have t3: "ok3" "task_lines w3 = (ready(?c := True), period(?c := 2500000), log_pwm (pulse_of ?c us)
      (log_pwm (pwm_cfg ?c 250000 0) (log_pwm (pwm_cfg ?c 250000 (nsToPwmTicks 1000000)) l)))"
    using task_set_channel [OF t2 assms(2,3), of S R us] s by simp_all
  have "hal_pwm_enable ?B ?c True w3 = (0, w3)"
    using t3(2) c
    by (cases w3) (simp add: task_pwm_ops on_port_def port_pwm_enable_def kMaxPwmChannel_def task_lines_def port_lines_def)
  then have "ok \<and> w' = w3" using assms(2,4) i e s t3(1) by (simp add: configureChannel_def)
  then show ?thesis using t3(2)
    by (intro conjI exI [of _ "log_pwm (pwm_cfg ?c 250000 0) (log_pwm (pwm_cfg ?c 250000 (nsToPwmTicks 1000000)) l)"])
      (auto simp: log_pwm_def pwm_cfg_def kPwmChannelsPerBank_def)
qed

lemma task_init_shows:
  assumes "rtos_pwm_init (task_board (recorded S) R) task_pwm_config w = (ok, w')"
  shows "ok \<and> lines_show (all_motors kPwmMinUs) (task_lines w')"
proof -
  obtain ready period l where w: "task_lines w = (ready, period, l)" by (cases "task_lines w")
  let ?cfg = "\<lambda>ch. configureChannel (task_board (recorded S) R) 2500000 ch kPwmMinUs"
  obtain ok1 w1 where 1: "?cfg 7 w = (ok1, w1)" by (metis prod.collapse)
  obtain ok2 w2 where 2: "?cfg 6 w1 = (ok2, w2)" by (metis prod.collapse)
  obtain ok3 w3 where 3: "?cfg 10 w2 = (ok3, w3)" by (metis prod.collapse)
  obtain ok4 w4 where 4: "?cfg 11 w3 = (ok4, w4)" by (metis prod.collapse)
  note C = task_configure [where S = S and R = R and us = kPwmMinUs]
  obtain l1 where l1: "ok1" "task_lines w1 = (ready(7 := True), period(7 := 2500000), log_pwm (pulse_of 7 kPwmMinUs) l1)"
    using C [OF w _ _ 1] by auto
  obtain l2 where l2: "ok2" "task_lines w2 = (ready(7 := True, 6 := True), period(7 := 2500000, 6 := 2500000),
      log_pwm (pulse_of 6 kPwmMinUs) l2)"
    "\<And>a b. (a, b) \<noteq> (1, 2) \<Longrightarrow> l2 a b = log_pwm (pulse_of 7 kPwmMinUs) l1 a b"
    using C [OF l1(2) _ _ 2] by auto
  obtain l3 where l3: "ok3" "task_lines w3 = (ready(7 := True, 6 := True, 10 := True),
      period(7 := 2500000, 6 := 2500000, 10 := 2500000), log_pwm (pulse_of 10 kPwmMinUs) l3)"
    "\<And>a b. (a, b) \<noteq> (2, 2) \<Longrightarrow> l3 a b = log_pwm (pulse_of 6 kPwmMinUs) l2 a b"
    using C [OF l2(2) _ _ 3] by auto
  obtain l4 where l4: "ok4" "task_lines w4 = (ready(7 := True, 6 := True, 10 := True, 11 := True),
      period(7 := 2500000, 6 := 2500000, 10 := 2500000, 11 := 2500000), log_pwm (pulse_of 11 kPwmMinUs) l4)"
    "\<And>a b. (a, b) \<noteq> (2, 3) \<Longrightarrow> l4 a b = log_pwm (pulse_of 10 kPwmMinUs) l3 a b"
    using C [OF l3(2) _ _ 4] by auto
  have "rtos_pwm_init (task_board (recorded S) R) task_pwm_config w = (True, w4)"
    by (simp add: rtos_pwm_init_def task_pwm_config_def default_pwm_output_config_def hasDuplicateChannels_def
        1 2 3 4 l1(1) l2(1) l3(1) l4(1))
  then have "ok" "w' = w4" using assms by simp_all
  then show ?thesis
    by (simp add: l4(2) lines_show_def task_channels_def all_motors_def log_pwm_def l4(3) l3(3) l2(3))
qed

section \<open>The interface on the task\<close>

lemma task_lines_frame [simp]:
  "task_lines (w\<lparr>tw_bias := b\<rparr>) = task_lines w" "task_lines (w\<lparr>tw_region := r\<rparr>) = task_lines w"
  "task_lines (w\<lparr>tw_transport := t\<rparr>) = task_lines w"
  by (simp_all add: task_lines_def)

lemma task_transport_keeps:
  "keeps task_lines (rtt_init task_transport)" "keeps task_lines (rtt_publish task_transport report)"
  "rtt_poll task_transport w = Some (x, w') \<Longrightarrow> task_lines w' = task_lines w"
  by (auto simp: keeps_def task_transport_def cmdqu_transport_def task_lines_def case_prod_beta Let_def
      split: option.splits)

interpretation task: motor_lines "task_env (recorded S) (recorded_os R) m bad"
  "rtos_pwm_backend (task_board (recorded S) (recorded_os R)) task_pwm_config"
  "task_imu (recorded S) (recorded_os R)" "task_mag (recorded S) (recorded_os R)" task_lines lines_show
proof
  fix b n T report w x w' wake period k m' m1
  note Q = task_quiet [of S R]
  let ?E = "task_env (recorded S) (recorded_os R) m bad"
  show "ne_motor ?E = Some (rtos_pwm_backend (task_board (recorded S) (recorded_os R)) task_pwm_config)"
    by (simp add: task_env_def)
  show "keeps task_lines (hal_micros (ne_board ?E))"
    "keeps task_lines (hal_rtos_delay_until (ne_board ?E) wake period)"
    "keeps task_lines (hal_rtos_tick_count (ne_board ?E))"
    by (simp_all add: task_env_def keeps_def quiet_hal [OF Q])
  show "keeps task_lines (rxb_init b) \<and> keeps task_lines (rxb_read b n)" if "ne_rx ?E = Some b"
    using that by (auto simp: task_env_def rtos_uart_backend_def keeps_def quiet_uart [OF Q])
  show "keeps task_lines (rtt_init T) \<and> keeps task_lines (rtt_publish T report)" if "ne_transport ?E = Some T"
    using that by (auto simp: task_env_def task_transport_keeps)
  show "task_lines w' = task_lines w" if "ne_transport ?E = Some T" "rtt_poll T w = Some (x, w')"
    using that by (auto simp: task_env_def dest: task_transport_keeps(3))
  show "keeps task_lines (imu_init (task_imu (recorded S) (recorded_os R)))"
    "keeps task_lines (imu_read (task_imu (recorded S) (recorded_os R)))"
    by (simp_all add: task_imu_def mpu_backend_def keeps_def quiet_mpu [OF Q])
  show "keeps task_lines (imu_calibrate (task_imu (recorded S) (recorded_os R)) k)"
    by (simp add: task_imu_def mpu_backend_def keeps_def quiet_calibrate [OF Q] task_lines_frame)
  show "keeps task_lines (mag_init (task_mag (recorded S) (recorded_os R)))"
    "keeps task_lines (mag_read (task_mag (recorded S) (recorded_os R)))"
    by (simp_all add: task_mag_def hmc_backend_def keeps_def quiet_hmc [OF Q])
  show "lines_show m' (task_lines (snd (mb_write (rtos_pwm_backend (task_board (recorded S) (recorded_os R))
      task_pwm_config) m' w)))" if "lines_show m1 (task_lines w)"
    using conjunct2 [OF task_write_shows [OF that]] by (simp add: rtos_pwm_backend_def)
  show "lines_show (all_motors kPwmMinUs) (task_lines w')"
    if "mb_init (rtos_pwm_backend (task_board (recorded S) (recorded_os R)) task_pwm_config) w = (True, w')"
    using task_init_shows [of S "recorded_os R" w True w'] that by (simp add: rtos_pwm_backend_def)
qed

lemma task_reached_linked:
  "flight_reached (recorded S) (recorded_os R) m bad s \<Longrightarrow>
    task.linked S R (fst s) \<and> quiet (fst (fst s)) \<and> sound (fst (fst s))"
proof (induction rule: flight_reached.induct)
  case (start w0 n w lv w1)
  have i: "node_init (task_env (recorded S) (recorded_os R) m bad)
      (new_node (task_sense (recorded S) (recorded_os R)), w0) = (True, n, w)"
    using start.hyps(1) by (simp add: task_node_def)
  show ?case using task.linked_boot [OF i start.hyps(2)] boot_inv [OF i] by (simp add: task_sense_def)
next
  case (turn s s')
  obtain n w lv n' w' lv' where s: "s = ((n, w), lv)" "s' = ((n', w'), lv')" by (metis prod.collapse)
  have cy: "cycle (task_env (recorded S) (recorded_os R) m bad) ((n, w), lv) = Some ((n', w'), lv')"
    using turn.hyps(2) s by simp
  have "ne_motor (task_env (recorded S) (recorded_os R) m bad) \<noteq> None" by (simp add: task_env_def)
  then show ?case using task.linked_cycle [OF _ cy] cycle_inv [OF cy] turn.IH by (simp add: s)
next
  case (linux n w lv r)
  then show ?case by (simp add: task.linked_def)
next
  case (bell n w lv cmd_id seq_hint)
  then show ?case by (simp add: task.linked_def amp_fc_on_cmdqu_message_def)
next
  case (isr n w lv irq x w')
  then show ?case by (simp add: amp_fc_mailbox_isr_def mailboxIsr_def)
qed

text \<open>Period and pulse, in ticks of 10 ns, that a channel's bank and line were programmed with last.\<close>

definition line_pulse :: "('h \<times> pwm_log) task_world \<Rightarrow> u32 \<Rightarrow> (u32 \<times> u32) option" where
  "line_pulse w ch = map_option (\<lambda>cfg. (pc_period cfg, pc_pulse cfg)) (snd (pt_hw (tw_port w)) (ucast (ch div 4)) (ch mod 4))"

lemma pulse_of_ticks: "pwm_ok us \<Longrightarrow> pc_pulse (pulse_of ch us) = 100 * ucast us"
proof -
  assume us: "pwm_ok us"
  let ?p = "(new_port ())\<lparr>pt_pwm_period_ns := (\<lambda>_. 2500000)\<rparr>"
  have "pulse_of ch us = pulse_cfg ?p ch us" by (simp add: pulse_of_def pulse_cfg_def ticks_2500us)
  then have "unat (pc_pulse (pulse_of ch us)) = unat us * 100"
    using us pulse_ticks [of ?p ch us] by (auto simp: pwm_ok_def std_clamp_def dest: leD)
  moreover have "unat (100 * ucast us :: u32) = unat us * 100"
  proof -
    have "unat us < 2 ^ LENGTH(16)" by (rule unsigned_less)
    then show ?thesis by (simp add: unat_word_ariths unat_ucast_up)
  qed
  ultimately show ?thesis by (simp only: word_unat_eq_iff)
qed

lemma linked_lines:
  assumes "task.linked S R (n, w)" "sound n"
  shows "map (line_pulse w) task_channels = map (\<lambda>us. Some (250000, 100 * ucast us)) (motor_list (lastPwm n))"
proof -
  obtain a b c d where m: "lastPwm n = Motors a b c d" by (metis motors.exhaust)
  have ok: "pwm_ok a" "pwm_ok b" "pwm_ok c" "pwm_ok d" using assms(2) by (simp_all add: sound_def motors_ok_def m)
  show ?thesis using assms(1) ok
    by (simp add: task.linked_def lines_show_def task_lines_def port_lines_def task_channels_def m line_pulse_def
        pulse_of_ticks) (simp add: pulse_of_def pwm_cfg_def)
qed

section \<open>Properties\<close>

text \<open>C2: In every state that cycles of the task, writes of Linux into the shared region and mailbox
  interrupts reach in any order, on any SDK and FreeRTOS, the four PWM outputs were last programmed with the
  period of 2.5 ms and the pulses of the node's last motor command; and with 1.0 ms on all four unless the node
  is armed.\<close>

theorem outputs_follow_command:
  assumes "flight_reached (recorded S) (recorded_os R) m bad ((n, w), lv)"
  shows "map (line_pulse w) [7, 6, 10, 11] =
      map (\<lambda>us. Some (250000, 100 * ucast us)) (motor_list (lastPwm n)) \<and>
    (armState n \<noteq> Armed \<longrightarrow> map (line_pulse w) [7, 6, 10, 11] = replicate 4 (Some (250000, 100000)))"
proof -
  have "task.linked S R (n, w)" "quiet n" "sound n" using task_reached_linked [OF assms] by simp_all
  then have l: "map (line_pulse w) [7, 6, 10, 11] = map (\<lambda>us. Some (250000, 100 * ucast us)) (motor_list (lastPwm n))"
    and m: "armState n \<noteq> Armed \<longrightarrow> lastPwm n = all_motors 1000"
    using linked_lines [of S R n w] by (auto simp: task_channels_def quiet_def kPwmMinUs_def)
  have "replicate 4 x = [x, x, x, x]" for x :: "(u32 \<times> u32) option" by (simp add: numeral_eq_Suc)
  then show ?thesis using l m by (auto simp: all_motors_def)
qed

text \<open>A loop without a limit never returns.\<close>

lemma run_loop_forever: "run_loop E 0 k s = None"
proof (rule ccontr)
  assume "run_loop E 0 k s \<noteq> None"
  then obtain y where y: "run_loop E 0 k s = Some y" by auto
  have "\<not> (0 :: nat) = 0"
  proof (rule run_loop.raw_induct [where P = "\<lambda>_ m _ _ _. m \<noteq> 0", OF _ y])
    fix f and E :: "'a node_env" and m k s y
    assume IH: "\<And>E m k s y. f E m k s = Some y \<Longrightarrow> m \<noteq> 0"
      and eq: "(if m = 0 \<or> k < m then (case cycle E s of None \<Rightarrow> None | Some s \<Rightarrow> f E m (Suc k) s)
        else Some (fst s)) = Some y"
    show "m \<noteq> (0 :: nat)"
    proof
      assume m: "m = 0"
      then obtain s' where "f E m (Suc k) s' = Some y" using eq by (cases "cycle E s") simp_all
      then show False using IH m by blast
    qed
  qed
  then show False by simp
qed

text \<open>The program of the small core returns, with exit code 1, and its task reports failure, when the node does not start.
  For a node that starts the value is \<open>None\<close>: the loop without a bound on its cycles has no result, because it goes
  on or because some cycle is undefined or does not return; that single cycles and any finite number of them do return
  is the content of the theorems on \<open>cycles\<close>.\<close>

lemma task_without_start:
  "main_rtos S R m bad w =
     (case node_init (task_env S R m bad) (task_node S R, w) of (ok, n, w') \<Rightarrow> if ok then None else Some (1, w')) \<and>
   flight_control_task S R m bad w =
     (case node_init (task_env S R m bad) (task_node S R, w) of (ok, n, w') \<Rightarrow>
        if ok then None else Some (False, n, w'))"
  by (simp add: main_rtos_def flight_control_task_def run_def run_loop_forever case_prod_beta Let_def)

section \<open>The clock's wrap\<close>

fun cycles :: "'w node_env \<Rightarrow> nat \<Rightarrow> ('w node \<times> 'w) \<times> loop_vars \<Rightarrow> (('w node \<times> 'w) \<times> loop_vars) option" where
  "cycles E 0 s = Some s"
| "cycles E (Suc k) s = (case cycle E s of None \<Rightarrow> None | Some s \<Rightarrow> cycles E k s)"

lemma transport_quiet: "quiet_board tw_transport (task_board S R)"
  by (simp add: quiet_board_def keeps_def task_board_def on_port_def case_prod_beta Let_def)

text \<open>What a handler may change when no control step runs.\<close>

definition idle_step :: "'h task_world node \<times> 'h task_world \<Rightarrow> 'h task_world node \<times> 'h task_world \<Rightarrow> bool" where
  "idle_step s s' \<longleftrightarrow> tw_transport (snd s') = tw_transport (snd s) \<and> nd_estimator (fst s') = nd_estimator (fst s) \<and>
     (lastPwm (fst s') = lastPwm (fst s) \<or> lastPwm (fst s') = all_motors kPwmMinUs)"

lemma idle_refl: "idle_step s s" by (simp add: idle_step_def)

lemma idle_trans: "\<lbrakk>idle_step a b; idle_step b c\<rbrakk> \<Longrightarrow> idle_step a c" by (auto simp: idle_step_def)

lemma for_motors_keeps: "(\<And>x w. lines (snd (f x w)) = lines w) \<Longrightarrow> lines (snd (for_motors f xs w)) = lines w"
  by (induction xs arbitrary: w) (auto simp: case_prod_beta Let_def)

lemma write_transport: "tw_transport (snd (rtos_pwm_write (task_board S R) c m w)) = tw_transport w"
  unfolding rtos_pwm_write_def
  by (rule for_motors_keeps)
    (auto simp: setChannelPwm_def task_pwm_ops on_port_def case_prod_beta Let_def)

lemma idle_stop: "idle_step s (stopMotors (task_env S R m bad) s)"
proof -
  have "tw_transport (snd (stopMotors (task_env S R m bad) s)) = tw_transport (snd s)"
    by (cases s) (simp add: stopMotors_def actuator_stop_def actuator_output_def task_env_def rtos_pwm_backend_def
        write_transport case_prod_beta Let_def)
  then show ?thesis using stopMotors_pwm [of "task_env S R m bad" s]
    by (simp add: idle_step_def task_env_def)
qed

lemma idle_setArm: "idle_step (n, w) (setArm a n, w)"
  by (simp add: idle_step_def setArm_def)

lemma idle_failsafe: "idle_step s (enterFailsafe (task_env S R m bad) s)"
  unfolding enterFailsafe_eq using idle_trans [OF idle_setArm idle_stop] by (metis prod.collapse)

lemma idle_command: "idle_step s (applyCommand (task_env S R m bad) c now s)"
proof -
  have d: "idle_step s (apply_data_commands c now (fst s), snd s)" for s :: "'a task_world node \<times> 'a task_world"
    by (simp add: idle_step_def arm_frame)
      (simp add: apply_data_commands_def Let_def split: option.split)
  have "idle_step s (apply_arm_command (task_env S R m bad) a s)" for a
    using idle_trans [OF idle_setArm idle_stop, of "fst s" "snd s"] idle_setArm [of "fst s" "snd s"] idle_refl [of s]
    by (auto simp: apply_arm_command_def Let_def split: option.split)
  then show ?thesis using idle_failsafe [of s] idle_trans [OF _ d] by (simp add: applyCommand_def Let_def)
qed

lemma idle_applyReceiver: "idle_step s (applyReceiver (task_env S R m bad) sm now s)"
proof -
  have d: "idle_step (n, w) (n\<lparr>nd_controller := c, nd_last_setpoint_us := t\<rparr>, w)"
    for n :: "'a task_world node" and c t w by (simp add: idle_step_def)
  define s1 where "s1 = (if rs_channels sm ! 4 > 1500 \<and> rs_channels sm ! 2 \<le> 1100 \<and> armState (fst s) = Disarmed
      then (setArm Armed (fst s), snd s) else s)"
  define s2 where "s2 = (if \<not> rs_channels sm ! 4 > 1500 \<and> armState (fst s1) = Armed
      then stopMotors (task_env S R m bad) (setArm Disarmed (fst s1), snd s1) else s1)"
  have 1: "idle_step s s1" using idle_setArm [of "fst s" "snd s" Armed] idle_refl [of s] by (simp add: s1_def)
  have 2: "idle_step s1 s2"
    using idle_trans [OF idle_setArm idle_stop, of "fst s1" "snd s1"] idle_refl [of s1] by (simp add: s2_def)
  have "applyReceiver (task_env S R m bad) sm now s = (if rs_failsafe_switch sm then enterFailsafe (task_env S R m bad) s
      else if \<not> rs_link_ok sm then s
      else ((fst s2)\<lparr>nd_controller := setSetpoint (receiver_setpoint sm) (nd_controller (fst s2)),
        nd_last_setpoint_us := now\<rparr>, snd s2))"
    by (simp only: applyReceiver_def Let_def s1_def s2_def)
  then show ?thesis
    using idle_failsafe [of s S R m bad] idle_refl [of s] idle_trans [OF idle_trans [OF 1 2] d [of "fst s2" "snd s2", simplified]] by simp
qed

lemma micros_transport: "keeps tw_transport (monotonicNowUs (task_env S R m bad))"
  by (simp add: keeps_def monotonicNowUs_def task_env_def quiet_hal [OF transport_quiet])

lemma idle_receiver: "idle_step s (receiver_phase (task_env S R m bad) now s)"
proof -
  obtain n w where s: "s = (n, w)" by (cases s)
  obtain ok r sm w1 where p: "poll_receiver (task_env S R m bad) n w = ((ok, r, sm), w1)" by (metis prod.collapse)
  let ?b = "rtos_uart_backend (task_board S R) task_uart_config"
  obtain raw v where rd: "rxb_read ?b 96 w = (raw, v)" by (metis prod.collapse)
  obtain u r1 s1 v1 where pb: "poll_bytes bad (monotonicNowUs (task_env S R m bad)) raw False (nd_receiver n)
      empty_sample v = ((u, r1, s1), v1)" by (metis prod.collapse)
  obtain t v2 where t: "monotonicNowUs (task_env S R m bad) v1 = (t, v2)" by (metis prod.collapse)
  have "tw_transport v = tw_transport w"
    using rd quiet_uart(2) [OF transport_quiet, of S R task_uart_config 96 w] by (simp add: rtos_uart_backend_def)
  moreover have "tw_transport v1 = tw_transport v" by (rule keepsD [OF poll_bytes_keeps [OF micros_transport] pb])
  moreover have "tw_transport v2 = tw_transport v1" by (rule keepsD [OF micros_transport t])
  moreover have "w1 = v1 \<or> w1 = v2"
    using p rd pb t by (cases u) (simp_all add: poll_receiver_def receiver_poll_def Let_def)
  ultimately have i: "idle_step s (n\<lparr>nd_receiver := r\<rparr>, w1)" by (auto simp: s idle_step_def)
  show ?thesis unfolding s receiver_phase_eq [OF p]
    using idle_trans [OF i idle_failsafe] idle_trans [OF i idle_applyReceiver] by (simp add: s)
qed

lemma idle_safety: "idle_step s (safety_phase (task_env S R m bad) s)"
proof -
  obtain n w where s: "s = (n, w)" by (cases s)
  obtain t w1 where t: "monotonicNowUs (task_env S R m bad) w = (t, w1)" by (metis prod.collapse)
  have 1: "idle_step s (n, w1)" using keepsD [OF micros_transport t] by (simp add: s idle_step_def)
  let ?f = "enterFailsafe (task_env S R m bad)"
  have 2: "idle_step s (?f (n, w1))" by (rule idle_trans [OF 1 idle_failsafe])
  have 3: "idle_step s (?f (?f (n, w1)))" by (rule idle_trans [OF 2 idle_failsafe])
  have 4: "idle_step s (?f (?f (?f (n, w1))))" by (rule idle_trans [OF 3 idle_failsafe])
  show ?thesis unfolding s safety_phase_def using 1 2 3 4 by (simp add: t Let_def s)
qed

text \<open>A cycle in which no control step is due returns, and leaves estimate, schedule and transport's ring intact.\<close>

definition poll_ready :: "'h task_world \<Rightarrow> bool" where
  "poll_ready w \<longleftrightarrow> tq_attached (tw_transport w) \<and> ring_ok (tq_ring (tw_transport w))"

lemma idle_cycle:
  assumes "737869762948 < unat (lv_next_control_due_us lv)" "poll_ready w"
  shows "\<exists>n' w' lv'. cycle (task_env S R m bad) ((n, w), lv) = Some ((n', w'), lv') \<and> poll_ready w' \<and>
    lv_next_control_due_us lv' = lv_next_control_due_us lv \<and> nd_estimator n' = nd_estimator n \<and>
    (lastPwm n' = lastPwm n \<or> lastPwm n' = all_motors kPwmMinUs)"
proof -
  let ?E = "task_env S R m bad"
  obtain now w0 where now: "monotonicNowUs ?E w = (now, w0)" by (metis prod.collapse)
  have w0: "tw_transport w0 = tw_transport w" by (rule keepsD [OF micros_transport now])
  obtain q where q: "transport_poll (tw_region w0) (tw_transport w0) =
      Some ((True, poll_command (tw_region w0) (tw_transport w0)),
        (poll_seqs (tw_region w0) (tw_transport w0))\<lparr>tq_ring := q\<rparr>)" "ring_ok q"
    using transport_poll_eq [of "tw_transport w0" "tw_region w0"] assms(2) w0 by (auto simp: poll_ready_def)
  define c where "c = poll_command (tw_region w0) (tw_transport w0)"
  define w1 where "w1 = w0\<lparr>tw_transport := (poll_seqs (tw_region w0) (tw_transport w0))\<lparr>tq_ring := q\<rparr>,
      tw_region := tw_region w0\<rparr>"
  have T: "ne_transport ?E = Some task_transport" by (simp add: task_env_def)
  have poll: "rtt_poll task_transport w0 = Some ((True, c), w1)"
    using q(1) by (simp add: task_transport_def cmdqu_transport_def w1_def c_def)
  have r1: "poll_ready w1" using q(2) assms(2) w0 by (simp add: poll_ready_def w1_def poll_seqs_def)
  obtain n3 w3 where s3: "safety_phase ?E (receiver_phase ?E now (applyCommand ?E c now (n, w1))) = (n3, w3)"
    by (metis prod.collapse)
  have idle: "idle_step (n, w1) (n3, w3)"
    using idle_trans [OF idle_trans [OF idle_command idle_receiver] idle_safety] s3 by metis
  obtain t w4 where t: "monotonicNowUs ?E w3 = (t, w4)" by (metis prod.collapse)
  have "unat t \<le> 737869762948"
  proof -
    have "fst (hal_micros (task_board S R) w3) = fst (port_micros S (tw_port w3))"
      by (simp add: hal_micros_def task_board_def on_port_def case_prod_beta Let_def)
    moreover have "fst (hal_micros (task_board S R) w3) = t" using t by (simp add: monotonicNowUs_def task_env_def)
    ultimately show ?thesis using port_micros_bound [of S "tw_port w3"] by simp
  qed
  then have lt: "t < lv_next_control_due_us lv" using assms(1) by (simp add: word_less_nat_alt)
  obtain lv' w5 where d: "delay_cycle ?E lv w4 = (lv', w5)" by (metis prod.collapse)
  have lv': "lv_next_control_due_us lv' = lv_next_control_due_us lv"
    using d by (auto simp: delay_cycle_def split: prod.splits option.splits)
  have w5: "tw_transport w5 = tw_transport w3"
  proof -
    have "tw_transport w5 = tw_transport w4"
      using d quiet_hal(8) [OF transport_quiet, of S R "Some (lv_wake_tick lv)" "lv_period_ticks lv" w4]
      by (auto simp: delay_cycle_def task_env_def split: prod.splits option.splits)
    then show ?thesis using keepsD [OF micros_transport t] by simp
  qed
  have "control_phase ?E ((n3, w3), lv) = Some ((n3, w5), lv')" using lt by (simp add: control_phase_def t d)
  then have "cycle ?E ((n, w), lv) = Some ((n3, w5), lv')"
    using s3 by (simp add: cycle_def command_phase_def now T poll)
  moreover have "poll_ready w5" using r1 idle w5 by (simp add: poll_ready_def idle_step_def)
  ultimately show ?thesis using idle lv' by (auto simp: idle_step_def)
qed

text \<open>A control step that was due in the last 2.5 ms of the clock schedules the next one beyond it.\<close>

lemma last_step_overshoots:
  assumes "737869760448 < unat d" "d \<le> t" "unat t \<le> 737869762948"
  shows "catch_up t (d + kControlStepUs) = Some (d + kControlStepUs) \<and> 737869762948 < unat (d + kControlStepUs)"
proof -
  have "unat d \<le> 737869762948" using assms(2,3) by (simp add: word_le_nat_alt)
  then have u: "unat (d + kControlStepUs) = unat d + 2500"
    by (simp add: kControlStepUs_def unat_word_ariths)
  then have "\<not> d + kControlStepUs \<le> t" using assms(1,3) by (simp add: word_le_nat_alt)
  then have "catch_up t (d + kControlStepUs) = Some (d + kControlStepUs)" by (simp add: catch_up.simps)
  with u assms(1) show ?thesis by simp
qed

text \<open>C13: The microsecond clock of the board port never shows more than 737869762948. Once the next control step is
  scheduled later than that, no cycle ever runs a control step again, given that the mailbox interrupt is attached and
  the command ring is well formed: any number of cycles returns, the schedule and the attitude estimate stay, and
  the motors keep their last command or are stopped.\<close>

theorem control_stops_at_wrap:
  assumes "737869762948 < unat (lv_next_control_due_us lv)" "tq_attached (tw_transport w)"
    "ring_ok (tq_ring (tw_transport w))"
  shows "\<exists>n' w' lv'. cycles (task_env S R m bad) k ((n, w), lv) = Some ((n', w'), lv') \<and>
    lv_next_control_due_us lv' = lv_next_control_due_us lv \<and> nd_estimator n' = nd_estimator n \<and>
    (lastPwm n' = lastPwm n \<or> lastPwm n' = all_motors kPwmMinUs)"
proof -
  have "poll_ready w" using assms(2,3) by (simp add: poll_ready_def)
  with assms(1) show ?thesis
  proof (induction k arbitrary: n w lv)
    case (Suc k)
    obtain n1 w1 lv1 where 1: "cycle (task_env S R m bad) ((n, w), lv) = Some ((n1, w1), lv1)" "poll_ready w1"
      "lv_next_control_due_us lv1 = lv_next_control_due_us lv" "nd_estimator n1 = nd_estimator n"
      "lastPwm n1 = lastPwm n \<or> lastPwm n1 = all_motors kPwmMinUs"
      using idle_cycle [OF Suc.prems, of S R m bad n] by blast
    have "737869762948 < unat (lv_next_control_due_us lv1)" using Suc.prems(1) 1(3) by simp
    from Suc.IH [OF this 1(2), of n1] 1 show ?case by fastforce
  qed simp
qed

section \<open>Witnesses\<close>

text \<open>Hardware that identifies itself as the inertial sensor, measures nothing, and has no magnetometer.\<close>

definition idle_sdk :: "unit sdk" where
  "idle_sdk = \<lparr>sdk_i2c_init = (\<lambda>_ h. h), sdk_i2c_write = (\<lambda>_ _ _ _ _ _ h. (0, h)),
     sdk_i2c_read = (\<lambda>_ _ reg _ n h. ((0, if reg = 0x75 then [0x68] else replicate (unat n) 0), h)),
     sdk_coret = (\<lambda>h. (0, h)), sdk_pwm_init = (\<lambda>_ h. h), sdk_pwm_set_output_cfg = (\<lambda>_ h. h),
     sdk_hal_uart_init = (\<lambda>_ _ _ h. h), mmioRead32 = (\<lambda>_ h. (0, h)), mmioWrite32 = (\<lambda>_ _ h. h)\<rparr>"

definition idle_os :: "unit freertos" where
  "idle_os = \<lparr>rt_tick_rate = 1000, rt_tick_count = (\<lambda>h. (0, h)), rt_delay_until = (\<lambda>k p h. (k + p, h))\<rparr>"

abbreviation "idle_board \<equiv> task_board (recorded idle_sdk) (recorded_os idle_os)"

definition bus_up :: "(unit \<times> pwm_log) task_world \<Rightarrow> bool" where
  "bus_up w \<longleftrightarrow> pt_i2c_ready (tw_port w) 0"

lemma idle_addressable: "bus_up w \<Longrightarrow> i2c_addressable 0 0x68 (tw_port w)"
  by (simp add: bus_up_def i2c_addressable_def)

lemma idle_write: "bus_up w \<Longrightarrow> \<exists>w'. writeRegister idle_board 0 0x68 r v w = (True, w') \<and> bus_up w'"
  by (simp add: writeRegister_def hal_defs task_board_def on_port_def port_i2c_write_def bus_up_def kMaxI2cBus_def
      kMaxI2cAddr_def recorded_def idle_sdk_def on_fst_def rememberI2cRegister_def case_prod_beta Let_def)

lemma idle_read:
  assumes "bus_up w" "0 < k"
  shows "\<exists>bs w'. readRegisters idle_board 0 0x68 r k w = (Some (overlay k bs), w') \<and> bus_up w' \<and>
    (r = 0x75 \<longrightarrow> bs = [0x68])"
proof -
  let ?S = "recorded idle_sdk" and ?p = "with_cursor 0 0x68 (ucast r) (tw_port w)"
  define bs where "bs = (if r = 0x75 then [0x68 :: u8] else replicate (unat (word_of_nat k :: u16)) 0)"
  have e: "(ucast r = (0x75 :: u16)) = (r = 0x75)"
  proof
    assume "ucast r = (0x75 :: u16)"
    then have "unat (ucast r :: u16) = 0x75" by simp
    then have "unat r = unat (0x75 :: u8)" by (simp add: unat_ucast_up)
    then show "r = 0x75" by (simp only: word_unat_eq_iff)
  qed simp
  have h: "sdk_i2c_read ?S 0 0x68 (ucast r) 1 (word_of_nat k) h = ((0, bs), h)" for h
    by (cases h) (simp add: recorded_def idle_sdk_def on_fst_def bs_def e)
  note a = idle_addressable [OF assms(1)]
  have 1: "port_i2c_write ?S 0 0x68 [r] (tw_port w) = (0, ?p)" by (rule write_selects [OF a])
  have 2: "port_i2c_read ?S 0 0x68 k ?p = ((0, bs), with_cursor 0 0x68 (ucast r + word_of_nat k) (tw_port w))"
    using register_read_is_addressed_read [OF a assms(2) h] 1 by (simp add: with_cursor_def)
  define p2 where "p2 = with_cursor 0 0x68 (ucast r + word_of_nat k) (tw_port w)"
  have "pt_i2c_ready p2 0" using assms(1) by (simp add: p2_def with_cursor_def bus_up_def)
  then show ?thesis
    using assms(2) 2 [folded p2_def]
    by (simp add: readRegisters_def hal_defs task_board_def on_port_def 1 bus_up_def bs_def) blast
qed

lemma idle_delay: "bus_up (hal_delay_ms idle_board ms w) = bus_up w"
  by (simp add: hal_delay_ms_def task_board_def on_port_def on_hw_def bus_up_def case_prod_beta Let_def)

lemma idle_write_all: "bus_up w \<Longrightarrow> \<exists>w'. write_all idle_board 0 0x68 rs w = (True, w') \<and> bus_up w'"
proof (induction rs arbitrary: w)
  case (Cons rv rs)
  obtain r v where rv: "rv = (r, v)" by (cases rv)
  obtain w1 where "writeRegister idle_board 0 0x68 r v w = (True, w1)" "bus_up w1"
    using idle_write [OF Cons.prems] by blast
  then show ?case using Cons.IH [of w1] by (simp add: rv)
qed simp

lemma idle_mpu_init: "\<exists>w'. mpu_init idle_board task_i2c_config w = (True, w') \<and> bus_up w'"
proof -
  obtain w1 where 1: "hal_i2c_init idle_board 0 400000 w = (0, w1)" "bus_up w1"
    by (simp add: hal_defs task_board_def on_port_def port_i2c_init_def kMaxI2cBus_def bus_up_def case_prod_beta Let_def)
  obtain w2 where 2: "readRegisters idle_board 0 0x68 0x75 1 w1 = (Some (overlay 1 [0x68]), w2)" "bus_up w2"
    using idle_read [OF 1(2), of 1 "0x75"] by auto
  obtain w3 where 3: "writeRegister idle_board 0 0x68 0x6B 0 w2 = (True, w3)" "bus_up w3"
    using idle_write [OF 2(2)] by blast
  have "bus_up (hal_delay_ms idle_board 100 w3)" using 3(2) idle_delay by blast
  then obtain w4 where 4: "write_all idle_board 0 0x68 [(0x19, 0x01), (0x1A, 0x03), (0x1B, 0x08), (0x1C, 0x08)]
      (hal_delay_ms idle_board 100 w3) = (True, w4)" "bus_up w4" using idle_write_all by blast
  show ?thesis
    by (simp add: mpu_init_def task_i2c_config_def task_consts 1 2 [simplified] 3 4 overlay_exact
        del: write_all.simps)
qed

lemma idle_mpu_read: "bus_up w \<Longrightarrow> \<exists>s w'. mpu_read idle_board task_i2c_config w = (Some s, w') \<and> bus_up w'"
proof -
  assume w: "bus_up w"
  obtain bs w1 where 1: "readRegisters idle_board 0 0x68 0x3B 14 w = (Some bs, w1)" "bus_up w1"
    using idle_read [OF w, of 14 "0x3B"] by auto
  obtain t w2 where 2: "hal_micros idle_board w1 = (t, w2)" by (metis prod.collapse)
  then have "bus_up w2" using 1(2)
    by (auto simp: hal_micros_def task_board_def on_port_def port_micros_def bus_up_def case_prod_beta Let_def)
  then show ?thesis by (simp add: mpu_read_def task_i2c_config_def task_consts 1 2)
qed

lemma idle_calibrate_loop:
  "bus_up w \<Longrightarrow> \<exists>total w'. calibrate_loop (mpu_read idle_board task_i2c_config) (hal_delay_ms idle_board 2) k acc i w =
    ((total, i + k), w')"
proof (induction k arbitrary: acc i w)
  case (Suc k)
  obtain x y z where acc: "acc = (x, y, z)" by (cases acc)
  obtain s w1 where "mpu_read idle_board task_i2c_config w = (Some s, w1)" "bus_up w1"
    using idle_mpu_read [OF Suc.prems] by blast
  then show ?case
    using Suc.IH [of "hal_delay_ms idle_board 2 w1"
        "(fadd x (im_gyro_x_dps s), fadd y (im_gyro_y_dps s), fadd z (im_gyro_z_dps s))" "Suc i"]
    by (simp add: acc idle_delay)
qed (simp, metis prod.collapse)

definition idle_world :: "(unit \<times> pwm_log) task_world" where
  "idle_world = \<lparr>tw_port = new_port ((), \<lambda>_ _. None), tw_transport = new_transport, tw_region = zero_region,
     tw_bias = (F32 0, F32 0, F32 0)\<rparr>"

lemma idle_starts:
  "\<exists>n w. node_init (task_env (recorded idle_sdk) (recorded_os idle_os) zero_libm (\<lambda>_. 0))
     (task_node (recorded idle_sdk) (recorded_os idle_os), idle_world) = (True, n, w)"
proof -
  let ?E = "task_env (recorded idle_sdk) (recorded_os idle_os) zero_libm (\<lambda>_. 0)"
  let ?se = "task_sense (recorded idle_sdk) (recorded_os idle_os)"
  obtain w1 where 1: "mpu_init idle_board task_i2c_config idle_world = (True, w1)" "bus_up w1"
    using idle_mpu_init by blast
  obtain w2 where 2: "imu_calibrate (task_imu (recorded idle_sdk) (recorded_os idle_os)) 400 w1 = (True, w2)"
  proof -
    obtain total v where "calibrate_loop (mpu_read idle_board task_i2c_config) (hal_delay_ms idle_board 2) 400
        (F32 0, F32 0, F32 0) 0 w1 = ((total, 400), v)"
      using idle_calibrate_loop [OF 1(2), of 400 "(F32 0, F32 0, F32 0)" 0] by auto
    then show ?thesis using that by (cases total) (simp add: task_imu_def mpu_backend_def mpu_calibrate_def Let_def)
  qed
  obtain se w3 where 3: "sense_init ?se idle_world = ((True, se), w3)"
  proof -
    obtain r v where "mag_init (task_mag (recorded idle_sdk) (recorded_os idle_os)) w2 = (r, v)" by (metis prod.collapse)
    then show ?thesis using that 1(1) 2
      by (simp add: sense_init_def task_sense_def) (simp add: task_imu_def mpu_backend_def)
  qed
  obtain r w4 where 4: "receiver_init (ne_rx ?E) new_receiver w3 = ((True, r), w4)"
    by (simp add: receiver_init_def rtos_uart_backend_def rtos_uart_init_def hal_defs task_board_def on_port_def
        port_uart_init_def uartBase_def task_uart_config_def task_consts case_prod_beta Let_def)
  obtain ok w5 where i: "rtos_pwm_init idle_board task_pwm_config w4 = (ok, w5)" by (metis prod.collapse)
  have ok: "ok" "lines_show (all_motors kPwmMinUs) (task_lines w5)" using task_init_shows [OF i] by simp_all
  obtain w6 where 6: "rtos_pwm_write idle_board task_pwm_config (all_motors kPwmMinUs) w5 = (True, w6)"
    using task_write_shows [OF ok(2), of idle_sdk "recorded_os idle_os" "all_motors kPwmMinUs"] by (metis prod.collapse)
  obtain a where 5: "actuator_init (ne_motor ?E) new_actuator w4 = ((True, a), w6)"
    using i ok(1) 6
    by (simp add: actuator_init_def actuator_stop_def actuator_output_def rtos_pwm_backend_def)
  obtain v where "rtt_init task_transport w6 = (True, v)"
    by (simp add: task_transport_def cmdqu_transport_def transport_init_def Let_def)
  then show ?thesis using 3 4 5
    by (simp add: node_init_def task_node_def new_node_def case_prod_beta Let_def)
qed

theorem outputs_follow_command_witness:
  "\<exists>n w lv. flight_reached (recorded idle_sdk) (recorded_os idle_os) zero_libm (\<lambda>_. 0) ((n, w), lv) \<and>
    map (line_pulse w) [7, 6, 10, 11] = replicate 4 (Some (250000, 100000))"
proof -
  obtain n w where 1: "node_init (task_env (recorded idle_sdk) (recorded_os idle_os) zero_libm (\<lambda>_. 0))
     (task_node (recorded idle_sdk) (recorded_os idle_os), idle_world) = (True, n, w)" using idle_starts by blast
  obtain lv w1 where 2: "loop_start (task_env (recorded idle_sdk) (recorded_os idle_os) zero_libm (\<lambda>_. 0)) w = (lv, w1)"
    by (metis prod.collapse)
  note r = flight_reached.start [OF 1 2]
  have "armState n = Disarmed" using boot_inv [OF 1 [unfolded task_node_def]] by simp
  then have disarmed: "armState n \<noteq> Armed" by simp
  then show ?thesis using outputs_follow_command [OF r] r by (intro exI conjI) (assumption, blast)
qed

theorem control_stops_at_wrap_witness:
  "\<exists>n' w' lv'. cycles (task_env (recorded idle_sdk) (recorded_os idle_os) zero_libm (\<lambda>_. 0)) 1000
     ((task_node (recorded idle_sdk) (recorded_os idle_os), idle_world\<lparr>tw_transport := new_transport\<lparr>tq_attached := True\<rparr>\<rparr>),
      \<lparr>lv_wake_tick = 0, lv_period_ticks = 1, lv_last_control_us = 737869760450, lv_next_control_due_us = 737869762950\<rparr>) =
    Some ((n', w'), lv') \<and> lv_next_control_due_us lv' = 737869762950"
proof -
  let ?lv = "\<lparr>lv_wake_tick = 0, lv_period_ticks = 1, lv_last_control_us = 737869760450, lv_next_control_due_us = 737869762950\<rparr>"
  let ?w = "idle_world\<lparr>tw_transport := new_transport\<lparr>tq_attached := True\<rparr>\<rparr>"
  have "737869762948 < unat (lv_next_control_due_us ?lv)" "tq_attached (tw_transport ?w)"
    "ring_ok (tq_ring (tw_transport ?w))"
    by (simp_all add: new_transport_def ring_ok_def new_ring_def kQueueDepth_def)
  from control_stops_at_wrap [OF this, of "recorded idle_sdk" "recorded_os idle_os" zero_libm "\<lambda>_. 0" 1000
      "task_node (recorded idle_sdk) (recorded_os idle_os)"] show ?thesis by auto
qed

end
