(* ===== verification/CLayout.thy ===== *)
theory CLayout
  imports Protocol
begin

text \<open>
  C declarations as data: structures, unions and arrays with the layout the compiler gives them on the
  little-endian cores; and the firmware's declaration of the shared region (\<open>comm_main.c\<close>) against the
  bytes of \<open>common/protocol.hpp\<close>. The firmware's model loads fields of the C++ region; the theorem at the
  end is why that is what its C declaration means.
\<close>

section \<open>C types and their layout\<close>

text \<open>
  A scalar has its size as alignment. The flag of a structure says \<open>packed\<close>. \<open>f_end\<close> is the first
  offset behind the last member, \<open>f_align\<close> the largest alignment of a member.
\<close>

datatype ctype =
    CScalar nat
  | CArray nat ctype
  | CStruct bool "(string \<times> ctype) list"
  | CUnion "(string \<times> ctype) list"

definition align_up :: "nat \<Rightarrow> nat \<Rightarrow> nat" where
  "align_up a n = (n + a - 1) div a * a"

fun c_align :: "ctype \<Rightarrow> nat" and f_align :: "(string \<times> ctype) list \<Rightarrow> nat" where
  "c_align (CScalar n) = n"
| "c_align (CArray n t) = c_align t"
| "c_align (CStruct packed fs) = (if packed then 1 else f_align fs)"
| "c_align (CUnion fs) = f_align fs"
| "f_align [] = 1"
| "f_align ((_, t) # fs) = max (c_align t) (f_align fs)"

fun c_size :: "ctype \<Rightarrow> nat"
  and f_end :: "bool \<Rightarrow> nat \<Rightarrow> (string \<times> ctype) list \<Rightarrow> nat"
  and f_max :: "(string \<times> ctype) list \<Rightarrow> nat" where
  "c_size (CScalar n) = n"
| "c_size (CArray n t) = n * c_size t"
| "c_size (CStruct packed fs) = align_up (if packed then 1 else f_align fs) (f_end packed 0 fs)"
| "c_size (CUnion fs) = align_up (f_align fs) (f_max fs)"
| "f_end packed pos [] = pos"
| "f_end packed pos ((_, t) # fs) = f_end packed (align_up (if packed then 1 else c_align t) pos + c_size t) fs"
| "f_max [] = 0"
| "f_max ((_, t) # fs) = max (c_size t) (f_max fs)"

text \<open>A path to a scalar, and all scalars of a type at an offset with their sizes.\<close>

datatype sel = Dot string | At nat

type_synonym cleaf = "sel list \<times> nat \<times> nat"

definition under :: "sel \<Rightarrow> cleaf list \<Rightarrow> cleaf list" where
  "under s ls = map (\<lambda>(p, a, n). (s # p, a, n)) ls"

fun c_leaves :: "nat \<Rightarrow> ctype \<Rightarrow> cleaf list"
  and s_leaves :: "bool \<Rightarrow> nat \<Rightarrow> (string \<times> ctype) list \<Rightarrow> cleaf list"
  and u_leaves :: "nat \<Rightarrow> (string \<times> ctype) list \<Rightarrow> cleaf list" where
  "c_leaves pos (CScalar n) = [([], pos, n)]"
| "c_leaves pos (CArray n t) = concat (map (\<lambda>i. under (At i) (c_leaves (pos + i * c_size t) t)) [0..<n])"
| "c_leaves pos (CStruct packed fs) = s_leaves packed pos fs"
| "c_leaves pos (CUnion fs) = u_leaves pos fs"
| "s_leaves packed pos [] = []"
| "s_leaves packed pos ((f, t) # fs) =
    (let here = align_up (if packed then 1 else c_align t) pos
     in under (Dot f) (c_leaves here t) @ s_leaves packed (here + c_size t) fs)"
| "u_leaves pos [] = []"
| "u_leaves pos ((f, t) # fs) = under (Dot f) (c_leaves pos t) @ u_leaves pos fs"

text \<open>The offset of the scalar that a path leads to.\<close>

fun c_find :: "nat \<Rightarrow> ctype \<Rightarrow> sel list \<Rightarrow> nat option"
  and s_find :: "bool \<Rightarrow> nat \<Rightarrow> (string \<times> ctype) list \<Rightarrow> string \<Rightarrow> sel list \<Rightarrow> nat option"
  and u_find :: "nat \<Rightarrow> (string \<times> ctype) list \<Rightarrow> string \<Rightarrow> sel list \<Rightarrow> nat option" where
  "c_find pos (CScalar n) p = (if p = [] then Some pos else None)"
| "c_find pos (CArray n t) p =
    (case p of At i # q \<Rightarrow> if i < n then c_find (pos + i * c_size t) t q else None | _ \<Rightarrow> None)"
| "c_find pos (CStruct packed fs) p = (case p of Dot f # q \<Rightarrow> s_find packed pos fs f q | _ \<Rightarrow> None)"
| "c_find pos (CUnion fs) p = (case p of Dot f # q \<Rightarrow> u_find pos fs f q | _ \<Rightarrow> None)"
| "s_find packed pos [] f q = None"
| "s_find packed pos ((g, t) # fs) f q =
    (let here = align_up (if packed then 1 else c_align t) pos
     in if f = g then c_find here t q else s_find packed (here + c_size t) fs f q)"
| "u_find pos [] f q = None"
| "u_find pos ((g, t) # fs) f q = (if f = g then c_find pos t q else u_find pos fs f q)"

definition c_offset :: "ctype \<Rightarrow> sel list \<Rightarrow> nat option" where
  "c_offset t p = c_find 0 t p"

text \<open>A little-endian load of a scalar from memory.\<close>

fun le_value :: "u8 list \<Rightarrow> nat" where
  "le_value [] = 0"
| "le_value (b # bs) = unat b + 256 * le_value bs"

definition load_at :: "u8 list \<Rightarrow> nat \<Rightarrow> nat \<Rightarrow> nat" where
  "load_at bytes off n = le_value (take n (drop off bytes))"

definition view :: "ctype \<Rightarrow> u8 list \<Rightarrow> (sel list \<times> nat) list" where
  "view t bytes = map (\<lambda>(p, a, n). (p, load_at bytes a n)) (c_leaves 0 t)"

section \<open>The firmware's declarations of the shared region\<close>

abbreviation "c_float \<equiv> CScalar 4"
abbreviation "c_uint8_t \<equiv> CScalar 1"
abbreviation "c_uint16_t \<equiv> CScalar 2"
abbreviation "c_uint32_t \<equiv> CScalar 4"
abbreviation "c_uint64_t \<equiv> CScalar 8"
abbreviation "c_char \<equiv> CScalar 1"
abbreviation "c_int \<equiv> CScalar 4"

definition amp_command_setpoint_t :: ctype where
  "amp_command_setpoint_t = CStruct True [(''throttle'', c_float), (''roll_deg'', c_float),
     (''pitch_deg'', c_float), (''yaw_rate_dps'', c_float), (''seq'', c_uint32_t)]"

definition amp_command_arm_t :: ctype where
  "amp_command_arm_t = CStruct True [(''state'', c_uint8_t), (''reserved0'', c_uint8_t),
     (''reserved1'', c_uint8_t), (''reserved2'', c_uint8_t)]"

definition amp_heartbeat_t :: ctype where
  "amp_heartbeat_t = CStruct True [(''monotonic_us'', c_uint64_t), (''seq'', c_uint32_t)]"

definition amp_command_emergency_stop_t :: ctype where
  "amp_command_emergency_stop_t = CStruct True [(''reason'', c_uint32_t)]"

definition amp_flight_config_t :: ctype where
  "amp_flight_config_t = CStruct True [(''angle_p'', c_float), (''rate_p'', c_float),
     (''rate_i'', c_float), (''rate_d'', c_float), (''throttle_expo'', c_float),
     (''deadzone_us'', c_uint16_t), (''reserved0'', c_uint16_t), (''update_seq'', c_uint32_t)]"

definition amp_rt_report_t :: ctype where
  "amp_rt_report_t = CStruct True [(''monotonic_us'', c_uint64_t), (''roll_deg'', c_float),
     (''pitch_deg'', c_float), (''yaw_deg'', c_float), (''roll_rate_dps'', c_float),
     (''pitch_rate_dps'', c_float), (''yaw_rate_dps'', c_float),
     (''motor_pwm_us'', CArray 4 c_uint16_t), (''status_flags'', c_uint32_t), (''seq'', c_uint32_t)]"

definition AMP_SHARED_SLOT :: "ctype \<Rightarrow> ctype" where
  "AMP_SHARED_SLOT t = CStruct True [(''seq'', c_uint32_t), (''payload'', t), (''payload_crc'', c_uint32_t)]"

definition amp_shared_command_region_t :: ctype where
  "amp_shared_command_region_t = CStruct True [(''magic'', c_uint32_t), (''version'', c_uint32_t),
     (''setpoint'', AMP_SHARED_SLOT amp_command_setpoint_t), (''arm'', AMP_SHARED_SLOT amp_command_arm_t),
     (''heartbeat'', AMP_SHARED_SLOT amp_heartbeat_t),
     (''emergency_stop'', AMP_SHARED_SLOT amp_command_emergency_stop_t),
     (''config'', AMP_SHARED_SLOT amp_flight_config_t), (''rt_report'', AMP_SHARED_SLOT amp_rt_report_t)]"

lemmas region_decls = amp_command_setpoint_t_def amp_command_arm_t_def amp_heartbeat_t_def
  amp_command_emergency_stop_t_def amp_flight_config_t_def amp_rt_report_t_def AMP_SHARED_SLOT_def
  amp_shared_command_region_t_def

section \<open>The region as the firmware sees it\<close>

text \<open>
  The fields of the C++ region under the names the firmware's declaration gives them. A float counts
  with its bits.
\<close>

definition f32_num :: "f32 \<Rightarrow> nat" where "f32_num x = unat (fbits x)"

definition slot_view :: "string \<Rightarrow> (sel list \<times> nat) list \<Rightarrow> 'a shared_slot \<Rightarrow> (sel list \<times> nat) list" where
  "slot_view name payload s =
    ([Dot name, Dot ''seq''], unat (slot_seq s)) #
    map (\<lambda>(p, v). (Dot name # Dot ''payload'' # p, v)) payload @
    [([Dot name, Dot ''payload_crc''], unat (slot_crc s))]"

definition setpoint_view :: "command_setpoint \<Rightarrow> (sel list \<times> nat) list" where
  "setpoint_view p = [([Dot ''throttle''], f32_num (sp_throttle p)), ([Dot ''roll_deg''], f32_num (sp_roll_deg p)),
     ([Dot ''pitch_deg''], f32_num (sp_pitch_deg p)), ([Dot ''yaw_rate_dps''], f32_num (sp_yaw_rate_dps p)),
     ([Dot ''seq''], unat (sp_seq p))]"

definition arm_view :: "command_arm \<Rightarrow> (sel list \<times> nat) list" where
  "arm_view p = [([Dot ''state''], unat (ca_state p)), ([Dot ''reserved0''], unat (ca_reserved0 p)),
     ([Dot ''reserved1''], unat (ca_reserved1 p)), ([Dot ''reserved2''], unat (ca_reserved2 p))]"

definition heartbeat_view :: "heartbeat \<Rightarrow> (sel list \<times> nat) list" where
  "heartbeat_view p = [([Dot ''monotonic_us''], unat (hb_monotonic_us p)), ([Dot ''seq''], unat (hb_seq p))]"

definition emergency_fields :: "command_emergency \<Rightarrow> (sel list \<times> nat) list" where
  "emergency_fields p = [([Dot ''reason''], unat (ce_reason p))]"

definition config_view :: "flight_config \<Rightarrow> (sel list \<times> nat) list" where
  "config_view p = [([Dot ''angle_p''], f32_num (fc_angle_p p)), ([Dot ''rate_p''], f32_num (fc_rate_p p)),
     ([Dot ''rate_i''], f32_num (fc_rate_i p)), ([Dot ''rate_d''], f32_num (fc_rate_d p)),
     ([Dot ''throttle_expo''], f32_num (fc_throttle_expo p)), ([Dot ''deadzone_us''], unat (fc_deadzone_us p)),
     ([Dot ''reserved0''], unat (fc_reserved0 p)), ([Dot ''update_seq''], unat (fc_update_seq p))]"

definition report_view :: "rt_report \<Rightarrow> (sel list \<times> nat) list" where
  "report_view p = [([Dot ''monotonic_us''], unat (rr_monotonic_us p)), ([Dot ''roll_deg''], f32_num (rr_roll_deg p)),
     ([Dot ''pitch_deg''], f32_num (rr_pitch_deg p)), ([Dot ''yaw_deg''], f32_num (rr_yaw_deg p)),
     ([Dot ''roll_rate_dps''], f32_num (rr_roll_rate_dps p)),
     ([Dot ''pitch_rate_dps''], f32_num (rr_pitch_rate_dps p)),
     ([Dot ''yaw_rate_dps''], f32_num (rr_yaw_rate_dps p)),
     ([Dot ''motor_pwm_us'', At 0], unat (m0 (rr_motor_pwm_us p))),
     ([Dot ''motor_pwm_us'', At 1], unat (m1 (rr_motor_pwm_us p))),
     ([Dot ''motor_pwm_us'', At 2], unat (m2 (rr_motor_pwm_us p))),
     ([Dot ''motor_pwm_us'', At 3], unat (m3 (rr_motor_pwm_us p))),
     ([Dot ''status_flags''], unat (rr_status_flags p)), ([Dot ''seq''], unat (rr_seq p))]"

definition region_view :: "shared_region \<Rightarrow> (sel list \<times> nat) list" where
  "region_view r =
    ([Dot ''magic''], unat (sr_magic r)) # ([Dot ''version''], unat (sr_version r)) #
    slot_view ''setpoint'' (setpoint_view (slot_payload (sr_setpoint r))) (sr_setpoint r) @
    slot_view ''arm'' (arm_view (slot_payload (sr_arm r))) (sr_arm r) @
    slot_view ''heartbeat'' (heartbeat_view (slot_payload (sr_heartbeat r))) (sr_heartbeat r) @
    slot_view ''emergency_stop'' (emergency_fields (slot_payload (sr_emergency r))) (sr_emergency r) @
    slot_view ''config'' (config_view (slot_payload (sr_config r))) (sr_config r) @
    slot_view ''rt_report'' (report_view (slot_payload (sr_rt_report r))) (sr_rt_report r)"

subsection \<open>Loads from appended encodings\<close>

lemma unat_byte_at: "unat (byte_at i w) = unat w div 2 ^ (8 * i) mod 2 ^ 8"
proof -
  have "unat (drop_bit (8 * i) w) = unat w div 2 ^ (8 * i)"
    by (metis unat_drop_bit_eq drop_bit_eq_div)
  then show ?thesis by (simp only: byte_at_def unat_ucast_mod) simp
qed

lemma le_value_bytes: "le_value (map (\<lambda>i. byte_at i w) [j..<j + k]) = unat w div 2 ^ (8 * j) mod 2 ^ (8 * k)"
proof (induction k arbitrary: j)
  case (Suc k)
  let ?n = "unat w div 2 ^ (8 * j)"
  have shift: "unat w div 2 ^ (8 * Suc j) = ?n div 2 ^ 8"
    by (simp add: power_add div_mult2_eq [symmetric] mult.commute)
  have "le_value (map (\<lambda>i. byte_at i w) [j..<j + Suc k]) =
      unat (byte_at j w) + 256 * le_value (map (\<lambda>i. byte_at i w) [Suc j..<Suc j + k])"
    by (subst upt_conv_Cons) (simp_all del: upt_Suc)
  also have "\<dots> = ?n mod 2 ^ 8 + 2 ^ 8 * (?n div 2 ^ 8 mod 2 ^ (8 * k))"
    using Suc.IH [of "Suc j"] unfolding shift by (simp add: unat_byte_at del: upt_Suc)
  also have "\<dots> = ?n mod (2 ^ 8 * 2 ^ (8 * k))"
    by (simp only: mod_mult2_eq add.commute)
  finally show ?case by (simp add: power_add)
qed simp

lemma le_value_le: "le_value (le16 a) = unat a" "le_value (le32 b) = unat b" "le_value (le64 c) = unat c"
proof -
  have bound: "unat a < 2 ^ LENGTH(16)" "unat b < 2 ^ LENGTH(32)" "unat c < 2 ^ LENGTH(64)"
    by (rule unsigned_less)+
  have upt: "[0, 1] = [0..<0 + 2]" "[0, 1, 2, 3] = [0..<0 + 4]" "[0, 1, 2, 3, 4, 5, 6, 7] = [0..<0 + 8]"
    by (simp_all add: upt_rec)
  show "le_value (le16 a) = unat a"
    using bound by (simp only: le16_def upt le_value_bytes) simp
  show "le_value (le32 b) = unat b"
    using bound by (simp only: le32_def upt le_value_bytes) simp
  show "le_value (le64 c) = unat c"
    using bound by (simp only: le64_def upt le_value_bytes) simp
qed

lemma le_value_f32: "le_value (le_f32 x) = f32_num x"
  by (simp add: le_f32_def f32_num_def le_value_le)

lemma load_at_skip: "length a \<le> off \<Longrightarrow> load_at (a @ b) off n = load_at b (off - length a) n"
  by (simp add: load_at_def)

lemma load_at_here: "length a = n \<Longrightarrow> load_at (a @ b) 0 n = le_value a"
  by (simp add: load_at_def)

lemma load_at_last: "length a = n \<Longrightarrow> load_at a 0 n = le_value a"
  by (simp add: load_at_def)

lemma load_at_byte: "0 < off \<Longrightarrow> load_at (b # bs) off n = load_at bs (off - 1) n"
  "load_at (b # bs) 0 1 = unat b"
  by (simp_all add: load_at_def drop_Cons')

section \<open>The two declarations agree\<close>

lemmas region_images = region_bytes_def slot_bytes_def setpoint_bytes_def arm_bytes_def heartbeat_bytes_def
  emergency_bytes_def config_bytes_def report_bytes_def

lemmas region_views = region_view_def slot_view_def setpoint_view_def arm_view_def heartbeat_view_def
  emergency_fields_def config_view_def report_view_def

lemma region_size: "c_size amp_shared_command_region_t = length (region_bytes r)"
  by (cases "rr_motor_pwm_us (slot_payload (sr_rt_report r))") (simp add: region_decls align_up_def region_images)

text \<open>C28: The firmware's declaration of the shared region and the C++ one have the same size, and a load
  of any field at its offset in the firmware's declaration from the bytes of a region gives that field.\<close>

theorem firmware_region_layout:
  "c_size amp_shared_command_region_t = length (region_bytes r) \<and>
   view amp_shared_command_region_t (region_bytes r) = region_view r"
proof
  obtain a b c d where m: "rr_motor_pwm_us (slot_payload (sr_rt_report r)) = Motors a b c d" by (metis motors.exhaust)
  show "view amp_shared_command_region_t (region_bytes r) = region_view r"
    by (simp add: view_def region_decls align_up_def under_def region_images region_views m append_assoc
        load_at_byte [simplified] load_at_skip load_at_here load_at_last le_value_le le_value_f32 upt_rec)
qed (rule region_size)

end
