(* ===== verification/DriverAbi.thy ===== *)
theory DriverAbi
  imports CLayout LinuxMailbox
begin

text \<open>
  The headers of the mailbox driver, \<open>help/cvi_mailbox.h\<close> and \<open>help/rtos_cmdqu.h\<close>: the register blocks and
  the command as C declarations, and the driver's request numbers, against the commands that the model
  packs (\<open>Cmdqu\<close>) and the requests that Linux sends (\<open>LinuxMailbox\<close>).
\<close>

section \<open>The mailbox registers\<close>

definition cpu_mailbox_info_offset :: ctype where
  "cpu_mailbox_info_offset = CUnion [(''mbox_info'', c_char), (''reserved'', c_int)]"
definition cpu_mailbox_int_clr_offset :: ctype where
  "cpu_mailbox_int_clr_offset = CUnion [(''mbox_int_clr'', c_char), (''reserved'', c_int)]"
definition cpu_mailbox_int_mask_offset :: ctype where
  "cpu_mailbox_int_mask_offset = CUnion [(''mbox_int_mask'', c_char), (''reserved'', c_int)]"
definition cpu_mailbox_int_offset :: ctype where
  "cpu_mailbox_int_offset = CUnion [(''mbox_int'', c_char), (''reserved'', c_int)]"
definition cpu_mailbox_int_raw_offset :: ctype where
  "cpu_mailbox_int_raw_offset = CUnion [(''mbox_int_raw'', c_char), (''reserved'', c_int)]"
definition mailbox_set :: ctype where
  "mailbox_set = CUnion [(''mbox_set'', c_char), (''reserved'', c_int)]"
definition mailbox_status :: ctype where
  "mailbox_status = CUnion [(''mbox_status'', c_char), (''reserved'', c_int)]"
definition cpu_mailbox_status :: ctype where
  "cpu_mailbox_status = CUnion [(''mbox_status'', c_char), (''reserved'', c_int)]"

definition cpu_mbox_int :: ctype where
  "cpu_mbox_int = CStruct False [(''cpu_mbox_int_clr'', cpu_mailbox_int_clr_offset),
     (''cpu_mbox_int_mask'', cpu_mailbox_int_mask_offset), (''cpu_mbox_int_int'', cpu_mailbox_int_offset),
     (''cpu_mbox_int_raw'', cpu_mailbox_int_raw_offset)]"

definition mailbox_set_register :: ctype where
  "mailbox_set_register = CStruct False [(''cpu_mbox_en'', CArray 4 cpu_mailbox_info_offset),
     (''cpu_mbox_set'', CArray 4 cpu_mbox_int), (''reserved'', CArray 4 c_int), (''mbox_set'', mailbox_set),
     (''mbox_status'', mailbox_status), (''reserved2'', CArray 2 c_int),
     (''cpu_mbox_status'', CArray 4 cpu_mailbox_status)]"

definition mailbox_done_register :: ctype where
  "mailbox_done_register = CStruct False [(''cpu_mbox_done_en'', CArray 4 cpu_mailbox_info_offset),
     (''cpu_mbox_done'', CArray 4 cpu_mbox_int)]"

text \<open>The command of the mailbox: eight bytes, its two bit fields in one byte, aligned to eight.\<close>

definition valid_t :: ctype where
  "valid_t = CStruct True [(''linux_valid'', CScalar 1), (''rtos_valid'', CScalar 1)]"

definition resv_t :: ctype where
  "resv_t = CUnion [(''valid'', valid_t), (''mstime'', CScalar 2)]"

definition cmdqu_t :: ctype where
  "cmdqu_t = CStruct True [(''ip_id'', CScalar 1), (''cmd_id_block'', CScalar 1), (''resv'', resv_t),
     (''param_ptr'', CScalar 4)]"

lemmas register_decls = cpu_mailbox_info_offset_def cpu_mailbox_int_clr_offset_def
  cpu_mailbox_int_mask_offset_def cpu_mailbox_int_offset_def cpu_mailbox_int_raw_offset_def
  mailbox_set_def mailbox_status_def cpu_mailbox_status_def cpu_mbox_int_def mailbox_set_register_def
  mailbox_done_register_def valid_t_def resv_t_def cmdqu_t_def


definition MAILBOX_CONTEXT_OFFSET :: nat where "MAILBOX_CONTEXT_OFFSET = 0x0400"

section \<open>The driver's requests\<close>

datatype system_cmd_type = CMDQU_SEND | CMDQU_REQUEST | CMDQU_REQUEST_FREE | CMDQU_SEND_WAIT | CMDQU_SEND_WAKEUP

fun system_cmd_nr :: "system_cmd_type \<Rightarrow> u64" where
  "system_cmd_nr CMDQU_SEND = 1"
| "system_cmd_nr CMDQU_REQUEST = 2"
| "system_cmd_nr CMDQU_REQUEST_FREE = 3"
| "system_cmd_nr CMDQU_SEND_WAIT = 4"
| "system_cmd_nr CMDQU_SEND_WAKEUP = 5"

definition RTOS_CMDQU :: "system_cmd_type \<Rightarrow> u64" where
  "RTOS_CMDQU c = iow_r (system_cmd_nr c)"

section \<open>Registers and commands\<close>

text \<open>The registers of the mailbox lie at the offsets the header's comments give them, four cores apart by
  their structure's size, and end before the buffer of the commands.\<close>

theorem mailbox_register_offsets:
  "map (\<lambda>i. c_offset mailbox_set_register [Dot ''cpu_mbox_en'', At i, Dot ''mbox_info'']) [0, 1, 2, 3] =
     map Some [0x00, 0x04, 0x08, 0x0C] \<and>
   map (\<lambda>i. c_offset mailbox_set_register
      [Dot ''cpu_mbox_set'', At i, Dot ''cpu_mbox_int_clr'', Dot ''mbox_int_clr'']) [0, 1, 2, 3] =
     map Some [0x10, 0x20, 0x30, 0x40] \<and>
   map (\<lambda>i. c_offset mailbox_set_register
      [Dot ''cpu_mbox_set'', At i, Dot ''cpu_mbox_int_int'', Dot ''mbox_int'']) [0, 1, 2, 3] =
     map Some [0x18, 0x28, 0x38, 0x48] \<and>
   c_offset mailbox_set_register [Dot ''mbox_set'', Dot ''mbox_set''] = Some 0x60 \<and>
   c_offset mailbox_set_register [Dot ''mbox_status'', Dot ''mbox_status''] = Some 0x64 \<and>
   c_offset mailbox_set_register [Dot ''cpu_mbox_status'', At 0, Dot ''mbox_status''] = Some 0x70 \<and>
   c_size mailbox_set_register \<le> MAILBOX_CONTEXT_OFFSET"
  by (simp add: c_offset_def register_decls align_up_def MAILBOX_CONTEXT_OFFSET_def)

lemma head_bytes:
  assumes "cq_cmd_id c < 0x80"
  shows "byte_at 0 (cmdqu_head c) = cq_ip_id c"
    "byte_at 1 (cmdqu_head c) = cq_cmd_id c OR (if cq_block c then 0x80 else 0)"
    "byte_at 2 (cmdqu_head c) = cq_linux_valid c" "byte_at 3 (cmdqu_head c) = cq_rtos_valid c"
proof -
  have e: "bit (0x80 :: u8) n \<longleftrightarrow> n = 7" for n
    using bit_push_bit_iff [of 7 "1 :: u8" n] by (auto simp: bit_1_iff)
  note B = bit_byte_at head_bits [OF assms]
  show "byte_at 0 (cmdqu_head c) = cq_ip_id c" by (rule bit_word_eqI) (simp add: B)
  show "byte_at 2 (cmdqu_head c) = cq_linux_valid c" by (rule bit_word_eqI) (simp add: B)
  show "byte_at 3 (cmdqu_head c) = cq_rtos_valid c" by (rule bit_word_eqI) (simp add: B)
  show "byte_at 1 (cmdqu_head c) = cq_cmd_id c OR (if cq_block c then 0x80 else 0)"
  proof (rule bit_word_eqI)
    fix n assume "n < LENGTH(8)"
    then consider "n < 7" | "n = 7" by fastforce
    then show "bit (byte_at 1 (cmdqu_head c)) n = bit (cq_cmd_id c OR (if cq_block c then 0x80 else 0)) n"
    proof cases
      case 1
      then have "\<not> bit (0x80 :: u8) n" using e [of n] by blast
      with 1 show ?thesis by (simp add: B bit_or_iff)
    next
      case 2
      then have "bit (0x80 :: u8) n" "\<not> bit (cq_cmd_id c) n" using e [of n] bit_low_7 [OF assms, of n] by auto
      with 2 show ?thesis by (simp add: B bit_or_iff)
    qed
  qed
qed

lemma cmdqu_leaves:
  "c_leaves 0 cmdqu_t = [([Dot ''ip_id''], 0, 1), ([Dot ''cmd_id_block''], 1, 1),
     ([Dot ''resv'', Dot ''valid'', Dot ''linux_valid''], 2, 1),
     ([Dot ''resv'', Dot ''valid'', Dot ''rtos_valid''], 3, 1), ([Dot ''resv'', Dot ''mstime''], 2, 2),
     ([Dot ''param_ptr''], 4, 4)]" "c_size cmdqu_t = 8"
  by (simp_all add: register_decls align_up_def under_def numeral_2_eq_2 [symmetric] numeral_3_eq_3 [symmetric])

text \<open>The two words into which a command is packed are the bytes of the driver's structure: each member
  read at its declared offset is the field, and a structure fills a slot of eight bytes.\<close>

theorem command_layout:
  assumes "cq_cmd_id c < 0x80"
  shows "c_size cmdqu_t = 8 \<and>
    view cmdqu_t (le32 (cmdqu_head c) @ le32 (cq_param_ptr c)) =
     [([Dot ''ip_id''], unat (cq_ip_id c)),
      ([Dot ''cmd_id_block''], unat (cq_cmd_id c OR (if cq_block c then 0x80 else 0))),
      ([Dot ''resv'', Dot ''valid'', Dot ''linux_valid''], unat (cq_linux_valid c)),
      ([Dot ''resv'', Dot ''valid'', Dot ''rtos_valid''], unat (cq_rtos_valid c)),
      ([Dot ''resv'', Dot ''mstime''], unat (cq_linux_valid c) + 256 * unat (cq_rtos_valid c)),
      ([Dot ''param_ptr''], unat (cq_param_ptr c))]"
proof -
  have b: "le32 (cmdqu_head c) = [cq_ip_id c, cq_cmd_id c OR (if cq_block c then 0x80 else 0),
      cq_linux_valid c, cq_rtos_valid c]"
    using head_bytes [OF assms] by (simp add: le32_def)
  have two: "load_at (x # y # bs) 0 2 = unat x + 256 * unat y" for x y bs
    by (simp add: load_at_def eval_nat_numeral)
  show ?thesis
    by (simp add: view_def cmdqu_leaves b two load_at_byte [simplified] load_at_last le_value_le)
qed

theorem command_layout_witness:
  "c_size cmdqu_t = 8 \<and> view cmdqu_t (le32 (cmdqu_head (announcement 0x83F00000)) @ le32 0x83F00000) \<noteq> []"
  using command_layout [of "announcement 0x83F00000"] by (simp add: announcement_def cmd_code.simps)

section \<open>The request of an acknowledged command\<close>

text \<open>C29: A command that Linux wants acknowledged reaches the driver under the number that the driver's header
  gives to registering for commands, not under the number of sending and waiting.\<close>

theorem acknowledged_send_is_request:
  assumes "\<not> mt_fallback_mode t" "\<not> mt_fd t < 0"
  shows "RTOS_CMDQU CMDQU_REQUEST \<noteq> RTOS_CMDQU CMDQU_SEND_WAIT \<and>
    (\<exists>cmd. cq_block cmd \<and> sendCommand L cmd_id param True timeout_ms (t, w) =
      (let (ret, w') = sys_ioctl L (mt_fd t) (RTOS_CMDQU CMDQU_REQUEST) cmd w in (\<not> ret < 0, t, w')))"
proof
  let ?cmd = "\<lparr>cq_ip_id = 0, cq_cmd_id = cmd_id AND 0x7F, cq_block = True, cq_linux_valid = ucast timeout_ms,
    cq_rtos_valid = ucast (drop_bit 8 timeout_ms), cq_param_ptr = param\<rparr>"
  have "RTOS_CMDQU CMDQU_REQUEST = kRtosCmdquSendWait" by (simp add: RTOS_CMDQU_def kRtosCmdquSendWait_def)
  then show "\<exists>cmd. cq_block cmd \<and> sendCommand L cmd_id param True timeout_ms (t, w) =
      (let (ret, w') = sys_ioctl L (mt_fd t) (RTOS_CMDQU CMDQU_REQUEST) cmd w in (\<not> ret < 0, t, w'))"
    using assms by (intro exI [of _ ?cmd]) (simp add: sendCommand_def)
  show "RTOS_CMDQU CMDQU_REQUEST \<noteq> RTOS_CMDQU CMDQU_SEND_WAIT" by (simp add: RTOS_CMDQU_def iow_r_def)
qed

theorem acknowledged_send_is_request_witness:
  "\<exists>cmd. cq_block cmd \<and> snd (snd (sendCommand (linux_bench_os phys_env (\<lambda>_. False)) 0x20 5 True 100
     (bench_mapped\<lparr>mt_fd := 4\<rparr>, linux_bench0))) = linux_bench0\<lparr>lb_sent := lb_sent linux_bench0 @ [cmd]\<rparr>"
proof -
  let ?L = "linux_bench_os phys_env (\<lambda>_. False)" and ?t = "bench_mapped\<lparr>mt_fd := 4\<rparr>"
  have "\<not> mt_fallback_mode ?t" "\<not> mt_fd ?t < 0" by (simp_all add: bench_mapped_def new_mailbox_def)
  from acknowledged_send_is_request [OF this, of ?L "0x20" "5" "100" linux_bench0]
  obtain cmd where "cq_block cmd" "sendCommand ?L 0x20 5 True 100 (?t, linux_bench0) =
      (let (ret, w') = sys_ioctl ?L (mt_fd ?t) (RTOS_CMDQU CMDQU_REQUEST) cmd linux_bench0
       in (\<not> ret < 0, ?t, w'))" by blast
  then show ?thesis by (intro exI [of _ cmd]) (simp add: linux_bench_os_def)
qed

end
