(* ===== verification/FwStart.thy ===== *)
theory FwStart
  imports FwMailbox DriverAbi
begin

text \<open>
  Start of the firmware in \<open>comm_main.c\<close>: the table of tasks, the mailbox pointers, the interrupt, the queue and
  the task, up to FreeRTOS's scheduler. Shows what each start leaves behind, that a start without memory for the
  queue runs no task, and that the interrupt is enabled before its queue exists.
\<close>

section \<open>The table of tasks\<close>

datatype run_task = prvCmdQuRunTask

text \<open>\<open>None\<close> is the null handle and the null function.\<close>

record task_ctx =
  tc_name :: string
  tc_stack_size :: u16
  tc_priority :: nat
  tc_runTask :: "run_task option"
  tc_queLength :: u8
  tc_queHandle :: "u64 option"

text \<open>
  FreeRTOS's configuration is the minimal stack size; its documentation fixes the idle priority at 0. The product
  is stored in 16 bits.
\<close>

definition tskIDLE_PRIORITY :: nat where "tskIDLE_PRIORITY = 0"

definition gTaskCtx :: "nat \<Rightarrow> task_ctx list" where
  "gTaskCtx configMINIMAL_STACK_SIZE =
    [\<lparr>tc_name = ''CMDQU'', tc_stack_size = of_nat (configMINIMAL_STACK_SIZE * 4),
      tc_priority = tskIDLE_PRIORITY + 5, tc_runTask = Some prvCmdQuRunTask, tc_queLength = 30,
      tc_queHandle = None\<rparr>]"

section \<open>The mailbox\<close>

record mailbox_ptrs =
  mbox_reg :: u64
  mbox_done_reg :: u64
  mailbox_context :: u64

definition mailbox_hw_init :: "u32 \<Rightarrow> u64 \<Rightarrow> mailbox_ptrs" where
  "mailbox_hw_init MAILBOX_REG_BASE MAILBOX_REG_BUFF =
    (let reg_base = MAILBOX_REG_BASE
     in \<lparr>mbox_reg = ucast reg_base, mbox_done_reg = ucast (reg_base + 2), mailbox_context = MAILBOX_REG_BUFF\<rparr>)"

definition MBOX_INT_C906_2ND :: nat where "MBOX_INT_C906_2ND = 61"

section \<open>Start\<close>

text \<open>
  The state while \<open>main_cvirtos\<close> runs: the firmware's variables, the table, and the world. An interrupt that comes
  during the start runs on it, so \<open>request_irq\<close> takes the handler: FreeRTOS and the interrupt controller decide
  whether it runs at once. The mailbox hardware \<open>M\<close> depends on the queue handle.
\<close>

type_synonym 'w start = "fw \<times> task_ctx list \<times> 'w"

record 'w rtos_start =
  rs_min_stack :: nat
  rs_reg_base :: u32
  rs_reg_buff :: u64
  rs_spinlock_init :: "'w \<Rightarrow> 'w"
  rs_request_irq :: "nat \<Rightarrow> ('w start \<Rightarrow> 'w start) \<Rightarrow> 'w start \<Rightarrow> 'w start"
  rs_xQueueCreate :: "u8 \<Rightarrow> nat \<Rightarrow> 'w \<Rightarrow> u64 option \<times> 'w"
  rs_xTaskCreate :: "run_task \<Rightarrow> string \<Rightarrow> u16 \<Rightarrow> nat \<Rightarrow> 'w \<Rightarrow> 'w"
  rs_StartScheduler :: "'w start \<Rightarrow> 'w start option"

definition queue_isr :: "(u64 option \<Rightarrow> 'w mail_hw) \<Rightarrow> 'w start \<Rightarrow> 'w start" where
  "queue_isr M = (\<lambda>(s, ctx, w). let (s, w) = prvQueueISR (M (tc_queHandle (ctx ! 0))) (s, w) in (s, ctx, w))"

definition TASK_INIT :: "'w rtos_start \<Rightarrow> task_ctx list \<times> 'w \<Rightarrow> nat \<Rightarrow> task_ctx list \<times> 'w" where
  "TASK_INIT F = (\<lambda>(ctx, w) idx.
    (let t = ctx ! idx;
         (h, w) = rs_xQueueCreate F (tc_queLength t) (c_size cmdqu_t) w;
         ctx = ctx[idx := t\<lparr>tc_queHandle := h\<rparr>]
     in case (h, tc_runTask t) of
          (Some _, Some run) \<Rightarrow> (ctx, rs_xTaskCreate F run (tc_name t) (tc_stack_size t) (tc_priority t) w)
        | _ \<Rightarrow> (ctx, w)))"

definition main_create_tasks :: "'w rtos_start \<Rightarrow> task_ctx list \<times> 'w \<Rightarrow> task_ctx list \<times> 'w" where
  "main_create_tasks F = (\<lambda>(ctx, w). foldl (TASK_INIT F) (ctx, w) [0..<length ctx])"

definition cvirtos_start :: "'w rtos_start \<Rightarrow> (u64 option \<Rightarrow> 'w mail_hw) \<Rightarrow> 'w \<Rightarrow> mailbox_ptrs \<times> 'w start" where
  "cvirtos_start F M w =
    (let p = mailbox_hw_init (rs_reg_base F) (rs_reg_buff F);
         w = rs_spinlock_init F w;
         (s, ctx, w) = rs_request_irq F MBOX_INT_C906_2ND (queue_isr M) (fw_boot, gTaskCtx (rs_min_stack F), w);
         (ctx, w) = main_create_tasks F (ctx, w)
     in (p, s, ctx, w))"

text \<open>The empty loop behind the scheduler.\<close>

partial_function (option) cvirtos_end :: "'a \<Rightarrow> 'a option" where
  "cvirtos_end x = cvirtos_end x"

definition main_cvirtos :: "'w rtos_start \<Rightarrow> (u64 option \<Rightarrow> 'w mail_hw) \<Rightarrow> 'w \<Rightarrow> 'w start option" where
  "main_cvirtos F M w = (case cvirtos_start F M w of (_, x) \<Rightarrow> Option.bind (rs_StartScheduler F x) cvirtos_end)"

section \<open>What a start leaves behind\<close>

text \<open>The handler changes neither the table nor, therefore, the queue it uses.\<close>

lemma queue_isr_rounds:
  "(queue_isr M ^^ k) (s, ctx, w) =
   (let (s, w) = (prvQueueISR (M (tc_queHandle (ctx ! 0))) ^^ k) (s, w) in (s, ctx, w))"
  by (induction k) (simp_all add: queue_isr_def case_prod_beta Let_def)

text \<open>
  The interrupts that come before \<open>main_create_tasks\<close>, however many, fill a queue that does not exist; then the
  task is created exactly when its queue is, for commands of eight bytes; without a queue the scheduler is
  started all the same, and nothing polls the receiver or the region.
\<close>

lemma cmdqu_size: "c_size cmdqu_t = 8"
  by code_simp

lemma main_create_tasks_eq:
  "main_create_tasks F (gTaskCtx n, w) =
   (case rs_xQueueCreate F 30 8 w of
      (None, w) \<Rightarrow> (gTaskCtx n, w)
    | (Some q, w) \<Rightarrow> ([hd (gTaskCtx n)\<lparr>tc_queHandle := Some q\<rparr>],
        rs_xTaskCreate F prvCmdQuRunTask ''CMDQU'' (of_nat (n * 4)) 5 w))"
  by (simp add: main_create_tasks_def TASK_INIT_def gTaskCtx_def tskIDLE_PRIORITY_def cmdqu_size Let_def
      split: prod.splits option.splits)

theorem start_outcome:
  assumes "rs_request_irq F MBOX_INT_C906_2ND (queue_isr M) (fw_boot, gTaskCtx (rs_min_stack F), rs_spinlock_init F w) =
    (queue_isr M ^^ k) (fw_boot, gTaskCtx (rs_min_stack F), w0)"
  shows "snd (cvirtos_start F M w) =
    (case (prvQueueISR (M None) ^^ k) (fw_boot, w0) of (s, w1) \<Rightarrow>
       (case rs_xQueueCreate F 30 8 w1 of
          (None, w2) \<Rightarrow> (s, gTaskCtx (rs_min_stack F), w2)
        | (Some q, w2) \<Rightarrow> (s, [hd (gTaskCtx (rs_min_stack F))\<lparr>tc_queHandle := Some q\<rparr>],
            rs_xTaskCreate F prvCmdQuRunTask ''CMDQU'' (of_nat (rs_min_stack F * 4)) 5 w2)))"
proof -
  have h: "tc_queHandle (gTaskCtx n ! 0) = None" for n by (simp add: gTaskCtx_def)
  show ?thesis
    unfolding cvirtos_start_def Let_def assms queue_isr_rounds h
    by (simp add: main_create_tasks_eq split: prod.splits option.splits)
qed

text \<open>A board on which the interrupt is pending when it is requested, and a null queue takes nothing.\<close>

definition start_bench_hw :: "u64 option \<Rightarrow> mail_bench mail_hw" where
  "start_bench_hw h =
    (case h of None \<Rightarrow> mail_bench_hw\<lparr>xQueueSendFromISR := \<lambda>_ w. w\<rparr> | Some _ \<Rightarrow> mail_bench_hw)"

definition start_bench :: "u64 option \<Rightarrow> mail_bench rtos_start" where
  "start_bench q = \<lparr>rs_min_stack = 128, rs_reg_base = 0x01900000, rs_reg_buff = 0x01900400, rs_spinlock_init = id,
     rs_request_irq = (\<lambda>_ h x. h x), rs_xQueueCreate = (\<lambda>_ _ w. (q, w)), rs_xTaskCreate = (\<lambda>_ _ _ _ w. w),
     rs_StartScheduler = (\<lambda>_. None)\<rparr>"

text \<open>There the command that waits in the mailbox is counted as received, taken out of its slot, and lost.\<close>

theorem start_outcome_witness:
  "case snd (cvirtos_start (start_bench (Some 1)) start_bench_hw (mail_bench0 [])) of (s, ctx, w) \<Rightarrow>
     g_mailbox_isr_count s = 1 \<and> mb_slots w 3 = (0, 0) \<and> mb_queue w = [] \<and> tc_queHandle (ctx ! 0) = Some 1"
proof -
  have "prvQueueISR (start_bench_hw None) (fw_boot, mail_bench0 []) =
      (fw_boot\<lparr>g_mailbox_isr_count := 1, g_last_cmd_id := 0x33, g_last_param_ptr := 7\<rparr>,
       \<lparr>mb_slots = (mb_slots (mail_bench0 []))(0 := (0, 0), 3 := (0, 0)), mb_queue = [], mb_int = 0,
        mb_region = fresh_region\<rparr>)"
    by (simp add: prvQueueISR_def isr_slot_def start_bench_hw_def mail_bench_hw_def mail_bench0_def MAILBOX_MAX_NUM_def
        upt_8 head_b300 del: upt.simps) (simp add: linux_cmd_def fw_boot_def)
  then show ?thesis
    using start_outcome [of "start_bench (Some 1)" start_bench_hw "mail_bench0 []" 1 "mail_bench0 []"]
    by (simp add: start_bench_def gTaskCtx_def)
qed

lemma cvirtos_end_spins: "cvirtos_end x = None"
proof -
  have "cvirtos_end x = Some y \<Longrightarrow> False" for y
    by (erule cvirtos_end.raw_induct [where P = "\<lambda>_ _. False", rotated]) blast
  then show ?thesis by (cases "cvirtos_end x") auto
qed

text \<open>Even when the scheduler returns, \<open>main_cvirtos\<close> does not.\<close>

theorem main_cvirtos_stays: "main_cvirtos F M w = None"
  by (simp add: main_cvirtos_def cvirtos_end_spins split: prod.splits) (metis bind_eq_None_conv cvirtos_end_spins)

end
