(* ===== verification/LinuxMain.thy ===== *)
theory LinuxMain
  imports Telemetry
begin

text \<open>
  \<open>common/SignalStop.hpp\<close> and \<open>linux_core/main_linux.cpp\<close>: the stop flag that the signal handlers set, and the main
  program of the Linux process. Shows that the process ends exactly when a stop is requested, after the cycle in
  which the flag is seen, and with which exit code.
\<close>

section \<open>Stop signals\<close>

text \<open>
  The process: the flag, the signals that have the handler, and the rest of the world. The functions of the
  environment act on it, so a signal may come during any of them.
\<close>

record 'w process =
  g_stop_requested :: int
  pr_handled :: "int list"
  pr_world :: 'w

definition SIGINT :: int where "SIGINT = 2"
definition SIGTERM :: int where "SIGTERM = 15"

definition handle_stop_signal :: "int \<Rightarrow> 'w process \<Rightarrow> 'w process" where
  "handle_stop_signal _ p = p\<lparr>g_stop_requested := 1\<rparr>"

definition install_stop_handlers :: "'w process \<Rightarrow> 'w process" where
  "install_stop_handlers p =
    (let p = p\<lparr>g_stop_requested := 0\<rparr>;
         p = p\<lparr>pr_handled := SIGINT # pr_handled p\<rparr>
     in p\<lparr>pr_handled := SIGTERM # pr_handled p\<rparr>)"

definition stop_flag :: "'w process \<Rightarrow> bool" where
  "stop_flag p = (g_stop_requested p \<noteq> 0)"

definition request_stop :: "'w process \<Rightarrow> 'w process" where
  "request_stop p = p\<lparr>g_stop_requested := 1\<rparr>"

text \<open>A signal runs its handler; one without handler ends the process at once.\<close>

definition raise_signal :: "int \<Rightarrow> 'w process \<Rightarrow> 'w process option" where
  "raise_signal sig p = (if sig \<in> set (pr_handled p) then Some (handle_stop_signal sig p) else None)"

section \<open>The main program\<close>

text \<open>One of two pilot sources behind the pointer \<open>rc_source\<close>.\<close>

definition either_rc :: "'a rc_source \<Rightarrow> 'b rc_source \<Rightarrow> ('a + 'b) rc_source" where
  "either_rc A B =
    \<lparr>rc_init = (\<lambda>r. case r of Inl a \<Rightarrow> map_prod id Inl (rc_init A a) | Inr b \<Rightarrow> map_prod id Inr (rc_init B b)),
     rc_read = (\<lambda>r. case r of Inl a \<Rightarrow> map_prod id Inl (rc_read A a) | Inr b \<Rightarrow> map_prod id Inr (rc_read B b))\<rparr>"

type_synonym 'w process_env = "('w process, unit + u32) telemetry_env"

definition main_env :: "libm \<Rightarrow> 'w process_env \<Rightarrow> 'w process_env" where
  "main_env M E = E\<lparr>te_rc := either_rc NullRcSource (SimulatedRcSource M), stop_requested := stop_flag\<rparr>"

definition main_node :: "'w process_env \<Rightarrow> string list \<Rightarrow> (unit + u32) telemetry" where
  "main_node E argv =
    (let ini_path = (if length argv > 1 then argv ! 1 else []);
         rc_source = (if getenv (te_os E) ''AMP_USE_SIM_RC'' \<noteq> None then Inr 0 else Inl ())
     in TelemetryNode E rc_source ini_path)"

definition main_linux :: "libm \<Rightarrow> 'w process_env \<Rightarrow> string list \<Rightarrow> 'w process \<Rightarrow> (int \<times> 'w process) option" where
  "main_linux M E argv p =
    (let p = install_stop_handlers p; E = main_env M E
     in case telemetry_run E 0 (main_node E argv, p) of
          None \<Rightarrow> None
        | Some (ok, _, p) \<Rightarrow> Some (if ok then 0 else 1, p))"

section \<open>The end of a run\<close>

text \<open>An unlimited loop stops at the first cycle in front of which the flag is set, and otherwise never.\<close>

lemma loop_unfold:
  "telemetry_loop_run E 0 c x =
    (if stop_requested E (snd (snd x)) then Some x else telemetry_loop_run E 0 (Suc c) (telemetry_cycle E x))"
  by (subst telemetry_loop_run.simps) simp

lemma loop_stops:
  assumes "stop_requested E (snd (snd ((telemetry_cycle E ^^ k) x)))"
    "\<And>j. j < k \<Longrightarrow> \<not> stop_requested E (snd (snd ((telemetry_cycle E ^^ j) x)))"
  shows "telemetry_loop_run E 0 c x = Some ((telemetry_cycle E ^^ k) x)"
  using assms
proof (induction k arbitrary: c x)
  case 0
  then show ?case by (subst loop_unfold) simp
next
  case (Suc k)
  have "\<not> stop_requested E (snd (snd x))" using Suc.prems(2) [of 0] by simp
  moreover have "telemetry_loop_run E 0 (Suc c) (telemetry_cycle E x) = Some ((telemetry_cycle E ^^ k) (telemetry_cycle E x))"
    using Suc.prems(1) Suc.prems(2) [of "Suc j" for j]
    by (intro Suc.IH) (simp_all add: funpow_swap1)
  ultimately show ?case by (subst loop_unfold) (simp add: funpow_swap1)
qed

lemma loop_result_stopped:
  fixes E :: "('w, 'r) telemetry_env"
  assumes "telemetry_loop_run E m c x = Some y" "m = 0"
  shows "\<exists>k. stop_requested E (snd (snd ((telemetry_cycle E ^^ k) x)))"
proof -
  let ?P = "\<lambda>(E :: ('w, 'r) telemetry_env) (m :: nat) (_ :: nat) x (_ :: ('w, 'r) tl).
    m = 0 \<longrightarrow> (\<exists>k. stop_requested E (snd (snd ((telemetry_cycle E ^^ k) x))))"
  have "?P E m c x y"
  proof (rule telemetry_loop_run.raw_induct [where P = ?P, of "(((E, m), c), x)" y, unfolded prod.case, OF _ assms(1)])
    fix f :: "('w, 'r) telemetry_env \<Rightarrow> nat \<Rightarrow> nat \<Rightarrow> ('w, 'r) tl \<Rightarrow> ('w, 'r) tl option" and E m c x y
    assume ih: "\<And>E m c x y. f E m c x = Some y \<Longrightarrow> ?P E m c x y"
      and r: "(if (m = 0 \<or> c < m) \<and> \<not> stop_requested E (snd (snd x)) then f E m (Suc c) (telemetry_cycle E x) else Some x) = Some y"
    show "?P E m c x y"
    proof (cases "stop_requested E (snd (snd x))")
      case True
      then show ?thesis by (auto intro: exI [of _ 0])
    next
      case False
      then have "m = 0 \<Longrightarrow> \<exists>k. stop_requested E (snd (snd ((telemetry_cycle E ^^ Suc k) x)))"
        using r ih [of E m "Suc c" "telemetry_cycle E x" y] by (simp add: funpow_swap1)
      then show ?thesis by blast
    qed
  qed
  then show ?thesis using assms(2) by simp
qed

text \<open>C35: The whole program: a node that does not start gives exit code 1; one that starts runs for ever unless the stop
  flag is set in front of some cycle, and then closes the mailbox and gives 0, however its sends went. Nothing else
  is sent at the end, no emergency stop and no disarming.\<close>

theorem main_linux_ends:
  "main_linux M E argv p =
    (case telemetry_start (main_env M E) (main_node (main_env M E) argv, install_stop_handlers p) of
       (False, _, _, p) \<Rightarrow> Some (1, p)
     | (True, y) \<Rightarrow>
         if \<exists>k. stop_flag (snd (snd ((telemetry_cycle (main_env M E) ^^ k) y))) then
           Some (0, snd (snd (with_mailbox (\<lambda>m. ((), close_transport (te_os E) m))
             (snd ((telemetry_cycle (main_env M E) ^^
               (LEAST k. stop_flag (snd (snd ((telemetry_cycle (main_env M E) ^^ k) y))))) y)))))
         else None)"
proof -
  let ?E = "main_env M E"
  have flag: "stop_requested ?E = stop_flag" and os: "te_os ?E = te_os E" by (simp_all add: main_env_def)
  obtain b v n w where st: "telemetry_start ?E (main_node ?E argv, install_stop_handlers p) = (b, v, n, w)"
    by (cases "telemetry_start ?E (main_node ?E argv, install_stop_handlers p)") auto
  let ?S = "\<lambda>k. stop_flag (snd (snd ((telemetry_cycle ?E ^^ k) (v, n, w))))"
  have l: "telemetry_loop_run ?E 0 0 (v, n, w) = (if \<exists>k. ?S k then Some ((telemetry_cycle ?E ^^ (LEAST k. ?S k)) (v, n, w)) else None)"
  proof (cases "\<exists>k. ?S k")
    case True
    then have "?S (LEAST k. ?S k)" by (auto intro: LeastI)
    then show ?thesis using True not_less_Least [of _ ?S]
      by (simp add: loop_stops [of ?E "LEAST k. ?S k" "(v, n, w)" 0] flag)
  next
    case False
    then show ?thesis using loop_result_stopped [of ?E 0 0 "(v, n, w)"]
      by (cases "telemetry_loop_run ?E 0 0 (v, n, w)") (auto simp: flag)
  qed
  show ?thesis
    by (cases b) (auto simp: main_linux_def Let_def telemetry_run_def st l os split: prod.splits)
qed

text \<open>Between the installation and the end both stop signals set the flag instead of killing the process.\<close>

theorem stop_signals_handled:
  "sig = SIGINT \<or> sig = SIGTERM \<Longrightarrow>
   \<exists>q. raise_signal sig (install_stop_handlers p) = Some q \<and> stop_flag q \<and> q = request_stop (install_stop_handlers p)"
  by (auto simp: raise_signal_def install_stop_handlers_def handle_stop_signal_def stop_flag_def request_stop_def)

theorem stop_signals_handled_witness:
  "\<exists>q. raise_signal SIGTERM (install_stop_handlers \<lparr>g_stop_requested = 0, pr_handled = [], pr_world = ()\<rparr>) = Some q"
  using stop_signals_handled [of SIGTERM "\<lparr>g_stop_requested = 0, pr_handled = [], pr_world = ()\<rparr>"] by blast

end
