(* ===== verification/BenchTools.thy ===== *)
theory BenchTools
  imports Sensors LinuxMailbox
begin

text \<open>
  \<open>mpu6050_read.c\<close> and \<open>hmc5883l_read.c\<close>: two Linux programs that open an I2C device file, identify and
  configure a sensor, and print readings until one fails. Both files repeat the same register access and the
  same parsing of the address. A reading is the values printed as integers; \<open>None\<close> is a program that never ends.
\<close>

section \<open>System calls\<close>

text \<open>
  \<open>write\<close> and \<open>read\<close> give the number of bytes or -1; a read also the bytes it stored.
\<close>

record 'w i2c_os =
  io_open :: "string \<Rightarrow> 'w \<Rightarrow> int \<times> 'w"
  io_set_slave :: "int \<Rightarrow> int \<Rightarrow> 'w \<Rightarrow> int \<times> 'w"
  io_write :: "int \<Rightarrow> u8 list \<Rightarrow> 'w \<Rightarrow> int \<times> 'w"
  io_read :: "int \<Rightarrow> nat \<Rightarrow> 'w \<Rightarrow> (int \<times> u8 list) \<times> 'w"
  io_close :: "int \<Rightarrow> 'w \<Rightarrow> 'w"
  io_usleep :: "nat \<Rightarrow> 'w \<Rightarrow> 'w"

section \<open>Registers\<close>

definition write_reg :: "'w i2c_os \<Rightarrow> int \<Rightarrow> u8 \<Rightarrow> u8 \<Rightarrow> 'w \<Rightarrow> int \<times> 'w" where
  "write_reg L fd reg val w =
    (let (written, w) = io_write L fd [reg, val] w in (if written \<noteq> 2 then - 1 else 0, w))"

text \<open>The buffer \<open>buf\<close> of the caller is overwritten from its start with what the read stored.\<close>

definition read_regs :: "'w i2c_os \<Rightarrow> int \<Rightarrow> u8 \<Rightarrow> u8 list \<Rightarrow> 'w \<Rightarrow> (int \<times> u8 list) \<times> 'w" where
  "read_regs L fd reg buf w =
    (let (written, w) = io_write L fd [reg] w
     in if written \<noteq> 1 then ((- 1, buf), w)
        else (let ((read_len, bytes), w) = io_read L fd (length buf) w;
                  buf = take (length buf) (bytes @ drop (length bytes) buf)
              in ((if read_len \<noteq> int (length buf) then - 1 else 0, buf), w)))"

definition read_reg :: "'w i2c_os \<Rightarrow> int \<Rightarrow> u8 \<Rightarrow> u8 \<Rightarrow> 'w \<Rightarrow> (int \<times> u8) \<times> 'w" where
  "read_reg L fd reg val w = (let ((ret, buf), w) = read_regs L fd reg [val] w in ((ret, buf ! 0), w))"

definition be16_to_i16 :: "u8 \<Rightarrow> u8 \<Rightarrow> int" where
  "be16_to_i16 b0 b1 = sint (push_bit 8 (ucast b0) OR ucast b1 :: u16)"

text \<open>The writes of a configuration, joined by \<open>||\<close> of their failures.\<close>

fun write_regs :: "'w i2c_os \<Rightarrow> int \<Rightarrow> (u8 \<times> u8) list \<Rightarrow> 'w \<Rightarrow> bool \<times> 'w" where
  "write_regs L fd [] w = (True, w)"
| "write_regs L fd ((reg, val) # rest) w =
    (let (ret, w) = write_reg L fd reg val w in if ret \<noteq> 0 then (False, w) else write_regs L fd rest w)"

section \<open>The address\<close>

text \<open>
  \<open>strtoul\<close> with base 0: the value, the text behind the number (the whole text when there is none), and
  whether the number was out of range. \<open>unsigned long\<close> has 64 bits on the big core.
\<close>

definition strtoul :: "string \<Rightarrow> u64 \<times> string \<times> bool" where
  "strtoul s =
    (let (neg, cs) = take_sign (dropWhile c_space s);
         (base, cs) = take_base cs;
         digits = takeWhile (\<lambda>c. digit_value c < base) cs
     in if digits = [] then (0, s, False)
        else (strtoull s, drop (length digits) cs, number_in base cs \<ge> 2 ^ 64))"

definition parse_i2c_addr :: "string \<Rightarrow> int option" where
  "parse_i2c_addr s =
    (let (v, rest, erange) = strtoul s
     in if erange \<or> rest = s \<or> rest \<noteq> [] \<or> v > 0x7F then None else Some (uint v))"

text \<open>The command line: device and address, or \<open>None\<close> for the exit with 1.\<close>

definition tool_args :: "string \<Rightarrow> int \<Rightarrow> string list \<Rightarrow> (string \<times> int) option" where
  "tool_args dev0 addr0 argv =
    (let dev_path = (if length argv \<ge> 2 then argv ! 1 else dev0);
         addr = (if length argv \<ge> 3 then parse_i2c_addr (argv ! 2) else Some addr0)
     in case addr of None \<Rightarrow> None | Some a \<Rightarrow> if length argv > 3 then None else Some (dev_path, a))"

definition open_bus :: "'w i2c_os \<Rightarrow> string \<Rightarrow> int \<Rightarrow> 'w \<Rightarrow> int option \<times> 'w" where
  "open_bus L dev_path addr w =
    (let (fd, w) = io_open L dev_path w
     in if fd < 0 then (None, w)
        else (let (ret, w) = io_set_slave L fd addr w
              in if ret < 0 then (None, io_close L fd w) else (Some fd, w)))"

section \<open>The MPU6050 reader\<close>

definition mpu_identify :: "'w i2c_os \<Rightarrow> int \<Rightarrow> 'w \<Rightarrow> bool \<times> 'w" where
  "mpu_identify L fd w =
    (let ((ret, who_am_i), w) = read_reg L fd 0x75 0 w in (ret = 0 \<and> who_am_i = 0x68, w))"

definition mpu_configure :: "'w i2c_os \<Rightarrow> int \<Rightarrow> 'w \<Rightarrow> bool \<times> 'w" where
  "mpu_configure L fd w =
    (let (ret, w) = write_reg L fd 0x6B 0x00 w
     in if ret \<noteq> 0 then (False, w)
        else write_regs L fd [(0x19, 0x07), (0x1A, 0x03), (0x1B, 0x00), (0x1C, 0x00)] (io_usleep L 100000 w))"

record mpu_raw =
  mr_acc :: "int \<times> int \<times> int"
  mr_temp :: int
  mr_gyro :: "int \<times> int \<times> int"

definition mpu_values :: "u8 list \<Rightarrow> mpu_raw" where
  "mpu_values raw =
    \<lparr>mr_acc = (be16_to_i16 (raw ! 0) (raw ! 1), be16_to_i16 (raw ! 2) (raw ! 3), be16_to_i16 (raw ! 4) (raw ! 5)),
     mr_temp = be16_to_i16 (raw ! 6) (raw ! 7),
     mr_gyro = (be16_to_i16 (raw ! 8) (raw ! 9), be16_to_i16 (raw ! 10) (raw ! 11), be16_to_i16 (raw ! 12) (raw ! 13))\<rparr>"

partial_function (option) mpu_print_loop :: "'w i2c_os \<Rightarrow> int \<Rightarrow> 'w \<Rightarrow> (mpu_raw list \<times> 'w) option" where
  "mpu_print_loop L fd w =
    (let ((ret, raw), w) = read_regs L fd 0x3B (replicate 14 0) w
     in if ret \<noteq> 0 then Some ([], w)
        else Option.bind (mpu_print_loop L fd (io_usleep L 100000 w))
               (\<lambda>(rest, w). Some (mpu_values raw # rest, w)))"

definition mpu6050_main :: "'w i2c_os \<Rightarrow> string list \<Rightarrow> 'w \<Rightarrow> ((int \<times> mpu_raw list) \<times> 'w) option" where
  "mpu6050_main L argv w =
    (case tool_args ''/dev/i2c-2'' 0x68 argv of
       None \<Rightarrow> Some ((1, []), w)
     | Some (dev_path, addr) \<Rightarrow>
         (let (bus, w) = open_bus L dev_path addr w
          in case bus of
               None \<Rightarrow> Some ((1, []), w)
             | Some fd \<Rightarrow>
                 (let (ok, w) = mpu_identify L fd w;
                      (ok, w) = (if ok then mpu_configure L fd w else (False, w))
                  in if \<not> ok then Some ((1, []), io_close L fd w)
                     else (case mpu_print_loop L fd w of
                             None \<Rightarrow> None
                           | Some (out, w) \<Rightarrow> Some ((1, out), io_close L fd w)))))"

section \<open>The HMC5883L reader\<close>

definition hmc_identify :: "'w i2c_os \<Rightarrow> int \<Rightarrow> 'w \<Rightarrow> bool \<times> 'w" where
  "hmc_identify L fd w =
    (let ((ret, a), w) = read_reg L fd 0x0A 0 w
     in if ret \<noteq> 0 then (False, w)
        else (let ((ret, b), w) = read_reg L fd 0x0B 0 w
              in if ret \<noteq> 0 then (False, w)
                 else (let ((ret, c), w) = read_reg L fd 0x0C 0 w
                       in (ret = 0 \<and> a = 0x48 \<and> b = 0x34 \<and> c = 0x33, w))))"

definition hmc_configure :: "'w i2c_os \<Rightarrow> int \<Rightarrow> 'w \<Rightarrow> bool \<times> 'w" where
  "hmc_configure L fd w = write_regs L fd [(0x00, 0x70), (0x01, 0x20), (0x02, 0x00)] w"

record hmc_raw =
  hr_status :: u8
  hr_x :: int
  hr_y :: int
  hr_z :: int

definition hmc_values :: "u8 \<Rightarrow> u8 list \<Rightarrow> hmc_raw" where
  "hmc_values status data =
    \<lparr>hr_status = status, hr_x = be16_to_i16 (data ! 0) (data ! 1), hr_y = be16_to_i16 (data ! 4) (data ! 5),
     hr_z = be16_to_i16 (data ! 2) (data ! 3)\<rparr>"

partial_function (option) hmc_print_loop :: "'w i2c_os \<Rightarrow> int \<Rightarrow> 'w \<Rightarrow> (hmc_raw list \<times> 'w) option" where
  "hmc_print_loop L fd w =
    (let ((ret, status), w) = read_reg L fd 0x09 0 w
     in if ret \<noteq> 0 then Some ([], w)
        else
          (let ((ret, data), w) = read_regs L fd 0x03 (replicate 6 0) w
           in if ret \<noteq> 0 then Some ([], w)
              else Option.bind (hmc_print_loop L fd (io_usleep L 100000 w))
                     (\<lambda>(rest, w). Some (hmc_values status data # rest, w))))"

definition hmc5883l_main :: "'w i2c_os \<Rightarrow> string list \<Rightarrow> 'w \<Rightarrow> ((int \<times> hmc_raw list) \<times> 'w) option" where
  "hmc5883l_main L argv w =
    (case tool_args ''/dev/i2c-2'' 0x1E argv of
       None \<Rightarrow> Some ((1, []), w)
     | Some (dev_path, addr) \<Rightarrow>
         (let (bus, w) = open_bus L dev_path addr w
          in case bus of
               None \<Rightarrow> Some ((1, []), w)
             | Some fd \<Rightarrow>
                 (let (ok, w) = hmc_identify L fd w;
                      (ok, w) = (if ok then hmc_configure L fd w else (False, w))
                  in if \<not> ok then Some ((1, []), io_close L fd w)
                     else (case hmc_print_loop L fd w of
                             None \<Rightarrow> None
                           | Some (out, w) \<Rightarrow> Some ((1, out), io_close L fd w)))))"

section \<open>The readings are the drivers' readings\<close>

lemma be16_to_i16_eq: "be16_to_i16 a b = sint (be16 a b)"
  by (simp add: be16_to_i16_def be16_def)

text \<open>The driver of the flight node scales exactly the numbers the tools print, on the same axes.\<close>

theorem tools_read_what_drivers_read:
  "mpu_decode raw now = (case mpu_values raw of v \<Rightarrow>
     (let (ax, ay, az) = mr_acc v; (gx, gy, gz) = mr_gyro v;
          acc = (\<lambda>k. fmul (fdiv (f32_of_int k) kAccelScaleLsbPerG) kGravity);
          gyro = (\<lambda>k. fdiv (f32_of_int k) kGyroScaleLsbPerDps)
      in \<lparr>im_acc_x = acc ax, im_acc_y = acc ay, im_acc_z = acc az, im_gyro_x_dps = gyro gx,
          im_gyro_y_dps = gyro gy, im_gyro_z_dps = gyro gz, im_timestamp_us = now\<rparr>)) \<and>
   hmc_decode data now = (let v = hmc_values status data;
          field = (\<lambda>k. fmul (fdiv (f32_of_int k) (f32_of_int 1090)) (f32_of_int 100))
      in \<lparr>mg_x = field (hr_x v), mg_y = field (hr_y v), mg_z = field (hr_z v), mg_timestamp_us = now\<rparr>)"
  by (simp add: mpu_decode_def mpu_values_def mpu_accel_def mpu_gyro_def hmc_decode_def hmc_values_def hmc_field_def
      be16_to_i16_eq)

section \<open>Exits\<close>

text \<open>
  No exit reports success, and the descriptor a tool got is given back by its last call. \<open>tool_left\<close> is a world
  in which a tool has ended: nothing was opened, opening failed, or the last call closed the descriptor.
\<close>

definition tool_left :: "'w i2c_os \<Rightarrow> 'w \<Rightarrow> 'w \<Rightarrow> bool" where
  "tool_left L w w' \<longleftrightarrow> w' = w \<or>
    (\<exists>dev. if fst (io_open L dev w) < 0 then w' = snd (io_open L dev w)
           else \<exists>v. w' = io_close L (fst (io_open L dev w)) v)"

lemma tool_left_refl [simp]: "tool_left L w w"
  by (simp add: tool_left_def)

lemma open_bus_left: "open_bus L dev addr w = (None, w') \<Longrightarrow> tool_left L w w'"
  by (auto simp: open_bus_def tool_left_def Let_def split: prod.splits if_splits) (metis fst_conv snd_conv)+

lemma closed_bus_left: "open_bus L dev addr w = (Some fd, w') \<Longrightarrow> tool_left L w (io_close L fd v)"
  by (auto simp: open_bus_def tool_left_def Let_def split: prod.splits if_splits) (metis fst_conv)

theorem mpu_tool_exits: "mpu6050_main L argv w = Some ((code, out), w') \<Longrightarrow> code = 1 \<and> tool_left L w w'"
  by (auto simp: mpu6050_main_def Let_def open_bus_left closed_bus_left
      split: prod.splits if_splits option.splits)

theorem hmc_tool_exits: "hmc5883l_main L argv w = Some ((code, out), w') \<Longrightarrow> code = 1 \<and> tool_left L w w'"
  by (auto simp: hmc5883l_main_def Let_def open_bus_left closed_bus_left
      split: prod.splits if_splits option.splits)

text \<open>Whatever is typed, the address the tools hand to the bus has seven bits.\<close>

lemma parse_i2c_addr_bits: "parse_i2c_addr s = Some a \<Longrightarrow> 0 \<le> a \<and> a \<le> 127"
  using uint_nonnegative
  by (auto simp: parse_i2c_addr_def word_le_def not_less split: prod.splits if_splits)

lemma tool_args_bits: "tool_args dev a0 argv = Some (d, a) \<Longrightarrow> 0 \<le> a0 \<Longrightarrow> a0 \<le> 127 \<Longrightarrow> 0 \<le> a \<and> a \<le> 127"
  by (auto simp: tool_args_def Let_def dest: parse_i2c_addr_bits split: if_splits option.splits)

end
