(* ===== verification/RingSteps.thy ===== *)
theory RingSteps
  imports Transport
begin

text \<open>
  The doorbell ring of \<open>RtosCmdquIsrTransport.cpp\<close> under concurrency: the interrupt's \<open>onCmdFromMailbox\<close> and the
  task's \<open>popCommand\<close> as sequences of single loads and stores, interleaved freely. Shows that the two behave as if
  each call were done in one piece, as \<open>ring_push\<close> and \<open>popCommand\<close>.
\<close>

section \<open>Loads and stores\<close>

text \<open>
  Where each side stands. The interrupt has its argument and, one after the other, loaded the head, compared it with
  the tail, stored the two fields of the entry; the task has loaded the tail, compared it with the head, loaded the
  two fields. Loads and stores happen in program order: interrupt and task run on the same core. An instance is
  attached; without one the interrupt returns at once.
\<close>

datatype producer_pc =
    PIdle | PHead pending_cmd u32 | PRoom pending_cmd u32 | PStoredId pending_cmd u32 | PStored pending_cmd u32

datatype consumer_pc = CIdle | CTail u32 | CFound u32 | CLoadedId u32 u8 | CLoaded u32 pending_cmd

text \<open>The calls that have ended, with their outcome: a bell was accepted or dropped, a poll gave an entry or none.\<close>

datatype ring_call = Bell pending_cmd bool | Poll "pending_cmd option"

record ring_system =
  ry_ring :: ring
  ry_producer :: producer_pc
  ry_consumer :: consumer_pc
  ry_log :: "ring_call list"

definition ring_start :: ring_system where
  "ring_start = \<lparr>ry_ring = new_ring, ry_producer = PIdle, ry_consumer = CIdle, ry_log = []\<rparr>"

definition store_entry :: "u32 \<Rightarrow> (pending_cmd \<Rightarrow> pending_cmd) \<Rightarrow> ring \<Rightarrow> ring" where
  "store_entry i f q = q\<lparr>rg_queue := (rg_queue q)[unat i := f (rg_queue q ! unat i)]\<rparr>"

inductive ring_step :: "ring_system \<Rightarrow> ring_system \<Rightarrow> bool" where
  load_head: "\<lbrakk>ry_producer s = PIdle; h = rg_head (ry_ring s)\<rbrakk> \<Longrightarrow> ring_step s (s\<lparr>ry_producer := PHead x h\<rparr>)"
| full: "\<lbrakk>ry_producer s = PHead x h; ring_next h = rg_tail (ry_ring s)\<rbrakk> \<Longrightarrow>
    ring_step s (s\<lparr>ry_producer := PIdle, ry_log := ry_log s @ [Bell x False]\<rparr>)"
| room: "\<lbrakk>ry_producer s = PHead x h; ring_next h \<noteq> rg_tail (ry_ring s)\<rbrakk> \<Longrightarrow>
    ring_step s (s\<lparr>ry_producer := PRoom x h\<rparr>)"
| store_id: "ry_producer s = PRoom x h \<Longrightarrow>
    ring_step s (s\<lparr>ry_ring := store_entry h (pq_cmd_id_update (\<lambda>_. pq_cmd_id x)) (ry_ring s), ry_producer := PStoredId x h\<rparr>)"
| store_hint: "ry_producer s = PStoredId x h \<Longrightarrow>
    ring_step s (s\<lparr>ry_ring := store_entry h (pq_seq_hint_update (\<lambda>_. pq_seq_hint x)) (ry_ring s), ry_producer := PStored x h\<rparr>)"
| publish: "ry_producer s = PStored x h \<Longrightarrow>
    ring_step s (s\<lparr>ry_ring := (ry_ring s)\<lparr>rg_head := ring_next h\<rparr>, ry_producer := PIdle, ry_log := ry_log s @ [Bell x True]\<rparr>)"
| load_tail: "\<lbrakk>ry_consumer s = CIdle; t = rg_tail (ry_ring s)\<rbrakk> \<Longrightarrow> ring_step s (s\<lparr>ry_consumer := CTail t\<rparr>)"
| empty: "\<lbrakk>ry_consumer s = CTail t; t = rg_head (ry_ring s)\<rbrakk> \<Longrightarrow>
    ring_step s (s\<lparr>ry_consumer := CIdle, ry_log := ry_log s @ [Poll None]\<rparr>)"
| found: "\<lbrakk>ry_consumer s = CTail t; t \<noteq> rg_head (ry_ring s)\<rbrakk> \<Longrightarrow> ring_step s (s\<lparr>ry_consumer := CFound t\<rparr>)"
| load_id: "ry_consumer s = CFound t \<Longrightarrow>
    ring_step s (s\<lparr>ry_consumer := CLoadedId t (pq_cmd_id (rg_queue (ry_ring s) ! unat t))\<rparr>)"
| load_hint: "ry_consumer s = CLoadedId t i \<Longrightarrow>
    ring_step s (s\<lparr>ry_consumer := CLoaded t \<lparr>pq_cmd_id = i, pq_seq_hint = pq_seq_hint (rg_queue (ry_ring s) ! unat t)\<rparr>\<rparr>)"
| release: "ry_consumer s = CLoaded t x \<Longrightarrow>
    ring_step s (s\<lparr>ry_ring := (ry_ring s)\<lparr>rg_tail := ring_next t\<rparr>, ry_consumer := CIdle, ry_log := ry_log s @ [Poll (Some x)]\<rparr>)"

inductive ring_reachable :: "ring_system \<Rightarrow> bool" where
  start: "ring_reachable ring_start"
| step: "\<lbrakk>ring_reachable s; ring_step s s'\<rbrakk> \<Longrightarrow> ring_reachable s'"

section \<open>Calls in one piece\<close>

text \<open>The calls of a log done one after the other; \<open>None\<close> when one of them has another outcome.\<close>

fun ring_calls :: "ring_call list \<Rightarrow> ring \<Rightarrow> ring option" where
  "ring_calls [] q = Some q"
| "ring_calls (Bell x ok # cs) q =
    (if ok = (ring_next (rg_head q) \<noteq> rg_tail q) then ring_calls cs (ring_push x q) else None)"
| "ring_calls (Poll r # cs) q = (if r = fst (popCommand q) then ring_calls cs (snd (popCommand q)) else None)"

fun accepted :: "ring_call list \<Rightarrow> pending_cmd list" where
  "accepted [] = []"
| "accepted (Bell x ok # cs) = (if ok then x # accepted cs else accepted cs)"
| "accepted (Poll r # cs) = accepted cs"

fun given :: "ring_call list \<Rightarrow> pending_cmd list" where
  "given [] = []"
| "given (Bell x ok # cs) = given cs"
| "given (Poll r # cs) = (case r of None \<Rightarrow> given cs | Some x \<Rightarrow> x # given cs)"

lemma ring_calls_snoc:
  "ring_calls cs q = Some q' \<Longrightarrow> ring_calls (cs @ ds) q = ring_calls ds q'"
  by (induction cs q rule: ring_calls.induct) (simp_all split: if_splits)

lemma push_contents:
  "ring_ok q \<Longrightarrow> ring_ok (ring_push x q) \<and> ring_contents (ring_push x q) =
     ring_contents q @ (if ring_next (rg_head q) \<noteq> rg_tail q then [x] else [])"
  using ring_push_contents [of q x] ring_full [of q] ring_used_less [of q]
  by (cases "ring_used q = 31") (auto simp: ring_push_def Let_def)

lemma pop_contents:
  "ring_ok q \<Longrightarrow> ring_ok (snd (popCommand q)) \<and>
     ring_contents q = (case fst (popCommand q) of None \<Rightarrow> [] | Some x \<Rightarrow> [x]) @ ring_contents (snd (popCommand q))"
  using ring_pop_contents [of q] ring_empty [of q] length_ring_contents [of q]
  by (cases "ring_contents q") (fastforce simp: popCommand_def Let_def)+

lemma ring_calls_fifo:
  assumes "ring_ok q" "ring_calls cs q = Some q'"
  shows "ring_ok q' \<and> ring_contents q @ accepted cs = given cs @ ring_contents q'"
  using assms
proof (induction cs q rule: ring_calls.induct)
  case (2 x ok cs q)
  then show ?case using push_contents [OF "2.prems"(1), of x] by (auto split: if_splits)
next
  case (3 r cs q)
  then show ?case using pop_contents [OF "3.prems"(1)] by (auto split: if_splits option.splits)
qed simp

section \<open>The invariant\<close>

text \<open>
  The ring \<open>q\<close> that the ended calls leave, and what the calls under way have added to it: the interrupt has written
  into the entry at the head, which no poll reads, and it still has room; what the task loaded is the oldest entry.
\<close>

definition producer_view :: "ring \<Rightarrow> producer_pc \<Rightarrow> pending_cmd list" where
  "producer_view q p =
    (case p of
       PStoredId x h \<Rightarrow> (rg_queue q)[unat h := (rg_queue q ! unat h)\<lparr>pq_cmd_id := pq_cmd_id x\<rparr>]
     | PStored x h \<Rightarrow> (rg_queue q)[unat h := x]
     | _ \<Rightarrow> rg_queue q)"

definition producer_inv :: "ring \<Rightarrow> producer_pc \<Rightarrow> bool" where
  "producer_inv q p \<longleftrightarrow>
    (case p of
       PIdle \<Rightarrow> True
     | PHead x h \<Rightarrow> h = rg_head q
     | PRoom x h \<Rightarrow> h = rg_head q \<and> ring_next h \<noteq> rg_tail q
     | PStoredId x h \<Rightarrow> h = rg_head q \<and> ring_next h \<noteq> rg_tail q
     | PStored x h \<Rightarrow> h = rg_head q \<and> ring_next h \<noteq> rg_tail q)"

definition consumer_inv :: "ring \<Rightarrow> consumer_pc \<Rightarrow> bool" where
  "consumer_inv q c \<longleftrightarrow>
    (case c of
       CIdle \<Rightarrow> True
     | CTail t \<Rightarrow> t = rg_tail q
     | CFound t \<Rightarrow> t = rg_tail q \<and> t \<noteq> rg_head q
     | CLoadedId t i \<Rightarrow> t = rg_tail q \<and> t \<noteq> rg_head q \<and> i = pq_cmd_id (rg_queue q ! unat t)
     | CLoaded t x \<Rightarrow> t = rg_tail q \<and> t \<noteq> rg_head q \<and> x = rg_queue q ! unat t)"

definition ring_inv :: "ring_system \<Rightarrow> ring \<Rightarrow> bool" where
  "ring_inv s q \<longleftrightarrow> ring_ok q \<and> ring_calls (ry_log s) new_ring = Some q \<and>
     ry_ring s = q\<lparr>rg_queue := producer_view q (ry_producer s)\<rparr> \<and>
     producer_inv q (ry_producer s) \<and> consumer_inv q (ry_consumer s)"

lemmas ring_inv_defs = ring_inv_def producer_view_def producer_inv_def consumer_inv_def

lemma ring_next_inj: "unat i < 32 \<Longrightarrow> unat j < 32 \<Longrightarrow> ring_next i = ring_next j \<longleftrightarrow> i = j"
  by (auto simp: word_unat_eq_iff unat_ring_next mod_if split: if_splits)

text \<open>The other entries are as the ended calls left them, and the accesses of one side keep what the other relies on.\<close>

lemma view_other:
  "producer_inv q p \<Longrightarrow> i \<noteq> rg_head q \<Longrightarrow> producer_view q p ! unat i = rg_queue q ! unat i"
  by (auto simp: producer_view_def producer_inv_def word_unat_eq_iff split: producer_pc.splits)

lemma push_full: "ring_next (rg_head q) = rg_tail q \<Longrightarrow> ring_push x q = q"
  by (simp add: ring_push_def Let_def)

lemma push_room:
  "ring_next (rg_head q) \<noteq> rg_tail q \<Longrightarrow>
     ring_push x q = q\<lparr>rg_queue := (rg_queue q)[unat (rg_head q) := x], rg_head := ring_next (rg_head q)\<rparr>"
  by (simp add: ring_push_def Let_def)

lemma pop_found:
  "rg_tail q \<noteq> rg_head q \<Longrightarrow>
     popCommand q = (Some (rg_queue q ! unat (rg_tail q)), q\<lparr>rg_tail := ring_next (rg_tail q)\<rparr>)"
  by (simp add: popCommand_def Let_def)

lemma consumer_push:
  "\<lbrakk>consumer_inv q c; ring_next (rg_head q) \<noteq> rg_tail q\<rbrakk> \<Longrightarrow> consumer_inv (ring_push x q) c"
  by (auto simp: consumer_inv_def push_room word_unat_eq_iff split: consumer_pc.splits)

lemma producer_pop:
  "\<lbrakk>producer_inv q p; ring_ok q; rg_tail q \<noteq> rg_head q\<rbrakk> \<Longrightarrow>
     producer_inv (q\<lparr>rg_tail := ring_next (rg_tail q)\<rparr>) p \<and>
     producer_view (q\<lparr>rg_tail := ring_next (rg_tail q)\<rparr>) p = producer_view q p"
  by (auto simp: producer_inv_def producer_view_def ring_ok_def ring_next_inj split: producer_pc.splits)

lemma entry_filled: "(x :: pending_cmd)\<lparr>pq_cmd_id := pq_cmd_id y, pq_seq_hint := pq_seq_hint y\<rparr> = y"
  by (cases x; cases y) simp

lemma ring_inv_step:
  assumes "ring_step s s'" "ring_inv s q"
  shows "\<exists>q'. ring_inv s' q'"
proof -
  note i = assms(2) [unfolded ring_inv_def]
  have ring: "rg_head (ry_ring s) = rg_head q" "rg_tail (ry_ring s) = rg_tail q"
    "rg_queue (ry_ring s) = producer_view q (ry_producer s)" using i by simp_all
  have len: "unat (rg_head q) < length (rg_queue q)" using i by (simp add: ring_ok_def)
  note log = ring_calls_snoc [of "ry_log s" new_ring q]
  from assms(1) show ?thesis
  proof cases
    case (full x h)
    then have "h = rg_head q" using i by (simp add: producer_inv_def)
    then have "ring_inv s' q" using full i ring log
      by (simp add: ring_inv_def producer_inv_def producer_view_def push_full)
    then show ?thesis ..
  next
    case (publish x h)
    then have h: "h = rg_head q" "ring_next (rg_head q) \<noteq> rg_tail q" using i by (auto simp: producer_inv_def)
    have "ring_inv s' (ring_push x q)"
      using publish i h log push_contents [of q x] consumer_push [OF _ h(2), of "ry_consumer s" x]
      by (simp add: ring_inv_def producer_inv_def producer_view_def push_room)
    then show ?thesis ..
  next
    case (release t x)
    then have t: "t = rg_tail q" "rg_tail q \<noteq> rg_head q" "x = rg_queue q ! unat (rg_tail q)"
      using i by (auto simp: consumer_inv_def)
    have "ring_inv s' (q\<lparr>rg_tail := ring_next (rg_tail q)\<rparr>)"
      using release i t log pop_contents [of q] producer_pop [of q "ry_producer s"]
      by (simp add: ring_inv_def consumer_inv_def pop_found)
    then show ?thesis ..
  next
    case (empty t)
    then have "ring_inv s' q" using i ring log
      by (simp add: ring_inv_def consumer_inv_def popCommand_def Let_def)
    then show ?thesis ..
  next
    case (load_id t)
    then have t: "rg_tail q = t" "t \<noteq> rg_head q" using i by (auto simp: consumer_inv_def)
    then have "producer_view q (ry_producer s) ! unat t = rg_queue q ! unat t" using i by (simp add: view_other)
    then have "ring_inv s' q" using load_id i ring t by (simp add: ring_inv_def consumer_inv_def)
    then show ?thesis ..
  next
    case (load_hint t k)
    then have t: "rg_tail q = t" "t \<noteq> rg_head q" using i by (auto simp: consumer_inv_def)
    then have "producer_view q (ry_producer s) ! unat t = rg_queue q ! unat t" using i by (simp add: view_other)
    then have "ring_inv s' q" using load_hint i ring t by (simp add: ring_inv_def consumer_inv_def)
    then show ?thesis ..
  next
    case (store_id x h)
    then have h: "rg_head q = h" "ring_next h \<noteq> rg_tail q" using i by (auto simp: producer_inv_def)
    have "ring_inv s' q" using store_id i ring h by (simp add: ring_inv_defs store_entry_def)
    then show ?thesis ..
  next
    case (store_hint x h)
    then have h: "rg_head q = h" "ring_next h \<noteq> rg_tail q" using i by (auto simp: producer_inv_def)
    have "ring_inv s' q" using store_hint i ring len h
      by (simp add: ring_inv_defs store_entry_def entry_filled)
    then show ?thesis ..
  qed (use i ring in \<open>auto simp: ring_inv_defs intro!: exI [of _ q]\<close>)
qed

lemma ring_inv_reachable: "ring_reachable s \<Longrightarrow> \<exists>q. ring_inv s q"
proof (induction rule: ring_reachable.induct)
  case start
  have "ring_inv ring_start new_ring"
    by (simp add: ring_inv_defs ring_start_def new_ring_ok)
  then show ?case ..
next
  case (step s s')
  then show ?case using ring_inv_step by blast
qed

text \<open>An unread entry is not the one at the head.\<close>

lemma view_contents:
  assumes "ring_ok q" "producer_inv q p"
  shows "ring_contents (q\<lparr>rg_queue := producer_view q p\<rparr>) = ring_contents q"
proof -
  have "producer_view q p ! ((unat (rg_tail q) + k) mod 32) = rg_queue q ! ((unat (rg_tail q) + k) mod 32)"
    if "k < ring_used q" for k
    using assms(2) ring_slot(2) [OF assms(1) that]
    by (auto simp: producer_view_def producer_inv_def split: producer_pc.splits)
  then show ?thesis by (simp add: ring_contents_def ring_used_def)
qed

section \<open>The property\<close>

text \<open>C7: For every interleaving of the interrupt's and the task's single loads and stores in program order, the
  calls that have ended had the outcomes they would have had one after the other in one piece, as \<open>ring_push\<close>
  and \<open>popCommand\<close>, and between two calls the ring is exactly the one these leave. The doorbells handed out so far,
  followed by those waiting in the ring, are the accepted ones in order, with the identifier and the number they were
  given: none is lost, duplicated, torn or reordered.\<close>

theorem ring_interleaving_fifo:
  assumes "ring_reachable s"
  shows "\<exists>q. ring_calls (ry_log s) new_ring = Some q \<and>
    (ry_producer s = PIdle \<longrightarrow> ry_ring s = q) \<and> ring_contents (ry_ring s) = ring_contents q \<and>
    accepted (ry_log s) = given (ry_log s) @ ring_contents (ry_ring s)"
proof -
  obtain q where q: "ring_inv s q" using ring_inv_reachable [OF assms] ..
  then have "ring_contents (ry_ring s) = ring_contents q" by (auto simp: ring_inv_def view_contents)
  moreover have "ring_contents new_ring @ accepted (ry_log s) = given (ry_log s) @ ring_contents q"
    using ring_calls_fifo [OF new_ring_ok(1)] q by (simp add: ring_inv_def)
  ultimately show ?thesis using q
    by (intro exI [of _ q]) (simp add: ring_inv_defs new_ring_ok(2))
qed

text \<open>A bell that is stored and published while the task, which had loaded the tail before, polls.\<close>

definition arm_bell :: pending_cmd where
  "arm_bell = \<lparr>pq_cmd_id = 0x31, pq_seq_hint = 1\<rparr>"

theorem ring_interleaving_fifo_witness:
  "\<exists>s. ring_reachable s \<and> ry_log s = [Bell arm_bell True, Poll (Some arm_bell)] \<and> ring_contents (ry_ring s) = []"
proof -
  have n: "ring_next 0 = 1" by (simp add: ring_next_def kQueueDepth_def)
  let ?q = "new_ring" and ?i = "pq_cmd_id_update (\<lambda>_. pq_cmd_id arm_bell)" and ?h = "pq_seq_hint_update (\<lambda>_. pq_seq_hint arm_bell)"
  let ?s1 = "ring_start\<lparr>ry_producer := PHead arm_bell 0\<rparr>"
  let ?s2 = "?s1\<lparr>ry_consumer := CTail 0\<rparr>"
  let ?s3 = "?s2\<lparr>ry_producer := PRoom arm_bell 0\<rparr>"
  let ?s4 = "?s3\<lparr>ry_ring := store_entry 0 ?i ?q, ry_producer := PStoredId arm_bell 0\<rparr>"
  let ?s5 = "?s4\<lparr>ry_ring := store_entry 0 ?h (store_entry 0 ?i ?q), ry_producer := PStored arm_bell 0\<rparr>"
  let ?r = "(store_entry 0 ?h (store_entry 0 ?i ?q))\<lparr>rg_head := 1\<rparr>"
  let ?s6 = "?s5\<lparr>ry_ring := ?r, ry_producer := PIdle, ry_log := [Bell arm_bell True]\<rparr>"
  let ?s7 = "?s6\<lparr>ry_consumer := CFound 0\<rparr>"
  let ?s8 = "?s7\<lparr>ry_consumer := CLoadedId 0 0x31\<rparr>"
  let ?s9 = "?s8\<lparr>ry_consumer := CLoaded 0 arm_bell\<rparr>"
  let ?s10 = "?s9\<lparr>ry_ring := ?r\<lparr>rg_tail := 1\<rparr>, ry_consumer := CIdle, ry_log := [Bell arm_bell True, Poll (Some arm_bell)]\<rparr>"
  note d = ring_start_def new_ring_def n store_entry_def arm_bell_def kQueueDepth_def
  have "ring_step ring_start ?s1" by (rule ring_step.load_head) (simp_all add: d)
  moreover have "ring_step ?s1 ?s2" by (rule ring_step.load_tail) (simp_all add: d)
  moreover have "ring_step ?s2 ?s3" by (rule ring_step.room) (simp_all add: d)
  moreover have "ring_step ?s3 ?s4" using ring_step.store_id [of ?s3 arm_bell 0] by (simp add: ring_start_def)
  moreover have "ring_step ?s4 ?s5" using ring_step.store_hint [of ?s4 arm_bell 0] by simp
  moreover have "ring_step ?s5 ?s6" using ring_step.publish [of ?s5 arm_bell 0] n by (simp add: ring_start_def)
  moreover have "ring_step ?s6 ?s7" by (rule ring_step.found) (simp_all add: d)
  moreover have "ring_step ?s7 ?s8" using ring_step.load_id [of ?s7 0] by (simp add: d)
  moreover have "ring_step ?s8 ?s9" using ring_step.load_hint [of ?s8 0 "0x31"] by (simp add: d)
  moreover have "ring_step ?s9 ?s10" using ring_step.release [of ?s9 0 arm_bell] n by simp
  ultimately have r: "ring_reachable ?s10" by (meson ring_reachable.intros)
  obtain q where "ring_contents (ry_ring ?s10) = ring_contents q"
    "accepted (ry_log ?s10) = given (ry_log ?s10) @ ring_contents (ry_ring ?s10)"
    using ring_interleaving_fifo [OF r] by blast
  then have "ring_contents (ry_ring ?s10) = []" by simp
  with r show ?thesis by (intro exI [of _ ?s10]) simp
qed

end
