(* ===== verification/Spec2Isabelle.thy ===== *)
theory Spec2Isabelle
  imports Diagnostics FwIbus FwDump FwSnapshot LinuxLink FlightTask FwStart LinuxMain BenchTools RingSteps
begin

text \<open>
  \<^bold>\<open>A verification library for the flight controller of a quadcopter\<close>

  The program runs on the two cores of an SG2002: a Linux process on the big core reads a
  configuration and publishes commands in a region of shared memory (\<open>linux_core/\<close>); on the small core
  either the flight node in C++ (\<open>rt_core/\<close>) or the firmware in C (\<open>comm_main.c\<close>) polls that region and
  an IBUS receiver, estimates the attitude, runs the controllers and writes four motor pulses. The
  library models the programs and the shared protocol, function by function.

  \<^bold>\<open>How the parts interact.\<close> \<open>FlightRtNode::run\<close> is a loop of cycles. A cycle polls the transport
  (arm, setpoint, heartbeat, configuration and emergency slots, each with a sequence number and a
  checksum), polls the receiver, checks the age of its inputs, and, when a control step is due, samples
  the sensors, updates the estimator and the controller, writes the motors and publishes a report. The
  sensors, the receiver and the motors reach the hardware through the \<open>hal_*\<close> wrappers, which call a
  board port. The arming state lives in the controller.

  \<^bold>\<open>Theories and code.\<close>
  \<^item> \<open>Prelude\<close>: integer types, \<open>std::clamp\<close> with its contract as the locale \<open>clamp_order\<close>, byte encodings.
  \<^item> \<open>Float32\<close>: binary32 arithmetic on bit patterns with rounding to nearest even, no fused operations;
    \<open>frange\<close> and \<open>fbound\<close> carry bounds through computations, NaN included in the model.
  \<^item> \<open>Protocol\<close>: \<open>common/protocol.hpp\<close>. The locale \<open>wire_format\<close> states what a packed structure promises
    (injective, fixed size) and is interpreted for all six payloads; the CRC catches every change of a
    payload within four bytes.
  \<^item> \<open>Hal\<close>: the wrappers and weak stubs of \<open>hal_impl.cpp\<close>; a board is a record of functions on a world.
  \<^item> \<open>BoardPort\<close>: \<open>Sg2002CsiBoardPort.cpp\<close>, an instance of such a board over the SDK's functions.
  \<^item> \<open>Receiver\<close>, \<open>ReceiverLink\<close>: \<open>Receiver.cpp\<close>, \<open>RtosUartBackend.cpp\<close>. The byte loop refines an abstract
    framer over the whole stream; \<open>ReceiverLink\<close> holds its consequences and the simulated transmitter.
  \<^item> \<open>Sensors\<close>: \<open>Mpu6050I2cBackend.cpp\<close>, \<open>Hmc5883lI2cBackend.cpp\<close>, \<open>Sense.cpp\<close>.
  \<^item> \<open>Estimator\<close>: \<open>Estimator.cpp\<close>.
  \<^item> \<open>Controller\<close>: \<open>Controller.cpp\<close>.
  \<^item> \<open>Transport\<close>: \<open>RtosCmdquIsrTransport.cpp\<close> and the loopback transport. The doorbell ring meets the
    locale \<open>bounded_fifo\<close>.
  \<^item> \<open>RingSteps\<close>: the ring under concurrency. \<open>ring_step\<close> interleaves the single loads and stores of
    \<open>onCmdFromMailbox\<close> and \<open>popCommand\<close>; the calls behave as if each were done in one piece.
  \<^item> \<open>Actuator\<close>: \<open>Actuator.cpp\<close>, \<open>RtosPwmBackend.cpp\<close>, \<open>ActuatorDuoPwm.cpp\<close>, \<open>FlightRtNodeStage3.cpp\<close>.
  \<^item> \<open>FlightNode\<close>: \<open>FlightRtNode.cpp\<close>; \<open>cycle\<close> composes its phases in program order, \<open>reached\<close> is the set
    of states after initialisation and any number of cycles.
  \<^item> \<open>MotorLines\<close>, \<open>FlightTask\<close>: \<open>flight_control_task\<close> of \<open>hal_impl.cpp\<close> and \<open>main_rtos.cpp\<close>, which put the
    node on the SG2002 port over any SDK and FreeRTOS. The locale \<open>motor_lines\<close> states what a board promises
    about its outputs, and is interpreted for the port whose pulses are recorded.
  \<^item> \<open>Diagnostics\<close>: the four bench tasks of \<open>SensorDiagnostics.cpp\<close>.

  \<^bold>\<open>The firmware.\<close> \<open>comm_main.c\<close> is one file of static variables and a handler, \<open>ibus_probe_poll_once\<close>,
  that a FreeRTOS task calls between mailbox commands. The variables are the record \<open>fw\<close>, the hardware a
  record of functions, and a function of the source a function from state and world to state and world.
  \<^item> \<open>FwState\<close>: the variables with their initial values, the integer helpers, the hardware.
  \<^item> \<open>FwBus\<close>: GPIO and the bit-banged I2C bus; the levels of the lines and the samples of SDA over time
    refine the bus protocol.
  \<^item> \<open>FwSensors\<close>, \<open>FwSensing\<close>: the sensors, calibration, integer root and arc tangent, attitude, and their
    ranges.
  \<^item> \<open>FwControl\<close>: setpoints, corrections, mixer, arm gate, the poll of the shared region, the report and
    the PWM backend. \<open>FwInvariant\<close> repeats its arithmetic with every signed operation checked.
  \<^item> \<open>FwTask\<close>, \<open>FwIbus\<close>: the handler in program order; the byte parser, its abstract view of a stream and
    its agreement with the flight node's frames.
  \<^item> \<open>FwSafety\<close>, \<open>FwShared\<close>, \<open>FwInvariant\<close>: what the handler guarantees for the motors, how it obeys the
    region, and the invariant of all its runs. Predicates on quantities that a part of the handler does
    not write (\<open>control_blind\<close>, \<open>pwm_blind\<close>, \<open>tail_blind\<close>, \<open>input_blind\<close>, \<open>mail_blind\<close>) carry the frames.
  \<^item> \<open>FwMailbox\<close>: the interrupt, the command task and its replies; \<open>task_reached\<close> interleaves them.
  \<^item> \<open>FwStart\<close>: \<open>main_create_tasks\<close> and \<open>main_cvirtos\<close>, up to the scheduler.
  \<^item> \<open>CLayout\<close>: C types with the compiler's offsets, and the packed declarations of the shared region.
  \<^item> \<open>FwDebug\<close>, \<open>FwDump\<close>, \<open>FwSnapshot\<close>: the debug memory, the tool \<open>amp_dbg_dump.c\<close> and the line it
    prints, and what the memory can hold.

  \<^bold>\<open>The Linux process.\<close>
  \<^item> \<open>Cmdqu\<close>: the command structure of the mailbox, shared with the firmware.
  \<^item> \<open>LinuxMailbox\<close>: \<open>MailboxTransport.cpp\<close> over the system calls: the three origins of the region, its
    announcement, the writers of the slots; \<open>fd_inv\<close> accounts for the open descriptors.
    The ION allocator is not in the repository; \<open>fd_world\<close> states what is asked of it.
  \<^item> \<open>Telemetry\<close>: \<open>TelemetryNode.cpp\<close>: configuration lines with the library's \<open>stof\<close> and \<open>stoi\<close>, pilot sources,
    the loop as phases in program order.
  \<^item> \<open>LinuxMain\<close>: \<open>main_linux.cpp\<close> with the stop flag of \<open>SignalStop.hpp\<close>.
  \<^item> \<open>DriverAbi\<close>: the registers and request numbers of the mailbox driver's headers in \<open>help/\<close>.
  \<^item> \<open>LinuxLink\<close>: Linux and both programs of the small core across the region: what arrives of an
    emergency stop, a lost pilot link and a configuration.
  \<^item> \<open>BenchTools\<close>: the programs \<open>mpu6050_read.c\<close> and \<open>hmc5883l_read.c\<close>.

  \<^bold>\<open>Conventions.\<close> A class is a record of its fields, a virtual interface a record of functions on the
  world \<open>'w\<close>; what an object shares with the hardware is in the world, so calls are functions from world
  to world in program order. Machine integers are words of their width and wrap as in C++. \<open>None\<close> stands
  for a call that does not return or is undefined: a loop that does not end, or a conversion of a NaN
  or out-of-range number to an integer. Loops that may not end are partial functions into option. Fuel
  is used only where the source has a bound: the firmware reads at most as many bytes in a run as its
  loop allows, and a decimal number has at most ten digits. The transmit spin of the board port has the source's own limit.

  \<^bold>\<open>What the lemmas show.\<close> The motors are at their minimum unless the node is armed, an emergency stop
  wins over everything in its cycle, arming needs the switch, the link and fresh inputs; the receiver
  accepts every encoded frame and rejects every single-byte error; a poll computes what the slots say
  whatever is in the ring; armed updates stay in range and defined for configurations without NaN;
  and, where the code does less than it promises, exactly what it does (sticky failsafe, a pending arm
  command after an emergency, NaN gains, the lost frame, the wrapping clock, the diverging wrap).
  On the port, whatever the SDK answers, the pulses sent last are the node's last command. The main
  program returns only when the node does not start; once a control step is scheduled beyond the largest value
  of the microsecond clock, cycles go on but no control step runs any more.

  For the firmware: a register access on the I2C bus is the transaction of the bus specification, the pulses handed to the driver are safe on any hardware, arming is a transition of
  the switch seen low before, an emergency slot stops the motors, all states that interrupts and turns
  reach keep the invariant, under which no signed operation overflows; and where it does less than it
  promises: mailbox commands are acknowledged and not obeyed, checksums are ignored, a stop keeps the arm latch
  and clearing it restarts the motors, a misaligned byte stream is never found again, and the interrupt is enabled before its
  queue exists. The C declarations place every field of the region where the C++ structures do. For Linux:
  a live mailbox has announced its region, descriptors are never lost, the process ends exactly when a stop
  is requested, stops and configurations arrive with their numbers; and a restarted process is not heard by
  the node until its numbers catch up, the address of an unmapped region can be announced, a send that asks
  for an acknowledgement is issued under the number of another request, and no gain ever takes effect in
  the firmware.

  \<^bold>\<open>Not modelled.\<close> Log output other than the debug tool's line. Shared memory is read by a poll in one
  piece, and an interrupt comes between two turns of the firmware's task: a writer that changes a slot
  during a poll is not modelled (the flight node's ring is, load by load and store by store). The SDK's other
  tables in \<open>help/\<close> (interrupt numbers, memory areas), of which the sources use one number, the pinmux script
  and the build files. The C library's sine, cosine and arc tangent, the SDK, FreeRTOS, Linux's
  system calls and the hardware are parameters; where a property relies on them it says so. The range
  error of \<open>stof\<close> below the normal numbers follows the rounded value.
\<close>

end
